(* ===== verification/Gdp_Prelude.thy ===== *)
theory Gdp_Prelude
  imports Main "HOL-Library.Word" "HOL-Library.Monad_Syntax"
begin

text \<open>
  Prelude of the development: the names of the machine types the C sources use, the
  collections that the component theories add to, and the facts on lists, options and words
  that several components share.
\<close>

unbundle bit_operations_syntax

section \<open>Machine types\<close>

text \<open>
  \<^verbatim>\<open>uint8_t\<close>, \<^verbatim>\<open>uint16_t\<close>, \<^verbatim>\<open>uint32_t\<close> and \<^verbatim>\<open>uint64_t\<close>: arithmetic on them wraps around.
\<close>

type_synonym byte = "8 word"
type_synonym u16 = "16 word"
type_synonym u32 = "32 word"
type_synonym u64 = "64 word"

text \<open>
  \<^verbatim>\<open>int64_t\<close> and \<^verbatim>\<open>int32_t\<close> are integers; where an operation on them can leave the range, its result is
  cut to two's complement, which is what the compilers in use make of it.
\<close>

definition int64 :: "int \<Rightarrow> int" where "int64 n = signed_take_bit 63 n"
definition int32 :: "int \<Rightarrow> int" where "int32 n = signed_take_bit 31 n"

lemma int64_id: "- (2 ^ 63) \<le> n \<Longrightarrow> n < 2 ^ 63 \<Longrightarrow> int64 n = n"
  by (simp add: int64_def signed_take_bit_int_eq_self)

lemma int32_id: "- (2 ^ 31) \<le> n \<Longrightarrow> n < 2 ^ 31 \<Longrightarrow> int32 n = n"
  by (simp add: int32_def signed_take_bit_int_eq_self)

lemma int64_range: "- (2 ^ 63) \<le> int64 n" "int64 n < 2 ^ 63"
  using signed_take_bit_int_greater_eq_minus_exp [of 63 n] signed_take_bit_int_less_exp [of 63 n]
  by (simp_all add: int64_def)

lemma int64_add [simp]: "int64 (int64 a + b) = int64 (a + b)" "int64 (a + int64 b) = int64 (a + b)"
  unfolding int64_def by (metis signed_take_bit_add signed_take_bit_signed_take_bit min.idem)+

lemma int64_diff [simp]: "int64 (int64 a - b) = int64 (a - b)"
  unfolding int64_def by (metis signed_take_bit_diff signed_take_bit_signed_take_bit min.idem)

lemma int64_mult [simp]: "int64 (int64 a * b) = int64 (a * b)"
  unfolding int64_def by (metis signed_take_bit_mult signed_take_bit_signed_take_bit min.idem)

lemma int32_0 [simp]: "int32 0 = 0"
  by (simp add: int32_def)

section \<open>Collections\<close>

named_theorems stat_simps \<open>status codes and their predicates, unfolded to words\<close>
named_theorems wire_simps \<open>lengths and round trips of the wire codecs\<close>
named_theorems flag_defs \<open>flag bits and the operations that set, clear and test them\<close>

section \<open>Lists\<close>

lemma take_append_exact [simp]: "n = length xs \<Longrightarrow> take n (xs @ ys) = xs"
  by simp

lemma drop_append_exact [simp]: "n = length xs \<Longrightarrow> drop n (xs @ ys) = ys"
  by simp

lemma takeWhile_full:
  "\<not> length (takeWhile P xs) < length xs \<Longrightarrow> x \<in> set xs \<Longrightarrow> P x"
  by (induction xs) (auto split: if_splits)

lemma distinct_concat_indexed:
  assumes "\<And>i. i < length xss \<Longrightarrow> distinct (xss ! i)"
    and "\<And>i x. i < length xss \<Longrightarrow> x \<in> set (xss ! i) \<Longrightarrow> h x = i + off"
  shows "distinct (concat xss)"
  using assms
proof (induction xss arbitrary: off)
  case (Cons xs xss)
  have "h x = Suc i + off" if "i < length xss" "x \<in> set (xss ! i)" for i x
    using Cons.prems(2) [of "Suc i" x] that by simp
  then have "distinct (concat xss)"
    using Cons.prems(1) [of "Suc _"] by (intro Cons.IH [of "Suc off"]) auto
  moreover have "h x = off" if "x \<in> set xs" for x
    using Cons.prems(2) [of 0 x] that by simp
  moreover have "h x \<noteq> off" if "x \<in> set (concat xss)" for x
    using that \<open>\<And>i x. i < length xss \<Longrightarrow> x \<in> set (xss ! i) \<Longrightarrow> h x = Suc i + off\<close>
    by (auto simp: in_set_conv_nth) (metis add_Suc n_not_Suc_n not_add_less2 lessI nth_mem)
  ultimately show ?case
    using Cons.prems(1) [of 0] by auto
qed simp

lemma takeWhile_distinct_index:
  "distinct xs \<Longrightarrow> i < length xs \<Longrightarrow> length (takeWhile (\<lambda>x. x \<noteq> xs ! i) xs) = i"
  by (induction xs arbitrary: i) (auto simp: nth_Cons split: nat.splits)

lemma map_of_replace:
  assumes "i < length xs" "distinct (map fst xs)"
  shows "map_of (xs[i := (fst (xs ! i), v)]) = (map_of xs)(fst (xs ! i) \<mapsto> v)"
  using assms
proof (induction xs arbitrary: i)
  case (Cons x xs)
  show ?case
  proof (cases i)
    case 0
    then show ?thesis by (cases x) (simp add: fun_eq_iff)
  next
    case (Suc j)
    then have "fst (xs ! j) \<in> set (map fst xs)" using Cons.prems by simp
    then have "fst x \<noteq> fst (xs ! j)"
      using Cons.prems(2) by (metis distinct.simps(2) list.simps(9))
    then show ?thesis using Suc Cons by (cases x) (auto simp: fun_eq_iff)
  qed
qed simp

section \<open>Words\<close>

lemma and_mask_less_id:
  fixes w :: "'a::len word"
  assumes "uint w < 2 ^ n"
  shows "w AND mask n = w"
proof -
  have "uint (take_bit n w) = uint w"
    using assms by (simp add: unsigned_take_bit_eq take_bit_int_eq_self)
  then show ?thesis by (metis take_bit_eq_mask word_uint_eqI)
qed

lemma bit_byte_beyond: "8 \<le> n \<Longrightarrow> \<not> bit (b :: byte) n"
  by (auto dest: bit_imp_le_length)

lemma bit_u32_beyond: "32 \<le> n \<Longrightarrow> \<not> bit (w :: u32) n"
  by (auto dest: bit_imp_le_length)

lemma bit_u16_beyond: "16 \<le> n \<Longrightarrow> \<not> bit (w :: u16) n"
  by (auto dest: bit_imp_le_length)

lemma byte_eqI:
  fixes a b :: byte
  assumes "bit a 0 = bit b 0" "bit a 1 = bit b 1" "bit a 2 = bit b 2" "bit a 3 = bit b 3"
    "bit a 4 = bit b 4" "bit a 5 = bit b 5" "bit a 6 = bit b 6" "bit a 7 = bit b 7"
  shows "a = b"
proof (rule bit_word_eqI)
  fix n
  assume "n < LENGTH(8)"
  then have "n = 0 \<or> n = 1 \<or> n = 2 \<or> n = 3 \<or> n = 4 \<or> n = 5 \<or> n = 6 \<or> n = 7"
    by simp linarith
  then show "bit a n = bit b n"
    using assms by (elim disjE) simp_all
qed

lemma unat_of_nat_id:
  "n < 2 ^ LENGTH('a) \<Longrightarrow> unat (of_nat n :: 'a::len word) = n"
  by (simp add: unsigned_of_nat take_bit_nat_eq_self)

lemma of_nat_div_mod:
  assumes "a < 2 ^ LENGTH('a)" "b < 2 ^ LENGTH('a)"
  shows "(of_nat a :: 'a::len word) div of_nat b = of_nat (a div b)"
    and "(of_nat a :: 'a::len word) mod of_nat b = of_nat (a mod b)"
proof -
  have "a div b < 2 ^ LENGTH('a)" "a mod b < 2 ^ LENGTH('a)"
    using assms by (meson div_le_dividend le_less_trans, meson mod_less_eq_dividend le_less_trans)
  then show "(of_nat a :: 'a::len word) div of_nat b = of_nat (a div b)"
    and "(of_nat a :: 'a::len word) mod of_nat b = of_nat (a mod b)"
    using assms by (simp_all add: word_unat_eq_iff unat_div_distrib unat_mod_distrib unat_of_nat_id)
qed

section \<open>Interfaces\<close>

text \<open>
  A store that is written one key at a time and read by key.  The metadata list of a log, the
  chained hash table and the tables built on it all meet this contract; \<open>keyok\<close> are the
  keys the store accepts.
\<close>

locale keyed_store =
  fixes lookup :: "'s \<Rightarrow> 'k \<Rightarrow> 'v option"
    and store :: "'k \<Rightarrow> 'v \<Rightarrow> 's \<Rightarrow> 's"
    and invar :: "'s \<Rightarrow> bool"
    and keyok :: "'k \<Rightarrow> 'v \<Rightarrow> bool"
  assumes invar_store: "invar s \<Longrightarrow> keyok k v \<Longrightarrow> invar (store k v s)"
    and lookup_store: "invar s \<Longrightarrow> keyok k v \<Longrightarrow> lookup (store k v s) = (lookup s)(k \<mapsto> v)"
begin

definition store_all :: "('k \<times> 'v) list \<Rightarrow> 's \<Rightarrow> 's" where
  "store_all kvs s = fold (\<lambda>(k, v). store k v) kvs s"

lemma store_all_invar:
  "invar s \<Longrightarrow> \<forall>(k, v) \<in> set kvs. keyok k v \<Longrightarrow> invar (store_all kvs s)"
  by (induction kvs arbitrary: s) (auto simp: store_all_def invar_store)

lemma lookup_store_all:
  "invar s \<Longrightarrow> \<forall>(k, v) \<in> set kvs. keyok k v \<Longrightarrow>
   lookup (store_all kvs s) = lookup s ++ map_of (rev kvs)"
proof (induction kvs arbitrary: s)
  case (Cons kv kvs)
  obtain k v where kv: "kv = (k, v)" by force
  have "lookup (store_all kvs (store k v s)) = lookup (store k v s) ++ map_of (rev kvs)"
    using Cons kv by (simp add: invar_store)
  moreover have "lookup (store k v s) ++ map_of (rev kvs) = lookup s ++ map_of (rev kvs @ [(k, v)])"
    using Cons.prems kv by (auto simp: lookup_store map_add_def fun_eq_iff split: option.splits)
  ultimately show ?case
    using kv by (simp add: store_all_def)
qed (simp add: store_all_def)

lemma store_commute:
  assumes "invar s" "keyok k v" "keyok k' v'" "k \<noteq> k'"
  shows "lookup (store k v (store k' v' s)) = lookup (store k' v' (store k v s))"
  using assms by (simp add: lookup_store invar_store fun_upd_twist)

end

text \<open>A store with deletion.\<close>

locale keyed_store_del = keyed_store lookup store invar keyok
  for lookup :: "'s \<Rightarrow> 'k \<Rightarrow> 'v option" and store invar keyok +
  fixes remove :: "'k \<Rightarrow> 's \<Rightarrow> 's"
  assumes invar_remove: "invar s \<Longrightarrow> invar (remove k s)"
    and lookup_remove: "invar s \<Longrightarrow> lookup (remove k s) = (lookup s)(k := None)"
begin

lemma remove_store:
  "invar s \<Longrightarrow> keyok k v \<Longrightarrow> lookup s k = None \<Longrightarrow> lookup (remove k (store k v s)) = lookup s"
  by (auto simp: lookup_remove lookup_store invar_store fun_eq_iff)

lemma dom_store_remove:
  "invar s \<Longrightarrow> keyok k v \<Longrightarrow> dom (lookup (store k v s)) = insert k (dom (lookup s))"
  "invar s \<Longrightarrow> dom (lookup (remove k s)) = dom (lookup s) - {k}"
  by (auto simp: lookup_remove lookup_store)

end

end
