(* ===== verification/Ep_Xlate.thy ===== *)
theory Ep_Xlate
  imports Gdp_Prelude
begin

text \<open>
  Translation between internal byte strings and escaped text, \<^verbatim>\<open>ep/ep_xlate.c\<close>.  The input of
  \<^verbatim>\<open>ep_xlate_in\<close> is a null-terminated string; the list holds what follows the read pointer, and
  reading past it gives the terminating null.  \<^verbatim>\<open>isxdigit\<close> and \<^verbatim>\<open>isprint\<close> are those of the C locale.
\<close>

section \<open>Flags and character classes\<close>

definition EP_XLATE_PERCENT :: u32 where [flag_defs]: "EP_XLATE_PERCENT = 0x01"
definition EP_XLATE_BSLASH :: u32 where [flag_defs]: "EP_XLATE_BSLASH = 0x02"
definition EP_XLATE_AMPER :: u32 where [flag_defs]: "EP_XLATE_AMPER = 0x04"
definition EP_XLATE_PLUS :: u32 where [flag_defs]: "EP_XLATE_PLUS = 0x08"
definition EP_XLATE_EQUAL :: u32 where [flag_defs]: "EP_XLATE_EQUAL = 0x10"
definition EP_XLATE_8BIT :: u32 where [flag_defs]: "EP_XLATE_8BIT = 0x100"
definition EP_XLATE_NPRINT :: u32 where [flag_defs]: "EP_XLATE_NPRINT = 0x200"

abbreviation bitset :: "u32 \<Rightarrow> u32 \<Rightarrow> bool" where
  "bitset b w \<equiv> b AND w \<noteq> 0"

definition isxdigit :: "byte \<Rightarrow> bool" where
  "isxdigit c \<longleftrightarrow> (0x30 \<le> c \<and> c \<le> 0x39) \<or> (0x41 \<le> c \<and> c \<le> 0x46) \<or> (0x61 \<le> c \<and> c \<le> 0x66)"

definition isprint :: "byte \<Rightarrow> bool" where
  "isprint c \<longleftrightarrow> 0x20 \<le> c \<and> c \<le> 0x7e"

definition ISOCTAL :: "byte \<Rightarrow> bool" where
  "ISOCTAL c \<longleftrightarrow> 0x30 \<le> c \<and> c \<le> 0x37"

definition FROMHEX :: "byte \<Rightarrow> byte" where
  "FROMHEX c = (if 0x30 \<le> c \<and> c \<le> 0x39 then c - 0x30 else (c AND 0xf) + 9)"

fun peek :: "byte list \<Rightarrow> byte" where
  "peek [] = 0"
| "peek (c # cs) = c"

section \<open>Escaped text to bytes\<close>

text \<open>Two hexadecimal digits at the read pointer.\<close>

fun two_hex :: "byte list \<Rightarrow> (byte \<times> byte list) option" where
  "two_hex (a # b # cs) =
     (if isxdigit a \<and> isxdigit b then Some (push_bit 4 (FROMHEX a) OR FROMHEX b, cs) else None)"
| "two_hex _ = None"

fun octal_digits :: "nat \<Rightarrow> byte \<Rightarrow> byte list \<Rightarrow> byte \<times> byte list" where
  "octal_digits (Suc i) ch (c # cs) =
     (if ISOCTAL c then octal_digits i (push_bit 3 ch OR (c - 0x30)) cs else (ch, c # cs))"
| "octal_digits _ ch cs = (ch, cs)"

text \<open>After a backslash: the character it stands for and the rest; an unknown escape is the
  backslash itself, and the character after it is read again.\<close>

fun xlate_bslash :: "byte list \<Rightarrow> byte \<times> byte list" where
  "xlate_bslash [] = (0x5C, [])"
| "xlate_bslash (c # cs) =
     (if c = 0x61 then (7, cs)
      else if c = 0x62 then (8, cs)
      else if c = 0x6E then (10, cs)
      else if c = 0x66 then (12, cs)
      else if c = 0x72 then (13, cs)
      else if c = 0x76 then (11, cs)
      else if c = 0x5C \<or> c = 0x27 \<or> c = 0x22 then (c, cs)
      else if c = 0x78 then (case two_hex cs of Some r \<Rightarrow> r | None \<Rightarrow> (c, cs))
      else if ISOCTAL c then octal_digits 2 (c - 0x30) cs
      else (0x5C, c # cs))"

text \<open>After an ampersand: the name is at most 31 characters up to a semicolon.\<close>

definition xlate_amper :: "byte list \<Rightarrow> byte \<times> byte list" where
  "xlate_amper cs =
     (let name = take 31 (takeWhile (\<lambda>c. c \<noteq> 0 \<and> c \<noteq> 0x3B) cs); r = drop (length name) cs in
      case r of
        c # r' \<Rightarrow>
          if c \<noteq> 0x3B then (0x26, cs)
          else if name = map of_char ''amp'' then (0x26, r')
          else if name = map of_char ''gt'' then (0x3E, r')
          else if name = map of_char ''lt'' then (0x3C, r')
          else (0x26, r')
      | [] \<Rightarrow> (0x26, cs))"

definition xlate_char :: "u32 \<Rightarrow> byte \<Rightarrow> byte list \<Rightarrow> byte \<times> byte list" where
  "xlate_char how ch cs =
     (if ((ch = 0x25 \<and> bitset EP_XLATE_PERCENT how) \<or> (ch = 0x2B \<and> bitset EP_XLATE_PLUS how) \<or>
          (ch = 0x3D \<and> bitset EP_XLATE_EQUAL how)) \<and> two_hex cs \<noteq> None
      then the (two_hex cs)
      else if ch = 0x5C \<and> bitset EP_XLATE_BSLASH how then xlate_bslash cs
      else if ch = 0x26 \<and> bitset EP_XLATE_AMPER how then xlate_amper cs
      else (ch, cs))"

lemma two_hex_length: "two_hex cs = Some (ch, r) \<Longrightarrow> length r < length cs"
  by (cases cs rule: two_hex.cases) (auto split: if_splits)

lemma octal_digits_length: "length (snd (octal_digits i ch cs)) \<le> length cs"
  by (induction i ch cs rule: octal_digits.induct) auto

lemma xlate_bslash_length: "length (snd (xlate_bslash cs)) \<le> length cs"
  using octal_digits_length [of 2]
  by (cases cs) (auto split: option.splits intro: le_SucI dest!: two_hex_length)

lemma xlate_amper_length: "length (snd (xlate_amper cs)) \<le> length cs"
proof -
  have "length r' \<le> length cs" if "drop n cs = c # r'" for n c r'
    using that by (metis length_drop diff_le_self le_Suc_eq length_Cons order_trans le_add1 plus_1_eq_Suc add.commute)
  then show ?thesis by (auto simp: xlate_amper_def Let_def split: list.splits)
qed

lemma xlate_char_length: "length (snd (xlate_char how ch cs)) \<le> length cs"
  using two_hex_length xlate_bslash_length xlate_amper_length
  by (auto simp: xlate_char_def intro: less_imp_le)

text \<open>The main loop: \<open>ol\<close> is the \<^verbatim>\<open>size_t\<close> count that is decremented before each character.\<close>

function xlate_in_loop :: "byte \<Rightarrow> u32 \<Rightarrow> u64 \<Rightarrow> byte list \<Rightarrow> byte list" where
  "xlate_in_loop stop how ol [] = []"
| "xlate_in_loop stop how ol (c # cs) =
     (if c = 0 \<or> c = stop \<or> ol - 1 = 0 then []
      else fst (xlate_char how c cs) # xlate_in_loop stop how (ol - 1) (snd (xlate_char how c cs)))"
  by pat_completeness auto

termination
  by (relation "measure (\<lambda>(_, _, _, cs). length cs)") (auto simp: less_Suc_eq_le xlate_char_length)

definition ep_xlate_in :: "byte list \<Rightarrow> u64 \<Rightarrow> byte \<Rightarrow> u32 \<Rightarrow> nat \<times> byte list" where
  "ep_xlate_in s olen stop how =
     (let out = xlate_in_loop stop how olen s in (length out, out))"

section \<open>Bytes to escaped text\<close>

definition HexCharMap :: "byte list" where
  "HexCharMap = map of_char ''0123456789ABCDEF''"

definition encode_char :: "u32 \<Rightarrow> byte" where
  "encode_char how =
     (if bitset EP_XLATE_PERCENT how then 0x25
      else if bitset EP_XLATE_BSLASH how then 0x5C
      else if bitset EP_XLATE_EQUAL how then 0x3D
      else if bitset EP_XLATE_PLUS how then 0x2B
      else 0x3D)"

definition must_encode :: "byte list \<Rightarrow> u32 \<Rightarrow> byte \<Rightarrow> bool" where
  "must_encode forbid how c \<longleftrightarrow>
     (c AND 0x80 \<noteq> 0 \<and> bitset EP_XLATE_8BIT how) \<or> c = encode_char how \<or> c = 0 \<or>
     (bitset EP_XLATE_NPRINT how \<and> \<not> isprint c) \<or> c \<in> set forbid"

definition xlate_out_char :: "byte list \<Rightarrow> u32 \<Rightarrow> byte \<Rightarrow> byte list" where
  "xlate_out_char forbid how c =
     (if must_encode forbid how c then
        [encode_char how] @ (if encode_char how = 0x5C then [0x78] else []) @
        [HexCharMap ! unat (drop_bit 4 c AND 0xf), HexCharMap ! unat (c AND 0xf)]
      else [c])"

definition ep_xlate_out :: "byte list \<Rightarrow> byte list \<Rightarrow> u32 \<Rightarrow> nat \<times> byte list" where
  "ep_xlate_out tval forbid how =
     (let out = concat (map (xlate_out_char forbid how) tval) in (length out, out))"

section \<open>Properties\<close>

text \<open>One escape style and nothing else that the decoder would interpret.\<close>

definition xlate_style :: "u32 \<Rightarrow> bool" where
  "xlate_style how \<longleftrightarrow> how AND 0x1f \<in> {EP_XLATE_PERCENT, EP_XLATE_BSLASH, EP_XLATE_PLUS, EP_XLATE_EQUAL}"

lemma style_mask: "m AND 0x1f = m \<Longrightarrow> m AND (how :: u32) = m AND (how AND 0x1f)"
  by (metis and.assoc and.commute)

lemma style_cases:
  assumes "xlate_style how"
  obtains (P) "bitset EP_XLATE_PERCENT how" "\<not> bitset EP_XLATE_BSLASH how" "\<not> bitset EP_XLATE_AMPER how"
      "\<not> bitset EP_XLATE_PLUS how" "\<not> bitset EP_XLATE_EQUAL how" "encode_char how = 0x25"
    | (B) "\<not> bitset EP_XLATE_PERCENT how" "bitset EP_XLATE_BSLASH how" "\<not> bitset EP_XLATE_AMPER how"
      "\<not> bitset EP_XLATE_PLUS how" "\<not> bitset EP_XLATE_EQUAL how" "encode_char how = 0x5C"
    | (L) "\<not> bitset EP_XLATE_PERCENT how" "\<not> bitset EP_XLATE_BSLASH how" "\<not> bitset EP_XLATE_AMPER how"
      "bitset EP_XLATE_PLUS how" "\<not> bitset EP_XLATE_EQUAL how" "encode_char how = 0x2B"
    | (E) "\<not> bitset EP_XLATE_PERCENT how" "\<not> bitset EP_XLATE_BSLASH how" "\<not> bitset EP_XLATE_AMPER how"
      "\<not> bitset EP_XLATE_PLUS how" "bitset EP_XLATE_EQUAL how" "encode_char how = 0x3D"
proof -
  have m: "1 AND how = 1 AND (how AND 0x1f)" "2 AND how = 2 AND (how AND 0x1f)"
    "4 AND how = 4 AND (how AND 0x1f)" "8 AND how = 8 AND (how AND 0x1f)"
    "16 AND how = 16 AND (how AND 0x1f)"
    by (rule style_mask; simp)+
  have "how AND 0x1f \<in> {1, 2, 8, 16}" using assms by (simp add: xlate_style_def flag_defs)
  then show ?thesis
    using that unfolding flag_defs encode_char_def m by auto
qed

lemma hex_digit:
  assumes "v < 16"
  shows "isxdigit (HexCharMap ! v) \<and> FROMHEX (HexCharMap ! v) = of_nat v"
proof -
  have "list_all (\<lambda>v. isxdigit (HexCharMap ! v) \<and> FROMHEX (HexCharMap ! v) = of_nat v) [0..<16]"
    by code_simp
  then show ?thesis using assms by (simp add: list_all_iff)
qed

lemma nibble_less: "unat (w AND 0xf :: byte) < 16"
proof -
  have "w AND 0xf \<le> 0xf" by (rule word_and_le1)
  then show ?thesis by (simp add: word_le_nat_alt)
qed

lemma two_hex_digits:
  "two_hex (HexCharMap ! unat (drop_bit 4 c AND 0xf) # HexCharMap ! unat (c AND 0xf) # r) = Some (c, r)"
proof -
  have "push_bit 4 (drop_bit 4 c AND 0xf) OR (c AND 0xf) = c"
    by (rule byte_eqI) (simp_all add: bit_simps bit_byte_beyond)
  then show ?thesis
    using hex_digit [OF nibble_less, of "drop_bit 4 c"] hex_digit [OF nibble_less, of c]
    by (simp del: push_bit_and drop_bit_and)
qed

lemma xlate_char_encoded:
  assumes "xlate_style how" "must_encode forbid how c"
  shows "\<exists>e r'. xlate_out_char forbid how c = e # r' \<and> e \<noteq> 0 \<and> xlate_char how e (r' @ r) = (c, r)"
proof -
  let ?hx = "[HexCharMap ! unat (drop_bit 4 c AND 0xf), HexCharMap ! unat (c AND 0xf)]"
  have h: "two_hex (?hx @ r) = Some (c, r)" using two_hex_digits [of c r] by simp
  have out: "xlate_out_char forbid how c =
      [encode_char how] @ (if encode_char how = 0x5C then [0x78] else []) @ ?hx"
    using assms(2) by (simp add: xlate_out_char_def)
  show ?thesis
    using assms(1)
  proof (cases rule: style_cases)
    case B
    then show ?thesis unfolding out using h by (simp add: xlate_char_def del: two_hex.simps)
  qed (use h in \<open>simp_all add: out xlate_char_def del: two_hex.simps\<close>)
qed

lemma xlate_char_plain:
  assumes "xlate_style how" "\<not> must_encode forbid how c"
  shows "xlate_char how c r = (c, r)"
proof -
  have c: "c \<noteq> encode_char how" using assms(2) by (simp add: must_encode_def)
  show ?thesis
    using assms(1) by (cases rule: style_cases) (use c in \<open>simp_all add: xlate_char_def\<close>)
qed

lemma xlate_in_out_char:
  assumes "xlate_style how" "ol - 1 \<noteq> 0"
  shows "xlate_in_loop 0 how ol (xlate_out_char forbid how c @ r) = c # xlate_in_loop 0 how (ol - 1) r"
proof (cases "must_encode forbid how c")
  case True
  then obtain e r' where "xlate_out_char forbid how c = e # r'" "e \<noteq> 0" "xlate_char how e (r' @ r) = (c, r)"
    using xlate_char_encoded [OF assms(1)] by blast
  then show ?thesis using assms(2) by simp
next
  case False
  moreover have "c \<noteq> 0" using False by (simp add: must_encode_def)
  ultimately show ?thesis
    using assms xlate_char_plain [OF assms(1) False] by (simp add: xlate_out_char_def)
qed

text \<open>C40: translating a byte string out and in again with one escape style gives the string back,
  including null bytes and characters that had to be escaped, whenever the output buffer is longer
  than the string.\<close>

theorem xlate_roundtrip:
  assumes "xlate_style how" "length s < unat olen"
  shows "ep_xlate_in (snd (ep_xlate_out s forbid how)) olen 0 how = (length s, s)"
proof -
  have "xlate_in_loop 0 how ol (concat (map (xlate_out_char forbid how) s)) = s" if "length s < unat ol" for ol
    using that
  proof (induction s arbitrary: ol)
    case (Cons c s)
    then have "1 \<le> ol" by (simp add: word_le_nat_alt)
    then have n: "unat (ol - 1) = unat ol - 1" by (simp add: unat_sub)
    then have "length s < unat (ol - 1)" "ol - 1 \<noteq> 0"
      using Cons.prems by (auto simp: word_unat_eq_iff)
    then show ?case
      using Cons.IH xlate_in_out_char [OF assms(1)] by simp
  qed simp
  then show ?thesis
    using assms(2) by (simp add: ep_xlate_in_def ep_xlate_out_def Let_def)
qed

theorem xlate_roundtrip_witness:
  "ep_xlate_in (snd (ep_xlate_out [37, 0, 65, 200] [65] 0x101)) 5 0 0x101 = (4, [37, 0, 65, 200])"
proof -
  have "xlate_style 0x101" "length [37, 0, 65, 200 :: byte] < unat (5 :: u64)"
    by (simp_all add: xlate_style_def flag_defs)
  from xlate_roundtrip [OF this] show ?thesis by simp
qed

text \<open>An HTML-style name that is not known does not disappear: the ampersand stays and only the
  name is dropped.\<close>

theorem xlate_amper_unknown:
  assumes "0 < length name" "length name < 32" "0x3B \<notin> set name" "0 \<notin> set name"
    "name \<notin> {map of_char ''amp'', map of_char ''gt'', map of_char ''lt''}"
  shows "xlate_amper (name @ 0x3B # r) = (0x26, r)"
proof -
  have "takeWhile (\<lambda>c. c \<noteq> 0 \<and> c \<noteq> 0x3B) (name @ 0x3B # r) = name"
    using assms(3,4) by (induction name) auto
  then show ?thesis using assms by (simp add: xlate_amper_def Let_def)
qed

theorem xlate_amper_unknown_witness:
  "xlate_amper [0x71, 0x3B, 0x7A] = (0x26, [0x7A])"
  using xlate_amper_unknown [of "[0x71]" "[0x7A]"] by simp

end
