(* ===== verification/Gdp_Wire.thy ===== *)
theory Gdp_Wire
  imports Gdp_Prelude
begin

text \<open>
  The byte-order macros at the end of \<^verbatim>\<open>gdp/gdp_priv.h\<close>: \<^verbatim>\<open>PUT8\<close> to \<^verbatim>\<open>PUT64\<close> store a value
  through the cursor \<^verbatim>\<open>pbp\<close>, most significant byte first, and \<^verbatim>\<open>GET8\<close> to \<^verbatim>\<open>GET64\<close> read one and
  advance the cursor.  A store is the list of bytes written; a read takes the bytes the cursor can
  still reach and returns the value with the bytes after it, or \<^term>\<open>None\<close> when the read would
  leave the buffer.  The locale \<open>codec\<close> is the contract the users of the macros rely on.
\<close>

section \<open>The macros\<close>

definition PUT8 :: "byte \<Rightarrow> byte list" where
  "PUT8 v = [v AND 0xff]"

definition PUT16 :: "u16 \<Rightarrow> byte list" where
  "PUT16 v = [ucast (drop_bit 8 v AND 0xff), ucast (v AND 0xff)]"

definition PUT32 :: "u32 \<Rightarrow> byte list" where
  "PUT32 v = [ucast (drop_bit 24 v AND 0xff), ucast (drop_bit 16 v AND 0xff),
              ucast (drop_bit 8 v AND 0xff), ucast (v AND 0xff)]"

definition PUT64 :: "u64 \<Rightarrow> byte list" where
  "PUT64 v = [ucast (drop_bit 56 v AND 0xff), ucast (drop_bit 48 v AND 0xff),
              ucast (drop_bit 40 v AND 0xff), ucast (drop_bit 32 v AND 0xff),
              ucast (drop_bit 24 v AND 0xff), ucast (drop_bit 16 v AND 0xff),
              ucast (drop_bit 8 v AND 0xff), ucast (v AND 0xff)]"

fun GET8 :: "byte list \<Rightarrow> (byte \<times> byte list) option" where
  "GET8 (b0 # r) = Some (b0, r)"
| "GET8 _ = None"

fun GET16 :: "byte list \<Rightarrow> (u16 \<times> byte list) option" where
  "GET16 (b1 # b0 # r) = Some (push_bit 8 (ucast b1) OR ucast b0, r)"
| "GET16 _ = None"

fun GET32 :: "byte list \<Rightarrow> (u32 \<times> byte list) option" where
  "GET32 (b3 # b2 # b1 # b0 # r) =
     Some (push_bit 24 (ucast b3) OR push_bit 16 (ucast b2) OR push_bit 8 (ucast b1) OR ucast b0, r)"
| "GET32 _ = None"

fun GET64 :: "byte list \<Rightarrow> (u64 \<times> byte list) option" where
  "GET64 (b7 # b6 # b5 # b4 # b3 # b2 # b1 # b0 # r) =
     Some (push_bit 56 (ucast b7) OR push_bit 48 (ucast b6) OR push_bit 40 (ucast b5) OR
           push_bit 32 (ucast b4) OR push_bit 24 (ucast b3) OR push_bit 16 (ucast b2) OR
           push_bit 8 (ucast b1) OR ucast b0, r)"
| "GET64 _ = None"

section \<open>The contract of a fixed-width field\<close>

locale codec =
  fixes put :: "'a \<Rightarrow> byte list"
    and get :: "byte list \<Rightarrow> ('a \<times> byte list) option"
    and width :: nat
  assumes put_length: "length (put v) = width"
    and get_put: "get (put v @ r) = Some (v, r)"
    and put_get: "get bs = Some (v, r) \<Longrightarrow> bs = put v @ r"
    and get_short: "length bs < width \<Longrightarrow> get bs = None"
    and get_long: "width \<le> length bs \<Longrightarrow> \<exists>v r. get bs = Some (v, r)"
begin

lemma put_inject: "put v = put w \<longleftrightarrow> v = w"
  by (metis get_put option.inject prod.inject)

lemma get_None_iff: "get bs = None \<longleftrightarrow> length bs < width"
  by (metis get_long get_short not_le option.distinct(1))

lemma get_Some_iff: "get bs = Some (v, r) \<longleftrightarrow> bs = put v @ r"
  by (metis get_put put_get)

lemma get_whole:
  assumes "length bs = width"
  obtains v where "get bs = Some (v, [])" "put v = bs"
proof -
  obtain v r where g: "get bs = Some (v, r)" using assms get_long by blast
  then have "r = []" using assms put_get [OF g] put_length [of v] by auto
  with g show thesis using that put_get by fastforce
qed

lemma get_length: "get bs = Some (v, r) \<Longrightarrow> length bs = width + length r"
  by (auto simp: get_Some_iff put_length)

end

section \<open>The macros meet the contract\<close>

lemma mask8: "(0xff :: 'a::len word) = mask 8"
  by (simp add: mask_eq_exp_minus_1)

text \<open>Each byte of a value is found again at its place.\<close>

lemma join16:
  "push_bit 8 (ucast (ucast (drop_bit 8 v AND 0xff) :: byte)) OR
   ucast (ucast (v AND 0xff) :: byte) = (v :: u16)"
  unfolding mask8 by (rule bit_eqI) (auto simp: bit_simps)

lemma join32:
  "push_bit 24 (ucast (ucast (drop_bit 24 v AND 0xff) :: byte)) OR
   push_bit 16 (ucast (ucast (drop_bit 16 v AND 0xff) :: byte)) OR
   push_bit 8 (ucast (ucast (drop_bit 8 v AND 0xff) :: byte)) OR
   ucast (ucast (v AND 0xff) :: byte) = (v :: u32)" (is "?l = _")
proof (rule bit_word_eqI)
  fix n :: nat
  assume "n < LENGTH(32)"
  then have "n < 32" by simp
  consider "n < 8" | "8 \<le> n" "n < 16" | "16 \<le> n" "n < 24" | "24 \<le> n" by linarith
  then show "bit ?l n = bit v n"
    unfolding mask8 by cases (use \<open>n < 32\<close> in \<open>simp_all add: bit_simps less_diff_conv2\<close>)
qed

lemma join64:
  "push_bit 56 (ucast (ucast (drop_bit 56 v AND 0xff) :: byte)) OR
   push_bit 48 (ucast (ucast (drop_bit 48 v AND 0xff) :: byte)) OR
   push_bit 40 (ucast (ucast (drop_bit 40 v AND 0xff) :: byte)) OR
   push_bit 32 (ucast (ucast (drop_bit 32 v AND 0xff) :: byte)) OR
   push_bit 24 (ucast (ucast (drop_bit 24 v AND 0xff) :: byte)) OR
   push_bit 16 (ucast (ucast (drop_bit 16 v AND 0xff) :: byte)) OR
   push_bit 8 (ucast (ucast (drop_bit 8 v AND 0xff) :: byte)) OR
   ucast (ucast (v AND 0xff) :: byte) = (v :: u64)" (is "?l = _")
proof (rule bit_word_eqI)
  fix n :: nat
  assume "n < LENGTH(64)"
  then have "n < 64" by simp
  consider "n < 8" | "8 \<le> n" "n < 16" | "16 \<le> n" "n < 24" | "24 \<le> n" "n < 32" |
    "32 \<le> n" "n < 40" | "40 \<le> n" "n < 48" | "48 \<le> n" "n < 56" | "56 \<le> n" by linarith
  then show "bit ?l n = bit v n"
    unfolding mask8 by cases (use \<open>n < 64\<close> in \<open>simp_all add: bit_simps less_diff_conv2\<close>)
qed

text \<open>And each byte of a joined value is the byte that was joined.\<close>

lemma split16:
  "PUT16 (push_bit 8 (ucast b1) OR ucast b0) = [b1, b0]"
  unfolding PUT16_def mask8 by (auto intro!: bit_word_eqI simp: bit_simps bit_byte_beyond)

lemma split32:
  "PUT32 (push_bit 24 (ucast b3) OR push_bit 16 (ucast b2) OR push_bit 8 (ucast b1) OR ucast b0) =
   [b3, b2, b1, b0]"
  unfolding PUT32_def mask8 by (auto intro!: bit_word_eqI simp: bit_simps bit_byte_beyond)

lemma split64:
  "PUT64 (push_bit 56 (ucast b7) OR push_bit 48 (ucast b6) OR push_bit 40 (ucast b5) OR
      push_bit 32 (ucast b4) OR push_bit 24 (ucast b3) OR push_bit 16 (ucast b2) OR
      push_bit 8 (ucast b1) OR ucast b0) =
   [b7, b6, b5, b4, b3, b2, b1, b0]"
  unfolding PUT64_def mask8 by (auto intro!: bit_word_eqI simp: bit_simps bit_byte_beyond)

lemma PUT8_byte [simp]: "PUT8 v = [v]"
  unfolding PUT8_def mask8 by (auto intro!: bit_word_eqI simp: bit_simps bit_byte_beyond)

interpretation c8: codec PUT8 GET8 1
proof unfold_locales
  fix bs :: "byte list" and v r
  show "GET8 bs = Some (v, r) \<Longrightarrow> bs = PUT8 v @ r"
    by (cases bs rule: GET8.cases) auto
  show "length bs < 1 \<Longrightarrow> GET8 bs = None" "1 \<le> length bs \<Longrightarrow> \<exists>v r. GET8 bs = Some (v, r)"
    by (cases bs rule: GET8.cases; simp)+
qed simp_all

interpretation c16: codec PUT16 GET16 2
proof unfold_locales
  fix bs :: "byte list" and v r
  show "length (PUT16 v) = 2" "GET16 (PUT16 v @ r) = Some (v, r)"
    by (simp_all add: PUT16_def join16)
  show "GET16 bs = Some (v, r) \<Longrightarrow> bs = PUT16 v @ r"
    by (cases bs rule: GET16.cases) (auto simp: split16)
  show "length bs < 2 \<Longrightarrow> GET16 bs = None" "2 \<le> length bs \<Longrightarrow> \<exists>v r. GET16 bs = Some (v, r)"
    by (cases bs rule: GET16.cases; simp)+
qed

interpretation c32: codec PUT32 GET32 4
proof unfold_locales
  fix bs :: "byte list" and v r
  show "length (PUT32 v) = 4" "GET32 (PUT32 v @ r) = Some (v, r)"
    by (simp_all add: PUT32_def join32)
  show "GET32 bs = Some (v, r) \<Longrightarrow> bs = PUT32 v @ r"
    by (cases bs rule: GET32.cases) (auto simp: split32)
  show "length bs < 4 \<Longrightarrow> GET32 bs = None" "4 \<le> length bs \<Longrightarrow> \<exists>v r. GET32 bs = Some (v, r)"
    by (cases bs rule: GET32.cases; simp)+
qed

interpretation c64: codec PUT64 GET64 8
proof unfold_locales
  fix bs :: "byte list" and v r
  show "length (PUT64 v) = 8" "GET64 (PUT64 v @ r) = Some (v, r)"
    by (simp_all add: PUT64_def join64)
  show "GET64 bs = Some (v, r) \<Longrightarrow> bs = PUT64 v @ r"
    by (cases bs rule: GET64.cases) (auto simp: split64)
  show "length bs < 8 \<Longrightarrow> GET64 bs = None" "8 \<le> length bs \<Longrightarrow> \<exists>v r. GET64 bs = Some (v, r)"
    by (cases bs rule: GET64.cases; simp)+
qed

lemmas wire_laws [wire_simps] =
  c8.put_length c16.put_length c32.put_length c64.put_length
  c8.get_put c16.get_put c32.get_put c64.get_put

end
