(* ===== verification/Ep_Stat.thy ===== *)
theory Ep_Stat
  imports Gdp_Prelude
begin

text \<open>
  Status codes: the four-part \<^verbatim>\<open>EP_STAT\<close> words of \<^verbatim>\<open>ep/ep_stat.h\<close>, \<^verbatim>\<open>ep/ep_stat.c\<close> and
  \<^verbatim>\<open>ep/ep_statcodes.h\<close>, the GDP codes of \<^verbatim>\<open>gdp/gdp_stat.h\<close>, and the two conversions between
  protocol acks/naks and status codes (\<^verbatim>\<open>_gdp_stat_from_acknak\<close> of \<^verbatim>\<open>gdp/gdp_stat.c\<close> and
  \<^verbatim>\<open>_gdp_acknak_from_estat\<close> of \<^verbatim>\<open>gdp/gdp_main.c\<close>), with the command classes of
  \<^verbatim>\<open>gdp/gdp_pdu.h\<close>.  Every status code in the other theories is one of these words.
\<close>

section \<open>The status word\<close>

type_synonym ep_stat = u32

definition EP_STAT_SEV_OK :: u32 where [stat_simps]: "EP_STAT_SEV_OK = 0"
definition EP_STAT_SEV_WARN :: u32 where [stat_simps]: "EP_STAT_SEV_WARN = 4"
definition EP_STAT_SEV_ERROR :: u32 where [stat_simps]: "EP_STAT_SEV_ERROR = 5"
definition EP_STAT_SEV_SEVERE :: u32 where [stat_simps]: "EP_STAT_SEV_SEVERE = 6"
definition EP_STAT_SEV_ABORT :: u32 where [stat_simps]: "EP_STAT_SEV_ABORT = 7"

definition EP_STAT_NEW :: "u32 \<Rightarrow> u32 \<Rightarrow> u32 \<Rightarrow> u32 \<Rightarrow> ep_stat" where
  [stat_simps]: "EP_STAT_NEW s r m d =
     push_bit 29 (s AND mask 3) OR push_bit 18 (r AND mask 11) OR
     push_bit 10 (m AND mask 8) OR (d AND mask 10)"

definition EP_STAT_SEVERITY :: "ep_stat \<Rightarrow> u32" where
  [stat_simps]: "EP_STAT_SEVERITY c = drop_bit 29 c AND mask 3"

definition EP_STAT_REGISTRY :: "ep_stat \<Rightarrow> u32" where
  [stat_simps]: "EP_STAT_REGISTRY c = drop_bit 18 c AND mask 11"

definition EP_STAT_MODULE :: "ep_stat \<Rightarrow> u32" where
  [stat_simps]: "EP_STAT_MODULE c = drop_bit 10 c AND mask 8"

definition EP_STAT_DETAIL :: "ep_stat \<Rightarrow> u32" where
  [stat_simps]: "EP_STAT_DETAIL c = c AND mask 10"

definition EP_STAT_ISOK :: "ep_stat \<Rightarrow> bool" where
  [stat_simps]: "EP_STAT_ISOK c \<longleftrightarrow> EP_STAT_SEVERITY c = EP_STAT_SEV_OK"

definition EP_STAT_ISWARN :: "ep_stat \<Rightarrow> bool" where
  [stat_simps]: "EP_STAT_ISWARN c \<longleftrightarrow> EP_STAT_SEVERITY c = EP_STAT_SEV_WARN"

definition EP_STAT_ISERROR :: "ep_stat \<Rightarrow> bool" where
  [stat_simps]: "EP_STAT_ISERROR c \<longleftrightarrow> EP_STAT_SEVERITY c = EP_STAT_SEV_ERROR"

definition EP_STAT_ISFAIL :: "ep_stat \<Rightarrow> bool" where
  [stat_simps]: "EP_STAT_ISFAIL c \<longleftrightarrow> EP_STAT_SEV_ERROR \<le> EP_STAT_SEVERITY c"

definition EP_STAT_ISSEVERE :: "ep_stat \<Rightarrow> bool" where
  [stat_simps]: "EP_STAT_ISSEVERE c \<longleftrightarrow> EP_STAT_SEV_SEVERE \<le> EP_STAT_SEVERITY c"

definition EP_STAT_ISABORT :: "ep_stat \<Rightarrow> bool" where
  [stat_simps]: "EP_STAT_ISABORT c \<longleftrightarrow> EP_STAT_SEV_ABORT \<le> EP_STAT_SEVERITY c"

definition EP_STAT_FROM_INT :: "int \<Rightarrow> ep_stat" where
  [stat_simps]: "EP_STAT_FROM_INT i = word_of_int i"

definition EP_STAT_TO_INT :: "ep_stat \<Rightarrow> u32" where
  [stat_simps]: "EP_STAT_TO_INT c = c"

section \<open>Registries and the EPLIB codes\<close>

definition EP_REGISTRY_EPLIB :: u32 where [stat_simps]: "EP_REGISTRY_EPLIB = 0x100"
definition EP_REGISTRY_UCB :: u32 where [stat_simps]: "EP_REGISTRY_UCB = 0x103"
definition EP_STAT_MOD_GENERIC :: u32 where [stat_simps]: "EP_STAT_MOD_GENERIC = 0"
definition EP_STAT_MOD_CRYPTO :: u32 where [stat_simps]: "EP_STAT_MOD_CRYPTO = 1"
definition EP_STAT_MOD_ERRNO :: u32 where [stat_simps]: "EP_STAT_MOD_ERRNO = 0x0FE"

definition EP_STAT_INTERNAL :: "u32 \<Rightarrow> u32 \<Rightarrow> u32 \<Rightarrow> ep_stat" where
  [stat_simps]: "EP_STAT_INTERNAL sev m code = EP_STAT_NEW sev EP_REGISTRY_EPLIB m code"

definition EP_STAT_OK :: ep_stat where
  [stat_simps]: "EP_STAT_OK = EP_STAT_NEW EP_STAT_SEV_OK 0 0 0"
definition EP_STAT_WARN :: ep_stat where
  [stat_simps]: "EP_STAT_WARN = EP_STAT_INTERNAL EP_STAT_SEV_WARN EP_STAT_MOD_GENERIC 0"
definition EP_STAT_ERROR :: ep_stat where
  [stat_simps]: "EP_STAT_ERROR = EP_STAT_INTERNAL EP_STAT_SEV_ERROR EP_STAT_MOD_GENERIC 0"
definition EP_STAT_SEVERE :: ep_stat where
  [stat_simps]: "EP_STAT_SEVERE = EP_STAT_INTERNAL EP_STAT_SEV_SEVERE EP_STAT_MOD_GENERIC 0"
definition EP_STAT_ABORT :: ep_stat where
  [stat_simps]: "EP_STAT_ABORT = EP_STAT_INTERNAL EP_STAT_SEV_ABORT EP_STAT_MOD_GENERIC 0"
definition EP_STAT_OUT_OF_MEMORY :: ep_stat where
  [stat_simps]: "EP_STAT_OUT_OF_MEMORY = EP_STAT_INTERNAL EP_STAT_SEV_SEVERE EP_STAT_MOD_GENERIC 1"
definition EP_STAT_INVALID_ARG :: ep_stat where
  [stat_simps]: "EP_STAT_INVALID_ARG = EP_STAT_INTERNAL EP_STAT_SEV_ERROR EP_STAT_MOD_GENERIC 2"
definition EP_STAT_END_OF_FILE :: ep_stat where
  [stat_simps]: "EP_STAT_END_OF_FILE = EP_STAT_INTERNAL EP_STAT_SEV_WARN EP_STAT_MOD_GENERIC 3"
definition EP_STAT_BUF_OVERFLOW :: ep_stat where
  [stat_simps]: "EP_STAT_BUF_OVERFLOW = EP_STAT_INTERNAL EP_STAT_SEV_ERROR EP_STAT_MOD_GENERIC 5"
definition EP_STAT_DNS_NOTFOUND :: ep_stat where
  [stat_simps]: "EP_STAT_DNS_NOTFOUND = EP_STAT_INTERNAL EP_STAT_SEV_ERROR EP_STAT_MOD_GENERIC 7"
definition EP_STAT_DNS_FAILURE :: ep_stat where
  [stat_simps]: "EP_STAT_DNS_FAILURE = EP_STAT_INTERNAL EP_STAT_SEV_ERROR EP_STAT_MOD_GENERIC 8"
definition EP_STAT_ASSERT_ABORT :: ep_stat where
  [stat_simps]: "EP_STAT_ASSERT_ABORT = EP_STAT_INTERNAL EP_STAT_SEV_ABORT EP_STAT_MOD_GENERIC 9"
definition EP_STAT_NULL_POINTER :: ep_stat where
  [stat_simps]: "EP_STAT_NULL_POINTER = EP_STAT_INTERNAL EP_STAT_SEV_ABORT EP_STAT_MOD_GENERIC 10"
definition EP_STAT_CRYPTO_BADSIG :: ep_stat where
  [stat_simps]: "EP_STAT_CRYPTO_BADSIG = EP_STAT_INTERNAL EP_STAT_SEV_ERROR EP_STAT_MOD_CRYPTO 4"

text \<open>\<^verbatim>\<open>ep_stat_from_errno\<close>: the conversion to \<^verbatim>\<open>uint32_t\<close> wraps, the detail keeps ten bits.\<close>

definition ep_stat_from_errno :: "int \<Rightarrow> ep_stat" where
  "ep_stat_from_errno uerrno =
     (if uerrno = 0 then EP_STAT_OK
      else EP_STAT_NEW EP_STAT_SEV_ERROR EP_REGISTRY_EPLIB EP_STAT_MOD_ERRNO (word_of_int uerrno))"

definition ep_stat_sev_tostr :: "u32 \<Rightarrow> string" where
  "ep_stat_sev_tostr sev =
     [''OK'', ''OK'', ''OK'', ''OK'', ''WARNING'', ''ERROR'', ''SEVERE'', ''ABORT'']
       ! unat (sev AND 0x07)"

section \<open>GDP codes\<close>

definition GDP_MODULE :: u32 where [stat_simps]: "GDP_MODULE = 1"

definition GDP_STAT_NEW :: "u32 \<Rightarrow> u32 \<Rightarrow> ep_stat" where
  [stat_simps]: "GDP_STAT_NEW sev det = EP_STAT_NEW sev EP_REGISTRY_UCB GDP_MODULE det"

definition GDP_STAT_IS_GDP :: "ep_stat \<Rightarrow> bool" where
  [stat_simps]: "GDP_STAT_IS_GDP estat \<longleftrightarrow>
     EP_STAT_REGISTRY estat = EP_REGISTRY_UCB \<and> EP_STAT_MODULE estat = GDP_MODULE"

definition GDP_STAT_MSGFMT :: ep_stat where [stat_simps]: "GDP_STAT_MSGFMT = GDP_STAT_NEW EP_STAT_SEV_ERROR 1"
definition GDP_STAT_SHORTMSG :: ep_stat where [stat_simps]: "GDP_STAT_SHORTMSG = GDP_STAT_NEW EP_STAT_SEV_ERROR 2"
definition GDP_STAT_READ_OVERFLOW :: ep_stat where [stat_simps]: "GDP_STAT_READ_OVERFLOW = GDP_STAT_NEW EP_STAT_SEV_WARN 3"
definition GDP_STAT_NOT_IMPLEMENTED :: ep_stat where [stat_simps]: "GDP_STAT_NOT_IMPLEMENTED = GDP_STAT_NEW EP_STAT_SEV_SEVERE 4"
definition GDP_STAT_PDU_WRITE_FAIL :: ep_stat where [stat_simps]: "GDP_STAT_PDU_WRITE_FAIL = GDP_STAT_NEW EP_STAT_SEV_ERROR 5"
definition GDP_STAT_PDU_READ_FAIL :: ep_stat where [stat_simps]: "GDP_STAT_PDU_READ_FAIL = GDP_STAT_NEW EP_STAT_SEV_ERROR 6"
definition GDP_STAT_PDU_VERSION_MISMATCH :: ep_stat where [stat_simps]: "GDP_STAT_PDU_VERSION_MISMATCH = GDP_STAT_NEW EP_STAT_SEV_SEVERE 7"
definition GDP_STAT_PDU_NO_SEQ :: ep_stat where [stat_simps]: "GDP_STAT_PDU_NO_SEQ = GDP_STAT_NEW EP_STAT_SEV_ERROR 8"
definition GDP_STAT_KEEP_READING :: ep_stat where [stat_simps]: "GDP_STAT_KEEP_READING = GDP_STAT_NEW EP_STAT_SEV_WARN 9"
definition GDP_STAT_LOG_NOT_OPEN :: ep_stat where [stat_simps]: "GDP_STAT_LOG_NOT_OPEN = GDP_STAT_NEW EP_STAT_SEV_ERROR 10"
definition GDP_STAT_UNKNOWN_RID :: ep_stat where [stat_simps]: "GDP_STAT_UNKNOWN_RID = GDP_STAT_NEW EP_STAT_SEV_SEVERE 11"
definition GDP_STAT_INTERNAL_ERROR :: ep_stat where [stat_simps]: "GDP_STAT_INTERNAL_ERROR = GDP_STAT_NEW EP_STAT_SEV_ABORT 12"
definition GDP_STAT_BAD_IOMODE :: ep_stat where [stat_simps]: "GDP_STAT_BAD_IOMODE = GDP_STAT_NEW EP_STAT_SEV_ERROR 13"
definition GDP_STAT_GDP_NAME_INVALID :: ep_stat where [stat_simps]: "GDP_STAT_GDP_NAME_INVALID = GDP_STAT_NEW EP_STAT_SEV_ERROR 14"
definition GDP_STAT_BUFFER_FAILURE :: ep_stat where [stat_simps]: "GDP_STAT_BUFFER_FAILURE = GDP_STAT_NEW EP_STAT_SEV_ABORT 15"
definition GDP_STAT_NULL_GOB :: ep_stat where [stat_simps]: "GDP_STAT_NULL_GOB = GDP_STAT_NEW EP_STAT_SEV_ERROR 16"
definition GDP_STAT_NULL_GIN :: ep_stat where [stat_simps]: "GDP_STAT_NULL_GIN = GDP_STAT_NEW EP_STAT_SEV_ERROR 17"
definition GDP_STAT_PROTOCOL_FAIL :: ep_stat where [stat_simps]: "GDP_STAT_PROTOCOL_FAIL = GDP_STAT_NEW EP_STAT_SEV_SEVERE 18"
definition GDP_STAT_CORRUPT_LOG :: ep_stat where [stat_simps]: "GDP_STAT_CORRUPT_LOG = GDP_STAT_NEW EP_STAT_SEV_SEVERE 19"
definition GDP_STAT_DEAD_DAEMON :: ep_stat where [stat_simps]: "GDP_STAT_DEAD_DAEMON = GDP_STAT_NEW EP_STAT_SEV_ABORT 20"
definition GDP_STAT_LOG_VERSION_MISMATCH :: ep_stat where [stat_simps]: "GDP_STAT_LOG_VERSION_MISMATCH = GDP_STAT_NEW EP_STAT_SEV_SEVERE 21"
definition GDP_STAT_READONLY :: ep_stat where [stat_simps]: "GDP_STAT_READONLY = GDP_STAT_NEW EP_STAT_SEV_ERROR 22"
definition GDP_STAT_NOTFOUND :: ep_stat where [stat_simps]: "GDP_STAT_NOTFOUND = GDP_STAT_NEW EP_STAT_SEV_ERROR 23"
definition GDP_STAT_PDU_CORRUPT :: ep_stat where [stat_simps]: "GDP_STAT_PDU_CORRUPT = GDP_STAT_NEW EP_STAT_SEV_ABORT 24"
definition GDP_STAT_SKEY_REQUIRED :: ep_stat where [stat_simps]: "GDP_STAT_SKEY_REQUIRED = GDP_STAT_NEW EP_STAT_SEV_ERROR 25"
definition GDP_STAT_LOG_READ_ERROR :: ep_stat where [stat_simps]: "GDP_STAT_LOG_READ_ERROR = GDP_STAT_NEW EP_STAT_SEV_ERROR 26"
definition GDP_STAT_RECNO_SEQ_ERROR :: ep_stat where [stat_simps]: "GDP_STAT_RECNO_SEQ_ERROR = GDP_STAT_NEW EP_STAT_SEV_ERROR 27"
definition GDP_STAT_CRYPTO_VRFY_FAIL :: ep_stat where [stat_simps]: "GDP_STAT_CRYPTO_VRFY_FAIL = GDP_STAT_NEW EP_STAT_SEV_ERROR 28"
definition GDP_STAT_PHYSIO_ERROR :: ep_stat where [stat_simps]: "GDP_STAT_PHYSIO_ERROR = GDP_STAT_NEW EP_STAT_SEV_ERROR 29"
definition GDP_STAT_RECORD_EXPIRED :: ep_stat where [stat_simps]: "GDP_STAT_RECORD_EXPIRED = GDP_STAT_NEW EP_STAT_SEV_WARN 30"
definition GDP_STAT_USING_FREE_REQ :: ep_stat where [stat_simps]: "GDP_STAT_USING_FREE_REQ = GDP_STAT_NEW EP_STAT_SEV_ABORT 31"
definition GDP_STAT_BAD_REFCNT :: ep_stat where [stat_simps]: "GDP_STAT_BAD_REFCNT = GDP_STAT_NEW EP_STAT_SEV_ABORT 32"
definition GDP_STAT_RECORD_MISSING :: ep_stat where [stat_simps]: "GDP_STAT_RECORD_MISSING = GDP_STAT_NEW EP_STAT_SEV_WARN 33"
definition GDP_STAT_RECORD_DUPLICATED :: ep_stat where [stat_simps]: "GDP_STAT_RECORD_DUPLICATED = GDP_STAT_NEW EP_STAT_SEV_WARN 34"
definition GDP_STAT_DATUM_REQUIRED :: ep_stat where [stat_simps]: "GDP_STAT_DATUM_REQUIRED = GDP_STAT_NEW EP_STAT_SEV_ERROR 35"
definition GDP_STAT_SQLITE_ERROR :: ep_stat where [stat_simps]: "GDP_STAT_SQLITE_ERROR = GDP_STAT_NEW EP_STAT_SEV_SEVERE 36"
definition GDP_STAT_INVOKE_TIMEOUT :: ep_stat where [stat_simps]: "GDP_STAT_INVOKE_TIMEOUT = GDP_STAT_NEW EP_STAT_SEV_SEVERE 37"
definition GDP_STAT_PDU_TOO_LONG :: ep_stat where [stat_simps]: "GDP_STAT_PDU_TOO_LONG = GDP_STAT_NEW EP_STAT_SEV_SEVERE 38"
definition GDP_STAT_CHAN_NOT_CONNECTED :: ep_stat where [stat_simps]: "GDP_STAT_CHAN_NOT_CONNECTED = GDP_STAT_NEW EP_STAT_SEV_ABORT 39"
definition GDP_STAT_METADATA_REQUIRED :: ep_stat where [stat_simps]: "GDP_STAT_METADATA_REQUIRED = GDP_STAT_NEW EP_STAT_SEV_SEVERE 40"
definition GDP_STAT_RESPONSE_SENT :: ep_stat where [stat_simps]: "GDP_STAT_RESPONSE_SENT = GDP_STAT_NEW EP_STAT_SEV_WARN 41"
definition GDP_STAT_NO_METADATA :: ep_stat where [stat_simps]: "GDP_STAT_NO_METADATA = GDP_STAT_NEW EP_STAT_SEV_ABORT 42"
definition GDP_STAT_NAME_UNKNOWN :: ep_stat where [stat_simps]: "GDP_STAT_NAME_UNKNOWN = GDP_STAT_NEW EP_STAT_SEV_ERROR 43"
definition GDP_STAT_MYSQL_ERROR :: ep_stat where [stat_simps]: "GDP_STAT_MYSQL_ERROR = GDP_STAT_NEW EP_STAT_SEV_SEVERE 44"
definition GDP_STAT_CRYPTO_SIG_MISSING :: ep_stat where [stat_simps]: "GDP_STAT_CRYPTO_SIG_MISSING = GDP_STAT_NEW EP_STAT_SEV_WARN 45"
definition GDP_STAT_CRYPTO_NO_PUB_KEY :: ep_stat where [stat_simps]: "GDP_STAT_CRYPTO_NO_PUB_KEY = GDP_STAT_NEW EP_STAT_SEV_ERROR 46"
definition GDP_STAT_CRYPTO_NO_SIG :: ep_stat where [stat_simps]: "GDP_STAT_CRYPTO_NO_SIG = GDP_STAT_NEW EP_STAT_SEV_ERROR 47"
definition GDP_STAT_SVC_NAME_REQ :: ep_stat where [stat_simps]: "GDP_STAT_SVC_NAME_REQ = GDP_STAT_NEW EP_STAT_SEV_SEVERE 48"
definition GDP_STAT_ACK_SUCCESS :: ep_stat where [stat_simps]: "GDP_STAT_ACK_SUCCESS = GDP_STAT_NEW EP_STAT_SEV_OK 200"
definition GDP_STAT_ACK_CREATED :: ep_stat where [stat_simps]: "GDP_STAT_ACK_CREATED = GDP_STAT_NEW EP_STAT_SEV_OK 201"
definition GDP_STAT_ACK_DELETED :: ep_stat where [stat_simps]: "GDP_STAT_ACK_DELETED = GDP_STAT_NEW EP_STAT_SEV_OK 202"
definition GDP_STAT_ACK_VALID :: ep_stat where [stat_simps]: "GDP_STAT_ACK_VALID = GDP_STAT_NEW EP_STAT_SEV_OK 203"
definition GDP_STAT_ACK_CHANGED :: ep_stat where [stat_simps]: "GDP_STAT_ACK_CHANGED = GDP_STAT_NEW EP_STAT_SEV_OK 204"
definition GDP_STAT_ACK_CONTENT :: ep_stat where [stat_simps]: "GDP_STAT_ACK_CONTENT = GDP_STAT_NEW EP_STAT_SEV_OK 205"
definition GDP_STAT_ACK_END_OF_RESULTS :: ep_stat where [stat_simps]: "GDP_STAT_ACK_END_OF_RESULTS = GDP_STAT_NEW EP_STAT_SEV_WARN 263"
definition GDP_STAT_NAK_BADREQ :: ep_stat where [stat_simps]: "GDP_STAT_NAK_BADREQ = GDP_STAT_NEW EP_STAT_SEV_ERROR 400"
definition GDP_STAT_NAK_UNAUTH :: ep_stat where [stat_simps]: "GDP_STAT_NAK_UNAUTH = GDP_STAT_NEW EP_STAT_SEV_ERROR 401"
definition GDP_STAT_NAK_BADOPT :: ep_stat where [stat_simps]: "GDP_STAT_NAK_BADOPT = GDP_STAT_NEW EP_STAT_SEV_ERROR 402"
definition GDP_STAT_NAK_FORBIDDEN :: ep_stat where [stat_simps]: "GDP_STAT_NAK_FORBIDDEN = GDP_STAT_NEW EP_STAT_SEV_ERROR 403"
definition GDP_STAT_NAK_NOTFOUND :: ep_stat where [stat_simps]: "GDP_STAT_NAK_NOTFOUND = GDP_STAT_NEW EP_STAT_SEV_ERROR 404"
definition GDP_STAT_NAK_METHNOTALLOWED :: ep_stat where [stat_simps]: "GDP_STAT_NAK_METHNOTALLOWED = GDP_STAT_NEW EP_STAT_SEV_ERROR 405"
definition GDP_STAT_NAK_NOTACCEPTABLE :: ep_stat where [stat_simps]: "GDP_STAT_NAK_NOTACCEPTABLE = GDP_STAT_NEW EP_STAT_SEV_ERROR 406"
definition GDP_STAT_NAK_CONFLICT :: ep_stat where [stat_simps]: "GDP_STAT_NAK_CONFLICT = GDP_STAT_NEW EP_STAT_SEV_ERROR 409"
definition GDP_STAT_NAK_GONE :: ep_stat where [stat_simps]: "GDP_STAT_NAK_GONE = GDP_STAT_NEW EP_STAT_SEV_WARN 410"
definition GDP_STAT_NAK_PRECONFAILED :: ep_stat where [stat_simps]: "GDP_STAT_NAK_PRECONFAILED = GDP_STAT_NEW EP_STAT_SEV_ERROR 412"
definition GDP_STAT_NAK_TOOLARGE :: ep_stat where [stat_simps]: "GDP_STAT_NAK_TOOLARGE = GDP_STAT_NEW EP_STAT_SEV_ERROR 413"
definition GDP_STAT_NAK_UNSUPMEDIA :: ep_stat where [stat_simps]: "GDP_STAT_NAK_UNSUPMEDIA = GDP_STAT_NEW EP_STAT_SEV_ERROR 415"
definition GDP_STAT_NAK_REC_MISSING :: ep_stat where [stat_simps]: "GDP_STAT_NAK_REC_MISSING = GDP_STAT_NEW EP_STAT_SEV_WARN 430"
definition GDP_STAT_NAK_REC_DUP :: ep_stat where [stat_simps]: "GDP_STAT_NAK_REC_DUP = GDP_STAT_NEW EP_STAT_SEV_WARN 431"
definition GDP_STAT_NAK_INTERNAL :: ep_stat where [stat_simps]: "GDP_STAT_NAK_INTERNAL = GDP_STAT_NEW EP_STAT_SEV_SEVERE 500"
definition GDP_STAT_NAK_NOTIMPL :: ep_stat where [stat_simps]: "GDP_STAT_NAK_NOTIMPL = GDP_STAT_NEW EP_STAT_SEV_SEVERE 501"
definition GDP_STAT_NAK_BADGATEWAY :: ep_stat where [stat_simps]: "GDP_STAT_NAK_BADGATEWAY = GDP_STAT_NEW EP_STAT_SEV_SEVERE 502"
definition GDP_STAT_NAK_SVCUNAVAIL :: ep_stat where [stat_simps]: "GDP_STAT_NAK_SVCUNAVAIL = GDP_STAT_NEW EP_STAT_SEV_SEVERE 503"
definition GDP_STAT_NAK_GWTIMEOUT :: ep_stat where [stat_simps]: "GDP_STAT_NAK_GWTIMEOUT = GDP_STAT_NEW EP_STAT_SEV_SEVERE 504"
definition GDP_STAT_NAK_PROXYNOTSUP :: ep_stat where [stat_simps]: "GDP_STAT_NAK_PROXYNOTSUP = GDP_STAT_NEW EP_STAT_SEV_SEVERE 505"
definition GDP_STAT_NAK_REPLICATE_FAIL :: ep_stat where [stat_simps]: "GDP_STAT_NAK_REPLICATE_FAIL = GDP_STAT_NEW EP_STAT_SEV_ERROR 514"
definition GDP_STAT_NAK_LOST_SUBSCR :: ep_stat where [stat_simps]: "GDP_STAT_NAK_LOST_SUBSCR = GDP_STAT_NEW EP_STAT_SEV_WARN 515"
definition GDP_STAT_NAK_NOROUTE :: ep_stat where [stat_simps]: "GDP_STAT_NAK_NOROUTE = GDP_STAT_NEW EP_STAT_SEV_ERROR 600"

section \<open>Acks and naks\<close>

text \<open>\<^verbatim>\<open>gdp_cmd_t\<close> is the protobuf enumeration of \<^verbatim>\<open>gdp.proto\<close>, an unsigned word.\<close>

type_synonym gdp_cmd = u32

definition GDP_CMD_NEEDS_ACK :: "gdp_cmd \<Rightarrow> bool" where
  "GDP_CMD_NEEDS_ACK c \<longleftrightarrow> c AND 0xc0 = 0x40"
definition GDP_CMD_IS_COMMAND :: "gdp_cmd \<Rightarrow> bool" where
  "GDP_CMD_IS_COMMAND c \<longleftrightarrow> c AND 0x80 \<noteq> 0x80"
definition GDP_CMD_IS_ACK :: "gdp_cmd \<Rightarrow> bool" where
  "GDP_CMD_IS_ACK c \<longleftrightarrow> c AND 0xc0 = 0x80"
definition GDP_CMD_IS_NAK :: "gdp_cmd \<Rightarrow> bool" where
  "GDP_CMD_IS_NAK c \<longleftrightarrow> c AND 0xc0 = 0xc0"
definition GDP_CMD_IS_C_NAK :: "gdp_cmd \<Rightarrow> bool" where
  "GDP_CMD_IS_C_NAK c \<longleftrightarrow> c AND 0xe0 = 0xc0"
definition GDP_CMD_IS_S_NAK :: "gdp_cmd \<Rightarrow> bool" where
  "GDP_CMD_IS_S_NAK c \<longleftrightarrow> c AND 0xe0 = 0xe0"

definition GDP_STAT_FROM_ACK :: "int \<Rightarrow> ep_stat" where
  "GDP_STAT_FROM_ACK c = EP_STAT_NEW EP_STAT_SEV_OK 0 0 (word_of_int (c - 128 + 200))"
definition GDP_STAT_FROM_C_NAK :: "int \<Rightarrow> ep_stat" where
  "GDP_STAT_FROM_C_NAK c = GDP_STAT_NEW EP_STAT_SEV_ERROR (word_of_int (c - 192 + 400))"
definition GDP_STAT_FROM_S_NAK :: "int \<Rightarrow> ep_stat" where
  "GDP_STAT_FROM_S_NAK c = GDP_STAT_NEW EP_STAT_SEV_SEVERE (word_of_int (c - 224 + 500))"
definition GDP_STAT_FROM_R_NAK :: "int \<Rightarrow> ep_stat" where
  "GDP_STAT_FROM_R_NAK c = GDP_STAT_NEW EP_STAT_SEV_ERROR (word_of_int (c - 240 + 600))"

definition gdp_stat_from_acknak :: "int \<Rightarrow> ep_stat" where
  "gdp_stat_from_acknak acknak =
     (if 128 \<le> acknak \<and> acknak \<le> 191 then GDP_STAT_FROM_ACK acknak
      else if 192 \<le> acknak \<and> acknak \<le> 223 then GDP_STAT_FROM_C_NAK acknak
      else if 224 \<le> acknak \<and> acknak \<le> 239 then GDP_STAT_FROM_S_NAK acknak
      else if 240 \<le> acknak \<and> acknak \<le> 254 then GDP_STAT_FROM_R_NAK acknak
      else GDP_STAT_INTERNAL_ERROR)"

definition GDP_STAT_IS_ACKNAK :: "ep_stat \<Rightarrow> bool" where
  "GDP_STAT_IS_ACKNAK estat \<longleftrightarrow>
     GDP_STAT_IS_GDP estat \<and> 200 \<le> EP_STAT_DETAIL estat \<and> EP_STAT_DETAIL estat \<le> 615"
definition GDP_STAT_IS_ACK :: "ep_stat \<Rightarrow> bool" where
  "GDP_STAT_IS_ACK estat \<longleftrightarrow>
     GDP_STAT_IS_GDP estat \<and> 200 \<le> EP_STAT_DETAIL estat \<and> EP_STAT_DETAIL estat \<le> 263"
definition GDP_STAT_IS_C_NAK :: "ep_stat \<Rightarrow> bool" where
  "GDP_STAT_IS_C_NAK estat \<longleftrightarrow>
     GDP_STAT_IS_GDP estat \<and> 400 \<le> EP_STAT_DETAIL estat \<and> EP_STAT_DETAIL estat \<le> 431"
definition GDP_STAT_IS_S_NAK :: "ep_stat \<Rightarrow> bool" where
  "GDP_STAT_IS_S_NAK estat \<longleftrightarrow>
     GDP_STAT_IS_GDP estat \<and> 500 \<le> EP_STAT_DETAIL estat \<and> EP_STAT_DETAIL estat \<le> 531"
definition GDP_STAT_IS_R_NAK :: "ep_stat \<Rightarrow> bool" where
  "GDP_STAT_IS_R_NAK estat \<longleftrightarrow>
     GDP_STAT_IS_GDP estat \<and> 600 \<le> EP_STAT_DETAIL estat \<and> EP_STAT_DETAIL estat \<le> 699"

text \<open>
  \<^verbatim>\<open>_gdp_acknak_from_estat\<close>: the first part picks a response from the severity and the
  caller's default, the second lets a GDP detail in the right range override it.
\<close>

definition gdp_acknak_default :: "ep_stat \<Rightarrow> gdp_cmd \<Rightarrow> gdp_cmd" where
  "gdp_acknak_default estat dflt =
     (if EP_STAT_ISOK estat then
        (if dflt < 128 \<or> 191 < dflt then 128 else dflt)
      else if EP_STAT_REGISTRY estat = EP_REGISTRY_EPLIB \<and>
              EP_STAT_MODULE estat = EP_STAT_MOD_CRYPTO then 193
      else (if dflt < 192 \<or> 254 < dflt then 224 else dflt))"

definition gdp_acknak_from_estat :: "ep_stat \<Rightarrow> gdp_cmd \<Rightarrow> gdp_cmd" where
  "gdp_acknak_from_estat estat dflt =
     (let resp = gdp_acknak_default estat dflt; d = EP_STAT_DETAIL estat in
      if EP_STAT_REGISTRY estat = EP_REGISTRY_UCB \<and> EP_STAT_MODULE estat = GDP_MODULE then
        (if \<not> EP_STAT_ISFAIL estat then
           (if 200 \<le> d \<and> d \<le> 263 then d - 200 + 128 else resp)
         else if 400 \<le> d \<and> d \<le> 431 then d - 400 + 192
         else if 500 \<le> d \<and> d \<le> 515 then d - 500 + 224
         else if 600 \<le> d \<and> d \<le> 614 then d - 600 + 240
         else resp)
      else resp)"

section \<open>Laws of the status word\<close>

lemma EP_STAT_NEW_fields [simp]:
  "EP_STAT_SEVERITY (EP_STAT_NEW s r m d) = s AND mask 3"
  "EP_STAT_REGISTRY (EP_STAT_NEW s r m d) = r AND mask 11"
  "EP_STAT_MODULE (EP_STAT_NEW s r m d) = m AND mask 8"
  "EP_STAT_DETAIL (EP_STAT_NEW s r m d) = d AND mask 10"
  by (auto intro!: bit_eqI simp: EP_STAT_SEVERITY_def EP_STAT_REGISTRY_def EP_STAT_MODULE_def
      EP_STAT_DETAIL_def EP_STAT_NEW_def bit_simps)

lemma EP_STAT_NEW_of_fields:
  "EP_STAT_NEW (EP_STAT_SEVERITY c) (EP_STAT_REGISTRY c) (EP_STAT_MODULE c) (EP_STAT_DETAIL c) = c"
proof (rule bit_eqI)
  fix n :: nat
  consider "n < 10" | "10 \<le> n" "n < 18" | "18 \<le> n" "n < 29" | "29 \<le> n" by linarith
  then show "bit (EP_STAT_NEW (EP_STAT_SEVERITY c) (EP_STAT_REGISTRY c) (EP_STAT_MODULE c)
      (EP_STAT_DETAIL c)) n = bit c n"
    by cases (auto simp: EP_STAT_SEVERITY_def EP_STAT_REGISTRY_def EP_STAT_MODULE_def
        EP_STAT_DETAIL_def EP_STAT_NEW_def bit_simps dest: bit_imp_le_length)
qed

lemma detail_small:
  assumes "0 \<le> i" "i < 1024"
  shows "(word_of_int i :: u32) AND mask 10 = word_of_int i"
  using assms by (intro and_mask_less_id) (simp add: uint_word_of_int_eq take_bit_int_eq_self)

lemma word_of_int_le_iff:
  assumes "0 \<le> i" "i < 2 ^ 32" "0 \<le> j" "j < 2 ^ 32"
  shows "(word_of_int j :: u32) \<le> word_of_int i \<longleftrightarrow> j \<le> i"
  using assms by (simp add: word_le_def uint_word_of_int_eq take_bit_int_eq_self)

lemma word_of_int_le_numeral:
  assumes "0 \<le> i" "i < 2 ^ 32" "(numeral k :: int) < 2 ^ 32"
  shows "((numeral k :: u32) \<le> word_of_int i) \<longleftrightarrow> numeral k \<le> i"
    and "((word_of_int i :: u32) \<le> numeral k) \<longleftrightarrow> i \<le> numeral k"
  using word_of_int_le_iff [of i "numeral k"] word_of_int_le_iff [of "numeral k" i] assms
  by simp_all

lemma GDP_STAT_NEW_fields [simp]:
  "EP_STAT_SEVERITY (GDP_STAT_NEW s d) = s AND mask 3"
  "EP_STAT_REGISTRY (GDP_STAT_NEW s d) = EP_REGISTRY_UCB"
  "EP_STAT_MODULE (GDP_STAT_NEW s d) = GDP_MODULE"
  "EP_STAT_DETAIL (GDP_STAT_NEW s d) = d AND mask 10"
  by (simp_all add: GDP_STAT_NEW_def EP_REGISTRY_UCB_def GDP_MODULE_def mask_numeral)

text \<open>A GDP code with a failure severity and a detail of the nak ranges names its own response.\<close>

lemma acknak_of_nak_detail:
  assumes "EP_STAT_SEV_ERROR \<le> sev AND mask 3" "0 \<le> i" "i < 1024"
  shows "gdp_acknak_from_estat (GDP_STAT_NEW sev (word_of_int i)) dflt =
    (if 400 \<le> i \<and> i \<le> 431 then word_of_int (i - 400 + 192)
     else if 500 \<le> i \<and> i \<le> 515 then word_of_int (i - 500 + 224)
     else if 600 \<le> i \<and> i \<le> 614 then word_of_int (i - 600 + 240)
     else gdp_acknak_default (GDP_STAT_NEW sev (word_of_int i)) dflt)"
  using assms
  by (auto simp: gdp_acknak_from_estat_def Let_def EP_STAT_ISFAIL_def detail_small
      word_of_int_le_numeral)

lemma fail_severities:
  "EP_STAT_SEV_ERROR \<le> EP_STAT_SEV_ERROR AND mask 3"
  "EP_STAT_SEV_ERROR \<le> EP_STAT_SEV_SEVERE AND mask 3"
  by (simp_all add: EP_STAT_SEV_ERROR_def EP_STAT_SEV_SEVERE_def mask_numeral)

lemma acknak_of_c_nak:
  "192 \<le> c \<Longrightarrow> c \<le> 223 \<Longrightarrow> gdp_acknak_from_estat (GDP_STAT_FROM_C_NAK c) dflt = word_of_int c"
  unfolding GDP_STAT_FROM_C_NAK_def
  by (subst acknak_of_nak_detail [OF fail_severities(1)]) simp_all

lemma acknak_of_s_nak:
  "224 \<le> c \<Longrightarrow> c \<le> 239 \<Longrightarrow> gdp_acknak_from_estat (GDP_STAT_FROM_S_NAK c) dflt = word_of_int c"
  unfolding GDP_STAT_FROM_S_NAK_def
  by (subst acknak_of_nak_detail [OF fail_severities(2)]) simp_all

lemma acknak_of_r_nak:
  "240 \<le> c \<Longrightarrow> c \<le> 254 \<Longrightarrow> gdp_acknak_from_estat (GDP_STAT_FROM_R_NAK c) dflt = word_of_int c"
  unfolding GDP_STAT_FROM_R_NAK_def
  by (subst acknak_of_nak_detail [OF fail_severities(1)]) simp_all

lemma acknak_of_nak:
  assumes "192 \<le> c" "c \<le> 254"
  shows "gdp_acknak_from_estat (gdp_stat_from_acknak c) dflt = word_of_int c"
proof -
  consider "192 \<le> c" "c \<le> 223" | "224 \<le> c" "c \<le> 239" | "240 \<le> c" "c \<le> 254"
    using assms by linarith
  then show ?thesis
    by cases (simp_all add: gdp_stat_from_acknak_def acknak_of_c_nak acknak_of_s_nak acknak_of_r_nak)
qed

lemma ISOK_FROM_ACK: "EP_STAT_ISOK (GDP_STAT_FROM_ACK c)"
  by (simp add: GDP_STAT_FROM_ACK_def EP_STAT_ISOK_def EP_STAT_SEV_OK_def)

lemma FROM_ACK_not_gdp: "\<not> GDP_STAT_IS_GDP (GDP_STAT_FROM_ACK c)"
  by (simp add: GDP_STAT_FROM_ACK_def GDP_STAT_IS_GDP_def EP_REGISTRY_UCB_def)

lemma acknak_of_ack:
  "gdp_acknak_from_estat (GDP_STAT_FROM_ACK c) dflt =
    (if 128 \<le> dflt \<and> dflt \<le> 191 then dflt else 128)"
proof -
  have "gdp_acknak_from_estat (GDP_STAT_FROM_ACK c) dflt =
      gdp_acknak_default (GDP_STAT_FROM_ACK c) dflt"
    using FROM_ACK_not_gdp [of c]
    by (simp add: gdp_acknak_from_estat_def Let_def flip: GDP_STAT_IS_GDP_def)
  also have "\<dots> = (if dflt < 128 \<or> 191 < dflt then 128 else dflt)"
    by (simp add: gdp_acknak_default_def ISOK_FROM_ACK)
  finally show ?thesis by (simp flip: not_le)
qed

lemma stat_from_acknak_severity:
  "EP_STAT_ISOK (gdp_stat_from_acknak c) \<longleftrightarrow> 128 \<le> c \<and> c < 192"
  "EP_STAT_ISFAIL (gdp_stat_from_acknak c) \<longleftrightarrow> c < 128 \<or> 192 \<le> c"
  by (auto simp: gdp_stat_from_acknak_def GDP_STAT_FROM_ACK_def GDP_STAT_FROM_C_NAK_def
      GDP_STAT_FROM_S_NAK_def GDP_STAT_FROM_R_NAK_def GDP_STAT_INTERNAL_ERROR_def EP_STAT_ISOK_def
      EP_STAT_ISFAIL_def EP_STAT_SEV_OK_def EP_STAT_SEV_ERROR_def EP_STAT_SEV_SEVERE_def
      EP_STAT_SEV_ABORT_def mask_numeral)

text \<open>The class masks look at bits five to seven of a command only.\<close>

lemma and_class_mask:
  "(word_of_int c :: u32) AND push_bit 5 m = push_bit 5 (word_of_int (c div 32) AND m)"
proof -
  have "bit c n \<longleftrightarrow> bit (c div 32) (n - 5)" if "5 \<le> n" for n
    using that bit_drop_bit_eq [of 5 c] by (simp add: drop_bit_eq_div fun_eq_iff)
  then show ?thesis
    by (intro bit_eqI) (auto simp: bit_simps)
qed

section \<open>Properties\<close>

text \<open>The four fields of a status code and the 32-bit word determine each other: building a
  code and extracting its parts gives the parts cut to their widths, and rebuilding a code from
  its parts gives the code.\<close>

theorem stat_word_fields:
  "EP_STAT_SEVERITY (EP_STAT_NEW s r m d) = s AND mask 3 \<and>
   EP_STAT_REGISTRY (EP_STAT_NEW s r m d) = r AND mask 11 \<and>
   EP_STAT_MODULE (EP_STAT_NEW s r m d) = m AND mask 8 \<and>
   EP_STAT_DETAIL (EP_STAT_NEW s r m d) = d AND mask 10 \<and>
   EP_STAT_NEW (EP_STAT_SEVERITY c) (EP_STAT_REGISTRY c) (EP_STAT_MODULE c) (EP_STAT_DETAIL c) = c"
  by (simp add: EP_STAT_NEW_of_fields)

text \<open>C34: a negative acknowledgement survives the trip through a status code whatever default
  the caller passes, while a positive one does not: \<^verbatim>\<open>GDP_STAT_FROM_ACK\<close> leaves the registry
  empty, so the conversion back falls back to the caller's default (or plain success).\<close>

theorem acknak_roundtrip:
  assumes "128 \<le> c" "c \<le> 254"
  shows "gdp_acknak_from_estat (gdp_stat_from_acknak c) dflt =
    (if 192 \<le> c then word_of_int c
     else if 128 \<le> dflt \<and> dflt \<le> 191 then dflt else 128)"
proof (cases "192 \<le> c")
  case True
  then show ?thesis
    using acknak_of_nak [OF True assms(2)] by simp
next
  case False
  then have "gdp_stat_from_acknak c = GDP_STAT_FROM_ACK c"
    using assms by (simp add: gdp_stat_from_acknak_def)
  then show ?thesis
    using False by (simp add: acknak_of_ack)
qed

theorem acknak_roundtrip_witness:
  "gdp_acknak_from_estat (gdp_stat_from_acknak 196) 128 = 196 \<and>
   gdp_acknak_from_estat (gdp_stat_from_acknak 133) 132 = 132"
  using acknak_roundtrip [of 196 128] acknak_roundtrip [of 133 132] by simp

text \<open>The class macros cut the codes below 256 at the documented boundaries, and the status
  a response is turned into is OK exactly for the positive acknowledgements and a failure
  otherwise.\<close>

theorem command_classes:
  assumes "0 \<le> c" "c < 256"
  shows "(GDP_CMD_IS_COMMAND (word_of_int c) \<longleftrightarrow> c < 128) \<and>
    (GDP_CMD_NEEDS_ACK (word_of_int c) \<longleftrightarrow> 64 \<le> c \<and> c < 128) \<and>
    (GDP_CMD_IS_ACK (word_of_int c) \<longleftrightarrow> 128 \<le> c \<and> c < 192) \<and>
    (GDP_CMD_IS_C_NAK (word_of_int c) \<longleftrightarrow> 192 \<le> c \<and> c < 224) \<and>
    (GDP_CMD_IS_S_NAK (word_of_int c) \<longleftrightarrow> 224 \<le> c) \<and>
    (EP_STAT_ISOK (gdp_stat_from_acknak c) \<longleftrightarrow> 128 \<le> c \<and> c < 192) \<and>
    (EP_STAT_ISFAIL (gdp_stat_from_acknak c) \<longleftrightarrow> c < 128 \<or> 192 \<le> c)"
proof -
  define q where "q = c div 32"
  have q: "q \<in> {0, 1, 2, 3, 4, 5, 6, 7}"
    using assms by (auto simp: q_def)
  have masks: "word_of_int c AND (0x80::u32) = push_bit 5 (word_of_int q AND 4)"
    "word_of_int c AND (0xc0::u32) = push_bit 5 (word_of_int q AND 6)"
    "word_of_int c AND (0xe0::u32) = push_bit 5 (word_of_int q AND 7)"
    using and_class_mask [of c 4] and_class_mask [of c 6] and_class_mask [of c 7]
    by (simp_all add: q_def)
  have cut: "c < 128 \<longleftrightarrow> q < 4" "64 \<le> c \<longleftrightarrow> 2 \<le> q" "128 \<le> c \<longleftrightarrow> 4 \<le> q" "c < 192 \<longleftrightarrow> q < 6"
    "192 \<le> c \<longleftrightarrow> 6 \<le> q" "c < 224 \<longleftrightarrow> q < 7" "224 \<le> c \<longleftrightarrow> 7 \<le> q"
    by (auto simp: q_def)
  show ?thesis
    using q unfolding stat_from_acknak_severity GDP_CMD_IS_COMMAND_def GDP_CMD_NEEDS_ACK_def
      GDP_CMD_IS_ACK_def GDP_CMD_IS_C_NAK_def GDP_CMD_IS_S_NAK_def masks cut by auto
qed

theorem command_classes_witness:
  "GDP_CMD_NEEDS_ACK 71 \<and> GDP_CMD_IS_ACK 132 \<and> GDP_CMD_IS_S_NAK 240 \<and>
   EP_STAT_ISOK (gdp_stat_from_acknak 132) \<and> EP_STAT_ISFAIL (gdp_stat_from_acknak 240)"
  using command_classes [of 71] command_classes [of 132] command_classes [of 240] by simp

end
