(* ===== verification/Ep_Time.thy ===== *)
theory Ep_Time
  imports Ep_Stat "HOL-Library.Signed_Division"
begin

text \<open>
  Time arithmetic, \<^verbatim>\<open>ep/ep_time.c\<close>.  Seconds are \<^verbatim>\<open>int64_t\<close> and nanoseconds \<^verbatim>\<open>int32_t\<close>: integers in
  these ranges, cut by \<^const>\<open>int64\<close> and \<^const>\<open>int32\<close> where a sum or a product may leave them.  The accuracy, a C
  \<^verbatim>\<open>float\<close> that the code only stores and copies, is the word that represents it.  Division and
  remainder truncate toward zero as in C.
\<close>

record ep_time =
  tv_sec :: int
  tv_nsec :: int
  tv_accuracy :: u32

definition EP_TIME_NOTIME :: int where "EP_TIME_NOTIME = - (2 ^ 63 - 1)"
definition ONESECOND :: int where "ONESECOND = 1000000000"

definition EP_TIME_IS_VALID :: "ep_time \<Rightarrow> bool" where
  "EP_TIME_IS_VALID ts \<longleftrightarrow> tv_sec ts \<noteq> EP_TIME_NOTIME"

definition EP_TIME_INVALIDATE :: "ep_time \<Rightarrow> ep_time" where
  "EP_TIME_INVALIDATE ts = ts\<lparr>tv_sec := EP_TIME_NOTIME\<rparr>"

text \<open>The clock is a parameter: the seconds and microseconds of \<^verbatim>\<open>gettimeofday\<close>, or the errno value.  The branch with
  \<^verbatim>\<open>clock_gettime\<close> is never compiled, as \<^verbatim>\<open>CLOCK_REALTIME\<close> is undefined right before the function.\<close>

definition ep_time_now :: "int + int \<times> int \<Rightarrow> u32 \<Rightarrow> ep_time \<Rightarrow> ep_stat \<times> ep_time" where
  "ep_time_now clock accuracy tv =
     (case clock of
        Inl errno \<Rightarrow> (ep_stat_from_errno errno, tv\<lparr>tv_sec := EP_TIME_NOTIME, tv_accuracy := accuracy\<rparr>)
      | Inr (sec, usec) \<Rightarrow> (EP_STAT_OK, \<lparr>tv_sec = sec, tv_nsec = int32 (usec * 1000), tv_accuracy = accuracy\<rparr>))"

definition ep_time_zero :: ep_time where
  "ep_time_zero = \<lparr>tv_sec = 0, tv_nsec = 0, tv_accuracy = 0\<rparr>"

definition ep_time_add_delta :: "ep_time \<Rightarrow> ep_time \<Rightarrow> ep_time" where
  "ep_time_add_delta delta tv =
     (let s = int64 (tv_sec tv + tv_sec delta); n = int32 (tv_nsec tv + tv_nsec delta) in
      if ONESECOND < n then tv\<lparr>tv_sec := int64 (s + 1), tv_nsec := n - ONESECOND\<rparr>
      else if n < 0 then tv\<lparr>tv_sec := int64 (s - 1), tv_nsec := n + ONESECOND\<rparr>
      else tv\<lparr>tv_sec := s, tv_nsec := n\<rparr>)"

definition ep_time_deltanow ::
  "int + int \<times> int \<Rightarrow> u32 \<Rightarrow> ep_time \<Rightarrow> ep_time \<Rightarrow> ep_stat \<times> ep_time" where
  "ep_time_deltanow clock accuracy delta tv =
     (case ep_time_now clock accuracy tv of (estat, tv1) \<Rightarrow>
        if \<not> EP_STAT_ISOK estat then (estat, tv1)
        else (EP_STAT_OK, ep_time_add_delta delta tv1))"

definition ep_time_diff_usec :: "ep_time \<Rightarrow> ep_time \<Rightarrow> int" where
  "ep_time_diff_usec a b =
     int64 (int64 (int64 (tv_sec b * 1000000) + tv_nsec b sdiv 1000) - int64 (int64 (tv_sec a * 1000000) + tv_nsec a sdiv 1000))"

definition ep_time_before :: "ep_time \<Rightarrow> ep_time \<Rightarrow> bool" where
  "ep_time_before a b =
     (if tv_sec a < tv_sec b then True
      else if tv_sec b < tv_sec a then False
      else tv_nsec a < tv_nsec b)"

definition ep_time_to_nsec :: "ep_time \<Rightarrow> int" where
  "ep_time_to_nsec tv = int64 (int64 (tv_sec tv * ONESECOND) + tv_nsec tv)"

definition ep_time_from_nsec :: "int \<Rightarrow> ep_time \<Rightarrow> ep_time" where
  "ep_time_from_nsec nsec tv = tv\<lparr>tv_sec := nsec sdiv ONESECOND, tv_nsec := nsec smod ONESECOND\<rparr>"

definition ep_time_from_usec :: "int \<Rightarrow> ep_time \<Rightarrow> ep_time" where
  "ep_time_from_usec usec tv =
     tv\<lparr>tv_sec := usec sdiv 1000000, tv_nsec := (usec smod 1000000) * 1000\<rparr>"

definition ep_time_from_sec :: "int \<Rightarrow> ep_time" where
  "ep_time_from_sec sec = \<lparr>tv_sec = sec, tv_nsec = 0, tv_accuracy = 0\<rparr>"

text \<open>A time in the usual form, and a delta with both parts of the same sign.\<close>

definition time_normal :: "ep_time \<Rightarrow> bool" where
  "time_normal tv \<longleftrightarrow> 0 \<le> tv_nsec tv \<and> tv_nsec tv < ONESECOND"

definition delta_normal :: "ep_time \<Rightarrow> bool" where
  "delta_normal d \<longleftrightarrow> - ONESECOND < tv_nsec d \<and> tv_nsec d < ONESECOND"

text \<open>The nanoseconds a time stands for, whether or not they fit.\<close>

definition time_total :: "ep_time \<Rightarrow> int" where
  "time_total tv = tv_sec tv * ONESECOND + tv_nsec tv"

lemma to_nsec_total: "ep_time_to_nsec tv = int64 (time_total tv)"
  by (simp add: ep_time_to_nsec_def time_total_def)

lemma total_from_nsec: "time_total (ep_time_from_nsec n tv) = n"
  using sdiv_mult_smod_eq [of n ONESECOND]
  by (simp add: time_total_def ep_time_from_nsec_def)

lemma before_iff_less:
  assumes "time_normal a" "time_normal b"
  shows "ep_time_before a b \<longleftrightarrow> time_total a < time_total b"
  using assms by (auto simp: ep_time_before_def time_total_def time_normal_def ONESECOND_def)

lemma delta_nsec:
  assumes "time_normal tv" "delta_normal d"
  shows "int32 (tv_nsec tv + tv_nsec d) = tv_nsec tv + tv_nsec d"
  using assms by (intro int32_id) (simp_all add: time_normal_def delta_normal_def ONESECOND_def)

section \<open>Properties\<close>

text \<open>C39: adding a delta adds the nanoseconds, up to the wrap-around of \<^verbatim>\<open>int64_t\<close>: the count that
  \<^verbatim>\<open>ep_time_to_nsec\<close> gives of the result is the sum of the two counts cut to 64 bits, so it is the sum itself exactly when the sum fits; the time
  itself is the sum whenever the seconds do not leave \<^verbatim>\<open>int64_t\<close>.  The accuracy is kept.  The
  result is in normal form unless the fractions add up to exactly one second, which the comparison with \<^verbatim>\<open>>\<close> leaves as
  a thousand million nanoseconds.  The time is in normal form and the nanoseconds of the delta are less than a second.\<close>

theorem time_add_delta:
  assumes "time_normal tv" "delta_normal d"
  shows "ep_time_to_nsec (ep_time_add_delta d tv) = int64 (time_total tv + time_total d) \<and>
    (ep_time_to_nsec (ep_time_add_delta d tv) = time_total tv + time_total d \<longleftrightarrow>
      - (2 ^ 63) \<le> time_total tv + time_total d \<and> time_total tv + time_total d < 2 ^ 63) \<and>
    (- (2 ^ 63) < tv_sec tv + tv_sec d \<and> tv_sec tv + tv_sec d < 2 ^ 63 - 1 \<longrightarrow>
      time_total (ep_time_add_delta d tv) = time_total tv + time_total d) \<and>
    tv_accuracy (ep_time_add_delta d tv) = tv_accuracy tv \<and>
    (time_normal (ep_time_add_delta d tv) \<longleftrightarrow> tv_nsec tv + tv_nsec d \<noteq> ONESECOND)"
proof -
  let ?s = "tv_sec tv + tv_sec d"
  let ?n = "tv_nsec tv + tv_nsec d"
  let ?c = "if ONESECOND < ?n then 1 else if ?n < 0 then - 1 else 0 :: int"
  have r: "ep_time_add_delta d tv = tv\<lparr>tv_sec := int64 (?s + ?c), tv_nsec := ?n - ?c * ONESECOND\<rparr>"
    using int64_add(1) [of ?s "-1"] by (simp add: ep_time_add_delta_def delta_nsec [OF assms] Let_def)
  have "int64 (int64 (?s + ?c) * ONESECOND + (?n - ?c * ONESECOND)) = int64 (int64 (int64 (?s + ?c) * ONESECOND) + (?n - ?c * ONESECOND))"
    by (simp only: int64_add(1))
  also have "\<dots> = int64 ((?s + ?c) * ONESECOND + (?n - ?c * ONESECOND))"
    by (simp only: int64_mult int64_add(1))
  also have "(?s + ?c) * ONESECOND + (?n - ?c * ONESECOND) = time_total tv + time_total d"
    by (simp add: time_total_def algebra_simps)
  finally have t: "ep_time_to_nsec (ep_time_add_delta d tv) = int64 (time_total tv + time_total d)"
    unfolding to_nsec_total r by (simp add: time_total_def)
  have x: "int64 (?s + ?c) = ?s + ?c" if "- (2 ^ 63) < ?s" "?s < 2 ^ 63 - 1"
    using that by (intro int64_id) auto
  have "time_total (ep_time_add_delta d tv) = time_total tv + time_total d" if "- (2 ^ 63) < ?s" "?s < 2 ^ 63 - 1"
    unfolding r using x [OF that] by (simp add: time_total_def algebra_simps)
  moreover have "time_normal (ep_time_add_delta d tv) \<longleftrightarrow> ?n \<noteq> ONESECOND"
    unfolding r using assms by (auto simp: time_normal_def delta_normal_def)
  ultimately show ?thesis
    using t int64_range [of "time_total tv + time_total d"] int64_id [of "time_total tv + time_total d"] by (auto simp: r)
qed

theorem time_add_delta_witness:
  "ep_time_to_nsec (ep_time_add_delta (ep_time_from_usec 500000 ep_time_zero)
       \<lparr>tv_sec = 7, tv_nsec = 500000000, tv_accuracy = 0\<rparr>) = 8000000000 \<and>
   \<not> time_normal (ep_time_add_delta (ep_time_from_usec 500000 ep_time_zero)
       \<lparr>tv_sec = 7, tv_nsec = 500000000, tv_accuracy = 0\<rparr>) \<and>
   time_normal (ep_time_add_delta (ep_time_from_usec 600000 ep_time_zero)
       \<lparr>tv_sec = 7, tv_nsec = 500000000, tv_accuracy = 0\<rparr>)"
proof -
  let ?tv = "\<lparr>tv_sec = 7, tv_nsec = 500000000, tv_accuracy = 0\<rparr> :: ep_time"
  have n: "time_normal ?tv" by (simp add: time_normal_def ONESECOND_def)
  have d: "tv_nsec (ep_time_from_usec 500000 ep_time_zero) = 500000000"
    "tv_nsec (ep_time_from_usec 600000 ep_time_zero) = 600000000"
    and s: "tv_sec (ep_time_from_usec 500000 ep_time_zero) = 0"
    by code_simp+
  from d have "delta_normal (ep_time_from_usec 500000 ep_time_zero)"
    "delta_normal (ep_time_from_usec 600000 ep_time_zero)"
    by (simp_all add: delta_normal_def ONESECOND_def)
  then show ?thesis
    using time_add_delta [OF n] d s by (simp add: time_total_def ONESECOND_def int64_id)
qed

text \<open>On times in normal form the comparison is the order of the nanoseconds, and converting a count of 64 bits
  to a time and back is the identity, also for negative counts.\<close>

theorem time_order:
  assumes "time_normal a" "time_normal b" "- (2 ^ 63) \<le> n" "n < 2 ^ 63"
  shows "(ep_time_before a b \<longleftrightarrow> time_total a < time_total b) \<and> ep_time_to_nsec (ep_time_from_nsec n a) = n"
  using before_iff_less [OF assms(1,2)] int64_id [OF assms(3,4)] by (simp add: to_nsec_total total_from_nsec)

end
