(* ===== verification/Gdp_Buf.thy ===== *)
theory Gdp_Buf
  imports Gdp_Wire Ep_Time
begin

text \<open>
  Data buffers, \<^verbatim>\<open>gdp/gdp_buf.c\<close>.  A \<^verbatim>\<open>gdp_buf_t\<close> is a libevent \<^verbatim>\<open>evbuffer\<close>; the library is a
  parameter, a record of the functions the code calls, and what the code relies on is the predicate
  \<open>evbuffer_ok\<close>, stated over the bytes a buffer holds.  The host is little endian.
\<close>

section \<open>The library\<close>

text \<open>Results are the C return value, the bytes copied to the caller and the new buffer.\<close>

record 'b evbuffer =
  evbuffer_new :: 'b
  evbuffer_get_length :: "'b \<Rightarrow> nat"
  evbuffer_remove :: "'b \<Rightarrow> nat \<Rightarrow> int \<times> byte list \<times> 'b"
  evbuffer_copyout :: "'b \<Rightarrow> nat \<Rightarrow> int \<times> byte list"
  evbuffer_copyout_from :: "'b \<Rightarrow> nat \<Rightarrow> nat \<Rightarrow> int \<times> byte list"
  evbuffer_drain :: "'b \<Rightarrow> nat \<Rightarrow> int \<times> 'b"
  evbuffer_add :: "'b \<Rightarrow> byte list \<Rightarrow> int \<times> 'b"
  evbuffer_remove_buffer :: "'b \<Rightarrow> 'b \<Rightarrow> nat \<Rightarrow> int \<times> 'b \<times> 'b"
  evbuffer_pullup :: "'b \<Rightarrow> nat \<Rightarrow> byte list option"

text \<open>
  The documented behaviour over the contents \<open>c\<close> of a buffer.  Additions succeed, that is, memory
  does not run out.  A pullup of more bytes than there are gives a null pointer.
\<close>

definition evbuffer_ok :: "('b, 'z) evbuffer_scheme \<Rightarrow> ('b \<Rightarrow> byte list) \<Rightarrow> bool" where
  "evbuffer_ok E c \<longleftrightarrow>
     c (evbuffer_new E) = [] \<and>
     (\<forall>b. evbuffer_get_length E b = length (c b)) \<and>
     (\<forall>b n. fst (evbuffer_remove E b n) = int (min n (length (c b))) \<and>
        fst (snd (evbuffer_remove E b n)) = take n (c b) \<and>
        c (snd (snd (evbuffer_remove E b n))) = drop n (c b)) \<and>
     (\<forall>b n. fst (evbuffer_copyout E b n) = int (min n (length (c b))) \<and>
        snd (evbuffer_copyout E b n) = take n (c b)) \<and>
     (\<forall>b p n. fst (evbuffer_copyout_from E b p n) = int (min n (length (c b) - p)) \<and>
        snd (evbuffer_copyout_from E b p n) = take n (drop p (c b))) \<and>
     (\<forall>b n. fst (evbuffer_drain E b n) = 0 \<and> c (snd (evbuffer_drain E b n)) = drop n (c b)) \<and>
     (\<forall>b d. fst (evbuffer_add E b d) = 0 \<and> c (snd (evbuffer_add E b d)) = c b @ d) \<and>
     (\<forall>a b n. fst (evbuffer_remove_buffer E a b n) = int (min n (length (c a))) \<and>
        c (fst (snd (evbuffer_remove_buffer E a b n))) = drop n (c a) \<and>
        c (snd (snd (evbuffer_remove_buffer E a b n))) = c b @ take n (c a)) \<and>
     (\<forall>b n. 0 < n \<longrightarrow>
        evbuffer_pullup E b n = (if n \<le> length (c b) then Some (take n (c b)) else None))"

section \<open>Operations\<close>

definition gdp_buf_new :: "('b, 'z) evbuffer_scheme \<Rightarrow> 'b" where
  "gdp_buf_new E = evbuffer_new E"

definition gdp_buf_getlength :: "('b, 'z) evbuffer_scheme \<Rightarrow> 'b \<Rightarrow> nat" where
  "gdp_buf_getlength E buf = evbuffer_get_length E buf"

definition gdp_buf_reset :: "('b, 'z) evbuffer_scheme \<Rightarrow> 'b \<Rightarrow> int \<times> 'b" where
  "gdp_buf_reset E b = evbuffer_drain E b (evbuffer_get_length E b)"

text \<open>The result of a failed read, -1, is converted to \<^verbatim>\<open>size_t\<close>.\<close>

definition gdp_buf_read :: "('b, 'z) evbuffer_scheme \<Rightarrow> 'b \<Rightarrow> nat \<Rightarrow> u64 \<times> byte list \<times> 'b" where
  "gdp_buf_read E buf sz =
     (case evbuffer_remove E buf sz of (istat, out, buf') \<Rightarrow> (word_of_int istat, out, buf'))"

definition gdp_buf_getchar :: "('b, 'z) evbuffer_scheme \<Rightarrow> 'b \<Rightarrow> int \<times> 'b" where
  "gdp_buf_getchar E buf =
     (case evbuffer_remove E buf 1 of (istat, cbuf, buf') \<Rightarrow>
        if istat \<le> 0 then (-1, buf') else (uint (hd cbuf), buf'))"

definition gdp_buf_peek :: "('b, 'z) evbuffer_scheme \<Rightarrow> 'b \<Rightarrow> nat \<Rightarrow> nat \<times> byte list" where
  "gdp_buf_peek E buf sz =
     (case evbuffer_copyout E buf sz of (s, out) \<Rightarrow> if s < 0 then (0, out) else (nat s, out))"

definition gdp_buf_drain :: "('b, 'z) evbuffer_scheme \<Rightarrow> 'b \<Rightarrow> nat \<Rightarrow> int \<times> 'b" where
  "gdp_buf_drain E buf sz = evbuffer_drain E buf sz"

definition gdp_buf_getptr :: "('b, 'z) evbuffer_scheme \<Rightarrow> 'b \<Rightarrow> nat \<Rightarrow> byte list option" where
  "gdp_buf_getptr E buf sz = evbuffer_pullup E buf sz"

definition gdp_buf_write :: "('b, 'z) evbuffer_scheme \<Rightarrow> 'b \<Rightarrow> byte list \<Rightarrow> int \<times> 'b" where
  "gdp_buf_write E buf d = evbuffer_add E buf d"

text \<open>The size -1 moves everything.  The result lists the output buffer first, as the arguments do.\<close>

definition gdp_buf_move :: "('b, 'z) evbuffer_scheme \<Rightarrow> 'b \<Rightarrow> 'b \<Rightarrow> int \<Rightarrow> int \<times> 'b \<times> 'b" where
  "gdp_buf_move E obuf ibuf sz =
     (let n = (if sz = -1 then gdp_buf_getlength E ibuf else nat sz) in
      case evbuffer_remove_buffer E ibuf obuf n of (i, ibuf', obuf') \<Rightarrow> (i, obuf', ibuf'))"

text \<open>
  The copying loop of \<^verbatim>\<open>_gdp_buf_raw_copy\<close> (libevent 2.1.1 or later, no buffer references): the
  read position is advanced by \<^verbatim>\<open>istat\<close>, the status of the addition.
\<close>

function raw_copy_loop ::
  "('b, 'z) evbuffer_scheme \<Rightarrow> 'b \<Rightarrow> int \<Rightarrow> nat \<Rightarrow> int \<Rightarrow> 'b \<Rightarrow> int \<times> 'b" where
  "raw_copy_loop E ibuf istat bufpos nleft obuf =
     (if nleft \<le> 0 then (istat, obuf)
      else case evbuffer_copyout_from E ibuf bufpos 4096 of (n_copied, xbuf) \<Rightarrow>
        if n_copied \<le> 0 then (n_copied, obuf)
        else case evbuffer_add E obuf xbuf of (istat', obuf') \<Rightarrow>
          if istat' < 0 then (istat', obuf')
          else raw_copy_loop E ibuf istat' (bufpos + nat istat') (nleft - n_copied) obuf')"
  by pat_completeness auto
termination
  by (relation "measure (\<lambda>(E, ibuf, istat, bufpos, nleft, obuf). nat nleft)") auto

declare raw_copy_loop.simps [simp del]

definition gdp_buf_raw_copy :: "('b, 'z) evbuffer_scheme \<Rightarrow> 'b \<Rightarrow> 'b \<Rightarrow> int \<times> 'b" where
  "gdp_buf_raw_copy E obuf ibuf =
     (let nleft = int (evbuffer_get_length E ibuf) in
      raw_copy_loop E ibuf (if nleft = 0 then 0 else -1) 0 nleft obuf)"

definition gdp_buf_copy :: "('b, 'z) evbuffer_scheme \<Rightarrow> 'b \<Rightarrow> 'b \<Rightarrow> int \<times> 'b" where
  "gdp_buf_copy E obuf ibuf = gdp_buf_raw_copy E obuf ibuf"

definition gdp_buf_dup :: "('b, 'z) evbuffer_scheme \<Rightarrow> 'b \<Rightarrow> 'b" where
  "gdp_buf_dup E ibuf = snd (gdp_buf_raw_copy E (gdp_buf_new E) ibuf)"

section \<open>Integers in network byte order\<close>

text \<open>
  The host's view of memory: a little-endian load or store is the big-endian one of the reversed
  bytes, and \<^verbatim>\<open>ntohl\<close> reads a host word's bytes as the network does.
\<close>

definition load16 :: "byte list \<Rightarrow> u16" where
  "load16 bs = (case GET16 (rev (take 2 bs)) of Some (v, _) \<Rightarrow> v | None \<Rightarrow> 0)"

definition load32 :: "byte list \<Rightarrow> u32" where
  "load32 bs = (case GET32 (rev (take 4 bs)) of Some (v, _) \<Rightarrow> v | None \<Rightarrow> 0)"

definition load64 :: "byte list \<Rightarrow> u64" where
  "load64 bs = (case GET64 (rev (take 8 bs)) of Some (v, _) \<Rightarrow> v | None \<Rightarrow> 0)"

definition store16 :: "u16 \<Rightarrow> byte list" where "store16 v = rev (PUT16 v)"
definition store32 :: "u32 \<Rightarrow> byte list" where "store32 v = rev (PUT32 v)"
definition store64 :: "u64 \<Rightarrow> byte list" where "store64 v = rev (PUT64 v)"

definition ntohs :: "u16 \<Rightarrow> u16" where "ntohs w = load16 (PUT16 w)"
definition ntohl :: "u32 \<Rightarrow> u32" where "ntohl w = load32 (PUT32 w)"

abbreviation "htons \<equiv> ntohs"
abbreviation "htonl \<equiv> ntohl"

text \<open>
  A read into a local variable of \<open>n\<close> bytes; \<open>junk\<close> is what the variable held before, and stays where
  the buffer was too short.
\<close>

definition remove_into ::
  "('b, 'z) evbuffer_scheme \<Rightarrow> byte list \<Rightarrow> 'b \<Rightarrow> nat \<Rightarrow> byte list \<times> 'b" where
  "remove_into E junk buf n =
     (case evbuffer_remove E buf n of (istat, d, buf') \<Rightarrow> (d @ drop (length d) junk, buf'))"

text \<open>Signed results are their two's complement words.\<close>

definition gdp_buf_get_int16 :: "('b, 'z) evbuffer_scheme \<Rightarrow> byte list \<Rightarrow> 'b \<Rightarrow> u16 \<times> 'b" where
  "gdp_buf_get_int16 E junk buf =
     (case remove_into E junk buf 2 of (t, buf') \<Rightarrow> (ucast (ntohl (scast (load16 t))), buf'))"

definition gdp_buf_get_uint16 :: "('b, 'z) evbuffer_scheme \<Rightarrow> byte list \<Rightarrow> 'b \<Rightarrow> u16 \<times> 'b" where
  "gdp_buf_get_uint16 E junk buf =
     (case remove_into E junk buf 2 of (t, buf') \<Rightarrow> (ucast (ntohl (ucast (load16 t))), buf'))"

definition gdp_buf_get_int32 :: "('b, 'z) evbuffer_scheme \<Rightarrow> byte list \<Rightarrow> 'b \<Rightarrow> u32 \<times> 'b" where
  "gdp_buf_get_int32 E junk buf =
     (case remove_into E junk buf 4 of (t, buf') \<Rightarrow> (ntohl (load32 t), buf'))"

definition gdp_buf_get_uint32 :: "('b, 'z) evbuffer_scheme \<Rightarrow> byte list \<Rightarrow> 'b \<Rightarrow> u32 \<times> 'b" where
  "gdp_buf_get_uint32 E junk buf =
     (case remove_into E junk buf 4 of (t, buf') \<Rightarrow> (ntohl (load32 t), buf'))"

definition gdp_buf_get_int48 :: "('b, 'z) evbuffer_scheme \<Rightarrow> byte list \<Rightarrow> 'b \<Rightarrow> u64 \<times> 'b" where
  "gdp_buf_get_int48 E junk buf =
     (case remove_into E (take 2 junk) buf 2 of (h, buf1) \<Rightarrow>
      case remove_into E (drop 2 junk) buf1 4 of (l, buf2) \<Rightarrow>
        (push_bit 32 (ucast (ntohs (load16 h))) OR ucast (ntohl (load32 l)), buf2))"

definition gdp_buf_get_uint48 :: "('b, 'z) evbuffer_scheme \<Rightarrow> byte list \<Rightarrow> 'b \<Rightarrow> u64 \<times> 'b" where
  "gdp_buf_get_uint48 E junk buf =
     (case remove_into E (take 2 junk) buf 2 of (h, buf1) \<Rightarrow>
      case remove_into E (drop 2 junk) buf1 4 of (l, buf2) \<Rightarrow>
        (push_bit 32 (ucast (ntohs (load16 h))) OR ucast (ntohl (load32 l)), buf2))"

text \<open>In the signed version the low half is an \<^verbatim>\<open>int32_t\<close> and is sign extended.\<close>

definition gdp_buf_get_int64 :: "('b, 'z) evbuffer_scheme \<Rightarrow> byte list \<Rightarrow> 'b \<Rightarrow> u64 \<times> 'b" where
  "gdp_buf_get_int64 E junk buf =
     (case remove_into E junk buf 8 of (tb, buf') \<Rightarrow>
        let t = load64 tb;
            h = htonl (ucast (drop_bit 32 t));
            l = htonl (ucast (t AND 0xffffffff))
        in (push_bit 32 (ucast l) OR scast h, buf'))"

definition gdp_buf_get_uint64 :: "('b, 'z) evbuffer_scheme \<Rightarrow> byte list \<Rightarrow> 'b \<Rightarrow> u64 \<times> 'b" where
  "gdp_buf_get_uint64 E junk buf =
     (case remove_into E junk buf 8 of (tb, buf') \<Rightarrow>
        let t = load64 tb;
            h = htonl (ucast (drop_bit 32 t));
            l = htonl (ucast (t AND 0xffffffff))
        in (push_bit 32 (ucast l) OR ucast h, buf'))"

definition gdp_buf_get_timespec ::
  "('b, 'z) evbuffer_scheme \<Rightarrow> byte list \<Rightarrow> 'b \<Rightarrow> ep_time \<times> 'b" where
  "gdp_buf_get_timespec E junk buf =
     (case gdp_buf_get_uint64 E junk buf of (sec, buf1) \<Rightarrow>
      case gdp_buf_get_uint32 E junk buf1 of (nsec, buf2) \<Rightarrow>
      case gdp_buf_get_uint32 E junk buf2 of (t, buf3) \<Rightarrow>
        (\<lparr>tv_sec = sint sec, tv_nsec = sint nsec, tv_accuracy = t\<rparr>, buf3))"

definition gdp_buf_put_int32 :: "('b, 'z) evbuffer_scheme \<Rightarrow> 'b \<Rightarrow> u32 \<Rightarrow> 'b" where
  "gdp_buf_put_int32 E buf v = snd (evbuffer_add E buf (store32 (htonl v)))"

definition gdp_buf_put_uint32 :: "('b, 'z) evbuffer_scheme \<Rightarrow> 'b \<Rightarrow> u32 \<Rightarrow> 'b" where
  "gdp_buf_put_uint32 E buf v = snd (evbuffer_add E buf (store32 (htonl v)))"

definition gdp_buf_put_int48 :: "('b, 'z) evbuffer_scheme \<Rightarrow> 'b \<Rightarrow> u64 \<Rightarrow> 'b" where
  "gdp_buf_put_int48 E buf v =
     (let h = htons (ucast (drop_bit 32 v AND 0xffff)); l = htonl (ucast (v AND 0xffffffff)) in
      snd (evbuffer_add E (snd (evbuffer_add E buf (store16 h))) (store32 l)))"

definition gdp_buf_put_uint48 :: "('b, 'z) evbuffer_scheme \<Rightarrow> 'b \<Rightarrow> u64 \<Rightarrow> 'b" where
  "gdp_buf_put_uint48 E buf v =
     (let h = htons (ucast (drop_bit 32 v AND 0xffff)); l = htonl (ucast (v AND 0xffffffff)) in
      snd (evbuffer_add E (snd (evbuffer_add E buf (store16 h))) (store32 l)))"

definition gdp_buf_put_int64 :: "('b, 'z) evbuffer_scheme \<Rightarrow> 'b \<Rightarrow> u64 \<Rightarrow> 'b" where
  "gdp_buf_put_int64 E buf v =
     (let t = push_bit 32 (ucast (htonl (ucast (v AND 0xffffffff))));
          t' = t OR ucast (htonl (ucast (drop_bit 32 v)) AND 0xffffffff)
      in snd (evbuffer_add E buf (store64 t')))"

definition gdp_buf_put_uint64 :: "('b, 'z) evbuffer_scheme \<Rightarrow> 'b \<Rightarrow> u64 \<Rightarrow> 'b" where
  "gdp_buf_put_uint64 E buf v =
     (let t = push_bit 32 (ucast (htonl (ucast (v AND 0xffffffff))));
          t' = t OR ucast (htonl (ucast (drop_bit 32 v)))
      in snd (evbuffer_add E buf (store64 t')))"

definition gdp_buf_put_timespec :: "('b, 'z) evbuffer_scheme \<Rightarrow> 'b \<Rightarrow> ep_time \<Rightarrow> 'b" where
  "gdp_buf_put_timespec E buf ts =
     gdp_buf_put_uint32 E
       (gdp_buf_put_uint32 E (gdp_buf_put_uint64 E buf (word_of_int (tv_sec ts)))
         (word_of_int (tv_nsec ts)))
       (tv_accuracy ts)"

section \<open>Buffers over their contents\<close>

lemma evbuffer_okD [simp]:
  assumes "evbuffer_ok E c"
  shows "c (evbuffer_new E) = []"
    and "evbuffer_get_length E b = length (c b)"
    and "fst (snd (evbuffer_remove E b n)) = take n (c b)"
    and "c (snd (snd (evbuffer_remove E b n))) = drop n (c b)"
    and "fst (evbuffer_copyout_from E b p n) = int (min n (length (c b) - p))"
    and "snd (evbuffer_copyout_from E b p n) = take n (drop p (c b))"
    and "fst (evbuffer_drain E b n) = 0"
    and "c (snd (evbuffer_drain E b n)) = drop n (c b)"
    and "fst (evbuffer_add E b d) = 0"
    and "c (snd (evbuffer_add E b d)) = c b @ d"
    and "0 < n \<Longrightarrow>
      evbuffer_pullup E b n = (if n \<le> length (c b) then Some (take n (c b)) else None)"
  using assms by (simp_all add: evbuffer_ok_def)

lemma remove_into_contents:
  assumes "evbuffer_ok E c" "c b = d @ r" "length d = n"
  obtains b' where "remove_into E junk b n = (d @ drop n junk, b')" "c b' = r"
  by (rule that [of "snd (snd (evbuffer_remove E b n))"])
    (use assms in \<open>simp_all add: remove_into_def split_beta\<close>)

text \<open>Storing what \<^verbatim>\<open>htonl\<close> gives is storing the big-endian bytes; loading and \<^verbatim>\<open>ntohl\<close> undo it.\<close>

lemma store_load:
  "length bs = 2 \<Longrightarrow> store16 (load16 bs) = bs"
  "length bs = 4 \<Longrightarrow> store32 (load32 bs) = bs"
  "length bs = 8 \<Longrightarrow> store64 (load64 bs) = bs"
proof -
  show "length bs = 2 \<Longrightarrow> store16 (load16 bs) = bs"
    by (rule c16.get_whole [of "rev bs"]) (simp_all add: load16_def store16_def)
  show "length bs = 4 \<Longrightarrow> store32 (load32 bs) = bs"
    by (rule c32.get_whole [of "rev bs"]) (simp_all add: load32_def store32_def)
  show "length bs = 8 \<Longrightarrow> store64 (load64 bs) = bs"
    by (rule c64.get_whole [of "rev bs"]) (simp_all add: load64_def store64_def)
qed

lemma load_store:
  "load16 (rev (PUT16 h) @ x) = h" "load32 (rev (PUT32 v) @ x) = v" "load64 (rev (PUT64 w) @ x) = w"
  using c16.get_put [of h "[]"] c32.get_put [of v "[]"] c64.get_put [of w "[]"]
  by (simp_all add: load16_def load32_def load64_def c16.put_length c32.put_length c64.put_length)

lemma load_append:
  "load16 (PUT16 h @ x) = load16 (PUT16 h)" "load32 (PUT32 v @ x) = load32 (PUT32 v)"
  "load64 (PUT64 w @ x) = load64 (PUT64 w)"
  by (simp_all add: load16_def load32_def load64_def c16.put_length c32.put_length c64.put_length)

lemma store_net [simp]: "store16 (htons h) = PUT16 h" "store32 (htonl v) = PUT32 v"
  by (simp_all add: ntohs_def ntohl_def store_load c16.put_length c32.put_length)

lemma net_load [simp]:
  "ntohs (load16 (PUT16 h @ x)) = h" "ntohl (load32 (PUT32 v @ x)) = v"
  using store_net(1) [of h] store_net(2) [of v] load_store(1) [of h "[]"] load_store(2) [of v "[]"]
  by (simp_all add: load_append store16_def store32_def ntohs_def ntohl_def rev_swap)

text \<open>A 64-bit word and its halves.\<close>

lemma halves_of: "push_bit 32 (ucast (ucast (drop_bit 32 v) :: u32)) OR
    ucast (ucast (v AND 0xffffffff) :: u32) = (v :: u64)"
proof -
  have m: "(0xffffffff :: u64) = mask 32" by (simp add: mask_eq_exp_minus_1)
  show ?thesis
    unfolding m
  proof (rule bit_word_eqI)
    fix n :: nat
    assume "n < LENGTH(64)"
    then show "bit (push_bit 32 (ucast (ucast (drop_bit 32 v) :: u32)) OR
        ucast (ucast (v AND mask 32) :: u32) :: u64) n = bit v n"
      by (cases "n < 32") (simp_all add: bit_simps less_diff_conv2)
  qed
qed

lemma high_half: "ucast (drop_bit 32 (push_bit 32 (ucast a) OR ucast b :: u64)) = (a :: u32)"
  for a b :: u32
  by (rule bit_word_eqI) (auto simp: bit_simps bit_u32_beyond)

lemma low_half: "ucast ((push_bit 32 (ucast a) OR ucast b :: u64) AND 0xffffffff) = (b :: u32)"
  for a b :: u32
proof -
  have m: "(0xffffffff :: u64) = mask 32" by (simp add: mask_eq_exp_minus_1)
  show ?thesis unfolding m by (rule bit_word_eqI) (auto simp: bit_simps)
qed

lemma PUT64_halves: "PUT64 (push_bit 32 (ucast a) OR ucast b) = PUT32 a @ PUT32 b"
  unfolding PUT64_def PUT32_def mask8
  by (auto intro!: bit_word_eqI simp: bit_simps bit_u32_beyond)

lemma put_contents [simp]:
  assumes "evbuffer_ok E c"
  shows "c (gdp_buf_put_uint32 E b v) = c b @ PUT32 v"
    and "c (gdp_buf_put_uint64 E b w) = c b @ PUT64 w"
    and "c (gdp_buf_put_int64 E b w) = c b @ PUT64 w"
proof -
  have rv: "store64 (push_bit 32 (ucast (htonl x)) OR ucast (htonl y)) = PUT32 y @ PUT32 x" for x y
    using store_net(2) [of x] store_net(2) [of y]
    by (simp add: store64_def store32_def PUT64_halves)
  have w: "PUT64 w = PUT32 (ucast (drop_bit 32 w)) @ PUT32 (ucast (w AND 0xffffffff))"
    using PUT64_halves [of "ucast (drop_bit 32 w)" "ucast (w AND 0xffffffff)"] by (simp only: halves_of)
  have m: "x AND 0xffffffff = x" for x :: u32
    using take_bit_word_eq_self [of 32 x] by (simp add: take_bit_eq_mask mask_eq_exp_minus_1)
  show "c (gdp_buf_put_uint32 E b v) = c b @ PUT32 v"
    using assms by (simp add: gdp_buf_put_uint32_def)
  show "c (gdp_buf_put_uint64 E b w) = c b @ PUT64 w"
    using assms by (simp only: gdp_buf_put_uint64_def Let_def evbuffer_okD rv w)
  show "c (gdp_buf_put_int64 E b w) = c b @ PUT64 w"
    using assms by (simp only: gdp_buf_put_int64_def Let_def evbuffer_okD rv w m)
qed

lemma get_uint32:
  assumes "evbuffer_ok E c" "c b = PUT32 v @ r"
  obtains b' where "gdp_buf_get_uint32 E junk b = (v, b')" "c b' = r"
  using remove_into_contents [OF assms, of 4 junk]
  by (metis (no_types, lifting) c32.put_length case_prod_conv gdp_buf_get_uint32_def net_load(2))

text \<open>What the loads of the two 64-bit readers see.\<close>

lemma load64_halves:
  "load64 (PUT64 w @ x) = push_bit 32 (ucast (load32 (PUT32 (ucast (w AND 0xffffffff))))) OR
     ucast (load32 (PUT32 (ucast (drop_bit 32 w))))"
proof -
  let ?h = "load32 (PUT32 (ucast (drop_bit 32 w)))" and ?l = "load32 (PUT32 (ucast (w AND 0xffffffff)))"
  have "PUT64 w = PUT32 (ucast (drop_bit 32 w)) @ PUT32 (ucast (w AND 0xffffffff))"
    using PUT64_halves [of "ucast (drop_bit 32 w)" "ucast (w AND 0xffffffff)"] by (simp only: halves_of)
  also have "\<dots> = rev (PUT32 ?l @ PUT32 ?h)"
    using store_load(2) [of "PUT32 (ucast (drop_bit 32 w))"] store_load(2) [of "PUT32 (ucast (w AND 0xffffffff))"]
    by (simp add: store32_def c32.put_length)
  also have "\<dots> = rev (PUT64 (push_bit 32 (ucast ?l) OR ucast ?h))" by (simp add: PUT64_halves)
  finally show ?thesis by (simp only: load_store)
qed

lemma get_int64_value:
  assumes "evbuffer_ok E c" "c b = PUT64 w @ r"
  obtains b' where
    "gdp_buf_get_int64 E junk b =
      (push_bit 32 (ucast (ucast (drop_bit 32 w) :: u32)) OR scast (ucast (w AND 0xffffffff) :: u32), b')"
    "gdp_buf_get_uint64 E junk b = (w, b')" "c b' = r"
proof -
  obtain b' where b': "remove_into E junk b 8 = (PUT64 w @ drop 8 junk, b')" "c b' = r"
    using remove_into_contents [OF assms, of 8 junk] c64.put_length by metis
  have l: "ntohl (load32 (PUT32 x)) = x" for x using net_load(2) [of x "[]"] by simp
  show thesis
    by (rule that [of b'])
      (simp_all only: gdp_buf_get_int64_def gdp_buf_get_uint64_def b' case_prod_conv Let_def
        load64_halves high_half low_half l halves_of)
qed

text \<open>Both 16-bit readers swap four bytes, so the value read is lost: what is left of it is the
  sign extension.\<close>

lemma get_uint16_zero: "fst (gdp_buf_get_uint16 E junk b) = 0"
proof -
  have "ucast (ntohl (ucast t)) = (0 :: u16)" for t :: u16
  proof -
    have "PUT32 (ucast t) = [0, 0] @ PUT16 t"
      unfolding PUT32_def PUT16_def mask8
      by (auto intro!: bit_word_eqI simp: bit_simps bit_byte_beyond bit_u16_beyond)
    then show ?thesis
      by (simp add: ntohl_def load32_def PUT16_def)
        (auto intro!: bit_word_eqI simp: bit_simps bit_byte_beyond bit_u16_beyond)
  qed
  then show ?thesis by (simp add: gdp_buf_get_uint16_def split_beta)
qed

text \<open>The copying loop never moves its read position, so every pass adds the same bytes.\<close>

lemma raw_copy_passes:
  assumes "evbuffer_ok E c" "c ib \<noteq> []"
  shows "c (snd (raw_copy_loop E ib st 0 n ob)) =
    c ob @ concat (replicate (nat ((n + int (min 4096 (length (c ib))) - 1) div
       int (min 4096 (length (c ib))))) (take 4096 (c ib)))"
proof (induction "nat n" arbitrary: n st ob rule: less_induct)
  case less
  define m where "m = int (min 4096 (length (c ib)))"
  have m: "0 < m" using assms(2) by (simp add: m_def)
  obtain xb where x: "evbuffer_copyout_from E ib 0 4096 = (m, xb)" "xb = take 4096 (c ib)"
    using assms(1) by (metis drop0 evbuffer_okD(5,6) diff_zero m_def prod.collapse)
  obtain ob' where o: "evbuffer_add E ob xb = (0, ob')" "c ob' = c ob @ xb"
    using assms(1) by (metis evbuffer_okD(9,10) prod.collapse)
  show ?case
  proof (cases "n \<le> 0")
    case True
    then have "(n + m - 1) div m \<le> 0" using m by (smt (verit) div_pos_pos_trivial div_neg_pos_less0)
    then show ?thesis using True by (simp add: raw_copy_loop.simps [of E ib] m_def)
  next
    case False
    have "(n + m - 1) div m = (n - m + m - 1) div m + 1"
      using m div_add_self2 [of m "n - 1"] by (simp add: algebra_simps)
    moreover have "0 \<le> (n - m + m - 1) div m" using False m by (simp add: pos_imp_zdiv_nonneg_iff)
    ultimately have k: "nat ((n + m - 1) div m) = Suc (nat ((n - m + m - 1) div m))" by simp
    have "c (snd (raw_copy_loop E ib 0 0 (n - m) ob')) =
        c ob' @ concat (replicate (nat ((n - m + m - 1) div m)) (take 4096 (c ib)))"
      using less [of "n - m" 0 ob'] False m unfolding m_def by simp
    then show ?thesis
      unfolding m_def [symmetric] k using False m x o
      by (subst raw_copy_loop.simps) simp
  qed
qed

lemma signed_join:
  fixes v :: u64
  defines "hi \<equiv> ucast (drop_bit 32 v) :: u32" and "lo \<equiv> ucast (v AND 0xffffffff) :: u32"
  shows "push_bit 32 (ucast hi) OR scast lo = v \<longleftrightarrow> \<not> bit v 31 \<or> drop_bit 32 v = mask 32"
proof -
  have m: "(0xffffffff :: u64) = mask 32" by (simp add: mask_eq_exp_minus_1)
  have b: "bit (push_bit 32 (ucast hi) OR scast lo :: u64) n \<longleftrightarrow> bit v n \<or> 32 \<le> n \<and> bit v 31"
    if "n < 64" for n
  proof -
    consider "n < 31" | "n = 31" | "32 \<le> n" by linarith
    then show ?thesis
      using that unfolding hi_def lo_def m by cases (auto simp: bit_simps less_diff_conv2 min_def)
  qed
  have d: "drop_bit 32 v = mask 32 \<longleftrightarrow> (\<forall>n. 32 \<le> n \<and> n < 64 \<longrightarrow> bit v n)"
  proof
    assume e: "drop_bit 32 v = mask 32"
    have "bit v n" if "32 \<le> n \<and> n < 64" for n
      using that arg_cong [OF e, of "\<lambda>w. bit w (n - 32)"] by (auto simp: bit_simps)
    then show "\<forall>n. 32 \<le> n \<and> n < 64 \<longrightarrow> bit v n" by blast
  next
    assume "\<forall>n. 32 \<le> n \<and> n < 64 \<longrightarrow> bit v n"
    then show "drop_bit 32 v = mask 32"
      using bit_imp_le_length [of v "32 + n" for n] by (fastforce intro!: bit_word_eqI simp: bit_simps)
  qed
  show ?thesis unfolding d using b by (auto simp: bit_eq_iff)
qed

lemma copy_blocks:
  assumes "evbuffer_ok E c"
  shows "(length (c ib) \<le> 4096 \<longrightarrow> c (snd (gdp_buf_copy E ob ib)) = c ob @ c ib) \<and>
    (4096 \<le> length (c ib) \<longrightarrow> c (snd (gdp_buf_copy E ob ib)) =
       c ob @ concat (replicate ((length (c ib) + 4095) div 4096) (take 4096 (c ib))))"
proof (cases "c ib = []")
  case True
  then show ?thesis
    using assms by (simp add: gdp_buf_copy_def gdp_buf_raw_copy_def Let_def raw_copy_loop.simps)
next
  case False
  let ?n = "length (c ib)"
  have *: "c (snd (gdp_buf_copy E ob ib)) =
      c ob @ concat (replicate (nat ((int ?n + int (min 4096 ?n) - 1) div int (min 4096 ?n)))
        (take 4096 (c ib)))"
    using raw_copy_passes [OF assms False] False assms
    by (simp add: gdp_buf_copy_def gdp_buf_raw_copy_def Let_def)
  have "nat ((int ?n + int (min 4096 ?n) - 1) div int (min 4096 ?n)) = nat 1" if "?n \<le> 4096"
  proof -
    have "0 < int ?n" using False by simp
    then have "((int ?n - 1) + int ?n) div int ?n = 1" by (subst div_add_self2) auto
    moreover have "int ?n + int (min 4096 ?n) - 1 = (int ?n - 1) + int ?n" "min 4096 ?n = ?n"
      using that by simp_all
    ultimately show ?thesis by metis
  qed
  moreover have "nat ((int ?n + int (min 4096 ?n) - 1) div int (min 4096 ?n)) = (?n + 4095) div 4096"
    if "4096 \<le> ?n"
    using that by (simp add: min_absorb1 nat_div_distrib)
  ultimately show ?thesis using * by simp
qed

lemma copy_contents:
  "evbuffer_ok E c \<Longrightarrow> length (c ib) \<le> 4096 \<Longrightarrow> c (snd (gdp_buf_copy E ob ib)) = c ob @ c ib"
  using copy_blocks [of E c ib ob] by blast

section \<open>Properties\<close>

text \<open>A time stamp written to an empty buffer in network order is read back unchanged and
  nothing is left over.\<close>

theorem buf_timespec_roundtrip:
  assumes "evbuffer_ok E c" "c b = []"
    "- (2 ^ 63) \<le> tv_sec ts" "tv_sec ts < 2 ^ 63" "- (2 ^ 31) \<le> tv_nsec ts" "tv_nsec ts < 2 ^ 31"
    "gdp_buf_get_timespec E junk (gdp_buf_put_timespec E b ts) = (ts', b')"
  shows "ts' = ts \<and> c b' = []"
proof -
  let ?b = "gdp_buf_put_timespec E b ts"
  let ?s = "word_of_int (tv_sec ts) :: u64" and ?n = "word_of_int (tv_nsec ts) :: u32"
  have c0: "c ?b = PUT64 ?s @ PUT32 ?n @ PUT32 (tv_accuracy ts) @ []"
    using assms(1,2) by (simp add: gdp_buf_put_timespec_def)
  obtain b1 where b1: "gdp_buf_get_uint64 E junk ?b = (?s, b1)" "c b1 = PUT32 ?n @ PUT32 (tv_accuracy ts) @ []"
    by (rule get_int64_value [OF assms(1) c0])
  obtain b2 where b2: "gdp_buf_get_uint32 E junk b1 = (?n, b2)" "c b2 = PUT32 (tv_accuracy ts) @ []"
    by (rule get_uint32 [OF assms(1) b1(2)])
  obtain b3 where b3: "gdp_buf_get_uint32 E junk b2 = (tv_accuracy ts, b3)" "c b3 = []"
    by (rule get_uint32 [OF assms(1) b2(2)])
  have "sint ?s = tv_sec ts" using assms(3,4) 
    by (simp add: signed_of_int signed_take_bit_int_eq_self)
  moreover have "sint ?n = tv_nsec ts" using assms(5,6)
    by (simp add: signed_of_int signed_take_bit_int_eq_self)
  ultimately show ?thesis
    using assms(7) b1(1) b2(1) b3 by (cases ts) (auto simp: gdp_buf_get_timespec_def)
qed

text \<open>The list instance of the library's laws, for evaluating the model.\<close>

definition list_evbuffer :: "byte list evbuffer" where
  "list_evbuffer =
     \<lparr>evbuffer_new = [], evbuffer_get_length = length,
      evbuffer_remove = (\<lambda>b n. (int (min n (length b)), take n b, drop n b)),
      evbuffer_copyout = (\<lambda>b n. (int (min n (length b)), take n b)),
      evbuffer_copyout_from = (\<lambda>b p n. (int (min n (length b - p)), take n (drop p b))),
      evbuffer_drain = (\<lambda>b n. (0, drop n b)), evbuffer_add = (\<lambda>b d. (0, b @ d)),
      evbuffer_remove_buffer = (\<lambda>a b n. (int (min n (length a)), drop n a, b @ take n a)),
      evbuffer_pullup = (\<lambda>b n. if n \<le> length b then Some (take n b) else None)\<rparr>"

lemma list_evbuffer_ok: "evbuffer_ok list_evbuffer (\<lambda>b. b)"
  by (simp add: evbuffer_ok_def list_evbuffer_def)

theorem buf_timespec_roundtrip_witness:
  "gdp_buf_get_timespec list_evbuffer (replicate 8 0xAA) (gdp_buf_put_timespec list_evbuffer []
     \<lparr>tv_sec = -5, tv_nsec = 999999999, tv_accuracy = 7\<rparr>) =
   (\<lparr>tv_sec = -5, tv_nsec = 999999999, tv_accuracy = 7\<rparr>, [])"
  (is "?r = (?ts, _)")
proof -
  have "?r = (fst ?r, snd ?r)" by simp
  from buf_timespec_roundtrip [OF list_evbuffer_ok refl _ _ _ _ this] show ?thesis
    by (simp add: prod_eq_iff)
qed

text \<open>A signed 64-bit integer written and read back is unchanged exactly when bit 31 is clear or
  the upper half is all ones: the reader sign-extends the lower half.\<close>

theorem buf_int64_reads_back_iff:
  assumes "evbuffer_ok E c" "c b = []"
  shows "fst (gdp_buf_get_int64 E junk (gdp_buf_put_int64 E b v)) = v \<longleftrightarrow>
    \<not> bit v 31 \<or> drop_bit 32 v = mask 32"
proof -
  have "c (gdp_buf_put_int64 E b v) = PUT64 v @ []" using assms by simp
  from get_int64_value [OF assms(1) this] show ?thesis by (metis fst_conv signed_join)
qed

theorem buf_int64_reads_back_iff_witness:
  "fst (gdp_buf_get_int64 list_evbuffer [] (gdp_buf_put_int64 list_evbuffer [] 0x80000000)) \<noteq> 0x80000000"
  by (subst buf_int64_reads_back_iff [OF list_evbuffer_ok refl]) code_simp

text \<open>Copying a buffer appends its contents when it holds at most 4096 bytes; a longer buffer is
  copied as its first 4096 bytes again and again, as many times as it has blocks.\<close>

theorem buf_copy_contents:
  assumes "evbuffer_ok E c"
  shows "(length (c ib) \<le> 4096 \<longrightarrow> c (snd (gdp_buf_copy E ob ib)) = c ob @ c ib) \<and>
    (4096 \<le> length (c ib) \<longrightarrow> c (snd (gdp_buf_copy E ob ib)) =
       c ob @ concat (replicate ((length (c ib) + 4095) div 4096) (take 4096 (c ib))))"
  using copy_blocks [OF assms] by blast

theorem buf_copy_contents_witness:
  "snd (gdp_buf_copy list_evbuffer [] (replicate 4096 1 @ [2])) = replicate 8192 1"
proof -
  have "concat (replicate 2 (replicate 4096 x)) = replicate 8192 x" for x :: byte
    by (simp add: numeral_2_eq_2 flip: replicate_add)
  then show ?thesis
    using buf_copy_contents [OF list_evbuffer_ok, where ib = "replicate 4096 1 @ [2]" and ob = "[]"]
    by simp
qed

end
