(* ===== verification/Gdp_Chan.thy ===== *)
theory Gdp_Chan
  imports Gdp_Buf "HOL-Library.Monad_Syntax"
begin

text \<open>
  The channel to the routing layer, \<^verbatim>\<open>gdp/gdp_chan.c\<close> and the packet format of \<^verbatim>\<open>gdp_chan.h\<close>: the
  packet header and its reader, the loop that hands received packets to the session layer, sending,
  and the opening of a channel.  Sockets, name resolution and libevent's buffered sockets are
  parameters; the callbacks a channel holds act on a client state of any type.
\<close>

section \<open>Packet format\<close>

definition GDP_CHAN_PROTO_VERSION :: byte where "GDP_CHAN_PROTO_VERSION = 4"
definition MIN_HEADER_LENGTH :: nat where "MIN_HEADER_LENGTH = 1 + 1 + 1 + 1 + 4 + 2 + 2 + 32 + 32"
definition GDP_TTL_DEFAULT :: byte where "GDP_TTL_DEFAULT = 15"
definition GDP_PKT_ADDR_TYPE_MASK :: byte where "GDP_PKT_ADDR_TYPE_MASK = 0x07"
definition GDP_PKT_TYPE_MASK :: byte where "GDP_PKT_TYPE_MASK = 0xe0"
definition GDP_PKT_TYPE_REGULAR :: byte where "GDP_PKT_TYPE_REGULAR = 0x00"
definition GDP_PKT_TYPE_ADVERTISE :: byte where "GDP_PKT_TYPE_ADVERTISE = 0x40"
definition GDP_PKT_TYPE_WITHDRAW :: byte where "GDP_PKT_TYPE_WITHDRAW = 0x60"
definition GDP_PKT_TYPE_NAK_NOROUTE :: byte where "GDP_PKT_TYPE_NAK_NOROUTE = 0x80"
definition GDP_PKT_SEQNO_SHIFT :: nat where "GDP_PKT_SEQNO_SHIFT = 16"
definition GDP_PKT_SEQNO_MASK :: u32 where "GDP_PKT_SEQNO_MASK = 0x7fff"

lemmas pkt_defs = GDP_CHAN_PROTO_VERSION_def MIN_HEADER_LENGTH_def GDP_TTL_DEFAULT_def
  GDP_PKT_ADDR_TYPE_MASK_def GDP_PKT_TYPE_MASK_def GDP_PKT_TYPE_REGULAR_def
  GDP_PKT_TYPE_ADVERTISE_def GDP_PKT_TYPE_WITHDRAW_def GDP_PKT_TYPE_NAK_NOROUTE_def
  GDP_PKT_SEQNO_SHIFT_def GDP_PKT_SEQNO_MASK_def

section \<open>Reading a header\<close>

text \<open>What \<^verbatim>\<open>read_header\<close> gives back: the status, the input buffer and the four output parameters.\<close>

record 'b hdr_result =
  rh_stat :: ep_stat
  rh_buf :: 'b
  rh_src :: "byte list"
  rh_dst :: "byte list"
  rh_seqno :: u16
  rh_plen :: nat

text \<open>The code after the label \<^verbatim>\<open>done\<close>; \<open>r\<close> holds the output parameters so far.\<close>

definition read_header_done ::
  "('b, 'z) evbuffer_scheme \<Rightarrow> ep_stat \<Rightarrow> nat \<Rightarrow> nat \<Rightarrow> u16 \<Rightarrow> 'b hdr_result \<Rightarrow> 'b hdr_result" where
  "read_header_done E estat hdr_len payload_len seqno r =
     (if EP_STAT_ISOK estat then
        r\<lparr>rh_stat := EP_STAT_FROM_INT (int payload_len), rh_seqno := seqno, rh_plen := payload_len\<rparr>
      else r\<lparr>rh_stat := estat, rh_buf := snd (gdp_buf_drain E (rh_buf r) (hdr_len + payload_len)),
             rh_plen := 0\<rparr>)"

text \<open>The fields after the header length; the outer option is a read beyond the pulled-up bytes.\<close>

definition read_header_fields ::
  "('b, 'z) evbuffer_scheme \<Rightarrow> nat \<Rightarrow> byte list \<Rightarrow> 'b hdr_result \<Rightarrow> 'b hdr_result option" where
  "read_header_fields E hdr_len pbp r =
     do { (flags, pbp) \<leftarrow> GET8 pbp;
          (ttl, pbp) \<leftarrow> GET8 pbp;
          (seq_mf_foff, pbp) \<leftarrow> GET32 pbp;
          let seqno = ucast (drop_bit GDP_PKT_SEQNO_SHIFT seq_mf_foff AND GDP_PKT_SEQNO_MASK);
          (frag_len, pbp) \<leftarrow> GET16 pbp;
          (plen, pbp) \<leftarrow> GET16 pbp;
          let payload_len = unat plen;
          if flags AND GDP_PKT_ADDR_TYPE_MASK \<noteq> 0 then
            Some (read_header_done E GDP_STAT_PDU_CORRUPT hdr_len payload_len seqno r)
          else if length pbp < 64 then None
          else
            let r = r\<lparr>rh_dst := take 32 pbp, rh_src := take 32 (drop 32 pbp)\<rparr> in
            if flags AND GDP_PKT_TYPE_MASK = GDP_PKT_TYPE_NAK_NOROUTE then
              Some (read_header_done E GDP_STAT_NAK_NOROUTE hdr_len payload_len seqno r)
            else if flags AND GDP_PKT_TYPE_MASK \<noteq> GDP_PKT_TYPE_REGULAR then
              Some (read_header_done E GDP_STAT_PDU_CORRUPT hdr_len payload_len seqno r)
            else if gdp_buf_getlength E (rh_buf r) < hdr_len + payload_len then
              Some (r\<lparr>rh_stat := GDP_STAT_KEEP_READING\<rparr>)
            else
              Some (read_header_done E EP_STAT_OK hdr_len payload_len seqno
                (r\<lparr>rh_buf := snd (gdp_buf_drain E (rh_buf r) hdr_len)\<rparr>)) }"

definition read_header :: "('b, 'z) evbuffer_scheme \<Rightarrow> 'b hdr_result \<Rightarrow> 'b hdr_result option" where
  "read_header E r =
     (case gdp_buf_getptr E (rh_buf r) MIN_HEADER_LENGTH of
        None \<Rightarrow> Some (read_header_done E GDP_STAT_KEEP_READING 0 0 0 r)
      | Some pbp \<Rightarrow>
          do { (ver, pbp) \<leftarrow> GET8 pbp;
               if ver \<noteq> GDP_CHAN_PROTO_VERSION then
                 Some (r\<lparr>rh_stat := GDP_STAT_PDU_VERSION_MISMATCH,
                         rh_buf := snd (gdp_buf_drain E (rh_buf r) (gdp_buf_getlength E (rh_buf r))),
                         rh_plen := 0\<rparr>)
               else
                 do { (h, pbp) \<leftarrow> GET8 pbp;
                      let hdr_len = unat (h AND 0x3F) * 4;
                      if hdr_len < MIN_HEADER_LENGTH then
                        Some (read_header_done E GDP_STAT_PDU_CORRUPT hdr_len 0 0 r)
                      else if gdp_buf_getlength E (rh_buf r) < hdr_len then
                        Some (r\<lparr>rh_stat := GDP_STAT_KEEP_READING\<rparr>)
                      else read_header_fields E hdr_len pbp r } })"

section \<open>The channel\<close>

datatype chan_state =
    GDP_CHAN_UNCONNECTED | GDP_CHAN_CONNECTING | GDP_CHAN_CONNECTED | GDP_CHAN_ERROR | GDP_CHAN_CLOSING

text \<open>The conditions libevent reports on a socket; the empty list stands for a close by the user.\<close>

datatype bev_event = BEV_EVENT_CONNECTED | BEV_EVENT_EOF | BEV_EVENT_ERROR

text \<open>
  The structure \<^verbatim>\<open>gdp_chan\<close>: \<open>'b\<close> are input buffers, \<open>'v\<close> buffered sockets and \<open>'s\<close> the state of
  the session layer the callbacks work on.
\<close>

record ('b, 'v, 's) gdp_chan =
  state :: chan_state
  bev :: "'v option"
  router_addr :: "byte list option"
  recv_cb :: "(byte list \<Rightarrow> byte list \<Rightarrow> u16 \<Rightarrow> 'b \<Rightarrow> nat \<Rightarrow> 's \<Rightarrow> ep_stat \<times> 'b \<times> 's) option"
  ioevent_cb :: "(bev_event list \<Rightarrow> 's \<Rightarrow> 's) option"
  router_cb :: "(byte list \<Rightarrow> byte list \<Rightarrow> nat \<Rightarrow> ep_stat \<Rightarrow> 's \<Rightarrow> ep_stat \<times> 's) option"
  advert_cb :: "'s \<Rightarrow> 's"

section \<open>Receiving\<close>

text \<open>One pass of the loop of \<^verbatim>\<open>chan_read_cb\<close> after the header has been read.\<close>

definition chan_router_error ::
  "('b, 'z) evbuffer_scheme \<Rightarrow> ('b, 'v, 's) gdp_chan \<Rightarrow> 'b hdr_result \<Rightarrow> 's \<Rightarrow> ep_stat \<times> 'b \<times> 's" where
  "chan_router_error E chan r s =
     (case router_cb chan of
        Some cb \<Rightarrow>
          (case cb (rh_src r) (rh_dst r) (rh_plen r) (rh_stat r) s of (estat, s) \<Rightarrow> (estat, rh_buf r, s))
      | None \<Rightarrow> (GDP_STAT_NOT_IMPLEMENTED, snd (gdp_buf_drain E (rh_buf r) (rh_plen r)), s))"

definition chan_deliver ::
  "('b, 'z) evbuffer_scheme \<Rightarrow> ('b, 'v, 's) gdp_chan \<Rightarrow> 'b hdr_result \<Rightarrow> 's \<Rightarrow> 'b \<times> 's" where
  "chan_deliver E chan r s =
     (case (if EP_STAT_ISOK (rh_stat r) then (rh_stat r, rh_buf r, s) else chan_router_error E chan r s) of
        (estat, ibuf, s) \<Rightarrow>
          if EP_STAT_ISOK estat then
            (case recv_cb chan of
               Some cb \<Rightarrow> snd (cb (rh_src r) (rh_dst r) (rh_seqno r) ibuf (rh_plen r) s)
             | None \<Rightarrow> (snd (gdp_buf_drain E ibuf (rh_plen r)), s))
          else (ibuf, s))"

text \<open>The loop may run forever; not returning is \<^term>\<open>None\<close>.\<close>

partial_function (option) chan_read_loop ::
  "('b, 'z) evbuffer_scheme \<Rightarrow> ('b, 'v, 's) gdp_chan \<Rightarrow> 'b hdr_result \<Rightarrow> 's \<Rightarrow> ('b \<times> 's) option" where
  "chan_read_loop E chan r s =
     (if gdp_buf_getlength E (rh_buf r) < MIN_HEADER_LENGTH then Some (rh_buf r, s)
      else
        Option.bind (read_header E r) (\<lambda>r'.
          if rh_stat r' = GDP_STAT_KEEP_READING then Some (rh_buf r', s)
          else case chan_deliver E chan r' s of (ibuf, s') \<Rightarrow>
            chan_read_loop E chan (r'\<lparr>rh_buf := ibuf\<rparr>) s'))"

text \<open>\<open>src\<close> and \<open>dst\<close> are uninitialised locals, so their first contents are parameters.\<close>

definition chan_read_cb ::
  "('b, 'z) evbuffer_scheme \<Rightarrow> ('b, 'v, 's) gdp_chan \<Rightarrow> byte list \<Rightarrow> byte list \<Rightarrow> 'b \<Rightarrow> 's \<Rightarrow>
   ('b \<times> 's) option" where
  "chan_read_cb E chan src dst ibuf s =
     chan_read_loop E chan
       \<lparr>rh_stat = EP_STAT_OK, rh_buf = ibuf, rh_src = src, rh_dst = dst, rh_seqno = 0, rh_plen = 0\<rparr> s"

section \<open>Sending\<close>

text \<open>The calls on a buffered socket: queue bytes, or move a whole buffer to the output.\<close>

record ('v, 'b) bufferevent =
  bufferevent_write :: "'v \<Rightarrow> byte list \<Rightarrow> int \<times> 'v"
  bufferevent_write_buffer :: "'v \<Rightarrow> 'b \<Rightarrow> int \<times> 'v \<times> 'b"

definition bufferevent_ok ::
  "('v, 'b, 'y) bufferevent_scheme \<Rightarrow> ('v \<Rightarrow> byte list) \<Rightarrow> ('b \<Rightarrow> byte list) \<Rightarrow> bool" where
  "bufferevent_ok B out c \<longleftrightarrow>
     (\<forall>v d. fst (bufferevent_write B v d) = 0 \<and> out (snd (bufferevent_write B v d)) = out v @ d) \<and>
     (\<forall>v b. fst (bufferevent_write_buffer B v b) = 0 \<and>
        out (fst (snd (bufferevent_write_buffer B v b))) = out v @ c b \<and>
        c (snd (snd (bufferevent_write_buffer B v b))) = [])"

definition send_header :: "byte list \<Rightarrow> byte list \<Rightarrow> byte \<Rightarrow> nat \<Rightarrow> byte list" where
  "send_header src dst tos payload_len =
     PUT8 GDP_CHAN_PROTO_VERSION @ PUT8 (of_nat (MIN_HEADER_LENGTH div 4)) @ PUT8 tos @
     PUT8 GDP_TTL_DEFAULT @
     PUT32 (push_bit GDP_PKT_SEQNO_SHIFT (0 AND GDP_PKT_SEQNO_MASK)) @
     PUT16 0 @ PUT16 (of_nat payload_len) @ take 32 dst @ take 32 src"

definition send_helper ::
  "('b, 'z) evbuffer_scheme \<Rightarrow> ('v, 'b, 'y) bufferevent_scheme \<Rightarrow> ('b, 'v, 's) gdp_chan \<Rightarrow>
   byte list \<Rightarrow> byte list \<Rightarrow> 'b option \<Rightarrow> byte \<Rightarrow> ep_stat \<times> ('b, 'v, 's) gdp_chan \<times> 'b option" where
  "send_helper E B chan src dst payload tos =
     (let payload_len = (case payload of None \<Rightarrow> 0 | Some b \<Rightarrow> gdp_buf_getlength E b) in
      case bev chan of
        None \<Rightarrow> (GDP_STAT_DEAD_DAEMON, chan, payload)
      | Some v \<Rightarrow>
          if 65535 < payload_len then (GDP_STAT_PDU_TOO_LONG, chan, payload)
          else case bufferevent_write B v (send_header src dst tos payload_len) of (i, v1) \<Rightarrow>
            if i < 0 then (GDP_STAT_PDU_WRITE_FAIL, chan\<lparr>bev := Some v1\<rparr>, payload)
            else if 0 < payload_len then
              (case bufferevent_write_buffer B v1 (the payload) of (i, v2, b) \<Rightarrow>
                 (if i < 0 then GDP_STAT_PDU_WRITE_FAIL else EP_STAT_OK,
                  chan\<lparr>bev := Some v2\<rparr>, Some b))
            else (EP_STAT_OK, chan\<lparr>bev := Some v1\<rparr>, payload))"

definition gdp_chan_send ::
  "('b, 'z) evbuffer_scheme \<Rightarrow> ('v, 'b, 'y) bufferevent_scheme \<Rightarrow> ('b, 'v, 's) gdp_chan \<Rightarrow>
   byte list \<Rightarrow> byte list \<Rightarrow> 'b option \<Rightarrow> byte \<Rightarrow> ep_stat \<times> ('b, 'v, 's) gdp_chan \<times> 'b option" where
  "gdp_chan_send E B chan src dst payload tos = send_helper E B chan src dst payload tos"

definition gdp_chan_advertise ::
  "('b, 'z) evbuffer_scheme \<Rightarrow> ('v, 'b, 'y) bufferevent_scheme \<Rightarrow> byte list \<Rightarrow>
   ('b, 'v, 's) gdp_chan \<Rightarrow> byte list \<Rightarrow> ep_stat \<times> ('b, 'v, 's) gdp_chan" where
  "gdp_chan_advertise E B my_name chan gname =
     (case send_helper E B chan my_name gname None GDP_PKT_TYPE_ADVERTISE of (estat, chan, _) \<Rightarrow>
        (estat, chan))"

definition gdp_chan_withdraw ::
  "('b, 'z) evbuffer_scheme \<Rightarrow> ('v, 'b, 'y) bufferevent_scheme \<Rightarrow> byte list \<Rightarrow>
   ('b, 'v, 's) gdp_chan \<Rightarrow> byte list \<Rightarrow> ep_stat \<times> ('b, 'v, 's) gdp_chan" where
  "gdp_chan_withdraw E B my_name chan gname =
     (case send_helper E B chan my_name gname None GDP_PKT_TYPE_WITHDRAW of (estat, chan, _) \<Rightarrow>
        (estat, chan))"

section \<open>Opening and closing\<close>

text \<open>
  The network as the code sees it: \<^verbatim>\<open>getaddrinfo\<close> gives an error or addresses, an address gives no
  socket, no connection (both with \<^verbatim>\<open>errno\<close>) or a socket.  \<open>zc_info\<close> is what Zeroconf found,
  \<open>routers\<close> and \<open>router_port\<close> are administrative parameters.
\<close>

datatype eai = EAI_SYSTEM int | EAI_NONAME | EAI_OTHER

datatype 'v conn = NoSocket int | NoConnect int | Conn 'v

record ('a, 'v) net =
  getaddrinfo :: "byte list \<Rightarrow> byte list \<Rightarrow> eai + 'a list"
  connect :: "'a \<Rightarrow> 'v conn"
  zc_info :: "byte list option"
  routers :: "byte list"
  router_port :: "byte list"

definition strlcpy :: "byte list \<Rightarrow> nat \<Rightarrow> byte list" where
  "strlcpy src n = take (n - 1) src"

definition strlcat :: "byte list \<Rightarrow> byte list \<Rightarrow> nat \<Rightarrow> byte list" where
  "strlcat dst src n = dst @ take (n - 1 - length dst) src"

definition open_addresses :: "('a, 'v) net \<Rightarrow> ('b, 'v, 's) gdp_chan \<Rightarrow> byte list" where
  "open_addresses N chan =
     (case router_addr chan of
        Some (a # as) \<Rightarrow> strlcpy (a # as) 500
      | _ \<Rightarrow>
          let abuf = (case zc_info N of
                Some (a # as) \<Rightarrow> strlcat (strlcpy (a # as) 500) [0x3B] 500
              | _ \<Rightarrow> [])
          in strlcat abuf (routers N) 500)"

text \<open>Split an address into host and port: \<^verbatim>\<open>[literal]:port\<close>, or the part after the last colon.\<close>

definition split_last_colon :: "byte list \<Rightarrow> byte list \<times> byte list option" where
  "split_last_colon p =
     (if 0x3A \<in> set p then
        (rev (tl (dropWhile (\<lambda>c. c \<noteq> 0x3A) (rev p))), Some (rev (takeWhile (\<lambda>c. c \<noteq> 0x3A) (rev p))))
      else (p, None))"

definition host_port :: "byte list \<Rightarrow> byte list \<Rightarrow> byte list \<times> byte list" where
  "host_port dflt spec =
     (let (host, port) =
        (if spec \<noteq> [] \<and> hd spec = 0x5B then
           let body = tl spec in
           if 0x5D \<in> set body then
             (takeWhile (\<lambda>c. c \<noteq> 0x5D) body, snd (split_last_colon (tl (dropWhile (\<lambda>c. c \<noteq> 0x5D) body))))
           else (body, None)
         else split_last_colon spec)
      in (host, case port of None \<Rightarrow> dflt | Some [] \<Rightarrow> dflt | Some p \<Rightarrow> p))"

fun try_addrs :: "('a, 'v) net \<Rightarrow> ep_stat \<Rightarrow> 'a list \<Rightarrow> ep_stat \<times> 'v option" where
  "try_addrs N estat [] = (estat, None)"
| "try_addrs N estat (a # as) =
     (case connect N a of
        NoSocket e \<Rightarrow> try_addrs N (ep_stat_from_errno e) as
      | NoConnect e \<Rightarrow> try_addrs N (ep_stat_from_errno e) as
      | Conn v \<Rightarrow> (EP_STAT_OK, Some v))"

definition gai_stat :: "eai \<Rightarrow> ep_stat" where
  "gai_stat r =
     (case r of
        EAI_SYSTEM e \<Rightarrow>
          let estat = ep_stat_from_errno e in
          if EP_STAT_ISOK estat then EP_STAT_DNS_NOTFOUND else estat
      | EAI_NONAME \<Rightarrow> EP_STAT_DNS_NOTFOUND
      | EAI_OTHER \<Rightarrow> EP_STAT_DNS_FAILURE)"

definition try_spec :: "('a, 'v) net \<Rightarrow> ep_stat \<Rightarrow> byte list \<Rightarrow> ep_stat \<times> 'v option" where
  "try_spec N estat spec =
     (case host_port (router_port N) spec of (host, port) \<Rightarrow>
        case getaddrinfo N host port of
          Inl r \<Rightarrow> (gai_stat r, None)
        | Inr as \<Rightarrow> try_addrs N estat as)"

lemma tl_dropWhile_shorter: "dropWhile P xs \<noteq> [] \<Longrightarrow> length (tl (dropWhile P xs)) < length xs"
  using length_dropWhile_le [of P xs] by (cases "dropWhile P xs") auto

function try_specs :: "('a, 'v) net \<Rightarrow> ep_stat \<Rightarrow> byte list \<Rightarrow> ep_stat \<times> 'v option" where
  "try_specs N estat abuf =
     (let host = dropWhile (\<lambda>c. c = 0x20 \<or> c = 0x09) (takeWhile (\<lambda>c. c \<noteq> 0x3B) abuf);
          delim = dropWhile (\<lambda>c. c \<noteq> 0x3B) abuf;
          (estat', v) = (if host = [] then (estat, None) else try_spec N estat host)
      in if host \<noteq> [] \<and> EP_STAT_ISOK estat' then (estat', v)
         else if delim = [] then (estat', v)
         else try_specs N estat' (tl delim))"
  by pat_completeness auto
termination
  by (relation "measure (\<lambda>(N, estat, abuf). length abuf)") (auto simp only: in_measure split_conv wf_measure dest: tl_dropWhile_shorter)

declare try_specs.simps [simp del]

definition chan_open_helper ::
  "('a, 'v) net \<Rightarrow> ('b, 'v, 's) gdp_chan \<Rightarrow> 's \<Rightarrow> ep_stat \<times> ('b, 'v, 's) gdp_chan \<times> 's" where
  "chan_open_helper N chan s =
     (case try_specs N GDP_STAT_NOTFOUND (open_addresses N chan) of (estat, v) \<Rightarrow>
        let chan = (if v = None then chan else chan\<lparr>bev := v\<rparr>) in
        if EP_STAT_ISOK estat then (estat, chan, advert_cb chan s) else (estat, chan, s))"

definition chan_do_close :: "('b, 'v, 's) gdp_chan option \<Rightarrow> bev_event list \<Rightarrow> 's \<Rightarrow> ep_stat \<times> 's" where
  "chan_do_close chan what s =
     (case chan of
        None \<Rightarrow> (EP_STAT_ERROR, s)
      | Some ch \<Rightarrow> (EP_STAT_OK, case ioevent_cb ch of None \<Rightarrow> s | Some cb \<Rightarrow> cb what s))"

definition gdp_chan_close :: "('b, 'v, 's) gdp_chan option \<Rightarrow> 's \<Rightarrow> ep_stat \<times> 's" where
  "gdp_chan_close chan s = chan_do_close chan [] s"

text \<open>\<open>cbs\<close> is a structure that holds the callbacks passed to \<^verbatim>\<open>_gdp_chan_open\<close>.\<close>

definition gdp_chan_open ::
  "('a, 'v) net \<Rightarrow> byte list option \<Rightarrow> ('b, 'v, 's) gdp_chan \<Rightarrow> 's \<Rightarrow>
   ep_stat \<times> ('b, 'v, 's) gdp_chan option \<times> 's" where
  "gdp_chan_open N addr cbs s =
     (let chan = cbs\<lparr>state := GDP_CHAN_CONNECTING, bev := None, router_addr := addr\<rparr> in
      case chan_open_helper N chan s of (estat, chan, s) \<Rightarrow>
        if EP_STAT_ISOK estat then (estat, Some chan, s)
        else (estat, None, snd (chan_do_close (Some chan) [BEV_EVENT_ERROR] s)))"

definition chan_reopen ::
  "('a, 'v) net \<Rightarrow> ('b, 'v, 's) gdp_chan \<Rightarrow> 's \<Rightarrow> ep_stat \<times> ('b, 'v, 's) gdp_chan \<times> 's" where
  "chan_reopen N chan s = chan_open_helper N (chan\<lparr>bev := None\<rparr>) s"

text \<open>Reopening is tried until it succeeds; \<open>nets i\<close> is the network at the \<open>i\<close>-th attempt.\<close>

partial_function (option) reopen_loop ::
  "(nat \<Rightarrow> ('a, 'v) net) \<Rightarrow> nat \<Rightarrow> ('b, 'v, 's) gdp_chan \<Rightarrow> 's \<Rightarrow> (('b, 'v, 's) gdp_chan \<times> 's) option" where
  "reopen_loop nets i chan s =
     (case chan_reopen (nets i) chan s of (estat, chan, s) \<Rightarrow>
        if EP_STAT_ISOK estat then Some (chan, s) else reopen_loop nets (Suc i) chan s)"

text \<open>\<open>refused\<close>: the socket error is \<^verbatim>\<open>ECONNREFUSED\<close> although libevent reports a connection.\<close>

definition chan_event_state ::
  "bool \<Rightarrow> bev_event list \<Rightarrow> chan_state \<Rightarrow> chan_state \<times> bev_event list \<times> bool" where
  "chan_event_state refused events st =
     (let (st, cbflags) =
        (if BEV_EVENT_CONNECTED \<in> set events then
           (if refused then (GDP_CHAN_ERROR, [BEV_EVENT_ERROR])
            else (GDP_CHAN_CONNECTED, [BEV_EVENT_CONNECTED]))
         else (st, []));
        eof = BEV_EVENT_EOF \<in> set events; err = BEV_EVENT_ERROR \<in> set events
      in (st, cbflags @ (if eof then [BEV_EVENT_EOF] else []) @
            (if err \<and> BEV_EVENT_ERROR \<notin> set cbflags then [BEV_EVENT_ERROR] else []), eof \<or> err))"

definition chan_event_cb ::
  "(nat \<Rightarrow> ('a, 'v) net) \<Rightarrow> bool \<Rightarrow> bev_event list \<Rightarrow> ('b, 'v, 's) gdp_chan \<Rightarrow> 's \<Rightarrow>
   (('b, 'v, 's) gdp_chan \<times> 's) option" where
  "chan_event_cb nets refused events chan s =
     (case chan_event_state refused events (state chan) of (st, cbflags, restart) \<Rightarrow>
        let chan = chan\<lparr>state := st\<rparr>;
            s = (case ioevent_cb chan of None \<Rightarrow> s | Some cb \<Rightarrow> cb cbflags s)
        in
        do { (chan, s) \<leftarrow> (if restart then reopen_loop nets 0 (chan\<lparr>state := GDP_CHAN_ERROR\<rparr>) s
                          else Some (chan, s));
             Some (chan, if state chan = GDP_CHAN_CONNECTED then advert_cb chan s else s) })"

section \<open>Frames\<close>

text \<open>A packet as the layers above see it, the bytes it is sent as, and when it can be sent.\<close>

type_synonym packet = "byte list \<times> byte list \<times> byte list"

fun frame :: "packet \<Rightarrow> byte list" where
  "frame (src, dst, payload) = send_header src dst GDP_PKT_TYPE_REGULAR (length payload) @ payload"

fun packet_ok :: "packet \<Rightarrow> bool" where
  "packet_ok (src, dst, payload) \<longleftrightarrow>
     length src = 32 \<and> length dst = 32 \<and> length payload \<le> 65535"

lemma send_header_length:
  "length src = 32 \<Longrightarrow> length dst = 32 \<Longrightarrow> length (send_header src dst tos n) = MIN_HEADER_LENGTH"
  by (simp add: send_header_def pkt_defs wire_simps)

lemma not_ok_codes:
  "\<not> EP_STAT_ISOK GDP_STAT_PDU_CORRUPT" "\<not> EP_STAT_ISOK GDP_STAT_NAK_NOROUTE"
  "\<not> EP_STAT_ISOK GDP_STAT_KEEP_READING" "EP_STAT_ISOK EP_STAT_OK"
  "\<not> EP_STAT_ISOK GDP_STAT_PDU_VERSION_MISMATCH"
  "GDP_STAT_PDU_CORRUPT \<noteq> GDP_STAT_KEEP_READING" "GDP_STAT_NAK_NOROUTE \<noteq> GDP_STAT_KEEP_READING"
  "GDP_STAT_PDU_VERSION_MISMATCH \<noteq> GDP_STAT_KEEP_READING"
  by code_simp+

lemma payload_status:
  assumes "n \<le> 65535"
  shows "EP_STAT_ISOK (EP_STAT_FROM_INT (int n))" "EP_STAT_FROM_INT (int n) \<noteq> GDP_STAT_KEEP_READING"
proof -
  have n: "unat (word_of_int (int n) :: u32) = n" using assms by (simp add: unat_of_nat_id)
  have "drop_bit 29 (word_of_int (int n) :: u32) = 0"
    using n assms by (simp add: word_unat_eq_iff drop_bit_eq_div unat_div_distrib del: of_int_of_nat_eq)
  then show ok: "EP_STAT_ISOK (EP_STAT_FROM_INT (int n))"
    by (simp add: stat_simps del: of_int_of_nat_eq)
  show "EP_STAT_FROM_INT (int n) \<noteq> GDP_STAT_KEEP_READING"
    using ok not_ok_codes(3) by metis
qed

text \<open>The reader at the start of a frame: it waits until the payload is there, and then leaves the
  payload at the front of the buffer.\<close>

lemma read_header_frame:
  assumes "evbuffer_ok E c" "c (rh_buf r) = send_header src dst tos n @ rest"
    and "length src = 32" "length dst = 32" "n \<le> 65535"
    and "tos AND GDP_PKT_ADDR_TYPE_MASK = 0" "tos AND GDP_PKT_TYPE_MASK = GDP_PKT_TYPE_REGULAR"
  shows "read_header E r =
    (let r' = r\<lparr>rh_dst := dst, rh_src := src\<rparr> in
     Some (if length rest < n then r'\<lparr>rh_stat := GDP_STAT_KEEP_READING\<rparr>
       else r'\<lparr>rh_stat := EP_STAT_FROM_INT (int n),
               rh_buf := snd (gdp_buf_drain E (rh_buf r) MIN_HEADER_LENGTH), rh_seqno := 0, rh_plen := n\<rparr>))"
proof -
  have len: "length (send_header src dst tos n) = MIN_HEADER_LENGTH"
    using assms by (simp add: send_header_length)
  have ptr: "gdp_buf_getptr E (rh_buf r) MIN_HEADER_LENGTH = Some (send_header src dst tos n)"
    using assms(1,2) len by (simp add: gdp_buf_getptr_def MIN_HEADER_LENGTH_def)
  have l: "gdp_buf_getlength E (rh_buf r) = MIN_HEADER_LENGTH + length rest"
    using assms(1,2) len by (simp add: gdp_buf_getlength_def)
  have u: "unat (of_nat n :: u16) = n" using assms(5) by (simp add: unat_of_nat_id)
  have tr: "GDP_PKT_TYPE_REGULAR \<noteq> GDP_PKT_TYPE_NAK_NOROUTE" by (simp add: pkt_defs)
  have h: "unat (of_nat (MIN_HEADER_LENGTH div 4) AND 0x3F :: byte) * 4 = MIN_HEADER_LENGTH"
    by (simp add: MIN_HEADER_LENGTH_def)
  have f: "read_header_fields E MIN_HEADER_LENGTH
      (PUT8 tos @ PUT8 GDP_TTL_DEFAULT @ PUT32 0 @ PUT16 0 @ PUT16 (of_nat n) @ dst @ src) r =
    (let r' = r\<lparr>rh_dst := dst, rh_src := src\<rparr> in
     Some (if length rest < n then r'\<lparr>rh_stat := GDP_STAT_KEEP_READING\<rparr>
       else r'\<lparr>rh_stat := EP_STAT_FROM_INT (int n),
               rh_buf := snd (gdp_buf_drain E (rh_buf r) MIN_HEADER_LENGTH), rh_seqno := 0, rh_plen := n\<rparr>))"
    using assms(3-7) l u tr not_ok_codes(4)
    by (simp add: read_header_fields_def read_header_done_def wire_simps Let_def del: PUT8_byte)
  show ?thesis
    using ptr l f assms(3,4) h
    by (simp add: read_header_def send_header_def wire_simps GDP_CHAN_PROTO_VERSION_def del: PUT8_byte)
qed

section \<open>Streams of frames\<close>

text \<open>
  What the loop needs of the receive callback: it takes the payload off the buffer (packets are
  sent with sequence number zero).  \<open>deliver\<close> is its
  effect on the session layer.  (The callback the library installs is \<^verbatim>\<open>_gdp_io_recv\<close>.)
\<close>

definition recv_ok ::
  "('b \<Rightarrow> byte list) \<Rightarrow> ('b, 'v, 's) gdp_chan \<Rightarrow> ('s \<Rightarrow> packet \<Rightarrow> 's) \<Rightarrow> bool" where
  "recv_ok c chan deliver \<longleftrightarrow>
     (\<exists>cb. recv_cb chan = Some cb \<and>
       (\<forall>src dst b n s. n \<le> length (c b) \<longrightarrow>
          c (fst (snd (cb src dst 0 b n s))) = drop n (c b) \<and>
          snd (snd (cb src dst 0 b n s)) = deliver s (src, dst, take n (c b))))"

text \<open>A strict prefix of a frame (or nothing) stays in the buffer.\<close>

definition partial :: "byte list \<Rightarrow> bool" where
  "partial p \<longleftrightarrow> p = [] \<or> (\<exists>q z. packet_ok q \<and> frame q = p @ z \<and> z \<noteq> [])"

lemma regular_flags:
  "GDP_PKT_TYPE_REGULAR AND GDP_PKT_ADDR_TYPE_MASK = 0"
  "GDP_PKT_TYPE_REGULAR AND GDP_PKT_TYPE_MASK = GDP_PKT_TYPE_REGULAR"
  by (simp_all add: pkt_defs)

lemma append_split:
  assumes "u @ v = a @ w" "length a \<le> length u"
  obtains d where "u = a @ d" "d @ v = w"
proof
  show "u = a @ drop (length a) u"
    using arg_cong [OF assms(1), of "take (length a)"] append_take_drop_id [of "length a" u] assms(2) by simp
  show "drop (length a) u @ v = w"
    using arg_cong [OF assms(1), of "drop (length a)"] assms(2) by simp
qed

lemma read_loop_partial:
  assumes "evbuffer_ok E c" "partial (c (rh_buf r))"
  shows "chan_read_loop E chan r s = Some (rh_buf r, s)"
proof (cases "length (c (rh_buf r)) < MIN_HEADER_LENGTH")
  case True
  then show ?thesis
    using assms(1) by (simp add: chan_read_loop.simps gdp_buf_getlength_def)
next
  case False
  obtain src dst pay z where q: "packet_ok (src, dst, pay)" "frame (src, dst, pay) = c (rh_buf r) @ z" "z \<noteq> []"
    using assms(2) False by (auto simp: partial_def MIN_HEADER_LENGTH_def)
  let ?h = "send_header src dst GDP_PKT_TYPE_REGULAR (length pay)"
  have "length ?h \<le> length (c (rh_buf r))" using q(1) False by (simp add: send_header_length)
  moreover have "?h @ pay = c (rh_buf r) @ z" using q(2) by simp
  ultimately obtain rest where rest: "c (rh_buf r) = ?h @ rest" "pay = rest @ z"
    using append_split [of "c (rh_buf r)" z ?h pay] by metis
  have "read_header E r = Some (r\<lparr>rh_dst := dst, rh_src := src, rh_stat := GDP_STAT_KEEP_READING\<rparr>)"
    using read_header_frame [OF assms(1) rest(1)] q(1,3) rest(2) by (simp add: regular_flags)
  then show ?thesis
    using assms(1) False by (simp add: chan_read_loop.simps gdp_buf_getlength_def)
qed

lemma read_loop_frame:
  assumes "evbuffer_ok E c" "recv_ok c chan deliver" "packet_ok q" "c (rh_buf r) = frame q @ rest"
  obtains r' where "chan_read_loop E chan r s = chan_read_loop E chan r' (deliver s q)" "c (rh_buf r') = rest"
proof -
  obtain src dst pay where q: "q = (src, dst, pay)" by (metis prod_cases3)
  let ?n = "length pay"
  define r1 where "r1 = r\<lparr>rh_dst := dst, rh_src := src, rh_stat := EP_STAT_FROM_INT (int ?n),
      rh_buf := snd (gdp_buf_drain E (rh_buf r) MIN_HEADER_LENGTH), rh_seqno := 0, rh_plen := ?n\<rparr>"
  have ok: "length src = 32" "length dst = 32" "?n \<le> 65535" using assms(3) q by auto
  have st: "c (rh_buf r) = send_header src dst GDP_PKT_TYPE_REGULAR ?n @ pay @ rest"
    using assms(4) q by simp
  have rh: "read_header E r = Some r1"
    unfolding read_header_frame [OF assms(1) st ok regular_flags] by (simp add: r1_def Let_def)
  have b1: "c (rh_buf r1) = pay @ rest"
    using assms(1) st ok by (simp add: r1_def gdp_buf_drain_def send_header_length)
  obtain cb where cb: "recv_cb chan = Some cb"
      "\<And>src dst b n s. n \<le> length (c b) \<Longrightarrow> c (fst (snd (cb src dst 0 b n s))) = drop n (c b) \<and>
         snd (snd (cb src dst 0 b n s)) = deliver s (src, dst, take n (c b))"
    using assms(2) unfolding recv_ok_def by blast
  obtain st' b' s' where e: "cb src dst 0 (rh_buf r1) ?n s = (st', b', s')" by (metis prod_cases3)
  have e': "c b' = rest" "s' = deliver s q"
    using cb(2) [of ?n "rh_buf r1" src dst s] b1 e q by auto
  have d: "chan_deliver E chan r1 s = (b', deliver s q)"
    using cb(1) e e' payload_status [OF ok(3)] by (simp add: chan_deliver_def r1_def)
  have "\<not> length (c (rh_buf r)) < MIN_HEADER_LENGTH" using st ok by (simp add: send_header_length)
  then have "chan_read_loop E chan r s = chan_read_loop E chan (r1\<lparr>rh_buf := b'\<rparr>) (deliver s q)"
    using rh d assms(1) payload_status [OF ok(3)]
    by (subst chan_read_loop.simps) (simp add: gdp_buf_getlength_def r1_def)
  then show thesis using that e' by simp
qed

lemma read_loop_frames:
  assumes "evbuffer_ok E c" "recv_ok c chan deliver" "\<forall>q\<in>set qs. packet_ok q" "partial p"
    "c (rh_buf r) = concat (map frame qs) @ p"
  shows "\<exists>b. chan_read_loop E chan r s = Some (b, foldl deliver s qs) \<and> c b = p"
  using assms(3,5)
proof (induction qs arbitrary: r s)
  case Nil
  then show ?case using read_loop_partial [OF assms(1), of r chan s] assms(4) by simp
next
  case (Cons q qs)
  obtain r' where "chan_read_loop E chan r s = chan_read_loop E chan r' (deliver s q)"
      "c (rh_buf r') = concat (map frame qs) @ p"
    by (rule read_loop_frame [OF assms(1,2), of q r "concat (map frame qs) @ p" s]) (use Cons.prems in auto)
  then show ?case using Cons.IH [of r' "deliver s q"] Cons.prems by simp
qed

text \<open>Where a stream of frames is cut, whole frames and a partial one are before the cut.\<close>

lemma stream_cut:
  assumes "u @ v = concat (map frame qs)" "\<forall>q\<in>set qs. packet_ok q"
  shows "\<exists>done rest p. qs = done @ rest \<and> u = concat (map frame done) @ p \<and>
    p @ v = concat (map frame rest) \<and> partial p \<and> (rest \<noteq> [] \<longrightarrow> length p < length (frame (hd rest)))"
  using assms
proof (induction qs arbitrary: u)
  case Nil
  then show ?case by (auto simp: partial_def)
next
  case (Cons q qs)
  then have eq: "u @ v = frame q @ concat (map frame qs)" by simp
  show ?case
  proof (cases "length u < length (frame q)")
    case True
    then have f: "frame q = u @ drop (length u) (frame q)"
      using arg_cong [OF eq, of "take (length u)"] append_take_drop_id [of "length u" "frame q"] by simp
    have "drop (length u) (frame q) \<noteq> []" using True by simp
    then have "partial u" unfolding partial_def using f Cons.prems(2) by (metis list.set_intros(1))
    then show ?thesis
      using Cons.prems(1) True by (intro exI [of _ "[]"] exI [of _ "q # qs"] exI [of _ u]) simp
  next
    case False
    then obtain u' where u': "u = frame q @ u'" "u' @ v = concat (map frame qs)"
      using append_split [OF eq] by auto
    then obtain d r p where "qs = d @ r" "u' = concat (map frame d) @ p"
        "p @ v = concat (map frame r)" "partial p" "r \<noteq> [] \<longrightarrow> length p < length (frame (hd r))"
      using Cons.IH [of u'] Cons.prems(2) by auto
    then show ?thesis using u' by (intro exI [of _ "q # d"] exI [of _ r] exI [of _ p]) simp
  qed
qed

text \<open>Input arriving in pieces: each piece is appended to the input buffer and the callback runs.\<close>

fun feed ::
  "('b, 'z) evbuffer_scheme \<Rightarrow> ('b, 'v, 's) gdp_chan \<Rightarrow> byte list \<Rightarrow> byte list \<Rightarrow> 'b \<Rightarrow> 's \<Rightarrow>
   byte list list \<Rightarrow> ('b \<times> 's) option" where
  "feed E chan src dst ibuf s [] = Some (ibuf, s)"
| "feed E chan src dst ibuf s (x # xs) =
     Option.bind (chan_read_cb E chan src dst (snd (evbuffer_add E ibuf x)) s)
       (\<lambda>(ibuf, s). feed E chan src dst ibuf s xs)"

lemma feed_frames:
  assumes "evbuffer_ok E c" "recv_ok c chan deliver" "\<forall>q\<in>set qs. packet_ok q"
    "c ibuf @ concat xs = concat (map frame qs)" "qs \<noteq> [] \<longrightarrow> length (c ibuf) < length (frame (hd qs))"
  shows "\<exists>b. feed E chan src dst ibuf s xs = Some (b, foldl deliver s qs) \<and> c b = []"
  using assms(3-5)
proof (induction xs arbitrary: ibuf s qs)
  case Nil
  then show ?case by (cases qs) auto
next
  case (Cons x xs)
  let ?i = "snd (evbuffer_add E ibuf x)"
  have "(c ibuf @ x) @ concat xs = concat (map frame qs)" using Cons.prems(2) by simp
  then obtain d r p where q: "qs = d @ r" "c ibuf @ x = concat (map frame d) @ p"
      "p @ concat xs = concat (map frame r)" "partial p" "r \<noteq> [] \<longrightarrow> length p < length (frame (hd r))"
    using stream_cut Cons.prems(1) by metis
  have ok: "\<forall>q\<in>set d. packet_ok q" "\<forall>q\<in>set r. packet_ok q" using Cons.prems(1) q(1) by auto
  have i: "c ?i = concat (map frame d) @ p" using assms(1) q(2) by simp
  obtain b where b: "chan_read_cb E chan src dst ?i s = Some (b, foldl deliver s d)" "c b = p"
    using read_loop_frames [OF assms(1,2) ok(1) q(4), of
        "\<lparr>rh_stat = EP_STAT_OK, rh_buf = ?i, rh_src = src, rh_dst = dst, rh_seqno = 0, rh_plen = 0\<rparr>" s] i
    by (auto simp: chan_read_cb_def)
  then show ?case
    using Cons.IH [OF ok(2), of b "foldl deliver s d"] q by simp
qed

section \<open>Sending packets\<close>

lemma send_regular:
  assumes "evbuffer_ok E c" "bufferevent_ok B out c" "bev chan = Some v" "length (c b) \<le> 65535"
    "length src = 32" "length dst = 32"
  obtains v' b' where
    "gdp_chan_send E B chan src dst (Some b) GDP_PKT_TYPE_REGULAR = (EP_STAT_OK, chan\<lparr>bev := Some v'\<rparr>, Some b')"
    "out v' = out v @ frame (src, dst, c b)" "c b' = []"
proof -
  let ?h = "send_header src dst GDP_PKT_TYPE_REGULAR (length (c b))"
  obtain v1 where v1: "bufferevent_write B v ?h = (0, v1)" "out v1 = out v @ ?h"
    using assms(2) unfolding bufferevent_ok_def by (metis prod.collapse)
  obtain v2 b2 where v2: "bufferevent_write_buffer B v1 b = (0, v2, b2)" "out v2 = out v1 @ c b" "c b2 = []"
    using assms(2) unfolding bufferevent_ok_def by (metis prod.collapse)
  show thesis
  proof (cases "c b = []")
    case True
    then show thesis
      using that [of v1 b] v1 assms
      by (simp add: gdp_chan_send_def send_helper_def gdp_buf_getlength_def)
  next
    case False
    then show thesis
      using that [of v2 b2] v1 v2 assms
      by (simp add: gdp_chan_send_def send_helper_def gdp_buf_getlength_def)
  qed
qed

text \<open>Several payloads sent one after the other on a channel.\<close>

fun send_all ::
  "('b, 'z) evbuffer_scheme \<Rightarrow> ('v, 'b, 'y) bufferevent_scheme \<Rightarrow> ('b, 'v, 's) gdp_chan \<Rightarrow>
   (byte list \<times> byte list \<times> 'b) list \<Rightarrow> ('b, 'v, 's) gdp_chan" where
  "send_all E B chan [] = chan"
| "send_all E B chan ((src, dst, b) # ps) =
     send_all E B (fst (snd (gdp_chan_send E B chan src dst (Some b) GDP_PKT_TYPE_REGULAR))) ps"

definition contents_of :: "('b \<Rightarrow> byte list) \<Rightarrow> byte list \<times> byte list \<times> 'b \<Rightarrow> packet" where
  "contents_of c p = (fst p, fst (snd p), c (snd (snd p)))"

lemma send_all_frames:
  assumes "evbuffer_ok E c" "bufferevent_ok B out c" "\<forall>p\<in>set ps. packet_ok (contents_of c p)"
    "bev chan = Some v"
  shows "\<exists>v'. bev (send_all E B chan ps) = Some v' \<and>
    out v' = out v @ concat (map frame (map (contents_of c) ps))"
  using assms(3,4)
proof (induction ps arbitrary: chan v)
  case Nil
  then show ?case by simp
next
  case (Cons p ps)
  obtain src dst b where p: "p = (src, dst, b)" by (metis prod_cases3)
  have ok: "length (c b) \<le> 65535" "length src = 32" "length dst = 32"
    using Cons.prems(1) p by (auto simp: contents_of_def)
  obtain v1 b1 where v1:
    "gdp_chan_send E B chan src dst (Some b) GDP_PKT_TYPE_REGULAR = (EP_STAT_OK, chan\<lparr>bev := Some v1\<rparr>, Some b1)"
    "out v1 = out v @ frame (src, dst, c b)"
    by (rule send_regular [OF assms(1,2) Cons.prems(2) ok])
  then show ?case
    using Cons.IH [of "chan\<lparr>bev := Some v1\<rparr>" v1] Cons.prems(1) p by (simp add: contents_of_def)
qed

section \<open>A header the reader never consumes\<close>

text \<open>The router callback the library installs hands back the error it is given.\<close>

definition router_rejects :: "('b, 'v, 's) gdp_chan \<Rightarrow> bool" where
  "router_rejects chan \<longleftrightarrow>
     (\<forall>cb src dst n st s. router_cb chan = Some cb \<longrightarrow> \<not> EP_STAT_ISOK st \<longrightarrow>
        \<not> EP_STAT_ISOK (fst (cb src dst n st s)))"

definition zero_header :: "byte list \<Rightarrow> bool" where
  "zero_header bs \<longleftrightarrow> MIN_HEADER_LENGTH \<le> length bs \<and> bs ! 0 = GDP_CHAN_PROTO_VERSION \<and> bs ! 1 AND 0x3F = 0"

lemma read_header_zero:
  assumes "evbuffer_ok E c" "zero_header (c (rh_buf r))"
  shows "read_header E r = Some (r\<lparr>rh_stat := GDP_STAT_PDU_CORRUPT,
    rh_buf := snd (gdp_buf_drain E (rh_buf r) 0), rh_plen := 0\<rparr>)"
proof -
  obtain h rest where bs: "c (rh_buf r) = GDP_CHAN_PROTO_VERSION # h # rest" "h AND 0x3F = 0"
    using assms(2) by (cases "c (rh_buf r)"; cases "tl (c (rh_buf r))")
      (auto simp: zero_header_def MIN_HEADER_LENGTH_def)
  have "gdp_buf_getptr E (rh_buf r) MIN_HEADER_LENGTH = Some (take MIN_HEADER_LENGTH (c (rh_buf r)))"
    using assms by (simp add: gdp_buf_getptr_def zero_header_def MIN_HEADER_LENGTH_def)
  then show ?thesis
    using bs not_ok_codes(1)
    by (simp add: read_header_def read_header_done_def MIN_HEADER_LENGTH_def take_Cons')
qed

lemma deliver_rejected:
  assumes "evbuffer_ok E c" "router_rejects chan" "\<not> EP_STAT_ISOK (rh_stat r)" "rh_plen r = 0"
  shows "c (fst (chan_deliver E chan r s)) = c (rh_buf r)"
proof -
  have ni: "\<not> EP_STAT_ISOK GDP_STAT_NOT_IMPLEMENTED" by code_simp
  show ?thesis
    using assms ni
    by (auto simp: chan_deliver_def chan_router_error_def router_rejects_def gdp_buf_drain_def
        split: option.splits prod.splits) (metis fst_conv)+
qed

lemma read_loop_zero:
  assumes "evbuffer_ok E c" "router_rejects chan" "chan_read_loop E chan r s = Some res"
  shows "\<not> zero_header (c (rh_buf r))"
proof -
  have "E = E \<longrightarrow> chan = chan \<longrightarrow> \<not> zero_header (c (rh_buf r))"
  proof (rule chan_read_loop.raw_induct [OF _ assms(3), where P = "\<lambda>E' chan' r s res.
      E' = E \<longrightarrow> chan' = chan \<longrightarrow> \<not> zero_header (c (rh_buf r))"], intro impI notI)
    fix loop E' chan' r s res
    assume IH: "\<And>E' chan' r s res. loop E' chan' r s = Some res \<Longrightarrow>
        E' = E \<longrightarrow> chan' = chan \<longrightarrow> \<not> zero_header (c (rh_buf r))"
      and body: "(if gdp_buf_getlength E' (rh_buf r) < MIN_HEADER_LENGTH then Some (rh_buf r, s)
        else Option.bind (read_header E' r) (\<lambda>r'.
          if rh_stat r' = GDP_STAT_KEEP_READING then Some (rh_buf r', s)
          else case chan_deliver E' chan' r' s of (ibuf, s') \<Rightarrow>
            loop E' chan' (r'\<lparr>rh_buf := ibuf\<rparr>) s')) = Some res"
      and e: "E' = E" "chan' = chan" and z: "zero_header (c (rh_buf r))"
    define r1 where "r1 = r\<lparr>rh_stat := GDP_STAT_PDU_CORRUPT,
      rh_buf := snd (gdp_buf_drain E (rh_buf r) 0), rh_plen := 0\<rparr>"
    obtain b s' where d: "chan_deliver E chan r1 s = (b, s')" by fastforce
    have "\<not> gdp_buf_getlength E (rh_buf r) < MIN_HEADER_LENGTH"
      using z assms(1) by (simp add: zero_header_def gdp_buf_getlength_def)
    moreover have "read_header E r = Some r1" using read_header_zero [OF assms(1) z] by (simp add: r1_def)
    moreover have "rh_stat r1 \<noteq> GDP_STAT_KEEP_READING" by (simp add: r1_def not_ok_codes)
    ultimately have "loop E chan (r1\<lparr>rh_buf := b\<rparr>) s' = Some res" using body d e by simp
    then have "\<not> zero_header (c b)" using IH by fastforce
    moreover have "c b = c (rh_buf r)"
      using deliver_rejected [OF assms(1,2), of r1 s] d assms(1)
      by (simp add: r1_def not_ok_codes gdp_buf_drain_def)
    ultimately show False using z by simp
  qed
  then show ?thesis by simp
qed

section \<open>Opening\<close>

text \<open>All addresses that an address string stands for, in the order they are tried.\<close>

fun split_specs :: "nat \<Rightarrow> byte list \<Rightarrow> byte list list" where
  "split_specs 0 abuf = []"
| "split_specs (Suc n) abuf =
     takeWhile (\<lambda>c. c \<noteq> 0x3B) abuf #
       (case dropWhile (\<lambda>c. c \<noteq> 0x3B) abuf of [] \<Rightarrow> [] | _ # r \<Rightarrow> split_specs n r)"

definition spec_addrs :: "('a, 'v) net \<Rightarrow> byte list \<Rightarrow> 'a list" where
  "spec_addrs N spec =
     (let host = dropWhile (\<lambda>c. c = 0x20 \<or> c = 0x09) spec in
      if host = [] then []
      else case host_port (router_port N) host of (h, p) \<Rightarrow>
        (case getaddrinfo N h p of Inl _ \<Rightarrow> [] | Inr as \<Rightarrow> as))"

definition open_candidates :: "('a, 'v) net \<Rightarrow> byte list \<Rightarrow> 'a list" where
  "open_candidates N abuf = concat (map (spec_addrs N) (split_specs (Suc (length abuf)) abuf))"

fun first_conn :: "('a, 'v) net \<Rightarrow> 'a list \<Rightarrow> 'v option" where
  "first_conn N [] = None"
| "first_conn N (a # as) = (case connect N a of Conn v \<Rightarrow> Some v | _ \<Rightarrow> first_conn N as)"

text \<open>A failing system call sets \<^verbatim>\<open>errno\<close>.\<close>

definition errno_set :: "('a, 'v) net \<Rightarrow> bool" where
  "errno_set N \<longleftrightarrow> (\<forall>a e. connect N a = NoSocket e \<or> connect N a = NoConnect e \<longrightarrow> e \<noteq> 0)"

lemma first_conn_append:
  "first_conn N (xs @ ys) = (case first_conn N xs of None \<Rightarrow> first_conn N ys | Some v \<Rightarrow> Some v)"
  by (induction xs) (auto split: conn.splits)

lemma errno_not_ok: "e \<noteq> 0 \<Longrightarrow> \<not> EP_STAT_ISOK (ep_stat_from_errno e)"
  by (simp add: ep_stat_from_errno_def EP_STAT_ISOK_def EP_STAT_NEW_fields EP_STAT_SEV_ERROR_def EP_STAT_SEV_OK_def
      mask_eq_exp_minus_1)

lemma try_addrs_first:
  assumes "errno_set N" "\<not> EP_STAT_ISOK st"
  shows "snd (try_addrs N st as) = first_conn N as \<and>
    (EP_STAT_ISOK (fst (try_addrs N st as)) \<longleftrightarrow> first_conn N as \<noteq> None)"
  using assms(2)
proof (induction as arbitrary: st)
  case (Cons a as)
  show ?case
    using Cons.IH [OF errno_not_ok] assms(1) not_ok_codes(4)
    by (cases "connect N a") (auto simp: errno_set_def)
qed simp

lemma split_specs_fuel:
  "length abuf < n \<Longrightarrow> split_specs n abuf = split_specs (Suc (length abuf)) abuf"
proof (induction n arbitrary: abuf rule: less_induct)
  case (less n)
  then obtain m where n: "n = Suc m" by (cases n) auto
  show ?case
  proof (cases "dropWhile (\<lambda>c. c \<noteq> 0x3B) abuf")
    case (Cons x r)
    have "length r < length abuf" using tl_dropWhile_shorter [of "\<lambda>c. c \<noteq> 0x3B" abuf] Cons by simp
    then have "split_specs m r = split_specs (length abuf) r"
      using less.IH [of m r] less.IH [of "length abuf" r] less.prems n
      by (cases "length abuf < n") auto
    then show ?thesis using Cons n by simp
  qed (simp add: n del: dropWhile_eq_Nil_conv)
qed

lemma gai_stat_not_ok: "\<not> EP_STAT_ISOK (gai_stat r)"
proof -
  have "\<not> EP_STAT_ISOK EP_STAT_DNS_NOTFOUND" "\<not> EP_STAT_ISOK EP_STAT_DNS_FAILURE" by code_simp+
  then show ?thesis by (cases r) (simp_all add: gai_stat_def Let_def)
qed

lemma try_specs_first:
  assumes "errno_set N" "\<not> EP_STAT_ISOK st"
  shows "snd (try_specs N st abuf) = first_conn N (open_candidates N abuf) \<and>
    (EP_STAT_ISOK (fst (try_specs N st abuf)) \<longleftrightarrow> first_conn N (open_candidates N abuf) \<noteq> None)"
  using assms
proof (induction N st abuf rule: try_specs.induct)
  case (1 N st abuf)
  let ?P = "\<lambda>c. c \<noteq> (0x3B :: byte)"
  let ?host = "dropWhile (\<lambda>c. c = 0x20 \<or> c = 0x09) (takeWhile ?P abuf)"
  define r where "r = (if ?host = [] then (st, None) else try_spec N st ?host)"
  obtain st' v where r': "r = (st', v)" by fastforce
  have sp: "v = first_conn N (spec_addrs N (takeWhile ?P abuf)) \<and>
      (EP_STAT_ISOK st' \<longleftrightarrow> first_conn N (spec_addrs N (takeWhile ?P abuf)) \<noteq> None)"
    using r' 1(2,3) try_addrs_first [OF 1(2,3)] gai_stat_not_ok
    by (auto simp: r_def spec_addrs_def try_spec_def Let_def split: if_splits prod.splits sum.splits)
      (metis fst_conv snd_conv)+
  have h: "?host = [] \<Longrightarrow> \<not> EP_STAT_ISOK st'" using r' 1(3) by (auto simp: r_def)
  show ?case
  proof (cases "EP_STAT_ISOK st' \<or> dropWhile ?P abuf = []")
    case True
    then have "try_specs N st abuf = (st', v)"
      using r' h by (subst try_specs.simps) (auto simp: r_def Let_def simp del: dropWhile_eq_Nil_conv)
    moreover have "first_conn N (open_candidates N abuf) = v"
      using sp True
      by (auto simp: open_candidates_def first_conn_append simp del: dropWhile_eq_Nil_conv
          split: option.splits list.splits)
    ultimately show ?thesis using sp by simp
  next
    case False
    then have e: "try_specs N st abuf = try_specs N st' (tl (dropWhile ?P abuf))"
      using r' by (subst try_specs.simps) (auto simp: r_def Let_def simp del: dropWhile_eq_Nil_conv)
    obtain x rest where d: "dropWhile ?P abuf = x # rest" using False by (cases "dropWhile ?P abuf") auto
    have "length rest < length abuf" using tl_dropWhile_shorter [of ?P abuf] d by simp
    then have "open_candidates N abuf = spec_addrs N (takeWhile ?P abuf) @ open_candidates N rest"
      using split_specs_fuel [of rest "length abuf"] d by (simp add: open_candidates_def)
    then show ?thesis
      using 1(1) [of ?host "dropWhile ?P abuf" r st' v] 1(2) False sp e d r'
      by (simp add: first_conn_append r_def)
  qed
qed

section \<open>Properties\<close>

text \<open>C9: packets sent on one channel and received on another arrive complete, unchanged and in order,
  in whatever pieces the bytes arrive: the read callback returns each time, the session layer has
  seen exactly the packets sent, and no byte is left in the input buffer.\<close>

theorem chan_transfer:
  assumes "evbuffer_ok E c" "bufferevent_ok B out c" "recv_ok c rchan deliver"
    "\<forall>p\<in>set ps. packet_ok (contents_of c p)"
    "bev schan = Some v" "out v = []" "c ibuf = []"
    "concat pieces = out (the (bev (send_all E B schan ps)))"
  shows "\<exists>b. feed E rchan src dst ibuf s pieces = Some (b, foldl deliver s (map (contents_of c) ps)) \<and> c b = []"
proof -
  have "concat pieces = concat (map frame (map (contents_of c) ps))"
    using send_all_frames [OF assms(1,2,4,5)] assms(6,8) by auto
  moreover have "\<forall>q\<in>set (map (contents_of c) ps). packet_ok q" using assms(4) by simp
  moreover have "length (frame q) > 0" if "packet_ok q" for q
    using that send_header_length by (cases q) (simp add: MIN_HEADER_LENGTH_def)
  ultimately show ?thesis
    using assms(4,7) by (intro feed_frames [OF assms(1,3)]) (cases ps; simp)+
qed

text \<open>Channels over lists of bytes, whose session layer collects the packets.\<close>

definition list_bufferevent :: "(byte list, byte list) bufferevent" where
  "list_bufferevent = \<lparr>bufferevent_write = (\<lambda>v d. (0, v @ d)), bufferevent_write_buffer = (\<lambda>v b. (0, v @ b, []))\<rparr>"

definition list_chan :: "'v option \<Rightarrow> (byte list, 'v, packet list) gdp_chan" where
  "list_chan v = \<lparr>state = GDP_CHAN_CONNECTED, bev = v, router_addr = None,
     recv_cb = Some (\<lambda>src dst seq b n s. (EP_STAT_OK, drop n b, s @ [(src, dst, take n b)])),
     ioevent_cb = None, router_cb = Some (\<lambda>src dst n st s. (st, s)), advert_cb = (\<lambda>s. s)\<rparr>"

lemma list_bufferevent_ok: "bufferevent_ok list_bufferevent (\<lambda>v. v) (\<lambda>b. b)"
  by (simp add: bufferevent_ok_def list_bufferevent_def)

lemma list_chan_recv: "recv_ok (\<lambda>b. b) (list_chan v) (\<lambda>s q. s @ [q])"
  by (simp add: recv_ok_def list_chan_def)

theorem chan_transfer_witness:
  "let ps = [(replicate 32 1, replicate 32 2, [7, 8, 9]), (replicate 32 3, replicate 32 4, [])];
       sent = the (bev (send_all list_evbuffer list_bufferevent (list_chan (Some [])) ps))
   in \<exists>b. feed list_evbuffer (list_chan (Some [0::byte])) [] [] [] [] [take 40 sent, take 50 (drop 40 sent), drop 90 sent] =
        Some (b, [] @ ps) \<and> b = []"
proof -
  let ?ps = "[(replicate 32 1, replicate 32 2, [7, 8, 9]), (replicate 32 3, replicate 32 4, [])] :: packet list"
  let ?sent = "the (bev (send_all list_evbuffer list_bufferevent (list_chan (Some [])) ?ps))"
  have m: "map (contents_of (\<lambda>b. b)) ?ps = ?ps" by (simp add: contents_of_def)
  have p: "concat [take 40 ?sent, take 50 (drop 40 ?sent), drop 90 ?sent] = ?sent"
    using append_take_drop_id [of 50 "drop 40 ?sent"] append_take_drop_id [of 40 ?sent] by simp
  have f: "foldl (\<lambda>s q. s @ [q]) [] ?ps = [] @ ?ps" by simp
  show ?thesis
    using chan_transfer [OF list_evbuffer_ok list_bufferevent_ok list_chan_recv [of "Some [0]"],
        where ps = ?ps and schan = "list_chan (Some [])" and v = "[]" and ibuf = "[]" and s = "[]"
          and src = "[]" and dst = "[]"
          and pieces = "[take 40 ?sent, take 50 (drop 40 ?sent), drop 90 ?sent]"] p
    unfolding Let_def m f by (simp add: list_chan_def contents_of_def)
qed

text \<open>C35: a header that announces length zero is never consumed: once such a header is at the front
  of the input, the read callback does not return.\<close>

theorem chan_read_stuck:
  assumes "evbuffer_ok E c" "router_rejects chan" "zero_header (c ibuf)"
  shows "chan_read_cb E chan src dst ibuf s = None"
proof (rule ccontr)
  assume "chan_read_cb E chan src dst ibuf s \<noteq> None"
  then obtain res where "chan_read_cb E chan src dst ibuf s = Some res" by blast
  from read_loop_zero [OF assms(1,2) this [unfolded chan_read_cb_def]] show False using assms(3) by simp
qed

theorem chan_read_stuck_witness:
  "chan_read_cb list_evbuffer (list_chan (Some [0::byte])) [] [] (4 # replicate 75 0) [] = None"
proof -
  have "router_rejects (list_chan (Some [0::byte]))" by (simp add: router_rejects_def list_chan_def)
  moreover have "zero_header (4 # replicate 75 0)" by (simp add: zero_header_def pkt_defs)
  ultimately show ?thesis by (rule chan_read_stuck [OF list_evbuffer_ok])
qed

text \<open>Opening connects to the first address that accepts, in the order of the address string and
  of the resolver, and advertises; when none accepts the status is an error, the socket is as
  before and nothing is advertised.\<close>

theorem chan_open_first:
  assumes "errno_set N"
  shows "case first_conn N (open_candidates N (open_addresses N chan)) of
      Some v \<Rightarrow> \<exists>st. chan_open_helper N chan s = (st, chan\<lparr>bev := Some v\<rparr>, advert_cb chan s) \<and> EP_STAT_ISOK st
    | None \<Rightarrow> \<exists>st. chan_open_helper N chan s = (st, chan, s) \<and> \<not> EP_STAT_ISOK st"
proof -
  have "\<not> EP_STAT_ISOK GDP_STAT_NOTFOUND" by code_simp
  from try_specs_first [OF assms this, of "open_addresses N chan"] show ?thesis
    by (cases "try_specs N GDP_STAT_NOTFOUND (open_addresses N chan)")
      (auto simp: chan_open_helper_def split: option.splits)
qed

text \<open>A network with one host, which answers at its second address.\<close>

definition small_net :: "(nat, nat) net" where
  "small_net = \<lparr>getaddrinfo = (\<lambda>h p. if h = [0x62] \<and> p = [0x38] then Inr [1, 2, 3] else Inl EAI_NONAME),
     connect = (\<lambda>a. if a = 1 then NoConnect 111 else Conn a), zc_info = None,
     routers = [0x61, 0x3B, 0x20, 0x62, 0x3A, 0x38], router_port = [0x39]\<rparr>"

theorem chan_open_first_witness:
  "\<exists>st. chan_open_helper small_net (list_chan None) [] =
     (st, list_chan (Some 2), []) \<and> EP_STAT_ISOK st"
proof -
  have e: "errno_set small_net" by (simp add: errno_set_def small_net_def)
  have "first_conn small_net (open_candidates small_net (open_addresses small_net (list_chan None))) = Some 2"
    by code_simp
  with chan_open_first [OF e, of "list_chan None" "[]"] show ?thesis by (simp add: list_chan_def)
qed

end
