(* ===== verification/Gdp_Datum.thy ===== *)
theory Gdp_Datum
  imports Gdp_Buf
begin

text \<open>
  Data records, \<^verbatim>\<open>gdp/gdp_datum.c\<close>, with the hashes and signatures of \<^verbatim>\<open>gdp/gdp_crypto.c\<close>, which are
  data buffers: allocation from the free list, copying, the bytes a record contributes to a message
  digest, the conversion to and from the protobuf form, signing and verification.  A message digest
  under construction is the bytes fed to it so far; the hash and signature functions are parameters.
\<close>

section \<open>Hashes and signatures\<close>

definition gdp_hash_new :: "('b, 'z) evbuffer_scheme \<Rightarrow> byte list option \<Rightarrow> 'b" where
  "gdp_hash_new E hashbytes =
     (case hashbytes of
        None \<Rightarrow> gdp_buf_new E
      | Some bs \<Rightarrow> snd (gdp_buf_write E (gdp_buf_new E) bs))"

definition gdp_hash_set :: "('b, 'z) evbuffer_scheme \<Rightarrow> 'b \<Rightarrow> byte list \<Rightarrow> 'b" where
  "gdp_hash_set E hash bs = snd (gdp_buf_write E (snd (gdp_buf_reset E hash)) bs)"

text \<open>The bytes behind a hash or signature pointer; with length zero none are read.\<close>

definition gdp_hash_getptr :: "('b, 'z) evbuffer_scheme \<Rightarrow> 'b \<Rightarrow> byte list" where
  "gdp_hash_getptr E hash =
     (let l = gdp_buf_getlength E hash in
      if l = 0 then [] else case gdp_buf_getptr E hash l of Some p \<Rightarrow> p | None \<Rightarrow> [])"

definition gdp_hash_equal :: "('b, 'z) evbuffer_scheme \<Rightarrow> 'b \<Rightarrow> 'b \<Rightarrow> bool" where
  "gdp_hash_equal E a b \<longleftrightarrow>
     gdp_buf_getlength E a = gdp_buf_getlength E b \<and> gdp_hash_getptr E a = gdp_hash_getptr E b"

definition gdp_sig_new :: "('b, 'z) evbuffer_scheme \<Rightarrow> byte list option \<Rightarrow> 'b" where
  "gdp_sig_new E sigbytes =
     (case sigbytes of
        None \<Rightarrow> gdp_buf_new E
      | Some bs \<Rightarrow> snd (gdp_buf_write E (gdp_buf_new E) bs))"

definition gdp_sig_reset :: "('b, 'z) evbuffer_scheme \<Rightarrow> 'b \<Rightarrow> 'b" where
  "gdp_sig_reset E sig = snd (gdp_buf_reset E sig)"

definition gdp_sig_getptr :: "('b, 'z) evbuffer_scheme \<Rightarrow> 'b \<Rightarrow> byte list" where
  "gdp_sig_getptr E sig = gdp_hash_getptr E sig"

definition gdp_sig_dup :: "('b, 'z) evbuffer_scheme \<Rightarrow> 'b \<Rightarrow> 'b" where
  "gdp_sig_dup E sig = gdp_buf_dup E sig"

text \<open>The result is the two arguments \<^verbatim>\<open>from\<close> and \<^verbatim>\<open>to\<close> after the call.\<close>

definition gdp_sig_copy :: "('b, 'z) evbuffer_scheme \<Rightarrow> 'b \<Rightarrow> 'b \<Rightarrow> 'b \<times> 'b" where
  "gdp_sig_copy E frm to =
     (let to = snd (gdp_buf_reset E to);
          frm = snd (gdp_buf_copy E frm to)
      in (frm, to))"

definition gdp_sig_set :: "('b, 'z) evbuffer_scheme \<Rightarrow> 'b \<Rightarrow> byte list \<Rightarrow> 'b" where
  "gdp_sig_set E sig bs = snd (gdp_buf_write E (snd (gdp_buf_reset E sig)) bs)"

section \<open>Records\<close>

record 'b gdp_datum =
  inuse :: bool
  recno :: int
  ts :: ep_time
  dbuf :: "'b option"
  sig :: "'b option"
  prevhash :: "'b option"

definition GDP_PDU_NO_RECNO :: int where "GDP_PDU_NO_RECNO = 0"

definition gdp_datum_reset :: "('b, 'z) evbuffer_scheme \<Rightarrow> 'b gdp_datum \<Rightarrow> 'b gdp_datum" where
  "gdp_datum_reset E datum =
     datum\<lparr>dbuf := Some (case dbuf datum of None \<Rightarrow> gdp_buf_new E | Some b \<Rightarrow> snd (gdp_buf_reset E b)),
           sig := map_option (gdp_sig_reset E) (sig datum),
           recno := GDP_PDU_NO_RECNO, ts := EP_TIME_INVALIDATE (ts datum)\<rparr>"

definition zeroed_datum :: "'b gdp_datum" where
  "zeroed_datum = \<lparr>inuse = False, recno = 0, ts = ep_time_zero, dbuf = None, sig = None, prevhash = None\<rparr>"

text \<open>The free list is global; a failing assertion is only reported.\<close>

definition gdp_datum_new ::
  "('b, 'z) evbuffer_scheme \<Rightarrow> 'b gdp_datum list \<Rightarrow> 'b gdp_datum \<times> 'b gdp_datum list" where
  "gdp_datum_new E freelist =
     (let (datum, rest) = (case freelist of [] \<Rightarrow> (zeroed_datum, []) | d # ds \<Rightarrow> (d, ds)) in
      ((gdp_datum_reset E datum)\<lparr>inuse := True\<rparr>, rest))"

definition gdp_datum_free ::
  "('b, 'z) evbuffer_scheme \<Rightarrow> 'b gdp_datum option \<Rightarrow> 'b gdp_datum list \<Rightarrow> 'b gdp_datum list" where
  "gdp_datum_free E d freelist =
     (case d of
        None \<Rightarrow> freelist
      | Some datum \<Rightarrow>
          if \<not> inuse datum then freelist
          else datum\<lparr>inuse := False,
            dbuf := map_option (\<lambda>b. if 0 < gdp_buf_getlength E b
              then snd (gdp_buf_drain E b (gdp_buf_getlength E b)) else b) (dbuf datum),
            sig := None\<rparr> # freelist)"

definition gdp_datum_getdlen :: "('b, 'z) evbuffer_scheme \<Rightarrow> 'b gdp_datum \<Rightarrow> nat" where
  "gdp_datum_getdlen E datum = gdp_buf_getlength E (the (dbuf datum))"

text \<open>\<^verbatim>\<open>gdp_datum_copy\<close> gives back both records: it writes to buffers of either.\<close>

definition gdp_datum_copy ::
  "('b, 'z) evbuffer_scheme \<Rightarrow> 'b gdp_datum \<Rightarrow> 'b gdp_datum \<Rightarrow> 'b gdp_datum \<times> 'b gdp_datum" where
  "gdp_datum_copy E to frm =
     (let to = to\<lparr>recno := recno frm, ts := ts frm, inuse := inuse frm\<rparr>;
          to = (case (dbuf frm, dbuf to) of
                  (Some fb, Some tb) \<Rightarrow> to\<lparr>dbuf := Some (snd (gdp_buf_copy E tb fb))\<rparr>
                | _ \<Rightarrow> to)
      in case (sig frm, sig to) of
           (Some fs, Some tsg) \<Rightarrow>
             (case gdp_sig_copy E tsg fs of (tsg, fs) \<Rightarrow> (to\<lparr>sig := Some tsg\<rparr>, frm\<lparr>sig := Some fs\<rparr>))
         | _ \<Rightarrow> (to, frm))"

definition gdp_datum_dup ::
  "('b, 'z) evbuffer_scheme \<Rightarrow> 'b gdp_datum \<Rightarrow> 'b gdp_datum list \<Rightarrow> 'b gdp_datum \<times> 'b gdp_datum list" where
  "gdp_datum_dup E datum freelist =
     (case gdp_datum_new E freelist of (n, fl) \<Rightarrow>
        let n = n\<lparr>recno := recno datum, ts := ts datum,
                  dbuf := Some (snd (gdp_buf_copy E (the (dbuf n)) (the (dbuf datum))))\<rparr>
        in (case sig datum of None \<Rightarrow> n | Some s \<Rightarrow> n\<lparr>sig := Some (gdp_sig_dup E s)\<rparr>, fl))"

section \<open>Digests, signatures\<close>

text \<open>\<open>hash\<close> is the hash function of the digest's algorithm; the result is the digest's input so far.\<close>

definition gdp_datum_digest ::
  "('b, 'z) evbuffer_scheme \<Rightarrow> (byte list \<Rightarrow> byte list) \<Rightarrow> 'b gdp_datum \<Rightarrow> byte list \<Rightarrow> byte list" where
  "gdp_datum_digest E hash datum md =
     (let md = md @ PUT64 (word_of_int (recno datum));
          md = md @ (PUT64 (word_of_int (tv_sec (ts datum))) @ PUT32 (word_of_int (tv_nsec (ts datum))) @
                     PUT32 (tv_accuracy (ts datum)));
          md = (case prevhash datum of None \<Rightarrow> md | Some h \<Rightarrow> md @ gdp_hash_getptr E h);
          dmd = (case dbuf datum of None \<Rightarrow> [] | Some b \<Rightarrow> gdp_hash_getptr E b)
      in md @ hash dmd)"

definition gdp_datum_hash ::
  "('b, 'z) evbuffer_scheme \<Rightarrow> (byte list \<Rightarrow> byte list) \<Rightarrow> byte list \<Rightarrow> 'b gdp_datum \<Rightarrow> 'b" where
  "gdp_datum_hash E hash vrfy_ctx datum =
     gdp_hash_new E (Some (hash (gdp_datum_digest E hash datum vrfy_ctx)))"

definition gdp_datum_hash_equal ::
  "('b, 'z) evbuffer_scheme \<Rightarrow> (byte list \<Rightarrow> byte list) \<Rightarrow> byte list \<Rightarrow> 'b gdp_datum \<Rightarrow> 'b \<Rightarrow> bool" where
  "gdp_datum_hash_equal E hash vrfy_ctx datum h = gdp_hash_equal E h (gdp_datum_hash E hash vrfy_ctx datum)"

text \<open>\<open>sign\<close> produces the signature of the bytes digested, or an error status.\<close>

definition gdp_datum_sign ::
  "('b, 'z) evbuffer_scheme \<Rightarrow> (byte list \<Rightarrow> byte list) \<Rightarrow> (byte list \<Rightarrow> ep_stat \<times> byte list) \<Rightarrow>
   byte list option \<Rightarrow> 'b gdp_datum \<Rightarrow> ep_stat \<times> 'b gdp_datum" where
  "gdp_datum_sign E hash sign sign_ctx datum =
     (case sign_ctx of
        None \<Rightarrow> (GDP_STAT_SKEY_REQUIRED, datum)
      | Some ctx \<Rightarrow>
          (case sign (gdp_datum_digest E hash datum ctx) of (estat, sigbuf) \<Rightarrow>
             if EP_STAT_ISOK estat then
               (estat, datum\<lparr>sig := Some (gdp_sig_set E
                  (case sig datum of None \<Rightarrow> gdp_sig_new E None | Some s \<Rightarrow> s) sigbuf)\<rparr>)
             else (estat, datum)))"

text \<open>
  \<open>vrfy\<close> checks a signature over digested bytes.  \<open>ctx\<close> is the verification context of the GDP object
  once it is set up, or the status of the failed set-up; a missing signature is a null pointer.
\<close>

definition gdp_datum_vrfy_gob ::
  "('b, 'z) evbuffer_scheme \<Rightarrow> (byte list \<Rightarrow> byte list) \<Rightarrow> (byte list \<Rightarrow> byte list \<Rightarrow> ep_stat) \<Rightarrow>
   ep_stat + byte list \<Rightarrow> bool \<Rightarrow> bool \<Rightarrow> 'b gdp_datum \<Rightarrow> ep_stat option" where
  "gdp_datum_vrfy_gob E hash vrfy ctx verifying vrfy_warn datum =
     (let failed = (\<lambda>estat. if vrfy_warn then EP_STAT_OK else estat) in
      case ctx of
        Inl estat \<Rightarrow> Some (failed estat)
      | Inr md \<Rightarrow>
          if \<not> verifying then Some EP_STAT_OK
          else (case sig datum of
                  None \<Rightarrow> None
                | Some s \<Rightarrow>
                    let estat = vrfy (gdp_datum_digest E hash datum md) (gdp_sig_getptr E s) in
                    Some (if EP_STAT_ISOK estat then estat else failed estat)))"

section \<open>The protobuf form\<close>

record pb_timestamp =
  pbt_sec :: "int option"
  pbt_nsec :: "u32 option"
  pbt_accuracy :: "u32 option"

record pb_datum =
  pb_recno :: int
  pb_ts :: "pb_timestamp option"
  pb_prevhash :: "byte list option"
  pb_data :: "byte list"
  pb_sig :: "byte list option"

text \<open>
  \<^verbatim>\<open>_gdp_datum_to_pb\<close>.  A field with its \<^verbatim>\<open>has_\<close> flag is an option.  The comparison of the accuracy
  with zero is one of floating point numbers, so both zeros count.
\<close>

definition gdp_datum_to_pb :: "('b, 'z) evbuffer_scheme \<Rightarrow> 'b gdp_datum \<Rightarrow> pb_datum \<Rightarrow> pb_datum" where
  "gdp_datum_to_pb E datum pbd =
     (let pbd = pbd\<lparr>pb_recno := recno datum\<rparr>;
          t = ts datum;
          nsec = word_of_int (tv_nsec t);
          pbd = pbd\<lparr>pb_ts :=
            (if EP_TIME_IS_VALID t then
               Some \<lparr>pbt_sec = Some (tv_sec t), pbt_nsec = (if nsec \<noteq> 0 then Some nsec else None),
                     pbt_accuracy = (if tv_accuracy t AND 0x7fffffff \<noteq> 0 then Some (tv_accuracy t) else None)\<rparr>
             else None)\<rparr>;
          pbd = (case dbuf datum of
                   None \<Rightarrow> pbd
                 | Some b \<Rightarrow> if 0 < gdp_buf_getlength E b then pbd\<lparr>pb_data := gdp_hash_getptr E b\<rparr> else pbd);
          pbd = pbd\<lparr>pb_prevhash := map_option (gdp_hash_getptr E) (prevhash datum)\<rparr>
      in pbd\<lparr>pb_sig := map_option (gdp_sig_getptr E) (sig datum)\<rparr>)"

text \<open>Reading a field whose flag is not set gives the default of the message description.\<close>

definition gdp_timestamp_from_pb :: "pb_timestamp option \<Rightarrow> ep_time \<Rightarrow> ep_time" where
  "gdp_timestamp_from_pb pbt t =
     (case pbt of
        Some p \<Rightarrow> \<lparr>tv_sec = (case pbt_sec p of Some x \<Rightarrow> x | None \<Rightarrow> EP_TIME_NOTIME),
                   tv_nsec = sint (case pbt_nsec p of Some x \<Rightarrow> x | None \<Rightarrow> 0),
                   tv_accuracy = (case pbt_accuracy p of Some x \<Rightarrow> x | None \<Rightarrow> 0)\<rparr>
      | None \<Rightarrow> EP_TIME_INVALIDATE t)"

definition gdp_datum_from_pb ::
  "('b, 'z) evbuffer_scheme \<Rightarrow> 'b gdp_datum \<Rightarrow> pb_datum \<Rightarrow> byte list option \<Rightarrow> 'b gdp_datum" where
  "gdp_datum_from_pb E datum pbd sg =
     (let datum = datum\<lparr>recno := pb_recno pbd, ts := gdp_timestamp_from_pb (pb_ts pbd) (ts datum),
            dbuf := Some (snd (gdp_buf_write E
              (case dbuf datum of None \<Rightarrow> gdp_buf_new E | Some b \<Rightarrow> b) (pb_data pbd)))\<rparr>
      in case sg of
           None \<Rightarrow> datum
         | Some bs \<Rightarrow> datum\<lparr>sig := Some (gdp_sig_set E
             (case sig datum of None \<Rightarrow> gdp_sig_new E None | Some s \<Rightarrow> s) bs)\<rparr>)"

section \<open>Records over the contents of their buffers\<close>

lemma getptr_contents [simp]:
  assumes "evbuffer_ok E c"
  shows "gdp_hash_getptr E h = c h" "gdp_sig_getptr E h = c h" "gdp_buf_getlength E h = length (c h)"
  using assms
  by (simp_all add: gdp_hash_getptr_def gdp_sig_getptr_def gdp_buf_getlength_def gdp_buf_getptr_def Let_def)

lemma buffer_updates [simp]:
  assumes "evbuffer_ok E c"
  shows "c (snd (gdp_buf_reset E b)) = []" "c (gdp_buf_new E) = []"
    "c (snd (gdp_buf_write E b d)) = c b @ d" "c (gdp_sig_set E b d) = d" "c (gdp_sig_new E None) = []"
    "c (gdp_sig_reset E b) = []" "c (gdp_hash_new E (Some d)) = d"
  using assms
  by (simp_all add: gdp_buf_reset_def gdp_buf_new_def gdp_buf_write_def gdp_sig_set_def gdp_sig_new_def
      gdp_sig_reset_def gdp_hash_new_def)

text \<open>A copy of an empty buffer adds nothing.\<close>

lemma copy_empty: "evbuffer_ok E c \<Longrightarrow> c ib = [] \<Longrightarrow> c (snd (gdp_buf_copy E ob ib)) = c ob"
  by (simp add: gdp_buf_copy_def gdp_buf_raw_copy_def raw_copy_loop.simps)

text \<open>What a record says, with its buffers replaced by their bytes.\<close>

definition data_of :: "('b \<Rightarrow> byte list) \<Rightarrow> 'b gdp_datum \<Rightarrow> byte list" where
  "data_of c d = (case dbuf d of None \<Rightarrow> [] | Some b \<Rightarrow> c b)"

definition prev_of :: "('b \<Rightarrow> byte list) \<Rightarrow> 'b gdp_datum \<Rightarrow> byte list" where
  "prev_of c d = (case prevhash d of None \<Rightarrow> [] | Some h \<Rightarrow> c h)"

definition ts_bytes :: "ep_time \<Rightarrow> byte list" where
  "ts_bytes t = PUT64 (word_of_int (tv_sec t)) @ PUT32 (word_of_int (tv_nsec t)) @ PUT32 (tv_accuracy t)"

lemma digest_bytes:
  "evbuffer_ok E c \<Longrightarrow> gdp_datum_digest E hash d md =
     md @ PUT64 (word_of_int (recno d)) @ ts_bytes (ts d) @ prev_of c d @ hash (data_of c d)"
  by (simp add: gdp_datum_digest_def ts_bytes_def prev_of_def data_of_def Let_def split: option.splits)

text \<open>The ranges of the C types, and an accuracy that is not the negative zero.\<close>

definition ts_range :: "ep_time \<Rightarrow> bool" where
  "ts_range t \<longleftrightarrow> - (2 ^ 63) \<le> tv_sec t \<and> tv_sec t < 2 ^ 63 \<and> - (2 ^ 31) \<le> tv_nsec t \<and> tv_nsec t < 2 ^ 31 \<and>
     tv_accuracy t \<noteq> 0x80000000"

definition recno_range :: "int \<Rightarrow> bool" where
  "recno_range r \<longleftrightarrow> - (2 ^ 63) \<le> r \<and> r < 2 ^ 63"

lemma signed_inject:
  "- (2 ^ 63) \<le> x \<Longrightarrow> x < 2 ^ 63 \<Longrightarrow> sint (word_of_int x :: u64) = x"
  "- (2 ^ 31) \<le> y \<Longrightarrow> y < 2 ^ 31 \<Longrightarrow> sint (word_of_int y :: u32) = y"
  by (simp_all add: signed_of_int signed_take_bit_int_eq_self)

lemma float_zero: "a AND 0x7fffffff = 0 \<longleftrightarrow> a = 0 \<or> a = 0x80000000" for a :: u32
proof
  assume z: "a AND 0x7fffffff = 0"
  have "(0x7fffffff :: u32) = mask 31" by (simp add: mask_eq_exp_minus_1)
  then have "take_bit 31 a = 0" using z by (simp add: take_bit_eq_mask)
  then have "unat a mod 2 ^ 31 = 0" by (metis take_bit_eq_mod unsigned_0 unsigned_take_bit_eq)
  moreover have "unat a < 2 ^ 32" using unsigned_less [of a, where ?'a = nat] by simp
  ultimately obtain q where "unat a = 2 ^ 31 * q" "q < 2" by (auto simp: mod_eq_0_iff_dvd elim!: dvdE)
  then have "unat a = 0 \<or> unat a = 2 ^ 31" by (auto simp: less_2_cases_iff)
  then show "a = 0 \<or> a = 0x80000000" by (simp add: word_unat_eq_iff)
qed auto

lemma timestamp_roundtrip:
  assumes "ts_range t" "EP_TIME_IS_VALID t"
  shows "gdp_timestamp_from_pb (pb_ts (gdp_datum_to_pb E (d\<lparr>ts := t\<rparr>) p)) x = t"
proof -
  let ?n = "word_of_int (tv_nsec t) :: u32"
  have "sint ?n = tv_nsec t" using assms(1) by (simp add: ts_range_def signed_inject)
  moreover have "tv_accuracy t AND 0x7fffffff = 0 \<longleftrightarrow> tv_accuracy t = 0"
    using assms(1) float_zero [of "tv_accuracy t"] by (auto simp: ts_range_def)
  ultimately show ?thesis
    using assms(2)
    by (cases t) (auto simp: gdp_timestamp_from_pb_def gdp_datum_to_pb_def Let_def split: option.splits)
qed

text \<open>A record that has gone through the protobuf form, read into the record \<open>n\<close>.\<close>

definition transfer :: "('b, 'z) evbuffer_scheme \<Rightarrow> 'b gdp_datum \<Rightarrow> pb_datum \<Rightarrow> 'b gdp_datum \<Rightarrow> 'b gdp_datum" where
  "transfer E d p n = (let pbd = gdp_datum_to_pb E d p in gdp_datum_from_pb E n pbd (pb_sig pbd))"

lemma transfer_fields:
  assumes "evbuffer_ok E c" "ts_range (ts d)" "EP_TIME_IS_VALID (ts d)" "pb_data p = []" "data_of c n = []"
  shows "recno (transfer E d p n) = recno d" "ts (transfer E d p n) = ts d"
    "data_of c (transfer E d p n) = data_of c d" "prevhash (transfer E d p n) = prevhash n"
    "sig d = Some s \<Longrightarrow> \<exists>s'. sig (transfer E d p n) = Some s' \<and> c s' = c s"
proof -
  show "ts (transfer E d p n) = ts d"
    using timestamp_roundtrip [OF assms(2,3), of E d]
    by (simp add: transfer_def gdp_datum_from_pb_def Let_def split: option.splits)
  show "recno (transfer E d p n) = recno d" "prevhash (transfer E d p n) = prevhash n"
    by (simp_all add: transfer_def gdp_datum_from_pb_def gdp_datum_to_pb_def Let_def split: option.splits)
  show "data_of c (transfer E d p n) = data_of c d"
    using assms(1,4,5)
    by (auto simp: transfer_def gdp_datum_from_pb_def gdp_datum_to_pb_def Let_def data_of_def
        split: option.splits)
  show "sig d = Some s \<Longrightarrow> \<exists>s'. sig (transfer E d p n) = Some s' \<and> c s' = c s"
    using assms(1)
    by (simp add: transfer_def gdp_datum_from_pb_def gdp_datum_to_pb_def Let_def)
qed

section \<open>Properties\<close>

text \<open>C11: a record sent in a message and read by the peer into a record without a previous hash
  digests to the same bytes, so keeps its hash and its signature, exactly when it was sent without
  the hash of its predecessor: the conversion from the message drops that hash.\<close>

theorem datum_transfer_digest:
  assumes "evbuffer_ok E c" "ts_range (ts d)" "EP_TIME_IS_VALID (ts d)" "pb_data p = []"
    "data_of c n = []" "prevhash n = None"
  shows "gdp_datum_digest E hash (transfer E d p n) md = gdp_datum_digest E hash d md \<longleftrightarrow> prev_of c d = []"
proof -
  note t = transfer_fields [OF assms(1-5)]
  have "prev_of c (transfer E d p n) = []" using t(4) assms(6) by (simp add: prev_of_def)
  then show ?thesis using t(1-3) assms(1) by (auto simp: digest_bytes)
qed

definition sample_datum :: "byte list option \<Rightarrow> byte list gdp_datum" where
  "sample_datum prev = \<lparr>inuse = True, recno = 7, ts = \<lparr>tv_sec = 100, tv_nsec = 5, tv_accuracy = 0\<rparr>,
     dbuf = Some [1, 2, 3], sig = Some [9], prevhash = prev\<rparr>"

definition empty_pb :: pb_datum where
  "empty_pb = \<lparr>pb_recno = 0, pb_ts = None, pb_prevhash = None, pb_data = [], pb_sig = None\<rparr>"

theorem datum_transfer_digest_witness:
  "gdp_datum_digest list_evbuffer rev (transfer list_evbuffer (sample_datum (Some [4])) empty_pb zeroed_datum) []
     \<noteq> gdp_datum_digest list_evbuffer rev (sample_datum (Some [4])) []"
  by (subst datum_transfer_digest [OF list_evbuffer_ok])
    (simp_all add: sample_datum_def empty_pb_def zeroed_datum_def ts_range_def EP_TIME_IS_VALID_def
      EP_TIME_NOTIME_def data_of_def prev_of_def)

text \<open>C26: the digested bytes determine the record: two records with the same digest input have the
  same number, time stamp, previous hash and data, provided the hash function does not collide on
  the two payloads.\<close>

theorem datum_digest_binding:
  assumes "evbuffer_ok E c" "\<And>x. length (hash x) = hlen"
    "hash (data_of c d) = hash (data_of c d') \<Longrightarrow> data_of c d = data_of c d'"
    "ts_range (ts d)" "ts_range (ts d')" "recno_range (recno d)" "recno_range (recno d')"
    "gdp_datum_digest E hash d md = gdp_datum_digest E hash d' md"
  shows "recno d = recno d' \<and> ts d = ts d' \<and> prev_of c d = prev_of c d' \<and> data_of c d = data_of c d'"
proof -
  have e: "PUT64 (word_of_int (recno d)) @ ts_bytes (ts d) @ prev_of c d @ hash (data_of c d) =
      PUT64 (word_of_int (recno d')) @ ts_bytes (ts d') @ prev_of c d' @ hash (data_of c d')"
    using assms(1,8) by (simp add: digest_bytes)
  then have w: "(word_of_int (recno d) :: u64) = word_of_int (recno d')"
      "(word_of_int (tv_sec (ts d)) :: u64) = word_of_int (tv_sec (ts d'))"
      "(word_of_int (tv_nsec (ts d)) :: u32) = word_of_int (tv_nsec (ts d'))"
      "tv_accuracy (ts d) = tv_accuracy (ts d')"
      and r: "prev_of c d @ hash (data_of c d) = prev_of c d' @ hash (data_of c d')"
    by (simp_all add: ts_bytes_def c64.put_length c32.put_length c64.put_inject c32.put_inject)
  have "length (prev_of c d) = length (prev_of c d')"
    using arg_cong [OF r, of length] assms(2) by simp
  with r have "prev_of c d = prev_of c d'" "data_of c d = data_of c d'" using assms(3) by auto
  moreover have "recno d = recno d'" "tv_sec (ts d) = tv_sec (ts d')" "tv_nsec (ts d) = tv_nsec (ts d')"
    using w assms(4-7) signed_inject unfolding ts_range_def recno_range_def by metis+
  ultimately show ?thesis using w(4) by simp
qed

theorem datum_digest_binding_witness:
  "prev_of (\<lambda>b. b) (sample_datum None) = prev_of (\<lambda>b. b) (sample_datum (Some []))"
proof -
  have "gdp_datum_digest list_evbuffer (\<lambda>x. take 3 (x @ replicate 3 0)) (sample_datum None) [] =
      gdp_datum_digest list_evbuffer (\<lambda>x. take 3 (x @ replicate 3 0)) (sample_datum (Some [])) []"
    by code_simp
  then show ?thesis
    using datum_digest_binding [OF list_evbuffer_ok, where hlen = 3 and d = "sample_datum None"
        and d' = "sample_datum (Some [])" and hash = "\<lambda>x. take 3 (x @ replicate 3 0)" and md = "[]"]
    by (simp add: sample_datum_def ts_range_def recno_range_def data_of_def)
qed

text \<open>Copying a record that has a signature into one that has a signature empties the source's
  signature and leaves the target's as it was; the data of the source is appended to the target's.\<close>

theorem datum_copy_signature:
  assumes "evbuffer_ok E c" "sig frm = Some fs" "sig to = Some tsg" "dbuf frm = Some fb" "dbuf to = Some tb"
    "length (c fb) \<le> 4096" "gdp_datum_copy E to frm = (to', frm')"
  shows "(\<exists>s. sig frm' = Some s \<and> c s = []) \<and> (\<exists>s. sig to' = Some s \<and> c s = c tsg) \<and>
    recno to' = recno frm \<and> ts to' = ts frm \<and> data_of c to' = data_of c to @ data_of c frm"
  using assms copy_contents [OF assms(1,6), of tb] copy_empty [OF assms(1)]
  by (auto simp: gdp_datum_copy_def gdp_sig_copy_def Let_def data_of_def)

theorem datum_copy_signature_witness:
  "let (to, frm) = gdp_datum_copy list_evbuffer (sample_datum None) ((sample_datum None)\<lparr>sig := Some [8, 8]\<rparr>)
   in (\<exists>s. sig frm = Some s \<and> s = []) \<and> (\<exists>s. sig to = Some s \<and> s = [9]) \<and>
      recno to = 7 \<and> ts to = ts (sample_datum None) \<and> data_of (\<lambda>b. b) to = [1, 2, 3, 1, 2, 3]"
proof -
  obtain to frm where r: "gdp_datum_copy list_evbuffer (sample_datum None)
      ((sample_datum None)\<lparr>sig := Some [8, 8]\<rparr>) = (to, frm)"
    by fastforce
  show ?thesis
    using datum_copy_signature [OF list_evbuffer_ok _ _ _ _ _ r, of "[8, 8]" "[9]" "[1, 2, 3]" "[1, 2, 3]"] r
    by (simp add: sample_datum_def data_of_def)
qed

end
