(* ===== verification/Ep_B64.thy ===== *)
theory Ep_B64
  imports Ep_Stat
begin

text \<open>
  Base-64 coding, \<^verbatim>\<open>ep/ep_b64.c\<close>.  An encoding is the three characters of the C string: the codes
  of 62 and 63 and the flag character.  Text and binary buffers are byte lists; an encoder or
  decoder returns the status word with the bytes it wrote (the terminating null not included).
\<close>

section \<open>Encodings\<close>

type_synonym b64enc = "byte \<times> byte \<times> byte"

definition EncChars :: "byte list" where
  "EncChars = map of_char ''ABCDEFGHIJKLMNOPQRSTUVWXYZabcdefghijklmnopqrstuvwxyz0123456789''"

definition EP_B64_WRAP64 :: byte where [flag_defs]: "EP_B64_WRAP64 = 0x01"
definition EP_B64_WRAP76 :: byte where [flag_defs]: "EP_B64_WRAP76 = 0x02"
definition EP_B64_WRAPMASK :: byte where [flag_defs]: "EP_B64_WRAPMASK = 0x03"
definition EP_B64_PAD :: byte where [flag_defs]: "EP_B64_PAD = 0x04"
definition EP_B64_IGNCRUD :: byte where [flag_defs]: "EP_B64_IGNCRUD = 0x08"

definition EP_B64_ENC_MIME :: b64enc where "EP_B64_ENC_MIME = (0x2B, 0x2F, 0x4E)"
definition EP_B64_ENC_PEM :: b64enc where "EP_B64_ENC_PEM = (0x2B, 0x2F, 0x45)"
definition EP_B64_ENC_URL :: b64enc where "EP_B64_ENC_URL = (0x2D, 0x5F, 0x40)"

fun encmaxline :: "b64enc \<Rightarrow> int" where
  "encmaxline (e0, e1, e2) =
     (if e2 AND EP_B64_WRAPMASK = EP_B64_WRAP64 then 64
      else if e2 AND EP_B64_WRAPMASK = EP_B64_WRAP76 then 76 else -1)"

text \<open>The length is computed in \<^verbatim>\<open>size_t\<close>.\<close>

fun ep_b64_enc_len :: "u64 \<Rightarrow> b64enc \<Rightarrow> u64" where
  "ep_b64_enc_len bsize (e0, e1, e2) =
     (let n = ((bsize + 2) div 3) * 4;
          n1 = (if e2 AND EP_B64_PAD = 0 then n - (2 - ((bsize + 2) mod 3)) else n) in
      if 0 < encmaxline (e0, e1, e2)
      then n1 + ((n1 - 1) div word_of_int (encmaxline (e0, e1, e2))) * 2
      else n1)"

fun getenc :: "byte \<Rightarrow> b64enc \<Rightarrow> byte" where
  "getenc b (e0, e1, e2) = (if b = 62 then e0 else if b = 63 then e1 else EncChars ! unat b)"

section \<open>Encoding\<close>

text \<open>
  The main loop of \<^verbatim>\<open>ep_b64_encode\<close>: \<open>bx\<close> is the index of the next input byte, \<open>lx\<close> the column
  of the output line and \<open>nextc\<close> the bits carried over; the result is the text written and the
  bits still carried.
\<close>

fun b64_enc_loop :: "b64enc \<Rightarrow> nat \<Rightarrow> nat \<Rightarrow> byte \<Rightarrow> byte list \<Rightarrow> byte list \<times> byte" where
  "b64_enc_loop enc bx lx nextc [] = ([], nextc)"
| "b64_enc_loop enc bx lx nextc (b # bs) =
     (let wrap = 0 < encmaxline enc \<and> encmaxline enc \<le> int lx;
          nl = (if wrap then [13, 10] else []);
          lx = (if wrap then 0 else lx);
          (out, lx, nextc) =
            (if bx mod 3 = 0 then
               ([getenc (drop_bit 2 b) enc], lx + 1, push_bit 4 (b AND 0x03))
             else if bx mod 3 = 1 then
               ([getenc (nextc OR drop_bit 4 (b AND 0xf0)) enc], lx + 1, push_bit 2 (b AND 0x0f))
             else
               ([getenc (nextc OR drop_bit 6 (b AND 0xc0)) enc, getenc (b AND 0x3f) enc],
                lx + 2, nextc OR drop_bit 6 (b AND 0xc0)));
          (rest, last) = b64_enc_loop enc (bx + 1) lx nextc bs in
      (nl @ out @ rest, last))"

fun b64_enc_final :: "b64enc \<Rightarrow> nat \<Rightarrow> byte \<Rightarrow> byte list" where
  "b64_enc_final (e0, e1, e2) bx nextc =
     (if bx mod 3 = 0 then []
      else getenc nextc (e0, e1, e2) #
        (if e2 AND EP_B64_PAD = 0 then []
         else if bx mod 3 = 1 then [0x3D, 0x3D] else [0x3D]))"

definition b64_text :: "b64enc \<Rightarrow> byte list \<Rightarrow> byte list" where
  "b64_text enc bin =
     (case b64_enc_loop enc 0 0 0 bin of (txt, nextc) \<Rightarrow> txt @ b64_enc_final enc (length bin) nextc)"

definition ep_b64_encode :: "byte list \<Rightarrow> u64 \<Rightarrow> b64enc \<Rightarrow> ep_stat \<times> byte list" where
  "ep_b64_encode bin tsize enc =
     (if tsize < ep_b64_enc_len (of_nat (length bin)) enc + 1 then (EP_STAT_ABORT, [])
      else (EP_STAT_FROM_INT (int (length (b64_text enc bin))), b64_text enc bin))"

section \<open>Decoding\<close>

datatype b64val = ILL | IGN | Sextet byte

text \<open>
  The decode map, as the initialisation leaves it: later assignments win.  The index is a plain
  \<^verbatim>\<open>char\<close>, so the map is what the code builds for encodings whose two characters are below 128.
\<close>

definition enc_index :: "byte \<Rightarrow> nat" where
  "enc_index c = length (takeWhile (\<lambda>x. x \<noteq> c) EncChars)"

fun b64_decode_map :: "b64enc \<Rightarrow> byte \<Rightarrow> b64val" where
  "b64_decode_map (e0, e1, e2) c =
     (if e2 AND EP_B64_PAD \<noteq> 0 \<and> c = 0x3D then IGN
      else if e2 AND EP_B64_WRAPMASK \<noteq> 0 \<and> (c = 13 \<or> c = 10) then IGN
      else if c = e1 then Sextet 63
      else if c = e0 then Sextet 62
      else if enc_index c < length EncChars then Sextet (of_nat (enc_index c))
      else if e2 AND EP_B64_IGNCRUD \<noteq> 0 then IGN else ILL)"

fun b64_dec_loop ::
  "b64enc \<Rightarrow> nat \<Rightarrow> nat \<Rightarrow> byte \<Rightarrow> byte list \<Rightarrow> byte list \<Rightarrow> ep_stat \<times> byte list" where
  "b64_dec_loop enc bsize state nextb bin [] = (EP_STAT_FROM_INT (int (length bin)), bin)"
| "b64_dec_loop enc bsize state nextb bin (c # cs) =
     (if c = 0 \<or> bsize \<le> length bin then (EP_STAT_FROM_INT (int (length bin)), bin)
      else case b64_decode_map enc c of
        ILL \<Rightarrow> (EP_STAT_ERROR, bin)
      | IGN \<Rightarrow> b64_dec_loop enc bsize state nextb bin cs
      | Sextet v \<Rightarrow>
          if state mod 4 = 0 then
            b64_dec_loop enc bsize (state + 1) (push_bit 2 v) bin cs
          else if state mod 4 = 1 then
            b64_dec_loop enc bsize (state + 1) (push_bit 4 (v AND 0x0f))
              (bin @ [nextb OR drop_bit 4 (v AND 0x30)]) cs
          else if state mod 4 = 2 then
            b64_dec_loop enc bsize (state + 1) (push_bit 6 (v AND 0x03))
              (bin @ [nextb OR drop_bit 2 (v AND 0x3c)]) cs
          else
            b64_dec_loop enc bsize (state + 1) nextb (bin @ [nextb OR (v AND 0x3f)]) cs)"

definition ep_b64_decode :: "byte list \<Rightarrow> nat \<Rightarrow> b64enc \<Rightarrow> ep_stat \<times> byte list" where
  "ep_b64_decode txt bsize enc = b64_dec_loop enc bsize 0 0 [] txt"

section \<open>Six-bit groups\<close>

text \<open>The reference: the six-bit values of a byte string, and how many there are.\<close>

fun sextets :: "byte list \<Rightarrow> byte list" where
  "sextets [] = []"
| "sextets [a] = [drop_bit 2 a, push_bit 4 (a AND 0x03)]"
| "sextets [a, b] = [drop_bit 2 a, push_bit 4 (a AND 0x03) OR drop_bit 4 (b AND 0xf0),
     push_bit 2 (b AND 0x0f)]"
| "sextets (a # b # c # r) = drop_bit 2 a # (push_bit 4 (a AND 0x03) OR drop_bit 4 (b AND 0xf0)) #
     (push_bit 2 (b AND 0x0f) OR drop_bit 6 (c AND 0xc0)) # (c AND 0x3f) # sextets r"

fun valid_enc :: "b64enc \<Rightarrow> bool" where
  "valid_enc (e0, e1, e2) \<longleftrightarrow> e0 \<notin> set EncChars \<and> e1 \<notin> set EncChars \<and> e0 \<noteq> e1 \<and>
     e0 \<notin> {0, 13, 10, 0x3D} \<and> e1 \<notin> {0, 13, 10, 0x3D} \<and> e0 < 128 \<and> e1 < 128"

abbreviation noise :: "b64enc \<Rightarrow> byte \<Rightarrow> bool" where
  "noise enc c \<equiv> b64_decode_map enc c = IGN"

lemma EncChars_facts:
  "distinct EncChars" "length EncChars = 62"
  "0 \<notin> set EncChars" "13 \<notin> set EncChars" "10 \<notin> set EncChars" "0x3D \<notin> set EncChars"
  by code_simp+

lemma byte_less_64:
  assumes "\<not> bit v 6" "\<not> bit v 7"
  shows "(v :: byte) < 64"
proof -
  have "v = v AND mask 6"
    using assms by (intro byte_eqI) (simp_all add: bit_simps)
  then have "take_bit 6 v = v" by (simp add: take_bit_eq_mask)
  then have "take_bit 6 (uint v) = uint v" by (metis unsigned_take_bit_eq)
  then have "uint v < 64" by (simp add: take_bit_int_eq_self_iff)
  then show ?thesis by (simp add: word_less_def)
qed

lemma sextet_bounds:
  "drop_bit 2 (a :: byte) < 64" "push_bit 4 (a AND 0x03) < 64"
  "push_bit 4 (a AND 0x03) OR drop_bit 4 (b AND 0xf0) < 64" "push_bit 2 (b AND 0x0f) < 64"
  "push_bit 2 (b AND 0x0f) OR drop_bit 6 (c AND 0xc0) < 64" "c AND 0x3f < 64"
  by (rule byte_less_64; simp add: bit_simps bit_byte_beyond)+

lemma sextets_bound: "v \<in> set (sextets bs) \<Longrightarrow> v < 64"
  by (induction bs rule: sextets.induct)
    (auto simp: sextet_bounds simp del: push_bit_and drop_bit_and)

text \<open>Reassembling bytes from neighbouring six-bit values.\<close>

lemma byte_a: "push_bit 2 (drop_bit 2 a) OR drop_bit 4 ((push_bit 4 (a AND 0x03) OR
    drop_bit 4 (b AND 0xf0)) AND 0x30) = (a :: byte)"
  by (rule byte_eqI) (simp_all add: bit_simps bit_byte_beyond)

lemma byte_a': "push_bit 2 (drop_bit 2 a) OR drop_bit 4 (push_bit 4 (a AND 0x03) AND 0x30) = (a :: byte)"
  by (rule byte_eqI) (simp_all add: bit_simps bit_byte_beyond)

lemma byte_b: "push_bit 4 ((push_bit 4 (a AND 0x03) OR drop_bit 4 (b AND 0xf0)) AND 0x0f) OR
    drop_bit 2 ((push_bit 2 (b AND 0x0f) OR drop_bit 6 (c AND 0xc0)) AND 0x3c) = (b :: byte)"
  by (rule byte_eqI) (simp_all add: bit_simps bit_byte_beyond)

lemma byte_b': "push_bit 4 ((push_bit 4 (a AND 0x03) OR drop_bit 4 (b AND 0xf0)) AND 0x0f) OR
    drop_bit 2 (push_bit 2 (b AND 0x0f) AND 0x3c) = (b :: byte)"
  by (rule byte_eqI) (simp_all add: bit_simps bit_byte_beyond)

lemma byte_c: "push_bit 6 ((push_bit 2 (b AND 0x0f) OR drop_bit 6 (c AND 0xc0)) AND 0x03) OR
    (c AND 0x3f) = (c :: byte)"
  by (rule byte_eqI) (simp_all add: bit_simps bit_byte_beyond)

section \<open>Decoding an encoded text\<close>

lemma enc_index_eq: "v < 62 \<Longrightarrow> enc_index (EncChars ! v) = v"
  by (simp add: enc_index_def takeWhile_distinct_index EncChars_facts)

lemma getenc_in_EncChars:
  fixes v :: byte
  assumes "v < 62"
  shows "EncChars ! unat v \<in> set EncChars"
proof -
  have "unat v < 62" using assms by (simp add: word_less_nat_alt)
  then show ?thesis by (simp add: EncChars_facts)
qed

lemma getenc_decodes:
  assumes "valid_enc enc" "v < 64"
  shows "b64_decode_map enc (getenc v enc) = Sextet v" and "getenc v enc \<noteq> 0"
proof -
  obtain e0 e1 e2 where enc: "enc = (e0, e1, e2)" by (cases enc)
  have "v = 62 \<or> v = 63 \<or> v < 62" using assms(2) by (simp add: word_less_nat_alt word_unat_eq_iff) linarith
  moreover have "b64_decode_map enc (getenc v enc) = Sextet v \<and> getenc v enc \<noteq> 0" if "v < 62"
  proof -
    let ?c = "EncChars ! unat v"
    have "?c \<in> set EncChars" by (rule getenc_in_EncChars [OF that])
    then have "?c \<noteq> e0" "?c \<noteq> e1" "?c \<notin> {0, 13, 10, 0x3D}"
      using assms(1) enc EncChars_facts by auto
    moreover have "enc_index ?c = unat v"
      using that by (intro enc_index_eq) (simp add: word_less_nat_alt)
    moreover have "v \<noteq> 62" "v \<noteq> 63" "unat v < 62" using that by (auto simp: word_less_nat_alt)
    ultimately show ?thesis by (simp add: enc EncChars_facts)
  qed
  moreover have "b64_decode_map enc (getenc v enc) = Sextet v \<and> getenc v enc \<noteq> 0" if "v = 62 \<or> v = 63"
    using assms(1) that by (elim disjE) (simp_all add: enc)
  ultimately show "b64_decode_map enc (getenc v enc) = Sextet v" "getenc v enc \<noteq> 0"
    by blast+
qed

text \<open>The decoder on six-bit values alone.\<close>

fun dec_vals :: "nat \<Rightarrow> nat \<Rightarrow> byte \<Rightarrow> byte list \<Rightarrow> byte list \<Rightarrow> byte list" where
  "dec_vals bsize state nextb bin [] = bin"
| "dec_vals bsize state nextb bin (v # vs) =
     (if bsize \<le> length bin then bin
      else if state mod 4 = 0 then dec_vals bsize (state + 1) (push_bit 2 v) bin vs
      else if state mod 4 = 1 then
        dec_vals bsize (state + 1) (push_bit 4 (v AND 0x0f)) (bin @ [nextb OR drop_bit 4 (v AND 0x30)]) vs
      else if state mod 4 = 2 then
        dec_vals bsize (state + 1) (push_bit 6 (v AND 0x03)) (bin @ [nextb OR drop_bit 2 (v AND 0x3c)]) vs
      else dec_vals bsize (state + 1) nextb (bin @ [nextb OR (v AND 0x3f)]) vs)"

lemma dec_vals_full: "bsize \<le> length bin \<Longrightarrow> dec_vals bsize st nb bin vs = bin"
  by (cases vs) simp_all

lemma dec_loop_vals:
  assumes "valid_enc enc" "0 \<notin> set text'" "\<forall>v \<in> set vs. v < 64"
    "filter (\<lambda>c. \<not> noise enc c) text' = map (\<lambda>v. getenc v enc) vs"
  shows "b64_dec_loop enc bsize st nb bin text' =
    (EP_STAT_FROM_INT (int (length (dec_vals bsize st nb bin vs))), dec_vals bsize st nb bin vs)"
  using assms(2,3,4)
proof (induction text' arbitrary: st nb bin vs)
  case (Cons c cs)
  show ?case
  proof (cases "noise enc c")
    case True
    then show ?thesis using Cons by (auto simp: dec_vals_full)
  next
    case False
    then obtain v vs' where vs: "vs = v # vs'" "c = getenc v enc"
      "filter (\<lambda>c. \<not> noise enc c) cs = map (\<lambda>v. getenc v enc) vs'"
      using Cons.prems by (cases vs) auto
    have "b64_decode_map enc c = Sextet v" "c \<noteq> 0"
      using getenc_decodes [OF assms(1), of v] vs Cons.prems by auto
    then show ?thesis
      using vs Cons by (simp del: push_bit_and drop_bit_and)
  qed
qed simp

lemma dec_vals_sextets:
  assumes "st mod 4 = 0" "length bin + length bs \<le> bsize"
  shows "dec_vals bsize st nb bin (sextets bs) = bin @ bs"
  using assms
proof (induction bs arbitrary: st nb bin rule: sextets.induct)
  case (4 a b c r)
  have "Suc (Suc (Suc (Suc st))) mod 4 = 0" "Suc st mod 4 = 1" "Suc (Suc st) mod 4 = 2"
    "Suc (Suc (Suc st)) mod 4 = 3"
    using 4 by presburger+
  then show ?case
    using 4 by (simp add: byte_a byte_b byte_c dec_vals_full del: push_bit_and drop_bit_and)
next
  case (2 a)
  have "Suc st mod 4 = 1" using 2 by presburger
  then show ?case using 2 by (simp add: byte_a' del: push_bit_and drop_bit_and)
next
  case (3 a b)
  have "Suc st mod 4 = 1" "Suc (Suc st) mod 4 = 2" using 3 by presburger+
  then show ?case using 3 by (simp add: byte_a byte_b' del: push_bit_and drop_bit_and)
qed simp

section \<open>The encoded text\<close>

text \<open>The text of a run of the loop started at a group boundary, with its final characters.\<close>

definition enc_run :: "b64enc \<Rightarrow> nat \<Rightarrow> nat \<Rightarrow> byte \<Rightarrow> byte list \<Rightarrow> byte list" where
  "enc_run enc bx lx nextc bs =
     (case b64_enc_loop enc bx lx nextc bs of (t, nc) \<Rightarrow> t @ b64_enc_final enc (bx + length bs) nc)"

definition wraps :: "b64enc \<Rightarrow> nat \<Rightarrow> bool" where
  "wraps enc lx \<longleftrightarrow> 0 < encmaxline enc \<and> encmaxline enc \<le> int lx"

abbreviation nl_if :: "b64enc \<Rightarrow> nat \<Rightarrow> byte list" where
  "nl_if enc lx \<equiv> (if wraps enc lx then [13, 10] else [])"

abbreviation col :: "b64enc \<Rightarrow> nat \<Rightarrow> nat" where
  "col enc lx \<equiv> (if wraps enc lx then 0 else lx)"

lemma enc_run_Nil: "enc_run enc bx lx nc [] = b64_enc_final enc bx nc"
  by (simp add: enc_run_def)

lemma enc_run_step0:
  "bx mod 3 = 0 \<Longrightarrow> enc_run enc bx lx nc (b # bs) = nl_if enc lx @ getenc (drop_bit 2 b) enc #
     enc_run enc (Suc bx) (Suc (col enc lx)) (push_bit 4 (b AND 0x03)) bs"
  by (cases "wraps enc lx")
    (simp_all add: enc_run_def wraps_def Let_def split: prod.splits del: push_bit_and drop_bit_and)

lemma enc_run_step1:
  "bx mod 3 = 1 \<Longrightarrow> enc_run enc bx lx nc (b # bs) =
     nl_if enc lx @ getenc (nc OR drop_bit 4 (b AND 0xf0)) enc #
     enc_run enc (Suc bx) (Suc (col enc lx)) (push_bit 2 (b AND 0x0f)) bs"
  by (cases "wraps enc lx")
    (simp_all add: enc_run_def wraps_def Let_def split: prod.splits del: push_bit_and drop_bit_and)

lemma enc_run_step2:
  "bx mod 3 = 2 \<Longrightarrow> enc_run enc bx lx nc (b # bs) =
     nl_if enc lx @ getenc (nc OR drop_bit 6 (b AND 0xc0)) enc # getenc (b AND 0x3f) enc #
     enc_run enc (Suc bx) (Suc (Suc (col enc lx))) (nc OR drop_bit 6 (b AND 0xc0)) bs"
  by (cases "wraps enc lx")
    (simp_all add: enc_run_def wraps_def Let_def split: prod.splits del: push_bit_and drop_bit_and)

lemma mod3_Suc:
  "bx mod 3 = 0 \<Longrightarrow> Suc bx mod 3 = 1" "bx mod 3 = 0 \<Longrightarrow> Suc (Suc bx) mod 3 = 2"
  "bx mod 3 = 0 \<Longrightarrow> Suc (Suc (Suc bx)) mod 3 = 0"
  by presburger+

lemmas enc_run_steps = enc_run_Nil enc_run_step0 enc_run_step1 enc_run_step2 mod3_Suc

lemma wraps_noise: "wraps enc lx \<Longrightarrow> noise enc 13 \<and> noise enc 10"
  by (cases enc) (auto simp: wraps_def flag_defs split: if_splits)

lemma filter_nl: "filter (\<lambda>c. \<not> noise enc c) (nl_if enc lx) = []"
  using wraps_noise [of enc lx] by simp

lemma filter_final:
  assumes "valid_enc enc" "v < 64" "n mod 3 \<noteq> 0"
  shows "filter (\<lambda>c. \<not> noise enc c) (b64_enc_final enc n v) = [getenc v enc]"
  using getenc_decodes [OF assms(1,2)] assms(3) by (cases enc) (auto simp del: getenc.simps)

lemma enc_run_filter:
  assumes "valid_enc enc" "bx mod 3 = 0"
  shows "filter (\<lambda>c. \<not> noise enc c) (enc_run enc bx lx nc bs) = map (\<lambda>v. getenc v enc) (sextets bs)"
  using assms(2)
proof (induction bs arbitrary: bx lx nc rule: sextets.induct)
  case 1
  then show ?case by (cases enc) (simp add: enc_run_steps)
next
  case (2 a)
  then show ?case
    by (simp add: enc_run_steps filter_nl getenc_decodes [OF assms(1)] sextet_bounds
        filter_final [OF assms(1)] del: push_bit_and drop_bit_and)
next
  case (3 a b)
  then show ?case
    by (simp add: enc_run_steps filter_nl getenc_decodes [OF assms(1)] sextet_bounds
        filter_final [OF assms(1)] del: push_bit_and drop_bit_and)
next
  case (4 a b c r)
  then show ?case
    by (simp add: enc_run_steps filter_nl getenc_decodes [OF assms(1)] sextet_bounds
        del: push_bit_and drop_bit_and)
qed

lemma enc_run_no_null:
  assumes "valid_enc enc" "bx mod 3 = 0"
  shows "0 \<notin> set (enc_run enc bx lx nc bs)"
  using assms(2)
proof (induction bs arbitrary: bx lx nc rule: sextets.induct)
  case 1
  then show ?case by (cases enc) (simp add: enc_run_steps)
next
  case (2 a)
  then show ?case
    using getenc_decodes(2) [OF assms(1), of "drop_bit 2 a"]
      getenc_decodes(2) [OF assms(1), of "push_bit 4 (a AND 0x03)"]
    by (cases enc) (auto simp add: enc_run_steps sextet_bounds simp del: push_bit_and drop_bit_and
        getenc.simps)
next
  case (3 a b)
  then show ?case
    using getenc_decodes(2) [OF assms(1), of "drop_bit 2 a"]
      getenc_decodes(2) [OF assms(1), of "push_bit 4 (a AND 0x03) OR drop_bit 4 (b AND 0xf0)"]
      getenc_decodes(2) [OF assms(1), of "push_bit 2 (b AND 0x0f)"]
    by (cases enc) (auto simp add: enc_run_steps sextet_bounds simp del: push_bit_and drop_bit_and
        getenc.simps)
next
  case (4 a b c r)
  then show ?case
    using getenc_decodes(2) [OF assms(1)] sextet_bounds
    by (simp add: enc_run_steps del: push_bit_and drop_bit_and getenc.simps)
qed

section \<open>Length of the encoded text\<close>

definition b64_chars :: "bool \<Rightarrow> nat \<Rightarrow> nat" where
  "b64_chars pad n = (if pad then 4 * ((n + 2) div 3) else 4 * ((n + 2) div 3) - (2 - (n + 2) mod 3))"

abbreviation pads :: "b64enc \<Rightarrow> bool" where
  "pads enc \<equiv> snd (snd enc) AND EP_B64_PAD \<noteq> 0"

lemma b64_chars_small: "b64_chars pad 0 = 0" "b64_chars pad 1 = (if pad then 4 else 2)"
  "b64_chars pad (Suc (Suc 0)) = (if pad then 4 else 3)"
  by (simp_all add: b64_chars_def)

lemma b64_chars_3: "b64_chars pad (Suc (Suc (Suc n))) = b64_chars pad n + 4"
proof -
  have "(Suc (Suc (Suc n)) + 2) div 3 = Suc ((n + 2) div 3)"
    "(Suc (Suc (Suc n)) + 2) mod 3 = (n + 2) mod 3" "2 - (n + 2) mod 3 \<le> 4 * ((n + 2) div 3)"
    by presburger+
  then show ?thesis by (simp add: b64_chars_def)
qed

lemma b64_chars_pos:
  assumes "0 < n"
  shows "2 \<le> b64_chars pad n"
proof -
  define x y where "x = (n + 2) div 3" and "y = (n + 2) mod 3"
  have "1 \<le> x" using assms by (simp add: x_def)
  then have "2 \<le> 4 * x - (2 - y)" by arith
  then show ?thesis
    using \<open>1 \<le> x\<close> unfolding b64_chars_def x_def [symmetric] y_def [symmetric] by simp
qed

lemma final_length:
  "length (b64_enc_final enc (Suc 0) v) = b64_chars (pads enc) (Suc 0) - 1"
  "length (b64_enc_final enc (Suc (Suc 0)) v) = b64_chars (pads enc) (Suc (Suc 0)) - 2"
  by (cases enc; simp add: b64_chars_def; fail)+

lemma encmaxline_cases: "encmaxline enc = -1 \<or> encmaxline enc = 64 \<or> encmaxline enc = 76"
  by (cases enc) simp

text \<open>Where the line is broken: only at a group boundary, because the line lengths are multiples of
  four.\<close>

definition col_ok :: "b64enc \<Rightarrow> nat \<Rightarrow> bool" where
  "col_ok enc lx \<longleftrightarrow> (0 < encmaxline enc \<longrightarrow> int lx \<le> encmaxline enc \<and> 4 dvd lx)"

lemma dvd4_less:
  fixes l m :: nat
  assumes "4 dvd l" "4 dvd m" "l < m"
  shows "l + 4 \<le> m"
  using assms by (auto elim!: dvdE)

lemma no_wrap_inside:
  assumes "col_ok enc lx"
  shows "\<not> wraps enc (Suc (col enc lx))" "\<not> wraps enc (Suc (Suc (col enc lx)))"
    "col_ok enc (Suc (Suc (Suc (Suc (col enc lx)))))"
proof -
  have c: "col enc lx + 4 \<le> nat (encmaxline enc) \<and> 4 dvd col enc lx" if "0 < encmaxline enc"
  proof -
    have "4 dvd nat (encmaxline enc)" using encmaxline_cases [of enc] that by auto
    moreover have "4 dvd col enc lx" "col enc lx < nat (encmaxline enc)"
      using assms that by (auto simp: wraps_def col_ok_def)
    ultimately show ?thesis using dvd4_less by blast
  qed
  show "\<not> wraps enc (Suc (col enc lx))" "\<not> wraps enc (Suc (Suc (col enc lx)))"
    using c unfolding wraps_def [of enc "Suc _"] by linarith+
  have "Suc (Suc (Suc (Suc (col enc lx)))) = col enc lx + 4" by simp
  then show "col_ok enc (Suc (Suc (Suc (Suc (col enc lx)))))"
    using c unfolding col_ok_def by (metis dvd_add dvd_refl nat_le_iff zero_less_imp_eq_int int_nat_eq nat_int linear order.strict_implies_order of_nat_le_iff)
qed

definition breaks :: "b64enc \<Rightarrow> nat \<Rightarrow> nat \<Rightarrow> nat" where
  "breaks enc lx n =
     (if 0 < encmaxline enc \<and> 0 < n then (lx + n - 1) div nat (encmaxline enc) else 0)"

lemma col_range:
  assumes "col_ok enc lx" "0 < encmaxline enc"
  shows "4 < nat (encmaxline enc)" "wraps enc lx \<longleftrightarrow> lx = nat (encmaxline enc)"
    "\<not> wraps enc lx \<Longrightarrow> lx + 4 \<le> nat (encmaxline enc)"
proof -
  have "4 dvd nat (encmaxline enc)" using encmaxline_cases [of enc] assms(2) by auto
  then show "4 < nat (encmaxline enc)" "wraps enc lx \<longleftrightarrow> lx = nat (encmaxline enc)"
    "\<not> wraps enc lx \<Longrightarrow> lx + 4 \<le> nat (encmaxline enc)"
    using assms encmaxline_cases [of enc] dvd4_less [of lx "nat (encmaxline enc)"]
    by (auto simp: wraps_def col_ok_def)
qed

lemma breaks_last:
  assumes "col_ok enc lx" "0 < n" "n \<le> 4"
  shows "breaks enc lx n = (if wraps enc lx then 1 else 0)"
proof (cases "0 < encmaxline enc")
  case True
  note r = col_range [OF assms(1) True]
  define m where "m = nat (encmaxline enc)"
  have "(m + n - 1) div m = 1" if "4 < m"
    using assms(2,3) that by (intro div_nat_eqI) auto
  then show ?thesis
    using r assms(2,3) True by (auto simp: breaks_def simp flip: m_def)
qed (simp add: breaks_def wraps_def)

lemma breaks_group:
  assumes "col_ok enc lx"
  shows "breaks enc lx (n + 4) = (if wraps enc lx then 1 else 0) + breaks enc (col enc lx + 4) n"
proof (cases "0 < encmaxline enc")
  case True
  note r = col_range [OF assms(1) True]
  define m where "m = nat (encmaxline enc)"
  have "(3 + (m + n)) div m = Suc ((3 + n) div m)" if "4 < m" for n
    using that div_add_self1 [of m "n + 3"] by (simp add: add_ac)
  from this [of n] this [of 0]
  show ?thesis
    using r True by (auto simp: breaks_def simp flip: m_def)
qed (simp add: breaks_def wraps_def)

lemma enc_run_length:
  assumes "bx mod 3 = 0" "col_ok enc lx"
  shows "length (enc_run enc bx lx nc bs) =
    b64_chars (pads enc) (length bs) + 2 * breaks enc lx (b64_chars (pads enc) (length bs))"
  using assms
proof (induction bs arbitrary: bx lx nc rule: sextets.induct)
  case 1
  then show ?case by (cases enc) (simp add: enc_run_steps b64_chars_small breaks_def)
next
  case (2 a)
  then have "breaks enc lx (b64_chars (pads enc) (Suc 0)) = (if wraps enc lx then 1 else 0)"
    by (intro breaks_last) (auto simp: b64_chars_def)
  then show ?case
    using 2 by (cases enc) (simp add: enc_run_steps b64_chars_def)
next
  case (3 a b)
  then have "breaks enc lx (b64_chars (pads enc) (Suc (Suc 0))) = (if wraps enc lx then 1 else 0)"
    by (intro breaks_last) (auto simp: b64_chars_def)
  then show ?case
    using 3 no_wrap_inside [OF 3(2)] by (cases enc) (simp add: enc_run_steps b64_chars_def)
next
  case (4 a b c r)
  note w = no_wrap_inside [OF 4(3)]
  have "Suc (Suc (Suc bx)) mod 3 = 0" using 4(2) by (rule mod3_Suc)
  note IH = 4(1) [OF this w(3)]
  have "length (nl_if enc lx) = 2 * (if wraps enc lx then 1 else 0)" by simp
  moreover have s: "Suc (Suc (Suc (Suc (col enc lx)))) = col enc lx + 4" by simp
  ultimately show ?case
    using 4(2) w(1,2) breaks_group [OF 4(3), of "b64_chars (pads enc) (length r)", folded s] IH
    by (simp add: enc_run_steps b64_chars_3 del: push_bit_and drop_bit_and split del: if_split)
qed

lemma enc_len_chars:
  fixes n :: nat
  assumes "n < 2 ^ 61"
  defines "bs \<equiv> of_nat n :: u64"
  shows "(if snd (snd enc) AND EP_B64_PAD = 0
          then ((bs + 2) div 3) * 4 - (2 - ((bs + 2) mod 3)) else ((bs + 2) div 3) * 4) =
    (of_nat (b64_chars (pads enc) n) :: u64)"
proof -
  have s: "bs + 2 = of_nat (n + 2)" by (simp add: bs_def)
  have lt: "n + 2 < 2 ^ LENGTH(64)" "3 < (2::nat) ^ LENGTH(64)"
    using assms(1) by simp_all
  from of_nat_div_mod [OF lt] have dm: "(bs + 2) div 3 = of_nat ((n + 2) div 3)" "(bs + 2) mod 3 = of_nat ((n + 2) mod 3)"
    unfolding s by simp_all
  define x y where "x = (n + 2) div 3" and "y = (n + 2) mod 3"
  have "n + 2 = 3 * x + y" "y < 3" by (simp_all add: x_def y_def)
  then have e: "4 * x - (2 - y) = 4 * x + y - 2" "2 \<le> 4 * x + y" by linarith+
  have "(of_nat (4 * x + y - 2) :: u64) = 4 * of_nat x + of_nat y - 2"
    using e(2) by (simp add: of_nat_diff)
  then show ?thesis
    unfolding dm b64_chars_def x_def [symmetric] y_def [symmetric] e(1) by simp
qed

text \<open>For inputs whose text length fits the machine word, and that are not empty when lines are
  wrapped, \<^verbatim>\<open>ep_b64_enc_len\<close> is the length of the text.\<close>

lemma enc_len_exact:
  assumes "length bin < 2 ^ 60" "bin \<noteq> [] \<or> encmaxline enc < 0"
  shows "ep_b64_enc_len (of_nat (length bin)) enc = of_nat (length (b64_text enc bin))"
proof -
  let ?N = "b64_chars (pads enc) (length bin)"
  have run: "b64_text enc bin = enc_run enc 0 0 0 bin"
    by (simp add: b64_text_def enc_run_def)
  have len: "length (b64_text enc bin) = ?N + 2 * breaks enc 0 ?N"
    unfolding run by (rule enc_run_length) (simp_all add: col_ok_def)
  have n1: "(if snd (snd enc) AND EP_B64_PAD = 0
      then ((of_nat (length bin) + 2) div 3) * 4 - (2 - ((of_nat (length bin) + 2) mod 3))
      else ((of_nat (length bin) + 2) div 3) * 4) = (of_nat ?N :: u64)"
    using assms(1) by (intro enc_len_chars) simp
  show ?thesis
  proof (cases "0 < encmaxline enc")
    case True
    then have N: "2 \<le> ?N" using assms b64_chars_pos by auto
    have lt: "?N < 2 ^ 64" using assms(1) by (auto simp: b64_chars_def)
    have m: "(word_of_int (encmaxline enc) :: u64) = of_nat (nat (encmaxline enc))"
      "nat (encmaxline enc) < 2 ^ 64"
      using True encmaxline_cases [of enc] by auto
    have "((of_nat ?N :: u64) - 1) div word_of_int (encmaxline enc) =
        of_nat ((?N - 1) div nat (encmaxline enc))"
      using of_nat_div_mod(1) [of "?N - 1" "nat (encmaxline enc)", where ?'a = 64] lt m N
      by (simp add: of_nat_diff)
    then show ?thesis
      using n1 True N len by (cases enc) (simp add: Let_def breaks_def del: encmaxline.simps)
  next
    case False
    then show ?thesis
      using n1 len by (cases enc) (simp add: Let_def breaks_def del: encmaxline.simps)
  qed
qed

lemma encode_ok:
  assumes "ep_b64_enc_len (of_nat (length bin)) enc + 1 \<le> tsize"
  shows "ep_b64_encode bin tsize enc =
    (EP_STAT_FROM_INT (int (length (b64_text enc bin))), b64_text enc bin)"
  using leD [OF assms] by (simp add: ep_b64_encode_def)

lemma decode_text:
  assumes "valid_enc enc" "length bin \<le> bsize"
  shows "ep_b64_decode (b64_text enc bin) bsize enc = (EP_STAT_FROM_INT (int (length bin)), bin)"
proof -
  have te: "b64_text enc bin = enc_run enc 0 0 0 bin"
    by (simp add: b64_text_def enc_run_def)
  have "b64_dec_loop enc bsize 0 0 [] (enc_run enc 0 0 0 bin) =
      (EP_STAT_FROM_INT (int (length (dec_vals bsize 0 0 [] (sextets bin)))),
       dec_vals bsize 0 0 [] (sextets bin))"
    using assms(1)
    by (intro dec_loop_vals enc_run_no_null ballI sextets_bound enc_run_filter) simp_all
  then show ?thesis
    using assms(2) by (simp add: te ep_b64_decode_def dec_vals_sextets)
qed

section \<open>Properties\<close>

text \<open>C18: a text produced by the encoder decodes to the bytes it was made from, for every valid
  pair of special characters, every combination of the wrapping, padding and noise flags, and every
  output buffer that has room.\<close>

theorem b64_roundtrip:
  assumes "valid_enc enc" "length bin < 2 ^ 29" "length bin \<le> bsize"
    "ep_b64_enc_len (of_nat (length bin)) enc + 1 \<le> tsize"
  shows "ep_b64_decode (snd (ep_b64_encode bin tsize enc)) bsize enc =
    (EP_STAT_FROM_INT (int (length bin)), bin)"
  using assms by (simp add: encode_ok decode_text)

theorem b64_roundtrip_witness:
  "ep_b64_decode (snd (ep_b64_encode [72, 105, 33, 10] 9 EP_B64_ENC_MIME)) 4 EP_B64_ENC_MIME =
     (EP_STAT_FROM_INT 4, [72, 105, 33, 10])"
proof -
  have v: "valid_enc EP_B64_ENC_MIME" by code_simp
  have l: "length [72, 105, 33, 10 :: byte] < 2 ^ 29" "length [72, 105, 33, 10 :: byte] \<le> 4"
    "int (length [72, 105, 33, 10 :: byte]) = 4"
    by simp_all
  have t: "ep_b64_enc_len (of_nat (length [72, 105, 33, 10 :: byte])) EP_B64_ENC_MIME + 1 \<le> 9"
    by code_simp
  from b64_roundtrip [OF v l(1,2) t] show ?thesis unfolding l(3) .
qed

text \<open>C38: the length computed in advance is exactly the number of characters written, so the encoder
  never writes past a buffer it accepted and the assertion before the terminating null holds.\<close>

theorem b64_encode_fits:
  assumes "length bin < 2 ^ 60" "bin \<noteq> [] \<or> encmaxline enc < 0"
    "ep_b64_encode bin tsize enc = (st, text')" "text' \<noteq> []"
  shows "of_nat (length text') = ep_b64_enc_len (of_nat (length bin)) enc \<and>
    ep_b64_enc_len (of_nat (length bin)) enc + 1 \<le> tsize"
  using assms enc_len_exact [OF assms(1,2)]
  by (auto simp: ep_b64_encode_def not_less split: if_splits)

theorem b64_encode_fits_witness:
  "ep_b64_encode [1, 2] 4 EP_B64_ENC_URL = (EP_STAT_FROM_INT 3, [65, 81, 73]) \<and>
   of_nat (length [65, 81, 73 :: byte]) = ep_b64_enc_len (of_nat (length [1, 2 :: byte])) EP_B64_ENC_URL \<and>
   ep_b64_enc_len (of_nat (length [1, 2 :: byte])) EP_B64_ENC_URL + 1 \<le> 4"
proof -
  have e: "ep_b64_encode [1, 2] 4 EP_B64_ENC_URL = (EP_STAT_FROM_INT 3, [65, 81, 73])"
    by code_simp
  show ?thesis
    using b64_encode_fits [OF _ _ e] e by simp
qed

text \<open>With a line-wrapping encoding the empty input is rejected as an overflow, whatever the
  buffer up to 2 to the 58: the length minus one wraps around.\<close>

theorem b64_empty_wrapped:
  assumes "0 < encmaxline enc" "tsize \<le> 2 ^ 58"
  shows "ep_b64_encode [] tsize enc = (EP_STAT_ABORT, [])"
proof -
  have "ep_b64_enc_len 0 enc + 1 = 576460752303423487 \<or>
      ep_b64_enc_len 0 enc + 1 = 485440633518672411"
    using assms(1) by (cases enc) (simp add: Let_def split: if_splits)
  then have "tsize < ep_b64_enc_len 0 enc + 1"
    using assms(2) by (elim disjE; simp add: word_less_nat_alt word_le_nat_alt)
  then show ?thesis by (simp add: ep_b64_encode_def)
qed

theorem b64_empty_wrapped_witness:
  "ep_b64_encode [] 100 EP_B64_ENC_PEM = (EP_STAT_ABORT, [])"
proof -
  have "0 < encmaxline EP_B64_ENC_PEM" by code_simp
  moreover have "(100 :: u64) \<le> 2 ^ 58" by simp
  ultimately show ?thesis by (rule b64_empty_wrapped)
qed

end
