(* ===== verification/Gdp_Name.thy ===== *)
theory Gdp_Name
  imports Ep_B64
begin

text \<open>
  GDP names, \<^verbatim>\<open>gdp/gdp_name.c\<close>: printable form, validity, resolution in the human-name directory
  and the parsing of names given by users.  Strings are byte lists without null bytes.  The MySQL
  directory and the SHA-256 function are parameters.
\<close>

section \<open>Printable names\<close>

definition GDP_GOB_PNAME_LEN :: nat where "GDP_GOB_PNAME_LEN = 43"

definition gdp_printable_name :: "byte list \<Rightarrow> byte list" where
  "gdp_printable_name internal =
     (case ep_b64_encode internal 44 EP_B64_ENC_URL of (estat, text) \<Rightarrow>
        if \<not> EP_STAT_ISOK estat then map of_char ''(unknown)'' else text)"

text \<open>The decoder writes into the caller's buffer, whose old contents stay beyond what it wrote.\<close>

definition gdp_internal_name :: "byte list \<Rightarrow> byte list \<Rightarrow> ep_stat \<times> byte list" where
  "gdp_internal_name external internal =
     (if length external \<noteq> GDP_GOB_PNAME_LEN then (GDP_STAT_GDP_NAME_INVALID, internal)
      else case ep_b64_decode external 32 EP_B64_ENC_URL of (estat, bin) \<Rightarrow>
        let internal' = bin @ drop (length bin) internal in
        if \<not> EP_STAT_ISOK estat then (estat, internal')
        else if EP_STAT_TO_INT estat \<noteq> 32 then (EP_STAT_ABORT, internal')
        else (estat, internal'))"

definition gdp_name_is_valid :: "byte list \<Rightarrow> bool" where
  "gdp_name_is_valid name = list_ex (\<lambda>i. take 4 (drop (4 * i) name) \<noteq> [0, 0, 0, 0]) [0..<8]"

section \<open>The human-name directory\<close>

text \<open>What a query of the directory gives: a failure of the database, no row, or a field.\<close>

datatype db_result = DbFail | DbNoRow | DbRow "byte list"

definition gdp_name_resolve ::
  "(byte list \<Rightarrow> db_result) option \<Rightarrow> byte list \<Rightarrow> byte list \<Rightarrow> ep_stat \<times> byte list" where
  "gdp_name_resolve namedb hname gname =
     (case namedb of
        None \<Rightarrow> (GDP_STAT_NAME_UNKNOWN, gname)
      | Some query \<Rightarrow>
          (case query hname of
             DbFail \<Rightarrow> (GDP_STAT_MYSQL_ERROR, gname)
           | DbNoRow \<Rightarrow> (GDP_STAT_NAME_UNKNOWN, gname)
           | DbRow f \<Rightarrow> if length f = 32 then (EP_STAT_OK, f) else (GDP_STAT_NAME_UNKNOWN, gname)))"

definition gdp_name_root_set :: "byte list option \<Rightarrow> byte list option \<Rightarrow> ep_stat \<times> byte list option" where
  "gdp_name_root_set old root = (EP_STAT_OK, root)"

section \<open>Parsing\<close>

text \<open>
  \<^verbatim>\<open>gdp_name_parse\<close>, one definition per stage; each stage returns the status, the name buffer and
  the \<^verbatim>\<open>xname\<close> string.  \<open>lognames\<close> is the parameter \<^verbatim>\<open>swarm.gdp.compat.lognames\<close>.
\<close>

definition dotted :: "byte list \<Rightarrow> bool" where
  "dotted hname \<longleftrightarrow> 0x2E \<in> set hname"

definition parse_compat ::
  "(byte list \<Rightarrow> byte list) \<Rightarrow> bool \<Rightarrow> byte list \<Rightarrow> ep_stat \<Rightarrow> byte list \<Rightarrow> byte list option \<Rightarrow>
   ep_stat \<times> byte list \<times> byte list option" where
  "parse_compat sha lognames hname estat gname xname =
     (if lognames then
        let x = (if xname = None \<or> dotted hname then hname else the xname) in
        (EP_STAT_OK, sha x, Some x)
      else (estat, gname, xname))"

definition parse_rooted ::
  "(byte list \<Rightarrow> byte list) \<Rightarrow> (byte list \<Rightarrow> db_result) option \<Rightarrow> bool \<Rightarrow> byte list option \<Rightarrow>
   byte list \<Rightarrow> ep_stat \<Rightarrow> byte list \<Rightarrow> ep_stat \<times> byte list \<times> byte list option" where
  "parse_rooted sha namedb lognames root hname estat gname =
     (case root of
        None \<Rightarrow> parse_compat sha lognames hname estat gname None
      | Some r \<Rightarrow>
          let xname = r @ [0x2E] @ hname in
          case gdp_name_resolve namedb xname gname of (estat, gname) \<Rightarrow>
            if EP_STAT_ISOK estat then (estat, gname, Some xname)
            else if \<not> dotted hname then
              (case gdp_name_resolve namedb hname gname of (estat, gname) \<Rightarrow>
                 if EP_STAT_ISOK estat then (estat, gname, Some xname)
                 else parse_compat sha lognames hname estat gname (Some xname))
            else parse_compat sha lognames hname estat gname (Some xname))"

definition parse_human ::
  "(byte list \<Rightarrow> byte list) \<Rightarrow> (byte list \<Rightarrow> db_result) option \<Rightarrow> bool \<Rightarrow> byte list option \<Rightarrow>
   byte list \<Rightarrow> ep_stat \<Rightarrow> byte list \<Rightarrow> ep_stat \<times> byte list \<times> byte list option" where
  "parse_human sha namedb lognames root hname estat gname =
     (if dotted hname \<or> root = None then
        (case gdp_name_resolve namedb hname gname of (estat, gname) \<Rightarrow>
           if EP_STAT_ISOK estat then (estat, gname, None)
           else parse_rooted sha namedb lognames root hname estat gname)
      else parse_rooted sha namedb lognames root hname estat gname)"

definition gdp_name_parse ::
  "(byte list \<Rightarrow> byte list) \<Rightarrow> (byte list \<Rightarrow> db_result) option \<Rightarrow> bool \<Rightarrow> byte list option \<Rightarrow>
   byte list \<Rightarrow> byte list \<Rightarrow> ep_stat \<times> byte list \<times> byte list option" where
  "gdp_name_parse sha namedb lognames root hname gname0 =
     (let (estat, gname, xname) =
        (if length hname = GDP_GOB_PNAME_LEN then
           (case gdp_internal_name hname gname0 of (estat, gname) \<Rightarrow>
              if EP_STAT_ISOK estat then (estat, gname, None)
              else parse_human sha namedb lognames root hname estat gname)
         else parse_human sha namedb lognames root hname GDP_STAT_NAME_UNKNOWN gname0) in
      (estat, gname, if EP_STAT_ISOK estat then xname else None))"

section \<open>Candidates\<close>

text \<open>
  The documented algorithm as data: the human names that are tried, in order.  The name directory
  entry a candidate has, when it has one, is a row of the right length.
\<close>

definition candidates :: "byte list option \<Rightarrow> byte list \<Rightarrow> byte list list" where
  "candidates root hname =
     (case root of
        None \<Rightarrow> [hname]
      | Some r \<Rightarrow>
          if dotted hname then [hname, r @ [0x2E] @ hname] else [r @ [0x2E] @ hname, hname])"

definition directory :: "(byte list \<Rightarrow> db_result) option \<Rightarrow> byte list \<Rightarrow> byte list option" where
  "directory namedb h =
     (case namedb of
        None \<Rightarrow> None
      | Some query \<Rightarrow>
          (case query h of DbRow f \<Rightarrow> if length f = 32 then Some f else None | _ \<Rightarrow> None))"

lemma resolve_found:
  "directory namedb h = Some f \<Longrightarrow> gdp_name_resolve namedb h g = (EP_STAT_OK, f)"
  by (auto simp: directory_def gdp_name_resolve_def split: option.splits db_result.splits if_splits)

lemma resolve_missing_any:
  "\<exists>st. directory namedb h = None \<longrightarrow>
     (\<forall>g. gdp_name_resolve namedb h g = (st, g)) \<and> \<not> EP_STAT_ISOK st"
proof -
  have bad: "\<not> EP_STAT_ISOK GDP_STAT_NAME_UNKNOWN" "\<not> EP_STAT_ISOK GDP_STAT_MYSQL_ERROR"
    by code_simp+
  show ?thesis
    by (cases namedb; cases "the namedb h")
      (use bad in \<open>auto simp: directory_def gdp_name_resolve_def\<close>)
qed

lemma resolve_missing:
  assumes "directory namedb h = None"
  obtains st where "gdp_name_resolve namedb h g = (st, g)" "\<not> EP_STAT_ISOK st"
  using assms resolve_missing_any by metis

lemma url_text_length: "length n = 32 \<Longrightarrow> length (b64_text EP_B64_ENC_URL n) = 43"
proof -
  assume n: "length n = 32"
  have run: "b64_text EP_B64_ENC_URL n = enc_run EP_B64_ENC_URL 0 0 0 n"
    by (simp add: b64_text_def enc_run_def)
  let ?N = "b64_chars (pads EP_B64_ENC_URL) 32"
  have "length (b64_text EP_B64_ENC_URL n) = ?N + 2 * breaks EP_B64_ENC_URL 0 ?N"
    unfolding run using n by (subst enc_run_length) (simp_all add: col_ok_def)
  also have "\<dots> = 43" by code_simp
  finally show ?thesis .
qed

lemma printable_text: "length n = 32 \<Longrightarrow> gdp_printable_name n = b64_text EP_B64_ENC_URL n"
proof -
  assume n: "length n = 32"
  have "ep_b64_enc_len (of_nat 32) EP_B64_ENC_URL + 1 \<le> (44 :: u64)"
    "EP_STAT_ISOK (EP_STAT_FROM_INT 43)"
    by code_simp+
  then show ?thesis
    using n by (simp add: gdp_printable_name_def encode_ok url_text_length del: ep_b64_enc_len.simps)
qed

lemma internal_name_bad_length:
  "length h \<noteq> GDP_GOB_PNAME_LEN \<Longrightarrow> gdp_internal_name h g = (GDP_STAT_GDP_NAME_INVALID, g)"
  by (simp add: gdp_internal_name_def)

text \<open>The part of parsing that works on human names, as a search over the candidates.\<close>

lemma parse_human_search:
  "case find (\<lambda>h. directory namedb h \<noteq> None) (candidates root hname) of
     Some h \<Rightarrow>
       (\<exists>x. parse_human sha namedb lognames root hname st g = (EP_STAT_OK, the (directory namedb h), x))
   | None \<Rightarrow>
       (\<exists>st' x. parse_human sha namedb lognames root hname st g =
          parse_compat sha lognames hname st' g x \<and> \<not> EP_STAT_ISOK st' \<and>
          x = map_option (\<lambda>r. r @ [0x2E] @ hname) root)"
proof -
  have ok: "EP_STAT_ISOK EP_STAT_OK" by code_simp
  obtain s1 where d1: "directory namedb hname = None \<longrightarrow>
      (\<forall>g. gdp_name_resolve namedb hname g = (s1, g)) \<and> \<not> EP_STAT_ISOK s1"
    using resolve_missing_any by metis
  obtain s2 where d2: "root \<noteq> None \<longrightarrow> directory namedb (the root @ [0x2E] @ hname) = None \<longrightarrow>
      (\<forall>g. gdp_name_resolve namedb (the root @ [0x2E] @ hname) g = (s2, g)) \<and> \<not> EP_STAT_ISOK s2"
    using resolve_missing_any by metis
  show ?thesis
    using d1 d2 ok
    by (cases root; cases "dotted hname"; cases "directory namedb hname";
        cases "directory namedb (the root @ [0x2E] @ hname)")
      (auto simp: candidates_def parse_human_def parse_rooted_def Let_def resolve_found)
qed

section \<open>Properties\<close>

text \<open>C21: the printable form of a name has exactly 43 characters and reading it back gives the
  name, with the number of bytes in the status.\<close>

theorem printable_roundtrip:
  assumes "length n = 32" "length g = 32"
  shows "length (gdp_printable_name n) = GDP_GOB_PNAME_LEN \<and>
    gdp_internal_name (gdp_printable_name n) g = (EP_STAT_FROM_INT 32, n)"
proof -
  have v: "valid_enc EP_B64_ENC_URL" by code_simp
  have d: "ep_b64_decode (gdp_printable_name n) 32 EP_B64_ENC_URL = (EP_STAT_FROM_INT 32, n)"
    using assms(1) decode_text [OF v, of n 32] by (simp add: printable_text)
  have "EP_STAT_ISOK (EP_STAT_FROM_INT 32)" "EP_STAT_TO_INT (EP_STAT_FROM_INT 32) = 32"
    by code_simp+
  then show ?thesis
    using assms d
    by (simp add: gdp_internal_name_def printable_text url_text_length GDP_GOB_PNAME_LEN_def)
qed

theorem printable_roundtrip_witness:
  "length (gdp_printable_name (replicate 32 7)) = GDP_GOB_PNAME_LEN \<and>
   gdp_internal_name (gdp_printable_name (replicate 32 7)) (replicate 32 0) =
     (EP_STAT_FROM_INT 32, replicate 32 7)"
  using printable_roundtrip [of "replicate 32 7" "replicate 32 0"] by simp

text \<open>C27: what parsing gives.  A string that reads as a printable name is that name.  Otherwise
  the first human name of the documented order that has an entry in the directory decides.  When
  none has, the SHA-256 of the name (extended by the root unless it has a dot) is used if old log
  names are allowed, and parsing fails if they are not.\<close>

theorem name_parse_order:
  "let (estat, gname, xname) = gdp_name_parse sha namedb lognames root hname g;
       (ist, ig) = gdp_internal_name hname g
   in if EP_STAT_ISOK ist then estat = ist \<and> gname = ig
      else case find (\<lambda>h. directory namedb h \<noteq> None) (candidates root hname) of
        Some h \<Rightarrow> EP_STAT_ISOK estat \<and> gname = the (directory namedb h)
      | None \<Rightarrow>
          if lognames then EP_STAT_ISOK estat \<and>
            gname = sha (if root = None \<or> dotted hname then hname else the root @ [0x2E] @ hname)
          else \<not> EP_STAT_ISOK estat \<and> gname = ig \<and> xname = None"
proof -
  obtain ist ig where i: "gdp_internal_name hname g = (ist, ig)" by fastforce
  have bad: "\<not> EP_STAT_ISOK GDP_STAT_GDP_NAME_INVALID" "EP_STAT_ISOK EP_STAT_OK" by code_simp+
  define st where "st = (if length hname = GDP_GOB_PNAME_LEN then ist else GDP_STAT_NAME_UNKNOWN)"
  have p: "gdp_name_parse sha namedb lognames root hname g =
      (let (estat, gname, xname) =
         (if EP_STAT_ISOK ist then (ist, ig, None)
          else parse_human sha namedb lognames root hname st ig) in
       (estat, gname, if EP_STAT_ISOK estat then xname else None))"
    using i bad internal_name_bad_length [of hname g] by (auto simp: gdp_name_parse_def st_def)
  show ?thesis
    using parse_human_search [where sha = sha and namedb = namedb and lognames = lognames
        and root = root and hname = hname and st = st and g = ig] bad(2)
    by (auto simp: p i Let_def parse_compat_def split: option.splits)
qed

text \<open>With a root set, an undotted name that has an entry only without extension parses to that
  entry, yet the name reported as used is the extended one.\<close>

theorem name_parse_xname_unextended:
  assumes "root = Some r" "\<not> dotted hname" "length hname \<noteq> GDP_GOB_PNAME_LEN"
    "directory namedb (r @ [0x2E] @ hname) = None" "directory namedb hname = Some f"
  shows "gdp_name_parse sha namedb lognames root hname g =
    (EP_STAT_OK, f, Some (r @ [0x2E] @ hname))"
proof -
  obtain st where "gdp_name_resolve namedb (r @ [0x2E] @ hname) g = (st, g)" "\<not> EP_STAT_ISOK st"
    by (rule resolve_missing [OF assms(4)])
  moreover have "EP_STAT_ISOK EP_STAT_OK" by code_simp
  ultimately show ?thesis
    using assms
    by (simp add: gdp_name_parse_def parse_human_def parse_rooted_def resolve_found)
qed

theorem name_parse_xname_unextended_witness:
  "gdp_name_parse (\<lambda>x. x) (Some (\<lambda>h. if h = [97] then DbRow (replicate 32 5) else DbNoRow)) True
     (Some [98]) [97] (replicate 32 0) = (EP_STAT_OK, replicate 32 5, Some [98, 0x2E, 97])"
  by (subst name_parse_xname_unextended [where r = "[98]" and f = "replicate 32 5"])
    (simp_all add: dotted_def directory_def GDP_GOB_PNAME_LEN_def)

end
