(* ===== verification/Gdp_Pdu.thy ===== *)
theory Gdp_Pdu
  imports Gdp_Chan Gdp_Datum Gdp_Name
begin

text \<open>
  Session-layer messages and PDUs: the message description \<^verbatim>\<open>gdp/gdp.proto\<close> as a datatype, message
  creation in \<^verbatim>\<open>gdp/gdp_msg.c\<close>, PDUs and their free list, output and input in \<^verbatim>\<open>gdp/gdp_pdu.c\<close>, and the
  channel callbacks \<^verbatim>\<open>_gdp_io_recv\<close> and \<^verbatim>\<open>_gdp_router_event\<close> of \<^verbatim>\<open>gdp/gdp_main.c\<close>.  The protobuf
  library (packing and unpacking) is a parameter.
\<close>

section \<open>Messages\<close>

text \<open>The bodies of \<^verbatim>\<open>GdpMessage\<close>; an optional field is an option.\<close>

datatype gdp_body =
    BODY_NOT_SET
  | BODY_CMD_CREATE (cr_metadata: "byte list") (cr_logname: "byte list option")
  | BODY_CMD_OPEN
  | BODY_CMD_CLOSE
  | BODY_CMD_APPEND (ap_dl: "pb_datum list")
  | BODY_CMD_READ_BY_RECNO (rr_recno: int) (rr_nrecs: "int option")
  | BODY_CMD_READ_BY_TS (rt_ts: "pb_timestamp option") (rt_nrecs: "int option")
  | BODY_CMD_READ_BY_HASH (rh_hash: "byte list")
  | BODY_CMD_SUBSCRIBE_BY_RECNO (sr_start: "int option") (sr_nrecs: "int option") (sr_timeout: "pb_timestamp option")
  | BODY_CMD_SUBSCRIBE_BY_TS (st_ts: "pb_timestamp option") (st_nrecs: "int option") (st_timeout: "pb_timestamp option")
  | BODY_CMD_SUBSCRIBE_BY_HASH (sh_hash: "byte list") (sh_nrecs: "int option") (sh_timeout: "pb_timestamp option")
  | BODY_CMD_UNSUBSCRIBE
  | BODY_CMD_GET_METADATA
  | BODY_CMD_DELETE
  | BODY_ACK_SUCCESS (as_recno: "int option") (as_ts: "pb_timestamp option") (as_hash: "byte list option") (as_metadata: "byte list option")
  | BODY_ACK_CHANGED (ac_recno: int)
  | BODY_ACK_CONTENT (ct_dl: "pb_datum list") (ct_moredata: "bool option")
  | BODY_ACK_END_OF_RESULTS (er_stat: "u32 option") (er_nresults: "int option")
  | BODY_NAK (nk_stat: "u32 option") (nk_desc: "byte list option") (nk_recno: "int option")
  | BODY_NAK_CONFLICT (nc_stat: "u32 option") (nc_desc: "byte list option") (nc_recno: "int option")

record gdp_msg =
  cmd :: gdp_cmd
  has_rid :: bool
  rid :: u32
  has_l5seqno :: bool
  l5seqno :: u32
  body :: gdp_body
  msg_sig :: "byte list option"

definition GDP_PDU_NO_RID :: u32 where "GDP_PDU_NO_RID = 0"
definition GDP_PDU_ANY_RID :: u32 where "GDP_PDU_ANY_RID = 0xffffffff"
definition GDP_PDU_NO_L5SEQNO :: u32 where "GDP_PDU_NO_L5SEQNO = 0"

definition CMD_CREATE :: gdp_cmd where "CMD_CREATE = 66"
definition CMD_OPEN_AO :: gdp_cmd where "CMD_OPEN_AO = 67"
definition CMD_OPEN_RO :: gdp_cmd where "CMD_OPEN_RO = 68"
definition CMD_OPEN_RA :: gdp_cmd where "CMD_OPEN_RA = 69"
definition CMD_APPEND :: gdp_cmd where "CMD_APPEND = 71"
definition CMD_READ_BY_RECNO :: gdp_cmd where "CMD_READ_BY_RECNO = 72"
definition CMD_READ_BY_TS :: gdp_cmd where "CMD_READ_BY_TS = 73"
definition CMD_READ_BY_HASH :: gdp_cmd where "CMD_READ_BY_HASH = 74"
definition CMD_SUBSCRIBE_BY_RECNO :: gdp_cmd where "CMD_SUBSCRIBE_BY_RECNO = 75"
definition CMD_SUBSCRIBE_BY_TS :: gdp_cmd where "CMD_SUBSCRIBE_BY_TS = 76"
definition CMD_SUBSCRIBE_BY_HASH :: gdp_cmd where "CMD_SUBSCRIBE_BY_HASH = 77"
definition CMD_DELETE :: gdp_cmd where "CMD_DELETE = 81"
definition ACK_CHANGED :: gdp_cmd where "ACK_CHANGED = 132"
definition ACK_CONTENT :: gdp_cmd where "ACK_CONTENT = 133"
definition ACK_END_OF_RESULTS :: gdp_cmd where "ACK_END_OF_RESULTS = 191"
definition NAK_R_NOROUTE :: gdp_cmd where "NAK_R_NOROUTE = 240"

lemmas cmd_defs = CMD_CREATE_def CMD_OPEN_AO_def CMD_OPEN_RO_def CMD_OPEN_RA_def CMD_APPEND_def
  CMD_READ_BY_RECNO_def CMD_READ_BY_TS_def CMD_READ_BY_HASH_def CMD_SUBSCRIBE_BY_RECNO_def
  CMD_SUBSCRIBE_BY_TS_def CMD_SUBSCRIBE_BY_HASH_def CMD_DELETE_def ACK_CHANGED_def ACK_CONTENT_def
  ACK_END_OF_RESULTS_def NAK_R_NOROUTE_def

text \<open>The body a new message starts with.\<close>

definition msg_body_init :: "gdp_cmd \<Rightarrow> gdp_body" where
  "msg_body_init c =
     (if c = CMD_CREATE then BODY_CMD_CREATE [] None
      else if c = CMD_OPEN_AO \<or> c = CMD_OPEN_RO \<or> c = CMD_OPEN_RA then BODY_CMD_OPEN
      else if c = CMD_APPEND then BODY_CMD_APPEND []
      else if c = CMD_READ_BY_RECNO then BODY_CMD_READ_BY_RECNO 0 None
      else if c = CMD_READ_BY_TS then BODY_CMD_READ_BY_TS None None
      else if c = CMD_READ_BY_HASH then BODY_CMD_READ_BY_HASH []
      else if c = CMD_SUBSCRIBE_BY_RECNO then BODY_CMD_SUBSCRIBE_BY_RECNO None None None
      else if c = CMD_SUBSCRIBE_BY_TS then BODY_CMD_SUBSCRIBE_BY_TS None None None
      else if c = CMD_SUBSCRIBE_BY_HASH then BODY_CMD_SUBSCRIBE_BY_HASH [] None None
      else if c = ACK_CHANGED then BODY_ACK_CHANGED 0
      else if c = ACK_CONTENT then BODY_ACK_CONTENT [] None
      else if c = ACK_END_OF_RESULTS then BODY_ACK_END_OF_RESULTS None None
      else if 192 \<le> c \<and> c \<le> 239 then BODY_NAK None None None
      else if 128 \<le> c \<and> c \<le> 191 then BODY_ACK_SUCCESS None None None None
      else BODY_NOT_SET)"

definition gdp_msg_new :: "gdp_cmd \<Rightarrow> u32 \<Rightarrow> u32 \<Rightarrow> gdp_msg" where
  "gdp_msg_new c r sq =
     \<lparr>cmd = c, has_rid = (r \<noteq> GDP_PDU_NO_RID), rid = (if r \<noteq> GDP_PDU_NO_RID then r else 0),
      has_l5seqno = (sq \<noteq> GDP_PDU_NO_L5SEQNO), l5seqno = (if sq \<noteq> GDP_PDU_NO_L5SEQNO then sq else 0),
      body = msg_body_init c, msg_sig = None\<rparr>"

section \<open>PDUs\<close>

record gdp_pdu =
  pdu_inuse :: bool
  pdu_dst :: "byte list"
  pdu_src :: "byte list"
  pdu_seqno :: u16
  pdu_msg :: "gdp_msg option"

text \<open>Allocation takes the first PDU of the free list that is not marked as used, or a new one; every
  field is then set anew.\<close>

definition gdp_pdu_new ::
  "gdp_pdu list \<Rightarrow> gdp_msg option \<Rightarrow> byte list \<Rightarrow> byte list \<Rightarrow> u16 \<Rightarrow> gdp_pdu \<times> gdp_pdu list" where
  "gdp_pdu_new freelist msg src dst seqno =
     (\<lparr>pdu_inuse = True, pdu_dst = dst, pdu_src = src, pdu_seqno = seqno, pdu_msg = msg\<rparr>,
      tl (dropWhile pdu_inuse freelist))"

definition gdp_pdu_free :: "gdp_pdu \<Rightarrow> gdp_pdu list \<Rightarrow> gdp_pdu list" where
  "gdp_pdu_free pdu freelist =
     (if \<not> pdu_inuse pdu then freelist else pdu\<lparr>pdu_inuse := False, pdu_msg := None\<rparr> # freelist)"

section \<open>Output\<close>

text \<open>Reserving space in a buffer and committing the bytes written there.\<close>

record 'b evspace =
  evbuffer_reserve_space :: "'b \<Rightarrow> nat \<Rightarrow> int \<times> nat"
  evbuffer_commit_space :: "'b \<Rightarrow> byte list \<Rightarrow> int \<times> 'b"

definition evspace_ok :: "('b, 'w) evspace_scheme \<Rightarrow> ('b \<Rightarrow> byte list) \<Rightarrow> bool" where
  "evspace_ok S c \<longleftrightarrow>
     (\<forall>b n. 0 < fst (evbuffer_reserve_space S b n) \<and> n \<le> snd (evbuffer_reserve_space S b n)) \<and>
     (\<forall>b d. fst (evbuffer_commit_space S b d) = 0 \<and> c (snd (evbuffer_commit_space S b d)) = c b @ d)"

definition pdu_msg_flags :: "gdp_msg \<Rightarrow> gdp_msg" where
  "pdu_msg_flags msg =
     msg\<lparr>has_rid := rid msg \<noteq> GDP_PDU_NO_RID, has_l5seqno := l5seqno msg \<noteq> GDP_PDU_NO_L5SEQNO\<rparr>"

text \<open>
  \<^verbatim>\<open>_gdp_pdu_out\<close>.  The outer option is a null message, which the code dereferences.  The status of
  the channel is not looked at.
\<close>

definition gdp_pdu_out ::
  "('b, 'z) evbuffer_scheme \<Rightarrow> ('v, 'b, 'y) bufferevent_scheme \<Rightarrow> ('b, 'w) evspace_scheme \<Rightarrow>
   (gdp_msg \<Rightarrow> byte list) \<Rightarrow> byte list \<Rightarrow> gdp_pdu option \<Rightarrow> ('b, 'v, 's) gdp_chan option \<Rightarrow>
   (ep_stat \<times> gdp_pdu option \<times> ('b, 'v, 's) gdp_chan option) option" where
  "gdp_pdu_out E B S pack my_name pdu chan =
     (case pdu of
        None \<Rightarrow> Some (EP_STAT_ASSERT_ABORT, None, chan)
      | Some p \<Rightarrow>
          (case chan of
             None \<Rightarrow> Some (GDP_STAT_DEAD_DAEMON, Some p, None)
           | Some ch \<Rightarrow>
               let p = (if gdp_name_is_valid (pdu_src p) then p else p\<lparr>pdu_src := my_name\<rparr>) in
               (case pdu_msg p of
                  None \<Rightarrow> None
                | Some m \<Rightarrow>
                    let m = pdu_msg_flags m;
                        p = p\<lparr>pdu_msg := Some m\<rparr>;
                        obuf = gdp_buf_new E;
                        pb_len = length (pack m)
                    in (case evbuffer_reserve_space S obuf pb_len of (istat, iov_len) \<Rightarrow>
                          if istat \<le> 0 \<or> iov_len < pb_len then Some (GDP_STAT_PDU_WRITE_FAIL, Some p, Some ch)
                          else (case evbuffer_commit_space S obuf (pack m) of (istat, obuf) \<Rightarrow>
                            if istat < 0 then Some (GDP_STAT_PDU_WRITE_FAIL, Some p, Some ch)
                            else (case gdp_chan_send E B ch (pdu_src p) (pdu_dst p) (Some obuf) GDP_PKT_TYPE_REGULAR of
                              (_, ch, _) \<Rightarrow> Some (EP_STAT_OK, Some p, Some ch)))))))"

section \<open>Input\<close>

definition gdp_pdu_in ::
  "('b, 'z) evbuffer_scheme \<Rightarrow> (byte list \<Rightarrow> gdp_msg option) \<Rightarrow> gdp_pdu option \<Rightarrow> 'b \<Rightarrow> nat \<Rightarrow>
   ep_stat \<times> gdp_pdu option \<times> 'b" where
  "gdp_pdu_in E unpack pdu pbuf plen =
     (let pbuf' = snd (gdp_buf_drain E pbuf plen) in
      case pdu of
        None \<Rightarrow> (EP_STAT_ASSERT_ABORT, None, pbuf')
      | Some p \<Rightarrow>
          if pdu_msg p \<noteq> None then (EP_STAT_ASSERT_ABORT, Some p, pbuf')
          else
            let mbuf = (if plen = 0 then [] else case gdp_buf_getptr E pbuf plen of Some d \<Rightarrow> d | None \<Rightarrow> []) in
            (case unpack mbuf of
               None \<Rightarrow> (GDP_STAT_PDU_CORRUPT, Some p, pbuf')
             | Some m \<Rightarrow>
                 let m = (if has_rid m then m else m\<lparr>rid := GDP_PDU_NO_RID\<rparr>);
                     m = (if has_l5seqno m then m else m\<lparr>l5seqno := GDP_PDU_NO_L5SEQNO\<rparr>)
                 in (EP_STAT_OK, Some (p\<lparr>pdu_msg := Some m\<rparr>), pbuf')))"

text \<open>
  The receive callback.  \<open>process\<close> is \<^verbatim>\<open>_gdp_pdu_process\<close>, which hands the PDU to the command or the
  response side; the client state starts with the PDU free list.
\<close>

definition gdp_io_recv ::
  "('b, 'z) evbuffer_scheme \<Rightarrow> (byte list \<Rightarrow> gdp_msg option) \<Rightarrow> (gdp_pdu \<Rightarrow> 's \<Rightarrow> 's) \<Rightarrow>
   byte list \<Rightarrow> byte list \<Rightarrow> u16 \<Rightarrow> 'b \<Rightarrow> nat \<Rightarrow> gdp_pdu list \<times> 's \<Rightarrow> ep_stat \<times> 'b \<times> (gdp_pdu list \<times> 's)" where
  "gdp_io_recv E unpack process src dst seqno payload_buf payload_len st =
     (case gdp_pdu_new (fst st) None src dst seqno of (pdu, fl) \<Rightarrow>
      case gdp_pdu_in E unpack (Some pdu) payload_buf payload_len of (estat, pdu, b) \<Rightarrow>
        if EP_STAT_ISOK estat then (estat, b, (fl, process (the pdu) (snd st))) else (estat, b, (fl, snd st)))"

definition gdp_router_event ::
  "(gdp_pdu \<Rightarrow> 's \<Rightarrow> 's) \<Rightarrow> byte list \<Rightarrow> byte list \<Rightarrow> nat \<Rightarrow> ep_stat \<Rightarrow> gdp_pdu list \<times> 's \<Rightarrow>
   ep_stat \<times> (gdp_pdu list \<times> 's)" where
  "gdp_router_event process src dst payload_len estat st =
     (if estat = GDP_STAT_NAK_NOROUTE then
        let msg = gdp_msg_new NAK_R_NOROUTE GDP_PDU_ANY_RID GDP_PDU_NO_L5SEQNO in
        (case gdp_pdu_new (fst st) (Some msg) src dst 0x8000 of (pdu, fl) \<Rightarrow>
           if cmd msg \<noteq> 0 then (estat, (fl, process pdu (snd st)))
           else (estat, (gdp_pdu_free pdu fl, snd st)))
      else (estat, st))"

section \<open>Messages on a channel\<close>

text \<open>What the receiver makes of the bytes of a message.\<close>

definition received :: "(byte list \<Rightarrow> gdp_msg option) \<Rightarrow> packet \<Rightarrow> gdp_pdu option" where
  "received unpack q =
     (case q of (src, dst, bytes) \<Rightarrow>
        map_option (\<lambda>m. \<lparr>pdu_inuse = True, pdu_dst = dst, pdu_src = src, pdu_seqno = 0, pdu_msg =
          Some (m\<lparr>rid := (if has_rid m then rid m else 0), l5seqno := (if has_l5seqno m then l5seqno m else 0)\<rparr>)\<rparr>)
          (unpack bytes))"

definition deliver_pdu ::
  "(byte list \<Rightarrow> gdp_msg option) \<Rightarrow> (gdp_pdu \<Rightarrow> 's \<Rightarrow> 's) \<Rightarrow> gdp_pdu list \<times> 's \<Rightarrow> packet \<Rightarrow> gdp_pdu list \<times> 's" where
  "deliver_pdu unpack process st q =
     (tl (dropWhile pdu_inuse (fst st)),
      case received unpack q of Some p \<Rightarrow> process p (snd st) | None \<Rightarrow> snd st)"

lemma pdu_codes:
  "EP_STAT_ISOK EP_STAT_OK" "\<not> EP_STAT_ISOK GDP_STAT_PDU_CORRUPT" "\<not> EP_STAT_ISOK EP_STAT_ASSERT_ABORT"
  by code_simp+

text \<open>The library's receive callback meets the contract of the channel's read loop.\<close>

lemma io_recv_ok:
  assumes "evbuffer_ok E c" "recv_cb chan = Some (gdp_io_recv E unpack process)"
  shows "recv_ok c chan (deliver_pdu unpack process)"
proof -
  have "c (fst (snd (gdp_io_recv E unpack process src dst 0 b n st))) = drop n (c b) \<and>
      snd (snd (gdp_io_recv E unpack process src dst 0 b n st)) =
        deliver_pdu unpack process st (src, dst, take n (c b))"
    if "n \<le> length (c b)" for src dst b n st
  proof -
    have mb: "(if n = 0 then [] else case gdp_buf_getptr E b n of Some d \<Rightarrow> d | None \<Rightarrow> []) = take n (c b)"
      using that assms(1) by (auto simp: gdp_buf_getptr_def)
    show ?thesis
      using assms(1) pdu_codes mb
      by (cases "unpack (take n (c b))")
        (auto simp: gdp_io_recv_def gdp_pdu_new_def gdp_pdu_in_def deliver_pdu_def received_def
          gdp_buf_drain_def GDP_PDU_NO_RID_def GDP_PDU_NO_L5SEQNO_def Let_def)
  qed
  then show ?thesis using assms(2) unfolding recv_ok_def by blast
qed

text \<open>A PDU as it leaves: with a source and with the flags of its message.\<close>

definition outgoing :: "byte list \<Rightarrow> gdp_pdu \<Rightarrow> gdp_pdu" where
  "outgoing my_name p =
     p\<lparr>pdu_src := (if gdp_name_is_valid (pdu_src p) then pdu_src p else my_name),
       pdu_msg := map_option pdu_msg_flags (pdu_msg p)\<rparr>"

definition pdu_packet :: "(gdp_msg \<Rightarrow> byte list) \<Rightarrow> gdp_pdu \<Rightarrow> packet" where
  "pdu_packet pack p = (pdu_src p, pdu_dst p, pack (the (pdu_msg p)))"

lemma pdu_out_send:
  assumes "evbuffer_ok E c" "evspace_ok S c" "pdu_msg p = Some m"
  obtains ob where "c ob = pack (pdu_msg_flags m)"
    "gdp_pdu_out E B S pack my_name (Some p) (Some ch) =
      Some (EP_STAT_OK, Some (outgoing my_name p),
        Some (fst (snd (gdp_chan_send E B ch (pdu_src (outgoing my_name p)) (pdu_dst p) (Some ob) GDP_PKT_TYPE_REGULAR))))"
proof -
  let ?bs = "pack (pdu_msg_flags m)" and ?b = "gdp_buf_new E"
  have r: "\<not> (fst (evbuffer_reserve_space S ?b (length ?bs)) \<le> 0 \<or>
      snd (evbuffer_reserve_space S ?b (length ?bs)) < length ?bs)"
    using assms(2) unfolding evspace_ok_def by (metis not_le)
  have cm: "fst (evbuffer_commit_space S ?b ?bs) = 0" "c (snd (evbuffer_commit_space S ?b ?bs)) = ?bs"
    using assms(1,2) by (simp_all add: evspace_ok_def gdp_buf_new_def)
  show thesis
    by (rule that [OF cm(2)])
      (use r cm(1) assms(3) in \<open>simp add: gdp_pdu_out_def outgoing_def Let_def split_beta\<close>)
qed

fun pdu_out_all ::
  "('b, 'z) evbuffer_scheme \<Rightarrow> ('v, 'b, 'y) bufferevent_scheme \<Rightarrow> ('b, 'w) evspace_scheme \<Rightarrow>
   (gdp_msg \<Rightarrow> byte list) \<Rightarrow> byte list \<Rightarrow> ('b, 'v, 's) gdp_chan \<Rightarrow> gdp_pdu list \<Rightarrow> ('b, 'v, 's) gdp_chan option" where
  "pdu_out_all E B S pack my_name ch [] = Some ch"
| "pdu_out_all E B S pack my_name ch (p # ps) =
     (case gdp_pdu_out E B S pack my_name (Some p) (Some ch) of
        Some (estat, _, Some ch) \<Rightarrow> if EP_STAT_ISOK estat then pdu_out_all E B S pack my_name ch ps else None
      | _ \<Rightarrow> None)"

lemma pdu_out_all_frames:
  assumes "evbuffer_ok E c" "bufferevent_ok B out c" "evspace_ok S c"
    "\<forall>p\<in>set ps. pdu_msg p \<noteq> None \<and> packet_ok (pdu_packet pack (outgoing my_name p))"
    "bev ch = Some v"
  shows "\<exists>ch' v'. pdu_out_all E B S pack my_name ch ps = Some ch' \<and> bev ch' = Some v' \<and>
    out v' = out v @ concat (map (frame \<circ> pdu_packet pack \<circ> outgoing my_name) ps)"
  using assms(4,5)
proof (induction ps arbitrary: ch v)
  case (Cons p ps)
  then obtain m where m: "pdu_msg p = Some m" by auto
  let ?o = "outgoing my_name p"
  obtain ob where ob: "c ob = pack (pdu_msg_flags m)"
    "gdp_pdu_out E B S pack my_name (Some p) (Some ch) = Some (EP_STAT_OK, Some ?o,
        Some (fst (snd (gdp_chan_send E B ch (pdu_src ?o) (pdu_dst p) (Some ob) GDP_PKT_TYPE_REGULAR))))"
    by (rule pdu_out_send [OF assms(1,3) m])
  have pk: "pdu_packet pack ?o = (pdu_src ?o, pdu_dst p, c ob)"
    using m ob(1) by (simp add: pdu_packet_def outgoing_def)
  have ok: "length (c ob) \<le> 65535" "length (pdu_src ?o) = 32" "length (pdu_dst p) = 32"
    using Cons.prems(1) pk by auto
  obtain v1 b1 where v1: "gdp_chan_send E B ch (pdu_src ?o) (pdu_dst p) (Some ob) GDP_PKT_TYPE_REGULAR =
      (EP_STAT_OK, ch\<lparr>bev := Some v1\<rparr>, Some b1)" "out v1 = out v @ frame (pdu_src ?o, pdu_dst p, c ob)"
    by (rule send_regular [OF assms(1,2) Cons.prems(2) ok])
  then show ?case
    using Cons.IH [of "ch\<lparr>bev := Some v1\<rparr>" v1] Cons.prems(1) ob(2) pk pdu_codes(1) by auto
qed simp

text \<open>A PDU as the peer sees it.\<close>

definition arrived :: "byte list \<Rightarrow> gdp_pdu \<Rightarrow> gdp_pdu" where
  "arrived my_name p = (outgoing my_name p)\<lparr>pdu_inuse := True, pdu_seqno := 0\<rparr>"

lemma deliver_arrived:
  assumes "pdu_msg p = Some m" "unpack (pack (pdu_msg_flags m)) = Some (pdu_msg_flags m)"
  shows "snd (deliver_pdu unpack process st (pdu_packet pack (outgoing my_name p))) = process (arrived my_name p) (snd st)"
proof -
  have "(pdu_msg_flags m)\<lparr>rid := (if has_rid (pdu_msg_flags m) then rid (pdu_msg_flags m) else 0),
      l5seqno := (if has_l5seqno (pdu_msg_flags m) then l5seqno (pdu_msg_flags m) else 0)\<rparr> = pdu_msg_flags m"
    by (cases m) (simp add: pdu_msg_flags_def GDP_PDU_NO_RID_def GDP_PDU_NO_L5SEQNO_def)
  then show ?thesis
    using assms
    by (cases p) (simp add: deliver_pdu_def received_def pdu_packet_def outgoing_def arrived_def)
qed

lemma deliver_all:
  assumes "\<forall>p\<in>set ps. \<exists>m. pdu_msg p = Some m \<and> unpack (pack (pdu_msg_flags m)) = Some (pdu_msg_flags m)"
  shows "snd (foldl (deliver_pdu unpack process) st (map (pdu_packet pack \<circ> outgoing my_name) ps)) =
    foldl (\<lambda>s p. process p s) (snd st) (map (arrived my_name) ps)"
  using assms
proof (induction ps arbitrary: st)
  case (Cons p ps)
  then obtain m where "pdu_msg p = Some m" "unpack (pack (pdu_msg_flags m)) = Some (pdu_msg_flags m)" by auto
  then show ?case using Cons deliver_arrived [of p m unpack pack process st my_name] by simp
qed simp

section \<open>Properties\<close>

text \<open>C8: messages sent as PDUs on one channel are handed to the peer's session layer one by one, in
  order, with their addresses and the message that was packed, in whatever pieces the bytes
  arrive.  The protobuf library is assumed to read back the messages sent.\<close>

theorem message_transfer:
  assumes "evbuffer_ok E c" "bufferevent_ok B out c" "evspace_ok S c"
    "recv_cb rchan = Some (gdp_io_recv E unpack process)"
    "\<forall>p\<in>set ps. packet_ok (pdu_packet pack (outgoing my_name p)) \<and>
       (\<exists>m. pdu_msg p = Some m \<and> unpack (pack (pdu_msg_flags m)) = Some (pdu_msg_flags m))"
    "bev schan = Some v" "out v = []" "c ibuf = []"
    "pdu_out_all E B S pack my_name schan ps = Some schan'" "concat pieces = out (the (bev schan'))"
  shows "\<exists>b fl'. c b = [] \<and> feed E rchan src dst ibuf (fl, s) pieces =
    Some (b, fl', foldl (\<lambda>s p. process p s) s (map (arrived my_name) ps))"
proof -
  let ?qs = "map (pdu_packet pack \<circ> outgoing my_name) ps"
  have ok: "\<forall>p\<in>set ps. pdu_msg p \<noteq> None \<and> packet_ok (pdu_packet pack (outgoing my_name p))"
    using assms(5) by auto
  have "out (the (bev schan')) = concat (map (frame \<circ> pdu_packet pack \<circ> outgoing my_name) ps)"
    using pdu_out_all_frames [OF assms(1-3) ok assms(6)] assms(7,9) by force
  then have st: "c ibuf @ concat pieces = concat (map frame ?qs)"
    unfolding assms(8,10) by (simp add: comp_assoc)
  have q: "\<forall>q\<in>set ?qs. packet_ok q" using ok by auto
  have "0 < length (frame q)" if "packet_ok q" for q
    using that send_header_length by (cases q) (simp add: MIN_HEADER_LENGTH_def)
  then have h: "?qs \<noteq> [] \<longrightarrow> length (c ibuf) < length (frame (hd ?qs))"
    using q assms(8) by (cases ps) auto
  obtain b where "feed E rchan src dst ibuf (fl, s) pieces =
      Some (b, foldl (deliver_pdu unpack process) (fl, s) ?qs)" "c b = []"
    using feed_frames [OF assms(1) io_recv_ok [OF assms(1,4)] q st h, of src dst "(fl, s)"] by blast
  moreover have "snd (foldl (deliver_pdu unpack process) (fl, s) ?qs) =
      foldl (\<lambda>s p. process p s) s (map (arrived my_name) ps)"
    using deliver_all [of ps unpack pack process "(fl, s)" my_name] assms(5) by simp
  ultimately show ?thesis
    by (cases "foldl (deliver_pdu unpack process) (fl, s) ?qs") auto
qed

text \<open>A packing of messages that have nothing but a command and a request id.\<close>

definition tiny_pack :: "gdp_msg \<Rightarrow> byte list" where
  "tiny_pack m = PUT32 (cmd m) @ PUT32 (rid m)"

definition tiny_unpack :: "byte list \<Rightarrow> gdp_msg option" where
  "tiny_unpack bs =
     do { (c, bs) \<leftarrow> GET32 bs; (r, bs) \<leftarrow> GET32 bs;
          Some (gdp_msg_new c r 0\<lparr>body := BODY_NOT_SET\<rparr>) }"

definition list_evspace :: "byte list evspace" where
  "list_evspace = \<lparr>evbuffer_reserve_space = (\<lambda>b n. (1, n)), evbuffer_commit_space = (\<lambda>b d. (0, b @ d))\<rparr>"

definition sample_pdu :: gdp_pdu where
  "sample_pdu = \<lparr>pdu_inuse = True, pdu_dst = replicate 32 2, pdu_src = replicate 32 1, pdu_seqno = 0,
     pdu_msg = Some (gdp_msg_new 64 5 0)\<rparr>"

definition collect_chan :: "(byte list, nat, gdp_pdu list \<times> gdp_pdu list) gdp_chan" where
  "collect_chan = \<lparr>state = GDP_CHAN_CONNECTED, bev = None, router_addr = None,
     recv_cb = Some (gdp_io_recv list_evbuffer tiny_unpack (\<lambda>p s. s @ [p])),
     ioevent_cb = None, router_cb = None, advert_cb = (\<lambda>s. s)\<rparr>"

theorem message_transfer_witness:
  "\<exists>b fl'. b = [] \<and> feed list_evbuffer collect_chan [] [] [] ([], [])
     [the (bev (the (pdu_out_all list_evbuffer list_bufferevent list_evspace tiny_pack []
        (list_chan (Some [])) [sample_pdu])))] = Some (b, fl', [sample_pdu])"
proof -
  have s: "evspace_ok list_evspace (\<lambda>b. b)" by (simp add: evspace_ok_def list_evspace_def)
  have v: "gdp_name_is_valid (replicate 32 1)" by code_simp
  have m: "pdu_msg_flags (gdp_msg_new 64 5 0) = gdp_msg_new 64 5 0" by code_simp
  have o: "outgoing [] sample_pdu = sample_pdu" using v m by (simp add: outgoing_def sample_pdu_def)
  then have a: "arrived [] sample_pdu = sample_pdu" by (simp add: arrived_def sample_pdu_def)
  have ok: "packet_ok (pdu_packet tiny_pack sample_pdu)"
    by (simp add: sample_pdu_def pdu_packet_def tiny_pack_def c32.put_length)
  have "body (gdp_msg_new 64 5 0) = BODY_NOT_SET" by (simp add: gdp_msg_new_def msg_body_init_def cmd_defs)
  moreover have "cmd (gdp_msg_new 64 5 0) = 64" "rid (gdp_msg_new 64 5 0) = 5"
    by (simp_all add: gdp_msg_new_def GDP_PDU_NO_RID_def)
  ultimately have u: "tiny_unpack (tiny_pack (gdp_msg_new 64 5 0)) = Some (gdp_msg_new 64 5 0)"
    using c32.get_put [of 5 "[]"] by (cases "gdp_msg_new 64 5 0") (simp add: tiny_unpack_def tiny_pack_def c32.get_put)
  have all: "\<forall>p\<in>set [sample_pdu]. packet_ok (pdu_packet tiny_pack (outgoing [] p)) \<and>
      (\<exists>m. pdu_msg p = Some m \<and> tiny_unpack (tiny_pack (pdu_msg_flags m)) = Some (pdu_msg_flags m))"
    using o ok u m by (simp add: sample_pdu_def)
  obtain ch where ch: "pdu_out_all list_evbuffer list_bufferevent list_evspace tiny_pack []
      (list_chan (Some [])) [sample_pdu] = Some ch"
    using pdu_out_all_frames [OF list_evbuffer_ok list_bufferevent_ok s, of "[sample_pdu]" tiny_pack "[]"
        "list_chan (Some [])" "[]"] o ok by (auto simp: list_chan_def sample_pdu_def simp del: pdu_out_all.simps)
  have "bev (list_chan (Some []) :: (byte list, byte list, packet list) gdp_chan) = Some []"
    "recv_cb collect_chan = Some (gdp_io_recv list_evbuffer tiny_unpack (\<lambda>p s. s @ [p]))"
    by (simp_all add: list_chan_def collect_chan_def)
  moreover have "concat [the (bev ch)] = the (bev ch)" by simp
  ultimately show ?thesis
    using message_transfer [OF list_evbuffer_ok list_bufferevent_ok s _ _ _ refl refl ch,
        of collect_chan tiny_unpack "\<lambda>p s. s @ [p]" "[the (bev ch)]" "[]" "[]" "[]" "[]"] all
    unfolding ch by (simp add: a)
qed

text \<open>C36: a message whose packed form exceeds 65535 bytes is dropped: nothing is written to the
  channel, and the status returned to the caller is success.\<close>

theorem pdu_out_too_long:
  assumes "evbuffer_ok E c" "evspace_ok S c" "pdu_msg p = Some m" "65535 < length (pack (pdu_msg_flags m))"
    "bev ch \<noteq> None"
  shows "gdp_pdu_out E B S pack my_name (Some p) (Some ch) = Some (EP_STAT_OK, Some (outgoing my_name p), Some ch)"
proof -
  obtain ob where ob: "c ob = pack (pdu_msg_flags m)"
    "gdp_pdu_out E B S pack my_name (Some p) (Some ch) = Some (EP_STAT_OK, Some (outgoing my_name p),
      Some (fst (snd (gdp_chan_send E B ch (pdu_src (outgoing my_name p)) (pdu_dst p) (Some ob) GDP_PKT_TYPE_REGULAR))))"
    by (rule pdu_out_send [OF assms(1-3)])
  then show ?thesis
    using assms(1,4,5) by (auto simp: gdp_chan_send_def send_helper_def gdp_buf_getlength_def)
qed

theorem pdu_out_too_long_witness:
  "gdp_pdu_out list_evbuffer list_bufferevent list_evspace (\<lambda>m. replicate 65536 0) [] (Some sample_pdu)
     (Some (list_chan (Some []))) = Some (EP_STAT_OK, Some (outgoing [] sample_pdu), Some (list_chan (Some [])))"
  by (rule pdu_out_too_long [OF list_evbuffer_ok])
    (simp_all add: evspace_ok_def list_evspace_def sample_pdu_def list_chan_def)

end
