(* ===== verification/Gdp_Event.thy ===== *)
theory Gdp_Event
  imports Gdp_Pdu "HOL-Library.Multiset"
begin

text \<open>
  Requests and asynchronous events: the request structure of \<^verbatim>\<open>gdp/gdp_priv.h\<close>, and the event queues
  of \<^verbatim>\<open>gdp/gdp_event.c\<close>.  Events that belong to a request wait on the request, sorted by sequence
  number; when their turn or their time has come they move to the list of active events, read by
  \<^verbatim>\<open>gdp_event_next\<close>, or to the list the callback thread serves.  An event is on one queue at a time,
  so the intrusive queues are lists of events.  Functions, the objects of the application and the
  log instances (\<^verbatim>\<open>gin\<close>) are known by a number.
\<close>

section \<open>Flags\<close>

definition EP_UT_BITSET :: "'a::len word \<Rightarrow> 'a word \<Rightarrow> bool" where
  "EP_UT_BITSET bits w \<longleftrightarrow> bits AND w \<noteq> 0"

lemma bitset_exp: "EP_UT_BITSET (2 ^ n) w \<longleftrightarrow> bit w n"
  by (simp add: EP_UT_BITSET_def and.commute [of "2 ^ n" w] and_exp_eq_0_iff_not_bit)

lemma bitset_or [simp]: "EP_UT_BITSET (a OR b) w \<longleftrightarrow> EP_UT_BITSET a w \<or> EP_UT_BITSET b w"
  by (simp add: EP_UT_BITSET_def and.commute [of _ w] bit.conj_disj_distrib or_eq_0_iff)

definition GDP_REQ_FREE :: u16 where "GDP_REQ_FREE = 0"
definition GDP_REQ_ACTIVE :: u16 where "GDP_REQ_ACTIVE = 1"
definition GDP_REQ_WAITING :: u16 where "GDP_REQ_WAITING = 2"
definition GDP_REQ_IDLE :: u16 where "GDP_REQ_IDLE = 3"

lemmas req_states = GDP_REQ_FREE_def GDP_REQ_ACTIVE_def GDP_REQ_WAITING_def GDP_REQ_IDLE_def

definition GDP_REQ_ASYNCIO :: u32 where "GDP_REQ_ASYNCIO = 0x00000001"
definition GDP_REQ_DONE :: u32 where "GDP_REQ_DONE = 0x00000002"
definition GDP_REQ_CLT_SUBSCR :: u32 where "GDP_REQ_CLT_SUBSCR = 0x00000004"
definition GDP_REQ_SRV_SUBSCR :: u32 where "GDP_REQ_SRV_SUBSCR = 0x00000008"
definition GDP_REQ_PERSIST :: u32 where "GDP_REQ_PERSIST = 0x00000010"
definition GDP_REQ_SUBUPGRADE :: u32 where "GDP_REQ_SUBUPGRADE = 0x00000020"
definition GDP_REQ_ALLOC_RID :: u32 where "GDP_REQ_ALLOC_RID = 0x00000040"
definition GDP_REQ_ON_GOB_LIST :: u32 where "GDP_REQ_ON_GOB_LIST = 0x00000080"
definition GDP_REQ_ON_CHAN_LIST :: u32 where "GDP_REQ_ON_CHAN_LIST = 0x00000100"
definition GDP_REQ_VRFY_CONTENT :: u32 where "GDP_REQ_VRFY_CONTENT = 0x00000200"
definition GDP_REQ_ROUTEFAIL :: u32 where "GDP_REQ_ROUTEFAIL = 0x00000400"

lemma req_flag_exp:
  "GDP_REQ_ASYNCIO = 2 ^ 0" "GDP_REQ_DONE = 2 ^ 1" "GDP_REQ_CLT_SUBSCR = 2 ^ 2" "GDP_REQ_SRV_SUBSCR = 2 ^ 3"
  "GDP_REQ_PERSIST = 2 ^ 4" "GDP_REQ_SUBUPGRADE = 2 ^ 5" "GDP_REQ_ALLOC_RID = 2 ^ 6" "GDP_REQ_ON_GOB_LIST = 2 ^ 7"
  "GDP_REQ_ON_CHAN_LIST = 2 ^ 8" "GDP_REQ_VRFY_CONTENT = 2 ^ 9" "GDP_REQ_ROUTEFAIL = 2 ^ 10"
  by (simp_all add: GDP_REQ_ASYNCIO_def GDP_REQ_DONE_def GDP_REQ_CLT_SUBSCR_def GDP_REQ_SRV_SUBSCR_def
    GDP_REQ_PERSIST_def GDP_REQ_SUBUPGRADE_def GDP_REQ_ALLOC_RID_def GDP_REQ_ON_GOB_LIST_def
    GDP_REQ_ON_CHAN_LIST_def GDP_REQ_VRFY_CONTENT_def GDP_REQ_ROUTEFAIL_def)

text \<open>Flag tests, whatever other flags are set or cleared.\<close>

lemmas req_flag_simps = req_flag_exp bitset_exp bit_or_iff bit_and_iff bit_not_iff bit_exp_iff

section \<open>Requests and events\<close>

definition GDP_EVENT_FREE :: u32 where "GDP_EVENT_FREE = 0"
definition GDP_EVENT_DATA :: u32 where "GDP_EVENT_DATA = 1"
definition GDP_EVENT_DONE :: u32 where "GDP_EVENT_DONE = 2"
definition GDP_EVENT_SHUTDOWN :: u32 where "GDP_EVENT_SHUTDOWN = 3"
definition GDP_EVENT_CREATED :: u32 where "GDP_EVENT_CREATED = 4"
definition GDP_EVENT_SUCCESS :: u32 where "GDP_EVENT_SUCCESS = 5"
definition GDP_EVENT_FAILURE :: u32 where "GDP_EVENT_FAILURE = 6"
definition GDP_EVENT_MISSING :: u32 where "GDP_EVENT_MISSING = 7"

lemmas event_types = GDP_EVENT_FREE_def GDP_EVENT_DATA_def GDP_EVENT_DONE_def GDP_EVENT_SHUTDOWN_def
  GDP_EVENT_CREATED_def GDP_EVENT_SUCCESS_def GDP_EVENT_FAILURE_def GDP_EVENT_MISSING_def

record 'b gdp_event =
  ev_type :: u32
  ev_gin :: "nat option"
  ev_datum :: "'b gdp_datum option"
  ev_cb :: "nat option"
  ev_udata :: "nat option"
  ev_stat :: ep_stat
  ev_timeout :: ep_time
  ev_seqno :: u16

text \<open>The two timer callbacks of the event queue, and the post-processing step of a request.\<close>

datatype timer_cb = PENDING_TIMEOUT | DONE_TIMEOUT

datatype postproc = POST_SUBSCRIBE

record 'b gdp_req =
  req_state :: u16
  req_gob :: "nat option"
  req_cpdu :: "gdp_pdu option"
  req_rpdu :: "gdp_pdu option"
  req_stat :: ep_stat
  req_nextrec :: int
  req_s_results :: int
  req_numrecs :: int
  req_flags :: u32
  req_act_ts :: ep_time
  req_postproc :: "postproc option"
  req_sub_cbfunc :: "nat option"
  req_sub_cbarg :: "nat option"
  req_gin :: "nat option"
  req_r_results :: int
  req_events :: "'b gdp_event list"
  req_seqnext :: u16
  req_ev_to :: "(timer_cb \<times> u32) option"

definition GDP_SEQNO_BASE :: nat where "GDP_SEQNO_BASE = 32768"

definition seqno_after :: "u16 \<Rightarrow> u16" where
  "seqno_after s = word_of_nat ((unat s + 1) mod GDP_SEQNO_BASE)"

text \<open>The global queues, with the free list of records that events hand their data back to.\<close>

record 'b ev_lists =
  ev_free :: "'b gdp_event list"
  ev_active :: "'b gdp_event list"
  ev_callback :: "'b gdp_event list"
  datum_free :: "'b gdp_datum list"

section \<open>Allocation\<close>

definition zeroed_event :: "'b gdp_event" where
  "zeroed_event = \<lparr>ev_type = 0, ev_gin = None, ev_datum = None, ev_cb = None, ev_udata = None, ev_stat = 0,
     ev_timeout = ep_time_zero, ev_seqno = 0\<rparr>"

text \<open>An event taken from the free list keeps the fields it had.\<close>

definition gdp_event_new :: "'b ev_lists \<Rightarrow> 'b gdp_event \<times> 'b ev_lists" where
  "gdp_event_new q =
     (case dropWhile (\<lambda>g. ev_type g \<noteq> GDP_EVENT_FREE) (ev_free q) of
        [] \<Rightarrow> (zeroed_event, q\<lparr>ev_free := []\<rparr>)
      | g # gs \<Rightarrow> (g, q\<lparr>ev_free := gs\<rparr>))"

definition gdp_event_free :: "('b, 'z) evbuffer_scheme \<Rightarrow> 'b gdp_event \<Rightarrow> 'b ev_lists \<Rightarrow> ep_stat \<times> 'b ev_lists" where
  "gdp_event_free E gev q =
     (if ev_type gev = GDP_EVENT_FREE then (EP_STAT_ASSERT_ABORT, q)
      else (EP_STAT_OK,
        q\<lparr>ev_free := gev\<lparr>ev_type := GDP_EVENT_FREE, ev_datum := None\<rparr> # ev_free q,
          datum_free := (if ev_datum gev \<noteq> None then gdp_datum_free E (ev_datum gev) (datum_free q) else datum_free q)\<rparr>))"

section \<open>Triggering events\<close>

definition insert_active_event :: "'b gdp_event \<Rightarrow> 'b gdp_event list \<Rightarrow> 'b gdp_event list" where
  "insert_active_event gev list = (if ev_type gev = GDP_EVENT_FREE then list else list @ [gev])"

definition modulo_gt :: "u16 \<Rightarrow> u16 \<Rightarrow> bool" where
  "modulo_gt a b =
     (if a < b \<and> unat b - unat a > GDP_SEQNO_BASE div 2 then True
      else if a > b \<and> unat a - unat b > GDP_SEQNO_BASE div 2 then False
      else a > b)"

definition gdp_event_trigger ::
  "'b gdp_event \<Rightarrow> 'b gdp_req \<Rightarrow> 'b ev_lists \<Rightarrow> 'b gdp_req \<times> 'b ev_lists" where
  "gdp_event_trigger gev req q =
     (let req = req\<lparr>req_seqnext := seqno_after (ev_seqno gev)\<rparr> in
      if ev_type gev = GDP_EVENT_DONE \<and> EP_UT_BITSET GDP_REQ_PERSIST (req_flags req) then
        (req\<lparr>req_events := insert_active_event gev (req_events req)\<rparr>, q)
      else if ev_cb gev = None then (req, q\<lparr>ev_active := insert_active_event gev (ev_active q)\<rparr>)
      else (req, q\<lparr>ev_callback := insert_active_event gev (ev_callback q)\<rparr>))"

text \<open>The loop over the pending events; not returning is \<^term>\<open>None\<close>.\<close>

partial_function (option) trigger_loop ::
  "ep_time \<Rightarrow> bool \<Rightarrow> 'b gdp_req \<Rightarrow> 'b ev_lists \<Rightarrow> ('b gdp_req \<times> 'b ev_lists) option" where
  "trigger_loop now flush req q =
     (case req_events req of
        [] \<Rightarrow> Some (req, q)
      | gev # gs \<Rightarrow>
          if \<not> flush \<and> ev_seqno gev \<noteq> req_seqnext req \<and> ep_time_before now (ev_timeout gev) then Some (req, q)
          else (case gdp_event_trigger gev (req\<lparr>req_events := gs\<rparr>) q of (req, q) \<Rightarrow> trigger_loop now flush req q))"

text \<open>Setting a timer replaces the one there is; the time is cut to 32 bits.\<close>

definition gdp_evloop_timer_set :: "int \<Rightarrow> timer_cb \<Rightarrow> (timer_cb \<times> u32) option \<Rightarrow> (timer_cb \<times> u32) option" where
  "gdp_evloop_timer_set timeout cbfunc ev = Some (cbfunc, word_of_int timeout)"

definition gdp_evloop_timer_clr :: "(timer_cb \<times> u32) option \<Rightarrow> (timer_cb \<times> u32) option" where
  "gdp_evloop_timer_clr ev = None"

text \<open>\<open>clk\<close> is what \<^verbatim>\<open>gettimeofday\<close> gives and \<open>acc\<close> the accuracy of the clock.\<close>

definition gdp_event_trigger_pending ::
  "int + int \<times> int \<Rightarrow> u32 \<Rightarrow> bool \<Rightarrow> 'b gdp_req \<Rightarrow> 'b ev_lists \<Rightarrow> ('b gdp_req \<times> 'b ev_lists) option" where
  "gdp_event_trigger_pending clk acc flush req q =
     (let now = snd (ep_time_now clk acc ep_time_zero) in
      case trigger_loop now flush req q of
        None \<Rightarrow> None
      | Some (req, q) \<Rightarrow>
          (case req_events req of
             [] \<Rightarrow> Some (req, q)
           | gev # gs \<Rightarrow>
               let to = ep_time_diff_usec now (ev_timeout gev) in
               Some (req\<lparr>req_ev_to := gdp_evloop_timer_set to
                       (if ev_type gev = GDP_EVENT_DONE then DONE_TIMEOUT else PENDING_TIMEOUT) (req_ev_to req)\<rparr>, q)))"

text \<open>The two timer callbacks.\<close>

definition run_timer ::
  "int + int \<times> int \<Rightarrow> u32 \<Rightarrow> timer_cb \<Rightarrow> 'b gdp_req \<Rightarrow> 'b ev_lists \<Rightarrow> ('b gdp_req \<times> 'b ev_lists) option" where
  "run_timer clk acc cb req q =
     (case cb of
        PENDING_TIMEOUT \<Rightarrow> gdp_event_trigger_pending clk acc False req q
      | DONE_TIMEOUT \<Rightarrow> gdp_event_trigger_pending clk acc True req q)"

section \<open>Pending events\<close>

text \<open>
  Insertion into the pending list.  \<open>data_usec\<close> and \<open>done_usec\<close> are the administrative parameters
  \<^verbatim>\<open>swarm.gdp.event.timeout.data\<close> and \<^verbatim>\<open>swarm.gdp.event.timeout.done\<close>; the clock is read twice.  The
  search for the place goes from the last event towards the first.
\<close>

record ev_conf =
  data_usec :: int
  done_usec :: int
  clk_acc :: u32

definition usec_timeout :: "int \<Rightarrow> ep_time" where
  "usec_timeout usec = ep_time_from_usec usec \<lparr>tv_sec = EP_TIME_NOTIME, tv_nsec = 0, tv_accuracy = 0\<rparr>"

text \<open>The list is given last event first: what comes before \<open>this_ev\<close>, \<open>this_ev\<close>, and what follows it.\<close>

fun insert_before_search ::
  "'b gdp_event \<Rightarrow> 'b gdp_event list \<Rightarrow> 'b gdp_event \<Rightarrow> 'b gdp_event list \<Rightarrow> 'b gdp_event list" where
  "insert_before_search gev [] this_ev after = gev # this_ev # after"
| "insert_before_search gev (next_ev # prevs) this_ev after =
     (if modulo_gt (ev_seqno gev) (ev_seqno this_ev) then insert_before_search gev prevs next_ev (this_ev # after)
      else rev (next_ev # prevs) @ gev # this_ev # after)"

definition pending_insert :: "'b gdp_event \<Rightarrow> 'b gdp_event list \<Rightarrow> 'b gdp_event list" where
  "pending_insert gev evs =
     (if ev_type gev = GDP_EVENT_DONE then evs @ [gev]
      else (case rev evs of
              [] \<Rightarrow> [gev]
            | last_ev # prevs \<Rightarrow>
                if modulo_gt (ev_seqno gev) (ev_seqno last_ev) then evs @ [gev]
                else insert_before_search gev prevs last_ev []))"

definition insert_pending_event ::
  "ev_conf \<Rightarrow> int + int \<times> int \<Rightarrow> int + int \<times> int \<Rightarrow> 'b gdp_event \<Rightarrow> 'b gdp_req \<Rightarrow> 'b ev_lists \<Rightarrow>
   ('b gdp_req \<times> 'b ev_lists) option" where
  "insert_pending_event cf clk clk' gev req q =
     (if ev_type gev = GDP_EVENT_FREE then Some (req, q)
      else
        let usec = (if ev_type gev = GDP_EVENT_DONE then done_usec cf else data_usec cf);
            gev = gev\<lparr>ev_timeout := snd (ep_time_deltanow clk (clk_acc cf) (usec_timeout usec) (ev_timeout gev))\<rparr>
        in gdp_event_trigger_pending clk' (clk_acc cf) False
             (req\<lparr>req_events := pending_insert gev (req_events req)\<rparr>) q)"

definition ACK_SUCCESS :: gdp_cmd where "ACK_SUCCESS = 128"
definition ACK_CREATED :: gdp_cmd where "ACK_CREATED = 129"
definition NAK_C_REC_MISSING :: gdp_cmd where "NAK_C_REC_MISSING = 222"
definition NAK_S_LOST_SUBSCR :: gdp_cmd where "NAK_S_LOST_SUBSCR = 239"

text \<open>The event type for an ack or nak, with the changes to the request that go with it.\<close>

definition event_of_acknak :: "gdp_cmd \<Rightarrow> 'b gdp_req \<Rightarrow> (u32 \<times> 'b gdp_req) option" where
  "event_of_acknak c req =
     (if c = ACK_SUCCESS then Some (GDP_EVENT_SUCCESS, req)
      else if c = ACK_CONTENT then Some (GDP_EVENT_DATA, req)
      else if c = ACK_END_OF_RESULTS then Some (GDP_EVENT_DONE, req)
      else if c = ACK_CREATED then Some (GDP_EVENT_CREATED, req)
      else if c = NAK_S_LOST_SUBSCR then
        Some (GDP_EVENT_SHUTDOWN, req\<lparr>req_flags := req_flags req AND NOT GDP_REQ_PERSIST\<rparr>)
      else if c = NAK_C_REC_MISSING then Some (GDP_EVENT_MISSING, req)
      else if 128 \<le> c \<and> c \<le> 191 then
        Some (GDP_EVENT_SUCCESS, req\<lparr>req_stat := gdp_stat_from_acknak (uint c)\<rparr>)
      else if 192 \<le> c \<and> c \<le> 254 then
        Some (GDP_EVENT_FAILURE, req\<lparr>req_stat := gdp_stat_from_acknak (uint c)\<rparr>)
      else None)"

text \<open>
  \<^verbatim>\<open>_gdp_event_add_from_req\<close>; \<open>clk\<close>, \<open>clk'\<close> and \<open>clk''\<close> are the three readings of the clock.  The result
  is \<^term>\<open>None\<close> for a null response, for an \<^verbatim>\<open>ACK_CONTENT\<close> without a record, and when the pending loop
  does not end.  The signature handed to the record is the one of the message.
\<close>

definition gdp_event_add_from_req ::
  "('b, 'z) evbuffer_scheme \<Rightarrow> ev_conf \<Rightarrow> int + int \<times> int \<Rightarrow> int + int \<times> int \<Rightarrow> int + int \<times> int \<Rightarrow>
   'b gdp_req \<Rightarrow> 'b ev_lists \<Rightarrow> (ep_stat \<times> 'b gdp_req \<times> 'b ev_lists) option" where
  "gdp_event_add_from_req E cf clk clk' clk'' req q =
     (case req_rpdu req of
        None \<Rightarrow> None
      | Some rpdu \<Rightarrow>
          (case pdu_msg rpdu of
             None \<Rightarrow> Some (EP_STAT_ASSERT_ABORT, req, q)
           | Some msg \<Rightarrow>
               let req = req\<lparr>req_act_ts := snd (ep_time_now clk (clk_acc cf) (req_act_ts req))\<rparr> in
               (case event_of_acknak (cmd msg) req of
                  None \<Rightarrow> Some (GDP_STAT_PROTOCOL_FAIL, req, q)
                | Some (evtype, req) \<Rightarrow>
                    let (gev, q) = gdp_event_new q;
                        (datum, dfl) = gdp_datum_new E (datum_free q);
                        q = q\<lparr>datum_free := dfl\<rparr>;
                        gev = gev\<lparr>ev_type := evtype, ev_gin := req_gin req, ev_stat := req_stat req,
                          ev_udata := req_sub_cbarg req, ev_cb := req_sub_cbfunc req,
                          ev_timeout := EP_TIME_INVALIDATE (ev_timeout gev)\<rparr>
                    in do {
                      gev \<leftarrow> (if cmd msg = ACK_CONTENT then
                               (case body msg of
                                  BODY_ACK_CONTENT (pbd # _) _ \<Rightarrow>
                                    Some (gev\<lparr>ev_datum := Some (gdp_datum_from_pb E datum pbd (msg_sig msg)),
                                      ev_seqno := pdu_seqno rpdu\<rparr>)
                                | _ \<Rightarrow> None)
                             else Some (gev\<lparr>ev_datum := Some datum\<rparr>));
                      (req, q) \<leftarrow> insert_pending_event cf clk' clk'' gev req q;
                      Some (EP_STAT_OK, req, q)
                    })))"

section \<open>Delivery\<close>

text \<open>\<^verbatim>\<open>_gdp_event_setcb\<close>; the flag says that the callback thread has been started.\<close>

definition gdp_event_setcb :: "nat option \<Rightarrow> nat option \<Rightarrow> 'b gdp_req \<Rightarrow> bool \<Rightarrow> 'b gdp_req \<times> bool" where
  "gdp_event_setcb cbfunc cbarg req started =
     (req\<lparr>req_sub_cbfunc := cbfunc, req_sub_cbarg := cbarg\<rparr>, started \<or> cbfunc \<noteq> None)"

text \<open>
  One round of the callback thread: the first event is removed and handed to its callback, which
  may change the event (\<open>run\<close>); the event is freed unless the callback has done so.
\<close>

definition event_thread_step ::
  "('b, 'z) evbuffer_scheme \<Rightarrow> (nat \<Rightarrow> 'b gdp_event \<Rightarrow> 'b gdp_event) \<Rightarrow> 'b ev_lists \<Rightarrow> 'b ev_lists" where
  "event_thread_step E run q =
     (case ev_callback q of
        [] \<Rightarrow> q
      | gev # gs \<Rightarrow>
          let q = q\<lparr>ev_callback := gs\<rparr>;
              gev = (case ev_cb gev of Some f \<Rightarrow> run f gev | None \<Rightarrow> gev)
          in if ev_type gev \<noteq> GDP_EVENT_FREE then snd (gdp_event_free E gev q) else q)"

text \<open>
  \<^verbatim>\<open>gdp_event_next\<close>.  While the list is empty the caller waits on the condition variable with the
  mutex released; \<open>waits\<close> lists what these waits return, an error number (0 for a wake-up) and the
  events other threads have added by then.  The mutex is held otherwise, so the list does not change
  during a search.  \<open>NextWaiting\<close> is the call that still waits at the end of \<open>waits\<close>, and \<^term>\<open>None\<close> the
  call that does not return.
\<close>

datatype 'b next_result = NextEvent "'b gdp_event option" | NextWaiting

partial_function (option) gdp_event_next ::
  "nat option \<Rightarrow> (int \<times> 'b gdp_event list) list \<Rightarrow> 'b gdp_event list \<Rightarrow>
   ('b next_result \<times> 'b gdp_event list) option" where
  "gdp_event_next gin waits active =
     (case active of
        [] \<Rightarrow>
          (case waits of
             [] \<Rightarrow> Some (NextWaiting, active)
           | (err, added) # waits' \<Rightarrow>
               if err \<noteq> 0 then Some (NextEvent None, active @ added)
               else gdp_event_next gin waits' (active @ added))
      | _ # _ \<Rightarrow>
          (case dropWhile (\<lambda>g. \<not> (gin = None \<or> ev_gin g = gin)) active of
             [] \<Rightarrow> gdp_event_next gin waits active
           | gev # rest \<Rightarrow>
               let active' = takeWhile (\<lambda>g. \<not> (gin = None \<or> ev_gin g = gin)) active @ rest in
               if ev_type gev = GDP_EVENT_FREE then gdp_event_next gin waits active'
               else Some (NextEvent (Some gev), active')))"

section \<open>No event is lost\<close>

definition persistent :: "'b gdp_req \<Rightarrow> bool" where
  "persistent req \<longleftrightarrow> EP_UT_BITSET GDP_REQ_PERSIST (req_flags req)"

text \<open>An event without its maturity time, and all events a request has pending or delivered.\<close>

definition untimed :: "'b gdp_event \<Rightarrow> 'b gdp_event" where
  "untimed g = g\<lparr>ev_timeout := ep_time_zero\<rparr>"

definition all_events :: "'b gdp_req \<Rightarrow> 'b ev_lists \<Rightarrow> 'b gdp_event multiset" where
  "all_events req q = mset (map untimed (req_events req @ ev_active q @ ev_callback q))"

text \<open>Events that keep the pending loop from ending.\<close>

definition deferred :: "'b gdp_req \<Rightarrow> 'b gdp_event \<Rightarrow> bool" where
  "deferred req g \<longleftrightarrow> ev_type g = GDP_EVENT_DONE \<and> persistent req"

lemma trigger_cases:
  assumes "ev_type g \<noteq> GDP_EVENT_FREE" "\<not> deferred req g"
  shows "gdp_event_trigger g req q =
    (req\<lparr>req_seqnext := seqno_after (ev_seqno g)\<rparr>,
     if ev_cb g = None then q\<lparr>ev_active := ev_active q @ [g]\<rparr> else q\<lparr>ev_callback := ev_callback q @ [g]\<rparr>)"
proof -
  let ?r = "req\<lparr>req_seqnext := seqno_after (ev_seqno g)\<rparr>"
  have c: "(ev_type g = GDP_EVENT_DONE \<and> EP_UT_BITSET GDP_REQ_PERSIST (req_flags ?r)) = False"
    using assms(2) by (simp add: deferred_def persistent_def)
  have i: "insert_active_event g l = l @ [g]" for l
    using assms(1) by (simp add: insert_active_event_def)
  show ?thesis
    unfolding gdp_event_trigger_def Let_def c i if_False by (cases "ev_cb g = None") simp_all
qed

lemma trigger_loop_returns:
  assumes "\<forall>g\<in>set (req_events req). ev_type g \<noteq> GDP_EVENT_FREE \<and> \<not> deferred req g"
  shows "\<exists>req' q'. trigger_loop now flush req q = Some (req', q') \<and> all_events req' q' = all_events req q \<and>
    req_flags req' = req_flags req \<and> (\<exists>n. req_events req' = drop n (req_events req))"
  using assms
proof (induction "req_events req" arbitrary: req q)
  case Nil
  then show ?case by (subst trigger_loop.simps) (auto intro: exI [of _ 0])
next
  case (Cons g gs)
  show ?case
  proof (cases "\<not> flush \<and> ev_seqno g \<noteq> req_seqnext req \<and> ep_time_before now (ev_timeout g)")
    case True
    then show ?thesis using Cons.hyps(2) [symmetric]
      by (subst trigger_loop.simps) (auto intro: exI [of _ 0])
  next
    case False
    let ?r = "req\<lparr>req_events := gs, req_seqnext := seqno_after (ev_seqno g)\<rparr>"
    let ?q = "if ev_cb g = None then q\<lparr>ev_active := ev_active q @ [g]\<rparr> else q\<lparr>ev_callback := ev_callback q @ [g]\<rparr>"
    have t: "gdp_event_trigger g (req\<lparr>req_events := gs\<rparr>) q = (?r, ?q)"
      using Cons.prems Cons.hyps(2) [symmetric] by (subst trigger_cases) (auto simp: deferred_def persistent_def)
    have "\<forall>g\<in>set (req_events ?r). ev_type g \<noteq> GDP_EVENT_FREE \<and> \<not> deferred ?r g"
      using Cons.prems Cons.hyps(2) [symmetric] by (auto simp: deferred_def persistent_def)
    then obtain req' q' n where r: "trigger_loop now flush ?r ?q = Some (req', q')"
      "all_events req' q' = all_events ?r ?q" "req_flags req' = req_flags ?r" "req_events req' = drop n gs"
      using Cons.hyps(1) [of ?r ?q] by auto
    have "trigger_loop now flush req q = Some (req', q')"
      using False t r(1) Cons.hyps(2) [symmetric] by (subst trigger_loop.simps) auto
    moreover have "all_events ?r ?q = all_events req q"
      using Cons.hyps(2) [symmetric] by (simp add: all_events_def)
    moreover have "req_events req' = drop (Suc n) (req_events req)"
      using r(4) Cons.hyps(2) [symmetric] by simp
    ultimately show ?thesis using r(2,3) by auto
  qed
qed

lemma trigger_pending_returns:
  assumes "\<forall>g\<in>set (req_events req). ev_type g \<noteq> GDP_EVENT_FREE \<and> \<not> deferred req g"
  shows "\<exists>req' q'. gdp_event_trigger_pending clk acc flush req q = Some (req', q') \<and>
    all_events req' q' = all_events req q \<and> req_flags req' = req_flags req \<and>
    set (req_events req') \<subseteq> set (req_events req)"
proof -
  let ?now = "snd (ep_time_now clk acc ep_time_zero)"
  obtain req' q' n where r: "trigger_loop ?now flush req q = Some (req', q')" "all_events req' q' = all_events req q"
    "req_flags req' = req_flags req" "req_events req' = drop n (req_events req)"
    using trigger_loop_returns [OF assms, of ?now flush q] by auto
  have sub: "set (req_events req') \<subseteq> set (req_events req)"
    using r(4) by (simp add: set_drop_subset)
  show ?thesis
  proof (cases "req_events req'")
    case Nil
    then show ?thesis using r sub by (simp add: gdp_event_trigger_pending_def)
  next
    case (Cons g gs)
    then show ?thesis using r(1-3) sub by (auto simp: gdp_event_trigger_pending_def all_events_def Let_def)
  qed
qed

lemma insert_search_mset: "mset (insert_before_search g prevs t after) = mset (g # rev prevs @ t # after)"
  by (induction prevs arbitrary: t after) auto

lemma pending_insert_mset [simp]: "mset (pending_insert g evs) = add_mset g (mset evs)"
proof (cases "rev evs")
  case (Cons l ps)
  then have e: "evs = rev ps @ [l]" by (metis rev.simps(2) rev_rev_ident)
  then show ?thesis by (simp add: pending_insert_def insert_search_mset)
qed (simp add: pending_insert_def)

lemma pending_insert_set [simp]: "set (pending_insert g evs) = insert g (set evs)"
  by (metis pending_insert_mset set_mset_add_mset_insert set_mset_mset)

lemma pending_insert_empty [simp]: "pending_insert g [] = [g]"
  by (simp add: pending_insert_def)

text \<open>Events arriving one after the other, each with the two clock readings of its insertion.\<close>

fun arrivals ::
  "ev_conf \<Rightarrow> ((int + int \<times> int) \<times> (int + int \<times> int) \<times> 'b gdp_event) list \<Rightarrow> 'b gdp_req \<Rightarrow> 'b ev_lists \<Rightarrow>
   ('b gdp_req \<times> 'b ev_lists) option" where
  "arrivals cf [] req q = Some (req, q)"
| "arrivals cf ((clk, clk', g) # as) req q =
     (case insert_pending_event cf clk clk' g req q of None \<Rightarrow> None | Some (req, q) \<Rightarrow> arrivals cf as req q)"

abbreviation arrived_events :: "('x \<times> 'y \<times> 'b gdp_event) list \<Rightarrow> 'b gdp_event list" where
  "arrived_events as \<equiv> map (snd \<circ> snd) as"

lemma insert_pending_returns:
  assumes "ev_type g \<noteq> GDP_EVENT_FREE" "\<not> deferred req g"
    "\<forall>h\<in>set (req_events req). ev_type h \<noteq> GDP_EVENT_FREE \<and> \<not> deferred req h"
  shows "\<exists>req' q'. insert_pending_event cf clk clk' g req q = Some (req', q') \<and>
    all_events req' q' = add_mset (untimed g) (all_events req q) \<and> req_flags req' = req_flags req \<and>
    (\<forall>h\<in>set (req_events req'). ev_type h \<noteq> GDP_EVENT_FREE \<and> \<not> deferred req' h)"
proof -
  let ?u = "if ev_type g = GDP_EVENT_DONE then done_usec cf else data_usec cf"
  let ?g = "g\<lparr>ev_timeout := snd (ep_time_deltanow clk (clk_acc cf) (usec_timeout ?u) (ev_timeout g))\<rparr>"
  let ?r = "req\<lparr>req_events := pending_insert ?g (req_events req)\<rparr>"
  have p: "\<forall>h\<in>set (req_events ?r). ev_type h \<noteq> GDP_EVENT_FREE \<and> \<not> deferred ?r h"
    using assms by (auto simp: deferred_def persistent_def)
  obtain req' q' where r: "gdp_event_trigger_pending clk' (clk_acc cf) False ?r q = Some (req', q')"
    "all_events req' q' = all_events ?r q" "req_flags req' = req_flags req" "set (req_events req') \<subseteq> set (req_events ?r)"
    using trigger_pending_returns [OF p, of clk' "clk_acc cf" False q] by auto
  have "all_events ?r q = add_mset (untimed g) (all_events req q)"
    by (simp add: all_events_def untimed_def)
  moreover have "\<forall>h\<in>set (req_events req'). ev_type h \<noteq> GDP_EVENT_FREE \<and> \<not> deferred req' h"
    using p r(3,4) by (auto simp: deferred_def persistent_def)
  ultimately show ?thesis
    using r assms(1) by (simp add: insert_pending_event_def Let_def)
qed

text \<open>Also where the end of results of a persistent request is put back on the pending list, no step loses or doubles an event.\<close>

lemma trigger_keeps:
  assumes "req_events req = g # gs" "\<forall>h\<in>set (req_events req). ev_type h \<noteq> GDP_EVENT_FREE"
    "gdp_event_trigger g (req\<lparr>req_events := gs\<rparr>) q = (req', q')"
  shows "all_events req' q' = all_events req q \<and> (\<forall>h\<in>set (req_events req'). ev_type h \<noteq> GDP_EVENT_FREE)"
proof -
  have "ev_type g \<noteq> GDP_EVENT_FREE" using assms(1,2) by simp
  then have i: "insert_active_event g l = l @ [g]" for l by (simp add: insert_active_event_def)
  show ?thesis
    using assms by (auto simp: gdp_event_trigger_def i all_events_def Let_def split: if_splits)
qed

lemma trigger_loop_keeps:
  assumes "trigger_loop now flush req q = Some (req', q')" "\<forall>h\<in>set (req_events req). ev_type h \<noteq> GDP_EVENT_FREE"
  shows "all_events req' q' = all_events req q \<and> (\<forall>h\<in>set (req_events req'). ev_type h \<noteq> GDP_EVENT_FREE)"
proof -
  let ?P = "\<lambda>req q res. (\<forall>h\<in>set (req_events req). ev_type h \<noteq> GDP_EVENT_FREE) \<longrightarrow>
    all_events (fst res) (snd res) = all_events req q \<and> (\<forall>h\<in>set (req_events (fst res)). ev_type h \<noteq> GDP_EVENT_FREE)"
  have "?P req q (req', q')"
  proof (rule trigger_loop.raw_induct [OF _ assms(1), where P = "\<lambda>now flush. ?P"], intro impI)
    fix loop now flush and req :: "'a gdp_req" and q res
    assume IH: "\<And>now flush req q res. loop now flush req q = Some res \<Longrightarrow> ?P req q res"
      and body: "(case req_events req of [] \<Rightarrow> Some (req, q)
        | gev # gs \<Rightarrow> if \<not> flush \<and> ev_seqno gev \<noteq> req_seqnext req \<and> ep_time_before now (ev_timeout gev) then Some (req, q)
            else case gdp_event_trigger gev (req\<lparr>req_events := gs\<rparr>) q of (req, q) \<Rightarrow> loop now flush req q) = Some res"
      and p: "\<forall>h\<in>set (req_events req). ev_type h \<noteq> GDP_EVENT_FREE"
    show "all_events (fst res) (snd res) = all_events req q \<and> (\<forall>h\<in>set (req_events (fst res)). ev_type h \<noteq> GDP_EVENT_FREE)"
    proof (cases "req_events req")
      case Nil
      then show ?thesis using body by auto
    next
      case e: (Cons g gs)
      obtain ra qa where t: "gdp_event_trigger g (req\<lparr>req_events := gs\<rparr>) q = (ra, qa)" by fastforce
      show ?thesis
      proof (cases "\<not> flush \<and> ev_seqno g \<noteq> req_seqnext req \<and> ep_time_before now (ev_timeout g)")
        case True
        then show ?thesis using body e p by auto
      next
        case False
        then have "loop now flush ra qa = Some res" using body e t by auto
        then show ?thesis using IH trigger_keeps [OF e p t] by auto
      qed
    qed
  qed
  then show ?thesis using assms(2) by simp
qed

lemma insert_pending_keeps:
  assumes "insert_pending_event cf clk clk' g req q = Some (req', q')" "ev_type g \<noteq> GDP_EVENT_FREE"
    "\<forall>h\<in>set (req_events req). ev_type h \<noteq> GDP_EVENT_FREE"
  shows "all_events req' q' = add_mset (untimed g) (all_events req q) \<and>
    (\<forall>h\<in>set (req_events req'). ev_type h \<noteq> GDP_EVENT_FREE)"
proof -
  let ?u = "if ev_type g = GDP_EVENT_DONE then done_usec cf else data_usec cf"
  let ?g = "g\<lparr>ev_timeout := snd (ep_time_deltanow clk (clk_acc cf) (usec_timeout ?u) (ev_timeout g))\<rparr>"
  let ?r = "req\<lparr>req_events := pending_insert ?g (req_events req)\<rparr>"
  have "gdp_event_trigger_pending clk' (clk_acc cf) False ?r q = Some (req', q')"
    using assms(1,2) by (simp add: insert_pending_event_def Let_def)
  then obtain ra qa where t: "trigger_loop (snd (ep_time_now clk' (clk_acc cf) ep_time_zero)) False ?r q = Some (ra, qa)"
    and e: "req_events req' = req_events ra" "q' = qa"
    by (auto simp: gdp_event_trigger_pending_def Let_def split: option.splits list.splits)
  have "\<forall>h\<in>set (req_events ?r). ev_type h \<noteq> GDP_EVENT_FREE" using assms(2,3) by simp
  note k = trigger_loop_keeps [OF t this]
  have "all_events ?r q = add_mset (untimed g) (all_events req q)"
    by (simp add: all_events_def untimed_def)
  then show ?thesis using k e by (simp add: all_events_def)
qed

lemma arrivals_keep:
  assumes "arrivals cf as req q = Some (req', q')"
    "\<forall>g\<in>set (req_events req @ arrived_events as). ev_type g \<noteq> GDP_EVENT_FREE"
  shows "all_events req' q' = all_events req q + mset (map untimed (arrived_events as))"
  using assms
proof (induction as arbitrary: req q)
  case (Cons a as)
  obtain clk clk' g where a: "a = (clk, clk', g)" by (cases a)
  obtain ra qa where r: "insert_pending_event cf clk clk' g req q = Some (ra, qa)" "arrivals cf as ra qa = Some (req', q')"
    using Cons.prems(1) a by (auto split: option.splits)
  have "all_events ra qa = add_mset (untimed g) (all_events req q)" "\<forall>h\<in>set (req_events ra). ev_type h \<noteq> GDP_EVENT_FREE"
    using insert_pending_keeps [OF r(1)] Cons.prems(2) a by auto
  moreover from this(2) have "\<forall>h\<in>set (req_events ra @ arrived_events as). ev_type h \<noteq> GDP_EVENT_FREE"
    using Cons.prems(2) by auto
  ultimately show ?case using Cons.IH [OF r(2)] a by simp
qed simp

lemma arrivals_return:
  assumes "\<forall>g\<in>set (req_events req @ arrived_events as). ev_type g \<noteq> GDP_EVENT_FREE \<and> \<not> deferred req g"
  shows "\<exists>req' q'. arrivals cf as req q = Some (req', q')"
  using assms
proof (induction as arbitrary: req q)
  case (Cons a as)
  obtain clk clk' g where a: "a = (clk, clk', g)" by (cases a)
  obtain req' q' where r: "insert_pending_event cf clk clk' g req q = Some (req', q')" "req_flags req' = req_flags req"
    "\<forall>h\<in>set (req_events req'). ev_type h \<noteq> GDP_EVENT_FREE \<and> \<not> deferred req' h"
    using insert_pending_returns [of g req cf clk clk' q] Cons.prems a by auto
  have "\<forall>h\<in>set (req_events req' @ arrived_events as). ev_type h \<noteq> GDP_EVENT_FREE \<and> \<not> deferred req' h"
    using r(2,3) Cons.prems by (auto simp: deferred_def persistent_def)
  from Cons.IH [OF this, of q'] show ?case using a r(1) by auto
qed simp

section \<open>Properties\<close>

text \<open>C19: whatever the sequence numbers and the clock say, every event that arrives (none is marked free) ends up exactly once on the
  pending list, the active list or the callback list, and no event that was there before is lost or doubled,
  whenever the insertions return.  They do return as long as no end-of-results event of a persistent request is among
  the events that arrive or are pending; such an event may keep the insertion, or a timer, in the loop for ever.\<close>

theorem events_conserved:
  assumes "\<forall>g\<in>set (req_events req @ arrived_events as). ev_type g \<noteq> GDP_EVENT_FREE"
  shows "(\<forall>req' q'. arrivals cf as req q = Some (req', q') \<longrightarrow>
      all_events req' q' = all_events req q + mset (map untimed (arrived_events as))) \<and>
    ((\<forall>g\<in>set (req_events req @ arrived_events as). \<not> (ev_type g = GDP_EVENT_DONE \<and> persistent req)) \<longrightarrow>
      (\<exists>req' q'. arrivals cf as req q = Some (req', q')))"
proof (intro conjI allI impI)
  show "all_events req' q' = all_events req q + mset (map untimed (arrived_events as))"
    if "arrivals cf as req q = Some (req', q')" for req' q'
    using that assms by (rule arrivals_keep)
  show "\<exists>req' q'. arrivals cf as req q = Some (req', q')"
    if "\<forall>g\<in>set (req_events req @ arrived_events as). \<not> (ev_type g = GDP_EVENT_DONE \<and> persistent req)"
    using that assms by (intro arrivals_return) (auto simp: deferred_def)
qed

text \<open>A concrete client: a request with nothing pending that expects sequence number 1.\<close>

definition sample_conf :: ev_conf where
  "sample_conf = \<lparr>data_usec = 10000, done_usec = 50000, clk_acc = 0\<rparr>"

definition sample_req :: "u32 \<Rightarrow> byte list gdp_req" where
  "sample_req flags = \<lparr>req_state = GDP_REQ_IDLE, req_gob = None, req_cpdu = None, req_rpdu = None,
     req_stat = EP_STAT_OK, req_nextrec = 0, req_s_results = -1, req_numrecs = 0, req_flags = flags,
     req_act_ts = ep_time_zero, req_postproc = None, req_sub_cbfunc = None, req_sub_cbarg = None, req_gin = Some 1,
     req_r_results = 0, req_events = [], req_seqnext = 1, req_ev_to = None\<rparr>"

definition sample_event :: "u32 \<Rightarrow> u16 \<Rightarrow> byte list gdp_event" where
  "sample_event t n = zeroed_event\<lparr>ev_type := t, ev_seqno := n, ev_gin := Some 1\<rparr>"

definition no_events :: "byte list ev_lists" where
  "no_events = \<lparr>ev_free = [], ev_active = [], ev_callback = [], datum_free = []\<rparr>"

lemmas sample_defs = sample_conf_def sample_req_def sample_event_def no_events_def

definition at_sec :: "int \<Rightarrow> 'b gdp_event \<Rightarrow> (int + int \<times> int) \<times> (int + int \<times> int) \<times> 'b gdp_event" where
  "at_sec t g = (Inr (t, 0), Inr (t, 0), g)"

theorem events_conserved_witness:
  "\<exists>req' q'. arrivals sample_conf [at_sec 5 (sample_event GDP_EVENT_DATA 3), at_sec 6 (sample_event GDP_EVENT_DATA 1)]
      (sample_req GDP_REQ_PERSIST) no_events = Some (req', q') \<and>
    all_events req' q' = {# untimed (sample_event GDP_EVENT_DATA 3), untimed (sample_event GDP_EVENT_DATA 1) #}"
proof -
  let ?as = "[at_sec 5 (sample_event GDP_EVENT_DATA 3), at_sec 6 (sample_event GDP_EVENT_DATA 1)]"
  let ?r = "sample_req GDP_REQ_PERSIST"
  have f: "\<forall>g\<in>set (req_events ?r @ arrived_events ?as). ev_type g \<noteq> GDP_EVENT_FREE"
    and d: "\<forall>g\<in>set (req_events ?r @ arrived_events ?as). \<not> (ev_type g = GDP_EVENT_DONE \<and> persistent ?r)"
    by (simp_all add: at_sec_def sample_defs event_types)
  have e: "all_events ?r no_events = {#}" by (simp add: all_events_def sample_defs)
  from events_conserved [OF f, of sample_conf no_events] d obtain req' q' where
    "arrivals sample_conf ?as ?r no_events = Some (req', q')"
    "all_events req' q' = all_events ?r no_events + mset (map untimed (arrived_events ?as))"
    by blast
  then show ?thesis using e by (intro exI conjI) (simp_all add: at_sec_def add_mset_commute)
qed

text \<open>Sequence numbers that follow one another.\<close>

fun in_sequence :: "u16 \<Rightarrow> 'b gdp_event list \<Rightarrow> bool" where
  "in_sequence n [] \<longleftrightarrow> True"
| "in_sequence n (g # gs) \<longleftrightarrow> ev_seqno g = n \<and> in_sequence (seqno_after n) gs"

definition handed :: "'b gdp_event \<Rightarrow> 'b ev_lists \<Rightarrow> 'b ev_lists" where
  "handed g q = (if ev_cb g = None then q\<lparr>ev_active := ev_active q @ [g]\<rparr> else q\<lparr>ev_callback := ev_callback q @ [g]\<rparr>)"

lemma trigger_expected:
  assumes "req_events req = [g]" "ev_seqno g = req_seqnext req" "ev_type g = GDP_EVENT_DATA"
  shows "gdp_event_trigger_pending clk acc False req q =
    Some (req\<lparr>req_events := [], req_seqnext := seqno_after (ev_seqno g)\<rparr>, handed g q)"
proof -
  have t: "gdp_event_trigger g (req\<lparr>req_events := []\<rparr>) q =
      (req\<lparr>req_events := [], req_seqnext := seqno_after (ev_seqno g)\<rparr>, handed g q)"
    by (subst trigger_cases) (use assms(3) in \<open>simp_all add: deferred_def event_types handed_def\<close>)
  have "trigger_loop now False req q =
      Some (req\<lparr>req_events := [], req_seqnext := seqno_after (ev_seqno g)\<rparr>, handed g q)" for now
    using assms(1,2) t by (simp add: trigger_loop.simps)
  then show ?thesis by (simp add: gdp_event_trigger_pending_def)
qed

text \<open>C20: while no event of the request is pending, results that arrive with the sequence numbers the request
  expects are handed over at once and in order, those with a callback to the callback thread and the others to the active list, and
  nothing stays pending.  (The numbers are those of the PDU headers; the senders of this version write 0 in all of them.)\<close>

theorem events_in_order:
  assumes "req_events req = []" "in_sequence (req_seqnext req) (arrived_events as)"
    "\<forall>g\<in>set (arrived_events as). ev_type g = GDP_EVENT_DATA"
  shows "\<exists>req' q'. arrivals cf as req q = Some (req', q') \<and> req_events req' = [] \<and>
    map untimed (ev_active q') = map untimed (ev_active q) @ map untimed (filter (\<lambda>g. ev_cb g = None) (arrived_events as)) \<and>
    map untimed (ev_callback q') = map untimed (ev_callback q) @ map untimed (filter (\<lambda>g. ev_cb g \<noteq> None) (arrived_events as))"
  using assms
proof (induction as arbitrary: req q)
  case (Cons a as)
  obtain clk clk' g where a: "a = (clk, clk', g)" by (cases a)
  have g: "ev_type g = GDP_EVENT_DATA" "ev_seqno g = req_seqnext req"
    using Cons.prems a by auto
  let ?g = "g\<lparr>ev_timeout := snd (ep_time_deltanow clk (clk_acc cf) (usec_timeout (data_usec cf)) (ev_timeout g))\<rparr>"
  let ?r = "req\<lparr>req_events := [], req_seqnext := seqno_after (ev_seqno g)\<rparr>"
  have "insert_pending_event cf clk clk' g req q = Some (?r, handed ?g q)"
    using Cons.prems(1) g trigger_expected [of "req\<lparr>req_events := [?g]\<rparr>" ?g clk' "clk_acc cf" q]
    by (simp add: insert_pending_event_def event_types)
  moreover have "\<exists>req' q'. arrivals cf as ?r (handed ?g q) = Some (req', q') \<and> req_events req' = [] \<and>
      map untimed (ev_active q') = map untimed (ev_active (handed ?g q)) @ map untimed (filter (\<lambda>g. ev_cb g = None) (arrived_events as)) \<and>
      map untimed (ev_callback q') = map untimed (ev_callback (handed ?g q)) @ map untimed (filter (\<lambda>g. ev_cb g \<noteq> None) (arrived_events as))"
    using Cons.prems a g by (intro Cons.IH) auto
  moreover have "untimed ?g = untimed g" by (simp add: untimed_def)
  ultimately show ?case using a by (auto simp: handed_def comp_def)
qed simp

theorem events_in_order_witness:
  "\<exists>req' q'. arrivals sample_conf [at_sec 5 (sample_event GDP_EVENT_DATA 1),
      at_sec 5 ((sample_event GDP_EVENT_DATA 2)\<lparr>ev_cb := Some 7\<rparr>), at_sec 6 (sample_event GDP_EVENT_DATA 3)]
      (sample_req GDP_REQ_PERSIST) no_events = Some (req', q') \<and> req_events req' = [] \<and>
    map ev_seqno (ev_active q') = [1, 3] \<and> map ev_seqno (ev_callback q') = [2]"
proof -
  let ?as = "[at_sec 5 (sample_event GDP_EVENT_DATA 1), at_sec 5 ((sample_event GDP_EVENT_DATA 2)\<lparr>ev_cb := Some 7\<rparr>),
    at_sec 6 (sample_event GDP_EVENT_DATA 3)]"
  let ?r = "sample_req GDP_REQ_PERSIST"
  have s: "in_sequence (req_seqnext ?r) (arrived_events ?as)" "req_events ?r = []"
    "\<forall>g\<in>set (arrived_events ?as). ev_type g = GDP_EVENT_DATA"
    by (simp_all add: at_sec_def sample_defs seqno_after_def GDP_SEQNO_BASE_def)
  have seq: "map ev_seqno l = map ev_seqno (map untimed l)" for l :: "byte list gdp_event list"
    by (simp add: untimed_def comp_def)
  obtain req' q' where r: "arrivals sample_conf ?as ?r no_events = Some (req', q')" "req_events req' = []"
    "map untimed (ev_active q') = map untimed (ev_active no_events) @ map untimed (filter (\<lambda>g. ev_cb g = None) (arrived_events ?as))"
    "map untimed (ev_callback q') = map untimed (ev_callback no_events) @ map untimed (filter (\<lambda>g. ev_cb g \<noteq> None) (arrived_events ?as))"
    using events_in_order [OF s(2,1,3), of sample_conf no_events] by blast
  have "map ev_seqno (ev_active q') = [1, 3]" "map ev_seqno (ev_callback q') = [2]"
    unfolding seq [of "ev_active q'"] seq [of "ev_callback q'"] r(3,4)
    by (simp_all add: at_sec_def sample_defs zeroed_event_def untimed_def)
  then show ?thesis using r(1,2) by (intro exI conjI)
qed

section \<open>Order of the pending list\<close>

abbreviation seq_before :: "'b gdp_event \<Rightarrow> 'b gdp_event \<Rightarrow> bool" where
  "seq_before g h \<equiv> modulo_gt (ev_seqno h) (ev_seqno g)"

lemma modulo_gt_asym: "modulo_gt a b \<Longrightarrow> \<not> modulo_gt b a"
  by (auto simp: modulo_gt_def split: if_splits)

text \<open>C29: an event that comes before the last pending one is put right before that one, wherever it
  belongs.  So a sorted pending list stays sorted only if the new event follows all others: with
  1, 3 and 5 pending, 2 goes between 3 and 5.\<close>

theorem pending_order:
  assumes "sorted_wrt seq_before (evs @ [last_ev])" "seq_before g last_ev" "ev_type g \<noteq> GDP_EVENT_DONE"
  shows "pending_insert g (evs @ [last_ev]) = evs @ [g, last_ev] \<and>
    (sorted_wrt seq_before (pending_insert g (evs @ [last_ev])) \<longleftrightarrow> (\<forall>h\<in>set evs. seq_before h g))"
proof -
  have n: "\<not> seq_before last_ev g" using assms(2) by (rule modulo_gt_asym)
  have "insert_before_search g (rev evs) last_ev [] = evs @ [g, last_ev]"
    using n by (cases "rev evs") (simp_all add: rev_swap [symmetric])
  then have p: "pending_insert g (evs @ [last_ev]) = evs @ [g, last_ev]"
    using n assms(3) by (simp add: pending_insert_def)
  show ?thesis
    unfolding p using assms(1,2) by (auto simp: sorted_wrt_append)
qed

theorem pending_order_witness:
  "map ev_seqno (pending_insert (sample_event GDP_EVENT_DATA 2)
     (map (sample_event GDP_EVENT_DATA) [1, 3] @ [sample_event GDP_EVENT_DATA 5])) = [1, 3, 2, 5] \<and>
   \<not> sorted_wrt seq_before (pending_insert (sample_event GDP_EVENT_DATA 2)
     (map (sample_event GDP_EVENT_DATA) [1, 3] @ [sample_event GDP_EVENT_DATA 5]))"
  using pending_order [of "map (sample_event GDP_EVENT_DATA) [1, 3]" "sample_event GDP_EVENT_DATA 5"
    "sample_event GDP_EVENT_DATA 2"]
  by (simp add: sample_event_def zeroed_event_def modulo_gt_def GDP_SEQNO_BASE_def event_types)

section \<open>Calls that do not return\<close>

text \<open>A persistent request keeps its end-of-results event: triggering it puts it back on the list.\<close>

definition has_done :: "'b gdp_req \<Rightarrow> bool" where
  "has_done req \<longleftrightarrow> (\<exists>g\<in>set (req_events req). ev_type g = GDP_EVENT_DONE)"

lemma trigger_keeps_done:
  assumes "persistent req" "has_done req" "req_events req = g # gs"
    "gdp_event_trigger g (req\<lparr>req_events := gs\<rparr>) q = (req', q')"
  shows "persistent req' \<and> has_done req'"
proof (cases "ev_type g = GDP_EVENT_DONE")
  case True
  then have "req' = req\<lparr>req_events := gs @ [g], req_seqnext := seqno_after (ev_seqno g)\<rparr>"
    using assms(1,4) by (auto simp: gdp_event_trigger_def insert_active_event_def persistent_def event_types)
  then show ?thesis using assms(1) True by (simp add: persistent_def has_done_def)
next
  case False
  then have "req' = req\<lparr>req_events := gs, req_seqnext := seqno_after (ev_seqno g)\<rparr>"
    using assms(4) by (auto simp: gdp_event_trigger_def Let_def split: if_splits)
  then show ?thesis using assms(1-3) False by (simp add: persistent_def has_done_def)
qed

lemma trigger_loop_done:
  assumes "trigger_loop now flush req q = Some (req', q')"
  shows "persistent req \<longrightarrow> has_done req \<longrightarrow> \<not> flush \<and> persistent req' \<and> has_done req'"
proof -
  have "persistent req \<longrightarrow> has_done req \<longrightarrow> \<not> flush \<and> persistent (fst (req', q')) \<and> has_done (fst (req', q'))"
  proof (rule trigger_loop.raw_induct [OF _ assms, where P = "\<lambda>now flush req q res.
      persistent req \<longrightarrow> has_done req \<longrightarrow> \<not> flush \<and> persistent (fst res) \<and> has_done (fst res)"], intro impI)
    fix loop now flush and req :: "'a gdp_req" and q res
    assume IH: "\<And>now flush req q res. loop now flush req q = Some res \<Longrightarrow>
        persistent req \<longrightarrow> has_done req \<longrightarrow> \<not> flush \<and> persistent (fst res) \<and> has_done (fst res)"
      and body: "(case req_events req of [] \<Rightarrow> Some (req, q)
        | gev # gs \<Rightarrow> if \<not> flush \<and> ev_seqno gev \<noteq> req_seqnext req \<and> ep_time_before now (ev_timeout gev) then Some (req, q)
            else case gdp_event_trigger gev (req\<lparr>req_events := gs\<rparr>) q of (req, q) \<Rightarrow> loop now flush req q) = Some res"
      and p: "persistent req" "has_done req"
    obtain g gs where e: "req_events req = g # gs"
      using p(2) by (cases "req_events req") (auto simp: has_done_def)
    obtain r1 q1 where t: "gdp_event_trigger g (req\<lparr>req_events := gs\<rparr>) q = (r1, q1)" by fastforce
    show "\<not> flush \<and> persistent (fst res) \<and> has_done (fst res)"
    proof (cases "\<not> flush \<and> ev_seqno g \<noteq> req_seqnext req \<and> ep_time_before now (ev_timeout g)")
      case True
      then show ?thesis using body e p by auto
    next
      case False
      then have "loop now flush r1 q1 = Some res" using body e t by auto
      then show ?thesis using IH trigger_keeps_done [OF p e t] by blast
    qed
  qed
  then show ?thesis by simp
qed

lemma trigger_pending_done:
  assumes "gdp_event_trigger_pending clk acc flush req q = Some (req', q')" "persistent req" "has_done req"
  shows "\<not> flush \<and> persistent req' \<and> has_done req'"
proof -
  obtain r1 q1 where t: "trigger_loop (snd (ep_time_now clk acc ep_time_zero)) flush req q = Some (r1, q1)"
    using assms(1) by (auto simp: gdp_event_trigger_pending_def Let_def split: option.splits)
  then have "req_flags req' = req_flags r1 \<and> req_events req' = req_events r1"
    using assms(1) by (auto simp: gdp_event_trigger_pending_def Let_def split: list.splits)
  then show ?thesis
    using trigger_loop_done [OF t] assms(2,3) by (simp add: persistent_def has_done_def)
qed

text \<open>C23: once the end of results of a persistent request is pending (it is when a result is still
  missing), the timer meant to deliver it never returns: the event is put back on the list it is
  taken from.  The event loop of the library hangs.\<close>

theorem event_flush_stuck:
  assumes "insert_pending_event cf clk clk' g req q = Some (req', q')"
    "ev_type g = GDP_EVENT_DONE" "EP_UT_BITSET GDP_REQ_PERSIST (req_flags req)"
  shows "run_timer clk'' acc DONE_TIMEOUT req' q' = None"
proof -
  let ?g = "g\<lparr>ev_timeout := snd (ep_time_deltanow clk (clk_acc cf) (usec_timeout (done_usec cf)) (ev_timeout g))\<rparr>"
  let ?r = "req\<lparr>req_events := pending_insert ?g (req_events req)\<rparr>"
  have "gdp_event_trigger_pending clk' (clk_acc cf) False ?r q = Some (req', q')"
    using assms(1,2) by (simp add: insert_pending_event_def event_types)
  then have "persistent req' \<and> has_done req'"
    using trigger_pending_done [of clk' "clk_acc cf" False ?r q req' q'] assms(2,3)
    by (simp add: persistent_def has_done_def)
  then show ?thesis
    using trigger_pending_done [of clk'' acc True req' q']
    by (cases "gdp_event_trigger_pending clk'' acc True req' q'") (auto simp: run_timer_def)
qed

theorem event_flush_stuck_witness:
  "\<exists>req' q'. insert_pending_event sample_conf (Inr (5, 0)) (Inr (5, 0)) (sample_event GDP_EVENT_DONE 0)
      (sample_req GDP_REQ_PERSIST) no_events = Some (req', q') \<and> fst (the (req_ev_to req')) = DONE_TIMEOUT \<and>
    run_timer (Inr (6, 0)) 0 DONE_TIMEOUT req' q' = None"
proof -
  let ?g = "sample_event GDP_EVENT_DONE 0"
  have "\<exists>req' q'. insert_pending_event sample_conf (Inr (5, 0)) (Inr (5, 0)) ?g (sample_req GDP_REQ_PERSIST) no_events =
      Some (req', q') \<and> fst (the (req_ev_to req')) = DONE_TIMEOUT"
    by (simp add: insert_pending_event_def gdp_event_trigger_pending_def trigger_loop.simps sample_defs
      zeroed_event_def event_types ep_time_deltanow_def ep_time_now_def usec_timeout_def ep_time_from_usec_def
      ep_time_add_delta_def ep_time_before_def ep_time_zero_def gdp_evloop_timer_set_def Let_def
      signed_divide_int_def signed_modulo_int_def ONESECOND_def int64_id int32_id stat_simps)
  then show ?thesis
    using event_flush_stuck [of sample_conf "Inr (5, 0)" "Inr (5, 0)" ?g "sample_req GDP_REQ_PERSIST" no_events _ _ "Inr (6, 0)" 0]
    by (auto simp: sample_event_def sample_req_def EP_UT_BITSET_def GDP_REQ_PERSIST_def)
qed

lemma next_finds:
  assumes "gdp_event_next gin waits active = Some res"
  shows "gin \<noteq> None \<longrightarrow> active \<noteq> [] \<longrightarrow> (\<exists>g\<in>set active. ev_gin g = gin)"
proof (rule gdp_event_next.raw_induct [OF _ assms, where P = "\<lambda>gin waits active res.
    gin \<noteq> None \<longrightarrow> active \<noteq> [] \<longrightarrow> (\<exists>g\<in>set active. ev_gin g = gin)"], intro impI, rule ccontr)
  fix self gin waits and active :: "'a gdp_event list" and res
  let ?no = "\<lambda>g. \<not> (gin = None \<or> ev_gin g = gin)"
  assume IH: "\<And>gin waits active res. self gin waits active = Some res \<Longrightarrow>
      gin \<noteq> None \<longrightarrow> active \<noteq> [] \<longrightarrow> (\<exists>g\<in>set active. ev_gin g = gin)"
    and body: "(case active of [] \<Rightarrow> (case waits of [] \<Rightarrow> Some (NextWaiting, active)
          | (err, added) # waits' \<Rightarrow> if err \<noteq> 0 then Some (NextEvent None, active @ added) else self gin waits' (active @ added))
      | _ # _ \<Rightarrow> (case dropWhile ?no active of [] \<Rightarrow> self gin waits active
          | gev # rest \<Rightarrow> let active' = takeWhile ?no active @ rest in
              if ev_type gev = GDP_EVENT_FREE then self gin waits active' else Some (NextEvent (Some gev), active'))) = Some res"
    and a: "gin \<noteq> None" "active \<noteq> []" and n: "\<not> (\<exists>g\<in>set active. ev_gin g = gin)"
  have "dropWhile ?no active = []" using a(1) n by simp
  then have "self gin waits active = Some res" using body a(2) by (cases active) simp_all
  then show False using IH a n by blast
qed

text \<open>C24: if events are waiting, but none for the log asked for, \<^verbatim>\<open>gdp_event_next\<close> does not return, with
  or without a timeout: it searches the same list over and over, holding its lock.\<close>

theorem event_next_spins:
  assumes "active \<noteq> []" "\<forall>g\<in>set active. ev_gin g \<noteq> Some n"
  shows "gdp_event_next (Some n) waits active = None"
proof (rule ccontr)
  assume "gdp_event_next (Some n) waits active \<noteq> None"
  then obtain res where "gdp_event_next (Some n) waits active = Some res" by auto
  from next_finds [OF this] show False using assms by auto
qed

theorem event_next_spins_witness:
  "gdp_event_next (Some 2) [(60, [])] [sample_event GDP_EVENT_DATA 1] = None"
  using event_next_spins [of "[sample_event GDP_EVENT_DATA 1]" 2 "[(60, [])]"] by (simp add: sample_event_def)

end
