(* ===== verification/Gdp_Md.thy ===== *)
theory Gdp_Md
  imports Gdp_Wire Ep_Stat
begin

text \<open>
  Log metadata, \<^verbatim>\<open>gdp/gdp_md.c\<close> and \<^verbatim>\<open>gdp/gdp_md.h\<close>: a growable array of (id, length, data)
  entries with its serialised form.  A data pointer is modelled by the bytes that can be read
  through it, \<^term>\<open>None\<close> being the null pointer, so that pointers into the shared data buffer of a
  deserialised list are suffixes of that buffer.  A result \<^term>\<open>None\<close> of an operation is an access
  outside the memory the code was given.
\<close>

section \<open>State\<close>

record metadatum =
  md_id :: u32
  md_len :: u32
  md_data :: "byte list option"
  md_flags :: u32

record gdp_md =
  md_nalloc :: nat
  md_nused :: nat
  mds :: "metadatum list"
  md_databuf :: "byte list option"
  gmd_flags :: u32

definition MDF_OWNDATA :: u32 where [flag_defs]: "MDF_OWNDATA = 1"
definition GDP_MDF_READONLY :: u32 where [flag_defs]: "GDP_MDF_READONLY = 1"
definition GDP_MD_EOLIST :: u32 where "GDP_MD_EOLIST = 0"
definition MINMDS :: nat where "MINMDS = 4"

definition zero_metadatum :: metadatum where
  "zero_metadatum = \<lparr>md_id = 0, md_len = 0, md_data = None, md_flags = 0\<rparr>"

abbreviation md_used :: "gdp_md \<Rightarrow> metadatum list" where
  "md_used gmd \<equiv> take (md_nused gmd) (mds gmd)"

section \<open>Operations\<close>

definition gdp_md_new :: "int \<Rightarrow> gdp_md" where
  "gdp_md_new nentries =
     (let n = (if int MINMDS < nentries then nat nentries else MINMDS) in
      \<lparr>md_nalloc = n, md_nused = 0, mds = replicate n zero_metadatum, md_databuf = None,
       gmd_flags = 0\<rparr>)"

text \<open>
  The search loop of \<^verbatim>\<open>gdp_md_add\<close>, and the growth of the array by half: \<open>junk\<close> is what
  \<^verbatim>\<open>ep_mem_realloc\<close> leaves in the slots it adds.
\<close>

definition md_index :: "u32 \<Rightarrow> gdp_md \<Rightarrow> nat" where
  "md_index mid gmd = length (takeWhile (\<lambda>m. md_id m \<noteq> mid) (md_used gmd))"

definition md_grow :: "(nat \<Rightarrow> metadatum) \<Rightarrow> gdp_md \<Rightarrow> gdp_md" where
  "md_grow junk gmd =
     (if md_nalloc gmd \<le> md_nused gmd then
        let n = md_nalloc gmd div 2 * 3 in
        gmd\<lparr>md_nalloc := n, mds := take n (mds gmd) @ map junk [length (mds gmd)..<n]\<rparr>
      else gmd)"

definition gdp_md_add ::
  "(nat \<Rightarrow> metadatum) \<Rightarrow> gdp_md \<Rightarrow> u32 \<Rightarrow> nat \<Rightarrow> byte list option \<Rightarrow> (ep_stat \<times> gdp_md) option" where
  "gdp_md_add junk gmd mid len data =
     (if gmd_flags gmd AND GDP_MDF_READONLY \<noteq> 0 then Some (GDP_STAT_READONLY, gmd)
      else if mid = GDP_MD_EOLIST then Some (EP_STAT_OK, gmd)
      else
        let i = md_index mid gmd;
            gmd1 = (if i < md_nused gmd
                    then gmd\<lparr>mds := (mds gmd)[i := (mds gmd ! i)\<lparr>md_data := None\<rparr>]\<rparr>
                    else (md_grow junk gmd)\<lparr>md_nused := md_nused gmd + 1\<rparr>) in
        if length (mds gmd1) \<le> i then None
        else
          let m = (mds gmd1 ! i)\<lparr>md_id := mid, md_len := of_nat len\<rparr> in
          case data of
            None \<Rightarrow> Some (EP_STAT_OK, gmd1\<lparr>mds := (mds gmd1)[i := m]\<rparr>)
          | Some d \<Rightarrow>
              if length d < len then None
              else Some (EP_STAT_OK,
                gmd1\<lparr>mds := (mds gmd1)[i := m\<lparr>md_data := Some (take len d),
                                              md_flags := MDF_OWNDATA\<rparr>]\<rparr>))"

text \<open>Entry pointers set one after the other into a data block.\<close>

fun md_set_data :: "metadatum list \<Rightarrow> byte list \<Rightarrow> metadatum list" where
  "md_set_data [] data = []"
| "md_set_data (m # ms) data =
     m\<lparr>md_data := Some data\<rparr> # md_set_data ms (drop (unat (md_len m)) data)"

definition gdp_md_adddata :: "gdp_md \<Rightarrow> byte list \<Rightarrow> gdp_md" where
  "gdp_md_adddata gmd data =
     gmd\<lparr>md_databuf := Some data,
         mds := md_set_data (md_used gmd) data @ drop (md_nused gmd) (mds gmd)\<rparr>"

definition gdp_md_get ::
  "gdp_md \<Rightarrow> nat \<Rightarrow> ep_stat \<times> (u32 \<times> u32 \<times> byte list option) option" where
  "gdp_md_get gmd indx =
     (if md_nused gmd \<le> indx then (GDP_STAT_NOTFOUND, None)
      else let m = mds gmd ! indx in (EP_STAT_OK, Some (md_id m, md_len m, md_data m)))"

definition gdp_md_find ::
  "gdp_md option \<Rightarrow> u32 \<Rightarrow> ep_stat \<times> (u32 \<times> byte list option) option" where
  "gdp_md_find ogmd mid =
     (case ogmd of
        None \<Rightarrow> (GDP_STAT_NOTFOUND, None)
      | Some gmd \<Rightarrow>
          (case find (\<lambda>m. mid = md_id m) (md_used gmd) of
             None \<Rightarrow> (GDP_STAT_NOTFOUND, None)
           | Some m \<Rightarrow> (EP_STAT_OK, Some (md_len m, md_data m))))"

text \<open>
  Serialisation computes the length first, then writes the count, the headers and the data; the
  \<^verbatim>\<open>memcpy\<close> of an entry reads \<^verbatim>\<open>md_len\<close> bytes through its data pointer.
\<close>

definition md_header :: "metadatum \<Rightarrow> byte list" where
  "md_header m = PUT32 (md_id m) @ PUT32 (md_len m)"

definition md_copy_out :: "metadatum \<Rightarrow> byte list option" where
  "md_copy_out m =
     (if 0 < md_len m then
        (case md_data m of
           None \<Rightarrow> None
         | Some d \<Rightarrow> if length d < unat (md_len m) then None else Some (take (unat (md_len m)) d))
      else Some [])"

definition md_slen :: "metadatum list \<Rightarrow> nat" where
  "md_slen ms = 2 + 8 * length ms + sum_list (map (\<lambda>m. unat (md_len m)) ms)"

definition gdp_md_serialize :: "gdp_md option \<Rightarrow> (nat \<times> byte list option) option" where
  "gdp_md_serialize ogmd =
     (case ogmd of
        None \<Rightarrow> Some (0, None)
      | Some gmd \<Rightarrow> do {
          ds \<leftarrow> those (map md_copy_out (md_used gmd));
          Some (md_slen (md_used gmd),
                Some (PUT16 (of_nat (md_nused gmd)) @ concat (map md_header (md_used gmd)) @ concat ds))
        })"

text \<open>
  Deserialisation: the inner \<^term>\<open>None\<close> is the null pointer the code returns for input it rejects,
  the outer one a read beyond the input.
\<close>

fun md_read_headers :: "nat \<Rightarrow> byte list \<Rightarrow> (metadatum list \<times> byte list) option" where
  "md_read_headers 0 pbp = Some ([], pbp)"
| "md_read_headers (Suc n) pbp = do {
     (mid, pbp1) \<leftarrow> GET32 pbp;
     (len, pbp2) \<leftarrow> GET32 pbp1;
     (ms, pbp3) \<leftarrow> md_read_headers n pbp2;
     Some (\<lparr>md_id = mid, md_len = len, md_data = None, md_flags = 0\<rparr> # ms, pbp3)
   }"

definition gdp_md_deserialize :: "byte list \<Rightarrow> gdp_md option option" where
  "gdp_md_deserialize smd =
     (if length smd < 2 then Some None
      else do {
        (nmd, pbp) \<leftarrow> GET16 smd;
        if nmd = 0 then Some None
        else if length smd - 2 < 8 then Some None
        else do {
          (ms, rest) \<leftarrow> md_read_headers (unat nmd) pbp;
          let tlen = sum_list (map (\<lambda>m. unat (md_len m)) ms);
          if length rest \<noteq> tlen then Some None
          else Some (Some \<lparr>md_nalloc = unat nmd, md_nused = unat nmd,
                 mds = md_set_data ms (take tlen rest), md_databuf = Some (take tlen rest),
                 gmd_flags = GDP_MDF_READONLY\<rparr>)
        }
      })"

definition gdp_md_clone :: "gdp_md option \<Rightarrow> gdp_md option option" where
  "gdp_md_clone gmd = do {
     (slen, obuf) \<leftarrow> gdp_md_serialize gmd;
     gdp_md_deserialize (case obuf of None \<Rightarrow> [] | Some b \<Rightarrow> b)
   }"

text \<open>The name of a log is the SHA-256 hash (a parameter) of its serialised metadata.\<close>

definition gdp_md_to_gdpname ::
  "(byte list \<Rightarrow> byte list) \<Rightarrow> gdp_md option \<Rightarrow> (ep_stat \<times> byte list \<times> byte list option) option" where
  "gdp_md_to_gdpname sha256 gmd = do {
     (slen, obuf) \<leftarrow> gdp_md_serialize gmd;
     Some (EP_STAT_FROM_INT (int slen), sha256 (case obuf of None \<Rightarrow> [] | Some b \<Rightarrow> b), obuf)
   }"

section \<open>Entries and well-formedness\<close>

text \<open>
  \<open>md_entries\<close> is what a metadata list means: its ids with the bytes of their data.  A list is
  ready to be serialised when every used entry can supply the bytes it promises and the count fits
  the two bytes it is written to.  \<open>md_wf\<close> is the invariant of a list under construction.
\<close>

definition md_value :: "metadatum \<Rightarrow> byte list" where
  "md_value m = (case md_data m of None \<Rightarrow> [] | Some d \<Rightarrow> take (unat (md_len m)) d)"

definition md_entries :: "gdp_md \<Rightarrow> (u32 \<times> byte list) list" where
  "md_entries gmd = map (\<lambda>m. (md_id m, md_value m)) (md_used gmd)"

definition md_supplies :: "metadatum \<Rightarrow> bool" where
  "md_supplies m \<longleftrightarrow> (case md_data m of None \<Rightarrow> md_len m = 0 | Some d \<Rightarrow> unat (md_len m) \<le> length d)"

definition md_ready :: "gdp_md \<Rightarrow> bool" where
  "md_ready gmd \<longleftrightarrow> 0 < md_nused gmd \<and> md_nused gmd < 65536 \<and> md_nused gmd \<le> length (mds gmd) \<and>
     list_all md_supplies (md_used gmd)"

definition md_wf :: "gdp_md \<Rightarrow> bool" where
  "md_wf gmd \<longleftrightarrow> length (mds gmd) = md_nalloc gmd \<and> md_nused gmd \<le> md_nalloc gmd \<and>
     4 \<le> md_nalloc gmd \<and> distinct (map md_id (md_used gmd)) \<and>
     gmd_flags gmd AND GDP_MDF_READONLY = 0"

section \<open>Serialisation\<close>

lemma md_value_length: "md_supplies m \<Longrightarrow> length (md_value m) = unat (md_len m)"
  by (auto simp: md_supplies_def md_value_def split: option.splits)

lemma md_copy_out_value: "md_supplies m \<Longrightarrow> md_copy_out m = Some (md_value m)"
  by (auto simp: md_supplies_def md_copy_out_def md_value_def word_gt_0 split: option.splits)

lemma those_map_Some: "list_all (\<lambda>x. f x = Some (g x)) xs \<Longrightarrow> those (map f xs) = Some (map g xs)"
  by (induction xs) auto

lemma serialize_ready:
  assumes "list_all md_supplies (md_used gmd)"
  shows "gdp_md_serialize (Some gmd) =
    Some (md_slen (md_used gmd), Some (PUT16 (of_nat (md_nused gmd)) @
      concat (map md_header (md_used gmd)) @ concat (map md_value (md_used gmd))))"
proof -
  have "those (map md_copy_out (md_used gmd)) = Some (map md_value (md_used gmd))"
    using assms by (intro those_map_Some) (auto simp: list_all_iff md_copy_out_value)
  then show ?thesis by (simp add: gdp_md_serialize_def)
qed

lemma serialize_length:
  assumes "list_all md_supplies ms"
  shows "length (PUT16 n @ concat (map md_header ms) @ concat (map md_value ms)) = md_slen ms"
  using assms
  by (induction ms) (auto simp: md_slen_def md_header_def wire_simps md_value_length)

text \<open>The header loop reads back what the header loop of the writer wrote.\<close>

abbreviation md_bare :: "metadatum \<Rightarrow> metadatum" where
  "md_bare m \<equiv> \<lparr>md_id = md_id m, md_len = md_len m, md_data = None, md_flags = 0\<rparr>"

lemma read_headers_written:
  "md_read_headers (length ms) (concat (map md_header ms) @ r) = Some (map md_bare ms, r)"
  by (induction ms) (simp_all add: md_header_def wire_simps)

lemma read_headers_Some:
  "md_read_headers n bs = Some (ms, r) \<Longrightarrow>
   length ms = n \<and> bs = concat (map md_header ms) @ r \<and> map md_bare ms = ms"
  by (induction n arbitrary: bs ms r)
    (auto simp: bind_eq_Some_conv md_header_def c32.get_Some_iff)

lemma read_headers_short:
  "length bs < 8 * n \<Longrightarrow> md_read_headers n bs = None"
proof (induction n arbitrary: bs)
  case (Suc n)
  show ?case
  proof (rule ccontr)
    assume "md_read_headers (Suc n) bs \<noteq> None"
    then obtain i l ms r where *: "bs = PUT32 i @ PUT32 l @ concat (map md_header ms) @ r" "length ms = n"
      by (auto simp: bind_eq_Some_conv c32.get_Some_iff dest!: read_headers_Some)
    then show False using Suc by (simp add: wire_simps md_header_def length_concat comp_def sum_list_triv)
  qed
qed simp

section \<open>Data pointers\<close>

lemma md_set_data_length [simp]: "length (md_set_data ms d) = length ms"
  by (induction ms d rule: md_set_data.induct) auto

lemma md_set_data_headers [simp]:
  "map md_header (md_set_data ms d) = map md_header ms"
  "map (\<lambda>m. unat (md_len m)) (md_set_data ms d) = map (\<lambda>m. unat (md_len m)) ms"
  by (induction ms d rule: md_set_data.induct) (auto simp: md_header_def)

lemma md_set_data_values:
  assumes "length d = sum_list (map (\<lambda>m. unat (md_len m)) ms)"
  shows "list_all md_supplies (md_set_data ms d) \<and> concat (map md_value (md_set_data ms d)) = d"
  using assms
proof (induction ms d rule: md_set_data.induct)
  case (2 m ms d)
  have "list_all md_supplies (md_set_data ms (drop (unat (md_len m)) d)) \<and>
      concat (map md_value (md_set_data ms (drop (unat (md_len m)) d))) = drop (unat (md_len m)) d"
    using 2 by simp
  then show ?case
    using 2 by (simp add: md_supplies_def md_value_def)
qed simp

lemma md_set_data_reads_back:
  "list_all md_supplies ms \<Longrightarrow>
   map (\<lambda>m. (md_id m, md_value m)) (md_set_data (map md_bare ms) (concat (map md_value ms))) =
   map (\<lambda>m. (md_id m, md_value m)) ms"
proof (induction ms)
  case (Cons m ms)
  then have "length (md_value m) = unat (md_len m)"
    by (simp add: md_value_length)
  then show ?case
    using Cons by (simp add: md_value_def)
qed simp

section \<open>Adding and finding\<close>

definition md_lookup :: "gdp_md \<Rightarrow> u32 \<Rightarrow> byte list option" where
  "md_lookup gmd mid =
     (case gdp_md_find (Some gmd) mid of
        (_, Some (len, Some d)) \<Rightarrow> Some (take (unat len) d)
      | (_, Some (len, None)) \<Rightarrow> Some []
      | (_, None) \<Rightarrow> None)"

definition md_store :: "(nat \<Rightarrow> metadatum) \<Rightarrow> u32 \<Rightarrow> byte list \<Rightarrow> gdp_md \<Rightarrow> gdp_md" where
  "md_store junk mid d gmd =
     (case gdp_md_add junk gmd mid (length d) (Some d) of None \<Rightarrow> gmd | Some (_, g) \<Rightarrow> g)"

definition md_keyok :: "u32 \<Rightarrow> byte list \<Rightarrow> bool" where
  "md_keyok mid d \<longleftrightarrow> mid \<noteq> GDP_MD_EOLIST \<and> length d < 2 ^ 32"

lemma md_lookup_map_of:
  "md_lookup gmd mid = map_of (md_entries gmd) mid"
proof -
  have "find (\<lambda>m. mid = md_id m) ms = None \<Longrightarrow> map_of (map (\<lambda>m. (md_id m, md_value m)) ms) mid = None"
    "find (\<lambda>m. mid = md_id m) ms = Some m \<Longrightarrow>
       map_of (map (\<lambda>m. (md_id m, md_value m)) ms) mid = Some (md_value m)" for ms m
    by (induction ms) (auto split: if_splits)
  then show ?thesis
    by (cases "find (\<lambda>m. mid = md_id m) (md_used gmd)")
      (auto simp: md_lookup_def gdp_md_find_def md_entries_def md_value_def split: option.splits)
qed

lemma md_index_le: "md_index mid gmd \<le> length (md_used gmd)"
  unfolding md_index_def by (rule length_takeWhile_le)

lemma md_index_used:
  assumes "md_index mid gmd < length (md_used gmd)"
  shows "md_id (mds gmd ! md_index mid gmd) = mid"
  using nth_length_takeWhile [of "\<lambda>m. md_id m \<noteq> mid" "md_used gmd"] assms
  by (simp add: md_index_def)

lemma md_index_fresh:
  assumes "\<not> md_index mid gmd < length (md_used gmd)"
  shows "mid \<notin> md_id ` set (md_used gmd)"
  using takeWhile_full [of "\<lambda>m. md_id m \<noteq> mid", OF assms [unfolded md_index_def]] by blast

text \<open>The array grows by at least one slot, because it never has fewer than four.\<close>

lemma md_grow_room:
  assumes "md_wf gmd"
  shows "md_nused gmd < length (mds (md_grow junk gmd))"
    and "length (mds (md_grow junk gmd)) = md_nalloc (md_grow junk gmd)"
    and "4 \<le> md_nalloc (md_grow junk gmd)"
    and "take (md_nused gmd) (mds (md_grow junk gmd)) = md_used gmd"
    and "gmd_flags (md_grow junk gmd) = gmd_flags gmd"
  using assms by (auto simp: md_wf_def md_grow_def Let_def)

lemma md_wf_length: "md_wf gmd \<Longrightarrow> length (md_used gmd) = md_nused gmd"
  by (simp add: md_wf_def)

lemma metadatum_overwrite [simp]:
  "m\<lparr>md_id := i, md_len := l, md_data := d, md_flags := f\<rparr> =
   \<lparr>md_id = i, md_len = l, md_data = d, md_flags = f\<rparr>" for m :: metadatum
  by (cases m) simp

text \<open>\<^verbatim>\<open>gdp_md_add\<close> on its two branches, replacing an entry and appending one.\<close>

lemma md_add_replace:
  assumes wf: "md_wf gmd" and ok: "md_keyok mid d" and i: "md_index mid gmd < md_nused gmd"
  defines "m \<equiv> \<lparr>md_id = mid, md_len = of_nat (length d), md_data = Some d, md_flags = MDF_OWNDATA\<rparr>"
  shows "gdp_md_add junk gmd mid (length d) (Some d) =
    Some (EP_STAT_OK, gmd\<lparr>mds := (mds gmd)[md_index mid gmd := m]\<rparr>)"
proof -
  have "md_index mid gmd < length (mds gmd)" using wf i by (simp add: md_wf_def)
  then show ?thesis
    using assms by (simp add: gdp_md_add_def md_wf_def md_keyok_def Let_def)
qed

lemma md_add_append:
  assumes wf: "md_wf gmd" and ok: "md_keyok mid d" and i: "\<not> md_index mid gmd < md_nused gmd"
  defines "m \<equiv> \<lparr>md_id = mid, md_len = of_nat (length d), md_data = Some d, md_flags = MDF_OWNDATA\<rparr>"
  shows "gdp_md_add junk gmd mid (length d) (Some d) =
    Some (EP_STAT_OK, (md_grow junk gmd)\<lparr>md_nused := Suc (md_nused gmd),
      mds := (mds (md_grow junk gmd))[md_nused gmd := m]\<rparr>)"
proof -
  have "md_index mid gmd = md_nused gmd"
    using i md_index_le [of mid gmd] md_wf_length [OF wf] by simp
  then show ?thesis
    using assms md_grow_room [OF wf, of junk]
    by (simp add: gdp_md_add_def md_wf_def md_keyok_def Let_def)
qed

lemma take_Suc_update:
  "n < length xs \<Longrightarrow> take (Suc n) (xs[n := x]) = take n xs @ [x]"
  by (simp add: take_Suc_conv_app_nth)

lemma md_value_owned:
  "md_keyok mid d \<Longrightarrow> md_value \<lparr>md_id = mid, md_len = of_nat (length d), md_data = Some d,
     md_flags = MDF_OWNDATA\<rparr> = d"
  by (simp add: md_value_def md_keyok_def unat_of_nat_id)

lemma md_store_replace:
  assumes wf: "md_wf gmd" and ok: "md_keyok mid d" and i: "md_index mid gmd < md_nused gmd"
  shows "md_wf (md_store junk mid d gmd)"
    and "md_entries (md_store junk mid d gmd) = (md_entries gmd)[md_index mid gmd := (mid, d)]"
    and "fst (md_entries gmd ! md_index mid gmd) = mid"
proof -
  let ?m = "\<lparr>md_id = mid, md_len = of_nat (length d), md_data = Some d, md_flags = MDF_OWNDATA\<rparr>"
  have st: "md_store junk mid d gmd = gmd\<lparr>mds := (mds gmd)[md_index mid gmd := ?m]\<rparr>"
    by (simp add: md_store_def md_add_replace [OF wf ok i])
  have used: "md_id (mds gmd ! md_index mid gmd) = mid"
    using md_index_used [of mid gmd] i md_wf_length [OF wf] by simp
  have len: "md_index mid gmd < length (mds gmd)" using wf i by (simp add: md_wf_def)
  show "md_entries (md_store junk mid d gmd) = (md_entries gmd)[md_index mid gmd := (mid, d)]"
    using md_value_owned [OF ok] by (simp add: st md_entries_def take_update_swap map_update)
  show "fst (md_entries gmd ! md_index mid gmd) = mid"
    using used i len by (simp add: md_entries_def)
  have "map md_id ((mds gmd)[md_index mid gmd := ?m]) = map md_id (mds gmd)"
    using used len by (simp add: map_update list_update_same_conv)
  then show "md_wf (md_store junk mid d gmd)"
    using wf by (simp add: st md_wf_def flip: take_map)
qed

lemma md_store_append:
  assumes wf: "md_wf gmd" and ok: "md_keyok mid d" and i: "\<not> md_index mid gmd < md_nused gmd"
  shows "md_wf (md_store junk mid d gmd)"
    and "md_entries (md_store junk mid d gmd) = md_entries gmd @ [(mid, d)]"
    and "map_of (md_entries gmd) mid = None"
proof -
  let ?m = "\<lparr>md_id = mid, md_len = of_nat (length d), md_data = Some d, md_flags = MDF_OWNDATA\<rparr>"
  note room = md_grow_room [OF wf, of junk]
  have st: "md_store junk mid d gmd = (md_grow junk gmd)\<lparr>md_nused := Suc (md_nused gmd),
      mds := (mds (md_grow junk gmd))[md_nused gmd := ?m]\<rparr>"
    by (simp add: md_store_def md_add_append [OF wf ok i])
  have fresh: "mid \<notin> md_id ` set (md_used gmd)"
    using md_index_fresh [of mid gmd] i md_wf_length [OF wf] by simp
  have used: "md_used (md_store junk mid d gmd) = md_used gmd @ [?m]"
    using room by (simp add: st take_Suc_update)
  then show "md_entries (md_store junk mid d gmd) = md_entries gmd @ [(mid, d)]"
    using md_value_owned [OF ok] by (simp add: md_entries_def)
  show "map_of (md_entries gmd) mid = None"
    using fresh by (simp add: map_of_eq_None_iff md_entries_def image_image)
  have "distinct (map md_id (md_used (md_store junk mid d gmd)))"
    using wf fresh unfolding used by (simp add: md_wf_def)
  then show "md_wf (md_store junk mid d gmd)"
    using wf room by (simp add: md_wf_def st)
qed

lemma md_store_spec:
  assumes wf: "md_wf gmd" and ok: "md_keyok mid d"
  shows "md_wf (md_store junk mid d gmd)"
    and "map_of (md_entries (md_store junk mid d gmd)) = (map_of (md_entries gmd))(mid \<mapsto> d)"
proof -
  show "md_wf (md_store junk mid d gmd)"
    using md_store_replace(1) [OF assms] md_store_append(1) [OF assms] by blast
  show "map_of (md_entries (md_store junk mid d gmd)) = (map_of (md_entries gmd))(mid \<mapsto> d)"
  proof (cases "md_index mid gmd < md_nused gmd")
    case True
    have "distinct (map fst (md_entries gmd))" "md_index mid gmd < length (md_entries gmd)"
      using wf True by (simp_all add: md_wf_def md_entries_def comp_def)
    then show ?thesis
      using map_of_replace [of "md_index mid gmd" "md_entries gmd" d] md_store_replace [OF assms True]
      by simp
  next
    case False
    then show ?thesis
      using md_store_append [OF assms False]
      by (auto simp: fun_eq_iff map_add_def split: option.splits)
  qed
qed

interpretation md: keyed_store md_lookup "md_store junk" md_wf md_keyok for junk
proof unfold_locales
  fix s k v
  assume "md_wf s" "md_keyok k v"
  then show "md_wf (md_store junk k v s)" "md_lookup (md_store junk k v s) = (md_lookup s)(k \<mapsto> v)"
    using md_store_spec [of s k v junk] by (auto simp: md_lookup_map_of fun_eq_iff)
qed

section \<open>Properties\<close>

lemma deserialize_written:
  assumes sup: "list_all md_supplies ms" and n: "0 < length ms" "length ms < 65536"
  defines "b \<equiv> PUT16 (of_nat (length ms)) @ concat (map md_header ms) @ concat (map md_value ms)"
  shows "gdp_md_deserialize b = Some (Some \<lparr>md_nalloc = length ms, md_nused = length ms,
    mds = md_set_data (map md_bare ms) (concat (map md_value ms)),
    md_databuf = Some (concat (map md_value ms)), gmd_flags = GDP_MDF_READONLY\<rparr>)"
proof -
  have cnt: "unat (of_nat (length ms) :: u16) = length ms"
    using n by (intro unat_of_nat_id) simp
  then have nz: "(of_nat (length ms) :: u16) \<noteq> 0"
    using n by (metis unat_0 less_irrefl)
  have "length b = md_slen ms"
    unfolding b_def by (rule serialize_length [OF sup])
  then have len: "2 \<le> length b" "8 \<le> length b - 2"
    using n by (cases ms; simp add: md_slen_def)+
  have tl: "length (concat (map md_value ms)) = sum_list (map (\<lambda>m. unat (md_len m)) ms)"
    using sup by (induction ms) (auto simp: md_value_length)
  have "md_read_headers (length ms) (concat (map md_header ms) @ concat (map md_value ms)) =
      Some (map md_bare ms, concat (map md_value ms))"
    by (rule read_headers_written)
  then show ?thesis
    using len nz cnt tl by (simp add: gdp_md_deserialize_def b_def c16.get_put comp_def)
qed

text \<open>C10: metadata survives serialisation: a list whose used entries supply their data and whose
  count fits in 16 bits is written without leaving its memory, the buffer has exactly the length
  that was computed for it beforehand, and reading the buffer back gives a read-only list with the
  same ids and the same data in the same order.\<close>

theorem md_roundtrip:
  assumes "md_ready gmd"
  shows "\<exists>b gmd'. gdp_md_serialize (Some gmd) = Some (length b, Some b) \<and>
    gdp_md_deserialize b = Some (Some gmd') \<and> md_entries gmd' = md_entries gmd \<and>
    gmd_flags gmd' = GDP_MDF_READONLY"
proof -
  have len: "length (md_used gmd) = md_nused gmd" and sup: "list_all md_supplies (md_used gmd)"
    and n: "0 < length (md_used gmd)" "length (md_used gmd) < 65536"
    using assms by (auto simp: md_ready_def)
  let ?b = "PUT16 (of_nat (md_nused gmd)) @ concat (map md_header (md_used gmd)) @
      concat (map md_value (md_used gmd))"
  have "gdp_md_serialize (Some gmd) = Some (length ?b, Some ?b)"
    using serialize_ready [OF sup] serialize_length [OF sup] by simp
  then show ?thesis
    using deserialize_written [OF sup n, unfolded len] md_set_data_reads_back [OF sup] len
    by (intro exI [of _ ?b]) (simp add: md_entries_def)
qed

definition md_example :: gdp_md where
  "md_example =
     (case gdp_md_add (\<lambda>_. zero_metadatum) (gdp_md_new 0) 0x00584944 3 (Some [104, 105, 33]) of
        Some (_, g) \<Rightarrow> g | None \<Rightarrow> gdp_md_new 0)"

lemma md_example_eq:
  "md_example = \<lparr>md_nalloc = 4, md_nused = 1,
     mds = [\<lparr>md_id = 0x00584944, md_len = 3, md_data = Some [104, 105, 33], md_flags = 1\<rparr>,
            zero_metadatum, zero_metadatum, zero_metadatum],
     md_databuf = None, gmd_flags = 0\<rparr>"
  by code_simp

theorem md_roundtrip_witness:
  "md_ready md_example \<and> (\<exists>b gmd'. gdp_md_serialize (Some md_example) = Some (length b, Some b) \<and>
    gdp_md_deserialize b = Some (Some gmd') \<and> md_entries gmd' = [(0x00584944, [104, 105, 33])])"
proof -
  have r: "md_ready md_example" and e: "md_entries md_example = [(0x00584944, [104, 105, 33])]"
    by (simp_all add: md_example_eq md_ready_def md_supplies_def md_entries_def md_value_def)
  show ?thesis using md_roundtrip [OF r] r e by auto
qed

text \<open>C33: the serialised form is canonical: whatever bytes the reader accepts, writing the list it
  built gives back the same bytes.\<close>

theorem md_deserialize_canonical:
  assumes "gdp_md_deserialize b = Some (Some gmd)"
  shows "gdp_md_serialize (Some gmd) = Some (length b, Some b)"
proof -
  obtain n r ms rest where b: "GET16 b = Some (n, r)" and rd: "md_read_headers (unat n) r = Some (ms, rest)"
    and tl: "length rest = sum_list (map (\<lambda>m. unat (md_len m)) ms)"
    and g: "gmd = \<lparr>md_nalloc = unat n, md_nused = unat n, mds = md_set_data ms rest,
      md_databuf = Some rest, gmd_flags = GDP_MDF_READONLY\<rparr>"
    using assms by (auto simp: gdp_md_deserialize_def bind_eq_Some_conv Let_def split: if_splits)
  note h = read_headers_Some [OF rd]
  have used: "md_used gmd = md_set_data ms rest" using g h by simp
  have sup: "list_all md_supplies (md_used gmd)" and val: "concat (map md_value (md_used gmd)) = rest"
    using md_set_data_values [OF tl] used by auto
  have "b = PUT16 n @ concat (map md_header ms) @ rest"
    using b h by (simp add: c16.get_Some_iff)
  then have "PUT16 (of_nat (md_nused gmd)) @ concat (map md_header (md_used gmd)) @
      concat (map md_value (md_used gmd)) = b"
    using used val g by simp
  then show ?thesis
    using serialize_ready [OF sup] serialize_length [OF sup, of n] g by simp
qed

theorem md_deserialize_canonical_witness:
  "gdp_md_serialize (Some \<lparr>md_nalloc = 1, md_nused = 1,
      mds = [\<lparr>md_id = 7, md_len = 1, md_data = Some [42], md_flags = 0\<rparr>],
      md_databuf = Some [42], gmd_flags = 1\<rparr>) = Some (11, Some [0,1, 0,0,0,7, 0,0,0,1, 42])"
proof -
  have "gdp_md_deserialize [0,1, 0,0,0,7, 0,0,0,1, 42] = Some (Some \<lparr>md_nalloc = 1, md_nused = 1,
      mds = [\<lparr>md_id = 7, md_len = 1, md_data = Some [42], md_flags = 0\<rparr>],
      md_databuf = Some [42], gmd_flags = 1\<rparr>)"
    by code_simp
  from md_deserialize_canonical [OF this] show ?thesis by simp
qed

text \<open>C22: adding an entry to a writable list never writes outside the array, whatever the
  reallocation leaves in the new slots, keeps the list well formed, and then finding that id gives
  the new data while every other id is found as before.\<close>

theorem md_add_find:
  assumes "md_wf gmd" "mid \<noteq> GDP_MD_EOLIST" "length d < 2 ^ 32"
  shows "\<exists>gmd'. gdp_md_add junk gmd mid (length d) (Some d) = Some (EP_STAT_OK, gmd') \<and> md_wf gmd' \<and>
    md_lookup gmd' mid = Some d \<and> (\<forall>i. i \<noteq> mid \<longrightarrow> md_lookup gmd' i = md_lookup gmd i)"
proof -
  have ok: "md_keyok mid d" using assms by (simp add: md_keyok_def)
  obtain gmd' where add: "gdp_md_add junk gmd mid (length d) (Some d) = Some (EP_STAT_OK, gmd')"
    using md_add_replace [OF assms(1) ok] md_add_append [OF assms(1) ok] by blast
  then have "md_store junk mid d gmd = gmd'" by (simp add: md_store_def)
  then show ?thesis
    using add md.invar_store [OF assms(1) ok, of junk] md.lookup_store [OF assms(1) ok, of junk] by simp
qed

theorem md_add_find_witness:
  "md_wf md_example \<and>
   (\<exists>gmd'. gdp_md_add (\<lambda>_. zero_metadatum) md_example 9 2 (Some [1, 2]) = Some (EP_STAT_OK, gmd') \<and>
     md_lookup gmd' 9 = Some [1, 2] \<and> md_lookup gmd' 0x00584944 = md_lookup md_example 0x00584944)"
proof -
  have wf: "md_wf md_example"
    by (simp add: md_example_eq md_wf_def flag_defs)
  have key: "(9::u32) \<noteq> GDP_MD_EOLIST" by (simp add: GDP_MD_EOLIST_def)
  have len: "length [1::byte, 2] = 2" by simp
  have "(2::nat) < 2 ^ 32" by simp
  from md_add_find [OF wf key, of "[1, 2]" "\<lambda>_. zero_metadatum", unfolded len, OF this]
  show ?thesis using wf by auto
qed

text \<open>C37: the reader checks for room for one header only: an input that announces at least two
  entries and holds exactly one header passes the check and is then read beyond its end.\<close>

theorem md_deserialize_overread:
  assumes "2 \<le> unat n" "length hdr = 8"
  shows "gdp_md_deserialize (PUT16 n @ hdr) = None"
proof -
  have "n \<noteq> 0" using assms by auto
  then show ?thesis
    using assms read_headers_short [of hdr "unat n"]
    by (simp add: gdp_md_deserialize_def c16.get_put wire_simps)
qed

theorem md_deserialize_overread_witness:
  "gdp_md_deserialize [0, 2, 0, 0, 0, 7, 0, 0, 0, 0] = None"
  using md_deserialize_overread [of 2 "[0, 0, 0, 7, 0, 0, 0, 0]"] by (simp add: PUT16_def)

end
