(* ===== verification/Ep_Hash.thy ===== *)
theory Ep_Hash
  imports Gdp_Prelude
begin

text \<open>
  The chained hash table of \<^verbatim>\<open>ep/ep_hash.c\<close>.  A table is an array of chains; a node holds a key
  (its bytes, so that \<^verbatim>\<open>keylen\<close> and \<^verbatim>\<open>memcmp\<close> are list equality) and a value pointer,
  \<^term>\<open>None\<close> being the null pointer that deletion leaves behind.  The mutex makes each operation
  atomic, so each is one function on the table.
\<close>

section \<open>State and operations\<close>

record 'v node =
  n_key :: "byte list"
  n_val :: "'v option"

record 'v ep_hash =
  hfunc :: "nat \<Rightarrow> byte list \<Rightarrow> nat"
  tabsize :: nat
  tab :: "'v node list list"

text \<open>The default hash.  The running value stays below the table size, so the shift stays in the range of a C \<^verbatim>\<open>int\<close> for tables
  of up to \<open>2 ^ 30\<close> buckets (the default is 2003); for larger ones the shift of the code overflows, and the model
  does not apply.\<close>

definition def_hfunc :: "nat \<Rightarrow> byte list \<Rightarrow> nat" where
  "def_hfunc tsize key = fold (\<lambda>b h. (push_bit 1 h XOR unat b) mod tsize) key 0"

text \<open>\<^verbatim>\<open>ep_hash_new\<close>: \<open>defsize\<close> is the administrative parameter \<^verbatim>\<open>libep.hash.tabsize\<close>; the
  result is \<^term>\<open>None\<close> when the assertion on the size fails.\<close>

definition ep_hash_new ::
  "nat \<Rightarrow> (nat \<Rightarrow> byte list \<Rightarrow> nat) option \<Rightarrow> nat \<Rightarrow> 'v ep_hash option" where
  "ep_hash_new defsize hf tsize =
     (let n = (if tsize = 0 then defsize else tsize) in
      if n < 2 then None
      else Some \<lparr>hfunc = (case hf of None \<Rightarrow> def_hfunc | Some f \<Rightarrow> f), tabsize = n,
                 tab = replicate n []\<rparr>)"

text \<open>\<^verbatim>\<open>find_node_ptr\<close> returns where the search stopped: a chain and a position in it, which is the
  end of the chain when the key is not there.\<close>

definition find_node_ptr :: "'v ep_hash \<Rightarrow> byte list \<Rightarrow> nat \<times> nat" where
  "find_node_ptr hp key =
     (let indx = hfunc hp (tabsize hp) key in
      (indx, length (takeWhile (\<lambda>n. n_key n \<noteq> key) (tab hp ! indx))))"

definition ep_hash_search :: "'v ep_hash \<Rightarrow> byte list \<Rightarrow> 'v option" where
  "ep_hash_search hp key =
     (case find_node_ptr hp key of (i, j) \<Rightarrow>
        if j < length (tab hp ! i) then n_val (tab hp ! i ! j) else None)"

definition ep_hash_insert ::
  "'v ep_hash \<Rightarrow> byte list \<Rightarrow> 'v option \<Rightarrow> 'v option \<times> 'v ep_hash" where
  "ep_hash_insert hp key val =
     (case find_node_ptr hp key of (i, j) \<Rightarrow>
        if j < length (tab hp ! i) then
          (n_val (tab hp ! i ! j),
           hp\<lparr>tab := (tab hp)[i := (tab hp ! i)[j := (tab hp ! i ! j)\<lparr>n_val := val\<rparr>]]\<rparr>)
        else
          (None, hp\<lparr>tab := (tab hp)[i := tab hp ! i @ [\<lparr>n_key = key, n_val = val\<rparr>]]\<rparr>))"

definition ep_hash_delete :: "'v ep_hash \<Rightarrow> byte list \<Rightarrow> 'v option \<times> 'v ep_hash" where
  "ep_hash_delete hp key =
     (case find_node_ptr hp key of (i, j) \<Rightarrow>
        if j < length (tab hp ! i) then
          (n_val (tab hp ! i ! j),
           hp\<lparr>tab := (tab hp)[i := (tab hp ! i)[j := (tab hp ! i ! j)\<lparr>n_val := None\<rparr>]]\<rparr>)
        else (None, hp))"

text \<open>\<^verbatim>\<open>ep_hash_forall\<close> calls \<open>func\<close> on every node, chain by chain; the caller's state is
  threaded through the calls.\<close>

definition hash_nodes :: "'v ep_hash \<Rightarrow> (byte list \<times> 'v option) list" where
  "hash_nodes hp = concat (map (map (\<lambda>n. (n_key n, n_val n))) (take (tabsize hp) (tab hp)))"

definition ep_hash_forall ::
  "(byte list \<Rightarrow> 'v option \<Rightarrow> 's \<Rightarrow> 's) \<Rightarrow> 'v ep_hash \<Rightarrow> 's \<Rightarrow> 's" where
  "ep_hash_forall func hp s = fold (\<lambda>(k, v). func k v) (hash_nodes hp) s"

section \<open>Invariant\<close>

text \<open>The array has \<^verbatim>\<open>tabsize\<close> chains, the hash function points into it, and a chain holds distinct
  keys that hash to it.\<close>

definition chain_ok :: "(byte list \<Rightarrow> nat) \<Rightarrow> nat \<Rightarrow> 'v node list \<Rightarrow> bool" where
  "chain_ok h i c \<longleftrightarrow> distinct (map n_key c) \<and> (\<forall>n \<in> set c. h (n_key n) = i)"

definition hash_wf :: "'v ep_hash \<Rightarrow> bool" where
  "hash_wf hp \<longleftrightarrow> length (tab hp) = tabsize hp \<and> (\<forall>key. hfunc hp (tabsize hp) key < tabsize hp) \<and>
     (\<forall>i < tabsize hp. chain_ok (hfunc hp (tabsize hp)) i (tab hp ! i))"

text \<open>What a chain says about a key: the node with that key, if any.\<close>

definition chain_val :: "'v node list \<Rightarrow> byte list \<Rightarrow> 'v option" where
  "chain_val c key = (case find (\<lambda>n. n_key n = key) c of None \<Rightarrow> None | Some n \<Rightarrow> n_val n)"

section \<open>Chains\<close>

abbreviation chain_pos :: "byte list \<Rightarrow> 'v node list \<Rightarrow> nat" where
  "chain_pos key c \<equiv> length (takeWhile (\<lambda>n. n_key n \<noteq> key) c)"

lemma chain_pos_found: "chain_pos key c < length c \<Longrightarrow> n_key (c ! chain_pos key c) = key"
  using nth_length_takeWhile [of "\<lambda>n. n_key n \<noteq> key" c] by simp

lemma chain_pos_missing: "\<not> chain_pos key c < length c \<Longrightarrow> key \<notin> n_key ` set c"
  using takeWhile_full [of "\<lambda>n. n_key n \<noteq> key" c] by blast

lemma chain_val_pos:
  "chain_val c key = (if chain_pos key c < length c then n_val (c ! chain_pos key c) else None)"
  by (induction c) (auto simp: chain_val_def)

lemma chain_val_replace:
  assumes "chain_pos key c < length c"
  shows "chain_val (c[chain_pos key c := (c ! chain_pos key c)\<lparr>n_val := v\<rparr>]) k =
    (if k = key then v else chain_val c k)"
  using assms by (induction c) (auto simp: chain_val_def)

lemma chain_val_append:
  assumes "\<not> chain_pos key c < length c"
  shows "chain_val (c @ [\<lparr>n_key = key, n_val = v\<rparr>]) k = (if k = key then v else chain_val c k)"
  using chain_pos_missing [OF assms] by (induction c) (auto simp: chain_val_def)

lemma chain_val_Some:
  "chain_val c k = Some v \<Longrightarrow> \<exists>n \<in> set c. n_key n = k \<and> n_val n = Some v"
  by (induction c) (auto simp: chain_val_def split: if_splits)

lemma chain_replace_keys:
  assumes "j < length c"
  shows "map n_key (c[j := (c ! j)\<lparr>n_val := v\<rparr>]) = map n_key c"
  using assms by (simp add: map_update list_update_same_conv)

lemma chain_ok_alt: "chain_ok h i c \<longleftrightarrow> distinct (map n_key c) \<and> h ` set (map n_key c) \<subseteq> {i}"
  by (auto simp: chain_ok_def)

lemma chain_ok_replace:
  "j < length c \<Longrightarrow> chain_ok h i (c[j := (c ! j)\<lparr>n_val := v\<rparr>]) \<longleftrightarrow> chain_ok h i c"
  by (simp only: chain_ok_alt chain_replace_keys)

lemma chain_ok_append:
  "\<not> chain_pos key c < length c \<Longrightarrow> chain_ok h (h key) c \<Longrightarrow>
   chain_ok h (h key) (c @ [\<lparr>n_key = key, n_val = v\<rparr>])"
  using chain_pos_missing [of key c] by (auto simp: chain_ok_def)

section \<open>The table\<close>

abbreviation hash_index :: "'v ep_hash \<Rightarrow> byte list \<Rightarrow> nat" where
  "hash_index hp key \<equiv> hfunc hp (tabsize hp) key"

abbreviation chain_of :: "'v ep_hash \<Rightarrow> byte list \<Rightarrow> 'v node list" where
  "chain_of hp key \<equiv> tab hp ! hash_index hp key"

lemma search_chain: "ep_hash_search hp key = chain_val (chain_of hp key) key"
  by (simp add: ep_hash_search_def find_node_ptr_def Let_def chain_val_pos)

text \<open>Replacing the chain of a key by one that differs at that key only changes the table there.\<close>

lemma replace_chain:
  assumes wf: "hash_wf hp" and ok: "chain_ok (hash_index hp) (hash_index hp key) c"
    and c: "\<And>k. chain_val c k = (if k = key then v else chain_val (chain_of hp key) k)"
  defines "hp' \<equiv> hp\<lparr>tab := (tab hp)[hash_index hp key := c]\<rparr>"
  shows "hash_wf hp'" and "ep_hash_search hp' = (ep_hash_search hp)(key := v)"
proof -
  have i: "hash_index hp key < length (tab hp)" using wf by (simp add: hash_wf_def)
  then show "hash_wf hp'"
    using wf ok by (auto simp: hash_wf_def hp'_def nth_list_update)
  show "ep_hash_search hp' = (ep_hash_search hp)(key := v)"
    using i c by (auto simp: fun_eq_iff search_chain hp'_def nth_list_update)
qed

lemma insert_spec:
  assumes wf: "hash_wf hp"
  shows "hash_wf (snd (ep_hash_insert hp key v))"
    and "ep_hash_search (snd (ep_hash_insert hp key v)) = (ep_hash_search hp)(key := v)"
    and "fst (ep_hash_insert hp key v) = ep_hash_search hp key"
proof -
  let ?c = "chain_of hp key"
  have ok: "chain_ok (hash_index hp) (hash_index hp key) ?c" using wf by (simp add: hash_wf_def)
  show "fst (ep_hash_insert hp key v) = ep_hash_search hp key"
    by (simp add: ep_hash_insert_def ep_hash_search_def split: prod.splits)
  show "hash_wf (snd (ep_hash_insert hp key v))"
    and "ep_hash_search (snd (ep_hash_insert hp key v)) = (ep_hash_search hp)(key := v)"
    using replace_chain [OF wf, of key "?c[chain_pos key ?c := (?c ! chain_pos key ?c)\<lparr>n_val := v\<rparr>]" v]
      replace_chain [OF wf, of key "?c @ [\<lparr>n_key = key, n_val = v\<rparr>]" v] ok
    by (auto simp: ep_hash_insert_def find_node_ptr_def Let_def chain_val_replace chain_val_append
        chain_ok_replace chain_ok_append)
qed

lemma delete_spec:
  assumes wf: "hash_wf hp"
  shows "hash_wf (snd (ep_hash_delete hp key))"
    and "ep_hash_search (snd (ep_hash_delete hp key)) = (ep_hash_search hp)(key := None)"
    and "fst (ep_hash_delete hp key) = ep_hash_search hp key"
proof -
  let ?c = "chain_of hp key"
  have ok: "chain_ok (hash_index hp) (hash_index hp key) ?c" using wf by (simp add: hash_wf_def)
  show "fst (ep_hash_delete hp key) = ep_hash_search hp key"
    by (simp add: ep_hash_delete_def ep_hash_search_def split: prod.splits)
  have miss: "ep_hash_search hp key = None" if "\<not> chain_pos key ?c < length ?c"
    using that by (simp add: search_chain chain_val_pos)
  show "hash_wf (snd (ep_hash_delete hp key))"
    and "ep_hash_search (snd (ep_hash_delete hp key)) = (ep_hash_search hp)(key := None)"
    using replace_chain [OF wf, of key "?c[chain_pos key ?c := (?c ! chain_pos key ?c)\<lparr>n_val := None\<rparr>]" None]
      ok wf miss
    by (auto simp: ep_hash_delete_def find_node_ptr_def Let_def chain_val_replace chain_ok_replace)
qed

lemma def_hfunc_bound: "0 < n \<Longrightarrow> def_hfunc n key < n"
proof -
  assume "0 < n"
  then have "h < n \<Longrightarrow> fold (\<lambda>b h. (push_bit 1 h XOR unat b) mod n) key h < n" for h
    by (induction key arbitrary: h) simp_all
  then show ?thesis using \<open>0 < n\<close> by (simp add: def_hfunc_def)
qed

lemma new_hash_wf:
  assumes "ep_hash_new defsize None tsize = Some hp"
  shows "hash_wf hp" and "ep_hash_search hp = (\<lambda>_. None)"
proof -
  have hp: "hfunc hp = def_hfunc" "2 \<le> tabsize hp" "tab hp = replicate (tabsize hp) []"
    using assms by (auto simp: ep_hash_new_def Let_def split: if_splits)
  moreover have "def_hfunc (tabsize hp) key < tabsize hp" for key
    using hp by (intro def_hfunc_bound) simp
  ultimately show "hash_wf hp" "ep_hash_search hp = (\<lambda>_. None)"
    by (auto simp: hash_wf_def chain_ok_def fun_eq_iff search_chain chain_val_def)
qed

definition hash_store :: "byte list \<Rightarrow> 'v \<Rightarrow> 'v ep_hash \<Rightarrow> 'v ep_hash" where
  "hash_store key v hp = snd (ep_hash_insert hp key (Some v))"

definition hash_remove :: "byte list \<Rightarrow> 'v ep_hash \<Rightarrow> 'v ep_hash" where
  "hash_remove key hp = snd (ep_hash_delete hp key)"

interpretation hash: keyed_store_del ep_hash_search hash_store hash_wf "\<lambda>_ _. True" hash_remove
  by unfold_locales (simp_all add: hash_store_def hash_remove_def insert_spec delete_spec)

section \<open>Iteration\<close>

lemma nodes_distinct:
  assumes "hash_wf hp"
  shows "distinct (map fst (hash_nodes hp))"
proof -
  have keys: "map fst (hash_nodes hp) = concat (map (map n_key) (tab hp))"
    using assms by (simp add: hash_nodes_def hash_wf_def map_concat comp_def)
  show ?thesis
    unfolding keys using assms
    by (intro distinct_concat_indexed [where h = "hash_index hp" and off = 0])
      (auto simp: hash_wf_def chain_ok_def)
qed

lemma nodes_search:
  assumes wf: "hash_wf hp" and kv: "(k, v) \<in> set (hash_nodes hp)"
  shows "ep_hash_search hp k = v"
proof -
  obtain c n where "c \<in> set (tab hp)" and c: "n \<in> set c" "n_key n = k" "n_val n = v"
    using kv by (auto simp: hash_nodes_def dest: in_set_takeD)
  then obtain i where i: "i < length (tab hp)" and n: "n \<in> set (tab hp ! i)" "n_key n = k" "n_val n = v"
    by (auto simp: in_set_conv_nth [of c])
  then have ok: "chain_ok (hash_index hp) i (tab hp ! i)" using wf by (simp add: hash_wf_def)
  then have idx: "hash_index hp k = i" using n by (auto simp: chain_ok_def)
  have "chain_val c k = v" if "distinct (map n_key c)" "n \<in> set c" for c
    using that n by (induction c) (auto simp: chain_val_def)
  then show ?thesis
    using idx ok n by (simp add: search_chain chain_ok_def)
qed

lemma search_nodes:
  assumes wf: "hash_wf hp" and kv: "ep_hash_search hp k = Some v"
  shows "(k, Some v) \<in> set (hash_nodes hp)"
proof -
  have i: "hash_index hp k < length (tab hp)" using wf by (simp add: hash_wf_def)
  obtain n where "n \<in> set (chain_of hp k)" "n_key n = k" "n_val n = Some v"
    using kv chain_val_Some [of "chain_of hp k" k v] by (auto simp: search_chain)
  then show ?thesis
    using i wf by (auto simp: hash_nodes_def hash_wf_def intro!: bexI [of _ "chain_of hp k"] image_eqI [of _ _ n])
qed

lemma fold_snoc: "fold (\<lambda>(k, v) acc. acc @ [(k, v)]) xs acc = acc @ xs"
  by (induction xs arbitrary: acc) auto

section \<open>Properties\<close>

text \<open>C12: the table refines a finite map.  Searching after an insertion or a deletion sees the map
  updated at exactly that key, both return the value the key had before, every operation keeps the
  chains well formed, and a new table is the empty map.\<close>

theorem hash_refines_map:
  assumes "hash_wf hp"
  shows "ep_hash_search (snd (ep_hash_insert hp key v)) = (ep_hash_search hp)(key := v) \<and>
    ep_hash_search (snd (ep_hash_delete hp key)) = (ep_hash_search hp)(key := None) \<and>
    fst (ep_hash_insert hp key v) = ep_hash_search hp key \<and>
    fst (ep_hash_delete hp key) = ep_hash_search hp key \<and>
    hash_wf (snd (ep_hash_insert hp key v)) \<and> hash_wf (snd (ep_hash_delete hp key)) \<and>
    (\<forall>n m hp0. ep_hash_new n None m = Some hp0 \<longrightarrow> hash_wf hp0 \<and> ep_hash_search hp0 = (\<lambda>_. None))"
  using insert_spec [OF assms] delete_spec [OF assms] new_hash_wf by blast

theorem hash_refines_map_witness:
  "\<exists>hp :: nat ep_hash. ep_hash_new 2003 None 3 = Some hp \<and> hash_wf hp \<and>
     ep_hash_search (snd (ep_hash_insert hp [1, 2] (Some 7))) [1, 2] = Some 7"
proof -
  obtain hp :: "nat ep_hash" where hp: "ep_hash_new 2003 None 3 = Some hp"
    by (simp add: ep_hash_new_def)
  then have "hash_wf hp" by (rule new_hash_wf)
  then show ?thesis using hp hash_refines_map [of hp "[1, 2]" "Some 7"] by auto
qed

text \<open>Iteration visits every key of the table exactly once, with the value a search would
  return; keys that were deleted are visited too, with a null value.\<close>

theorem hash_forall_visits:
  assumes "hash_wf hp"
  shows "distinct (map fst (hash_nodes hp)) \<and>
    (\<forall>(k, v) \<in> set (hash_nodes hp). ep_hash_search hp k = v) \<and>
    (\<forall>k v. ep_hash_search hp k = Some v \<longrightarrow> (k, Some v) \<in> set (hash_nodes hp)) \<and>
    ep_hash_forall (\<lambda>k v acc. acc @ [(k, v)]) hp [] = hash_nodes hp"
  using nodes_distinct [OF assms] nodes_search [OF assms] search_nodes [OF assms]
  by (auto simp: ep_hash_forall_def fold_snoc)

definition hash_small :: "nat ep_hash" where
  "hash_small = \<lparr>hfunc = def_hfunc, tabsize = 2, tab = [[], []]\<rparr>"

definition hash_example :: "nat ep_hash" where
  "hash_example = snd (ep_hash_delete (snd (ep_hash_insert hash_small [5] (Some 1))) [5])"

lemma hash_example_wf: "hash_wf hash_example"
proof -
  have "ep_hash_new 2003 None 2 = Some hash_small"
    by (simp add: ep_hash_new_def hash_small_def numeral_2_eq_2)
  then show ?thesis
    by (simp add: hash_example_def new_hash_wf insert_spec delete_spec)
qed

theorem hash_forall_visits_witness:
  "hash_wf hash_example \<and> ep_hash_search hash_example [5] = None \<and>
   ep_hash_forall (\<lambda>k v acc. acc @ [(k, v)]) hash_example [] = [([5], None)]"
proof -
  have "hash_nodes hash_example = [([5], None)]" by code_simp
  then show ?thesis
    using hash_forall_visits [OF hash_example_wf] hash_example_wf by auto
qed

end
