(* ===== verification/Gdp_Gob.thy ===== *)
theory Gdp_Gob
  imports Gdp_Event Gdp_Md Ep_Hash
begin

text \<open>
  GDP objects in memory: allocation, locking and reference counts of \<^verbatim>\<open>gdp/gdp_gob_mgmt.c\<close>, the cache of
  \<^verbatim>\<open>gdp/gdp_gob_cache.c\<close> and the requests of \<^verbatim>\<open>gdp/gdp_req.c\<close>.  Objects and requests live in a store and
  are known by their address.  The objects a name leads to are in a hash table (the theory of
  \<^verbatim>\<open>ep/ep_hash.c\<close>), and on a list with the most recently used first.

  An operation gives \<^term>\<open>None\<close> when the code does not come back (it takes a lock that is held,
  or loops for ever), when it follows a dangling pointer, or when it links an element that is on the
  list already.  The mutex of an object is held exactly when its flag \<^verbatim>\<open>GOBF_ISLOCKED\<close> is set; the
  locks of single requests are left out.  A failing assertion is reported and execution goes on, as it
  does by default.
\<close>

section \<open>Objects and the library's state\<close>

definition GOBF_INUSE :: u16 where "GOBF_INUSE = 0x0001"
definition GOBF_ISLOCKED :: u16 where "GOBF_ISLOCKED = 0x0002"
definition GOBF_DROPPING :: u16 where "GOBF_DROPPING = 0x0004"
definition GOBF_INCACHE :: u16 where "GOBF_INCACHE = 0x0008"
definition GOBF_DEFER_FREE :: u16 where "GOBF_DEFER_FREE = 0x0010"
definition GOBF_KEEPLOCKED :: u16 where "GOBF_KEEPLOCKED = 0x0020"
definition GOBF_PENDING :: u16 where "GOBF_PENDING = 0x0040"
definition GOBF_SIGNING :: u16 where "GOBF_SIGNING = 0x0080"
definition GOBF_VERIFYING :: u16 where "GOBF_VERIFYING = 0x0100"
definition GOBF_VRFY_WARN :: u16 where "GOBF_VRFY_WARN = 0x0200"

lemma gob_flag_exp:
  "GOBF_INUSE = 2 ^ 0" "GOBF_ISLOCKED = 2 ^ 1" "GOBF_DROPPING = 2 ^ 2" "GOBF_INCACHE = 2 ^ 3"
  "GOBF_DEFER_FREE = 2 ^ 4" "GOBF_KEEPLOCKED = 2 ^ 5" "GOBF_PENDING = 2 ^ 6" "GOBF_SIGNING = 2 ^ 7"
  "GOBF_VERIFYING = 2 ^ 8" "GOBF_VRFY_WARN = 2 ^ 9"
  by (simp_all add: GOBF_INUSE_def GOBF_ISLOCKED_def GOBF_DROPPING_def GOBF_INCACHE_def GOBF_DEFER_FREE_def
    GOBF_KEEPLOCKED_def GOBF_PENDING_def GOBF_SIGNING_def GOBF_VERIFYING_def GOBF_VRFY_WARN_def)

lemmas gob_flag_simps = gob_flag_exp bitset_exp bit_or_iff bit_and_iff bit_not_iff bit_exp_iff

text \<open>\<open>gob_x\<close> is the daemon's extra data, and \<open>gob_freefunc\<close> says whether the function that releases it
  is installed.\<close>

record 'x gdp_gob =
  gob_utime :: int
  gob_reqs :: "nat list"
  gob_name :: "byte list"
  gob_pname :: "byte list"
  gob_flags :: u16
  gob_hashalg :: u16
  gob_refcnt :: int
  gob_freefunc :: bool
  gob_nrecs :: int
  gob_md :: "gdp_md option"
  gob_sign_ctx :: "byte list option"
  gob_vrfy_ctx :: "byte list option"
  gob_x :: "'x option"

text \<open>
  The state of the library.  Addresses from \<open>gob_brk\<close> and \<open>req_brk\<close> on have not been allocated yet;
  \<open>sent\<close> lists the PDUs given to the channel, \<open>adverts\<close> the advertisements and withdrawals of names,
  and \<open>lib_clk\<close> is the clock.
\<close>

record ('b, 'x) gdp_lib =
  gobs :: "nat \<Rightarrow> 'x gdp_gob option"
  gob_brk :: nat
  GobFreeList :: "nat list"
  OpenGOBCache :: "nat ep_hash"
  GobsByUse :: "nat list"
  GobCacheMutex :: bool
  reqs :: "nat \<Rightarrow> 'b gdp_req option"
  req_brk :: nat
  ReqFreeList :: "nat list"
  chan_reqs :: "nat list"
  MaxRid :: u32
  ev_q :: "'b ev_lists"
  pdu_freelist :: "gdp_pdu list"
  lib_conf :: ev_conf
  lib_clk :: "int + int \<times> int"
  my_name :: "byte list"
  sent :: "gdp_pdu list"
  adverts :: "(gdp_cmd \<times> byte list) list"

abbreviation upd_gob :: "nat \<Rightarrow> ('x gdp_gob \<Rightarrow> 'x gdp_gob) \<Rightarrow> ('b, 'x) gdp_lib \<Rightarrow> ('b, 'x) gdp_lib" where
  "upd_gob a f s \<equiv> s\<lparr>gobs := (gobs s)(a := map_option f (gobs s a))\<rparr>"

abbreviation upd_req :: "nat \<Rightarrow> ('b gdp_req \<Rightarrow> 'b gdp_req) \<Rightarrow> ('b, 'x) gdp_lib \<Rightarrow> ('b, 'x) gdp_lib" where
  "upd_req r f s \<equiv> s\<lparr>reqs := (reqs s)(r := map_option f (reqs s r))\<rparr>"

definition now_sec :: "('b, 'x) gdp_lib \<Rightarrow> int" where
  "now_sec s = (case lib_clk s of Inr (sec, _) \<Rightarrow> sec | Inl _ \<Rightarrow> 0)"

definition now_ts :: "('b, 'x) gdp_lib \<Rightarrow> ep_time \<Rightarrow> ep_time" where
  "now_ts s t = snd (ep_time_now (lib_clk s) (clk_acc (lib_conf s)) t)"

definition GDP_GOB_ISGOOD :: "'x gdp_gob \<Rightarrow> bool" where
  "GDP_GOB_ISGOOD gob \<longleftrightarrow> EP_UT_BITSET GOBF_INUSE (gob_flags gob)"

definition GDP_GOB_ASSERT_ISLOCKED :: "'x gdp_gob \<Rightarrow> bool" where
  "GDP_GOB_ASSERT_ISLOCKED gob \<longleftrightarrow> GDP_GOB_ISGOOD gob \<and> EP_UT_BITSET GOBF_ISLOCKED (gob_flags gob)"

definition set_flag :: "u16 \<Rightarrow> 'x gdp_gob \<Rightarrow> 'x gdp_gob" where
  "set_flag f gob = gob\<lparr>gob_flags := gob_flags gob OR f\<rparr>"

definition clr_flag :: "u16 \<Rightarrow> 'x gdp_gob \<Rightarrow> 'x gdp_gob" where
  "clr_flag f gob = gob\<lparr>gob_flags := gob_flags gob AND NOT f\<rparr>"

definition has_flag :: "u16 \<Rightarrow> 'x gdp_gob \<Rightarrow> bool" where
  "has_flag f gob \<longleftrightarrow> EP_UT_BITSET f (gob_flags gob)"

section \<open>Locks and reference counts\<close>

definition gdp_gob_lock :: "nat \<Rightarrow> ('b, 'x) gdp_lib \<Rightarrow> ('b, 'x) gdp_lib option" where
  "gdp_gob_lock a s =
     (case gobs s a of
        None \<Rightarrow> None
      | Some gob \<Rightarrow> if has_flag GOBF_ISLOCKED gob then None else Some (upd_gob a (set_flag GOBF_ISLOCKED) s))"

definition gdp_gob_unlock :: "nat \<Rightarrow> ('b, 'x) gdp_lib \<Rightarrow> ('b, 'x) gdp_lib option" where
  "gdp_gob_unlock a s =
     (case gobs s a of None \<Rightarrow> None | Some _ \<Rightarrow> Some (upd_gob a (clr_flag GOBF_ISLOCKED) s))"

definition cache_lock :: "('b, 'x) gdp_lib \<Rightarrow> ('b, 'x) gdp_lib option" where
  "cache_lock s = (if GobCacheMutex s then None else Some (s\<lparr>GobCacheMutex := True\<rparr>))"

definition cache_unlock :: "('b, 'x) gdp_lib \<Rightarrow> ('b, 'x) gdp_lib" where
  "cache_unlock s = s\<lparr>GobCacheMutex := False\<rparr>"

definition gdp_gob_incref :: "nat \<Rightarrow> ('b, 'x) gdp_lib \<Rightarrow> ('b, 'x) gdp_lib option" where
  "gdp_gob_incref a s =
     (case gobs s a of
        None \<Rightarrow> None
      | Some gob \<Rightarrow>
          if \<not> GDP_GOB_ISGOOD gob then Some s
          else Some (upd_gob a (\<lambda>g. g\<lparr>gob_refcnt := gob_refcnt g + 1\<rparr>) s))"

text \<open>Dropping a reference; \<open>free\<close> is \<^verbatim>\<open>_gdp_gob_free\<close>.  The flag in the result says that the caller's
  pointer has been cleared.\<close>

definition gdp_gob_decref ::
  "(nat \<Rightarrow> ('b, 'x) gdp_lib \<Rightarrow> ('b, 'x) gdp_lib option) \<Rightarrow> bool \<Rightarrow> nat \<Rightarrow> ('b, 'x) gdp_lib \<Rightarrow>
   (bool \<times> ('b, 'x) gdp_lib) option" where
  "gdp_gob_decref free keeplocked a s =
     (case gobs s a of
        None \<Rightarrow> None
      | Some gob \<Rightarrow>
          if \<not> GDP_GOB_ISGOOD gob then Some (False, s)
          else
            let gob = gob\<lparr>gob_refcnt := (if gob_refcnt gob > 0 then gob_refcnt gob - 1 else gob_refcnt gob)\<rparr>;
                s = s\<lparr>gobs := (gobs s)(a \<mapsto> gob)\<rparr>
            in map_option (Pair True)
                (if gob_refcnt gob = 0 \<and> \<not> has_flag GOBF_DEFER_FREE gob then free a s
                 else if \<not> GDP_GOB_ASSERT_ISLOCKED gob then Some s
                 else if \<not> keeplocked \<and> \<not> has_flag GOBF_KEEPLOCKED gob then gdp_gob_unlock a s
                 else Some s))"

section \<open>Dropping an object from the cache\<close>

text \<open>Linking an element that is on the list already would corrupt the list.\<close>

definition LIST_INSERT_HEAD :: "nat \<Rightarrow> nat list \<Rightarrow> nat list option" where
  "LIST_INSERT_HEAD a list = (if a \<in> set list then None else Some (a # list))"

text \<open>The test for a loop in the list of objects by use; a list without repeated elements has none.\<close>

definition check_cache_consistency :: "('b, 'x) gdp_lib \<Rightarrow> bool" where
  "check_cache_consistency s = distinct (GobsByUse s)"

definition gdp_gob_cache_drop :: "bool \<Rightarrow> nat \<Rightarrow> ('b, 'x) gdp_lib \<Rightarrow> ('b, 'x) gdp_lib option" where
  "gdp_gob_cache_drop cleanup a s =
     (case gobs s a of
        None \<Rightarrow> None
      | Some gob \<Rightarrow>
          if \<not> GDP_GOB_ISGOOD gob \<and> \<not> gdp_name_is_valid (gob_name gob) then Some s
          else if \<not> has_flag GOBF_INCACHE gob then Some s
          else do {
            let s = upd_gob a (set_flag GOBF_DROPPING) s;
            s \<leftarrow> (if cleanup then Some s
                 else do {
                   s \<leftarrow> gdp_gob_unlock a s;
                   s \<leftarrow> cache_lock s;
                   gdp_gob_lock a s
                 });
            let s = s\<lparr>OpenGOBCache := snd (ep_hash_delete (OpenGOBCache s) (gob_name gob)),
                      GobsByUse := remove1 a (GobsByUse s)\<rparr>;
            let s = upd_gob a (clr_flag GOBF_INCACHE) s;
            Some (if cleanup then s else cache_unlock s)
          })"

section \<open>Releasing requests\<close>

definition set_req_flag :: "u32 \<Rightarrow> 'b gdp_req \<Rightarrow> 'b gdp_req" where
  "set_req_flag f req = req\<lparr>req_flags := req_flags req OR f\<rparr>"

definition clr_req_flag :: "u32 \<Rightarrow> 'b gdp_req \<Rightarrow> 'b gdp_req" where
  "clr_req_flag f req = req\<lparr>req_flags := req_flags req AND NOT f\<rparr>"

definition has_req_flag :: "u32 \<Rightarrow> 'b gdp_req \<Rightarrow> bool" where
  "has_req_flag f req \<longleftrightarrow> EP_UT_BITSET f (req_flags req)"

definition free_opt_pdu :: "gdp_pdu option \<Rightarrow> gdp_pdu list \<Rightarrow> gdp_pdu list" where
  "free_opt_pdu p fl = (case p of None \<Rightarrow> fl | Some p \<Rightarrow> gdp_pdu_free p fl)"

text \<open>Off the lists: the channel's and the object's.  The flag tells an early return (a request marked
  as being on the list of an object, but without one).\<close>

definition req_unlink :: "nat \<Rightarrow> 'b gdp_req \<Rightarrow> ('b, 'x) gdp_lib \<Rightarrow> bool \<times> 'b gdp_req \<times> ('b, 'x) gdp_lib" where
  "req_unlink r req s =
     (let (req, s) = (if has_req_flag GDP_REQ_ON_CHAN_LIST req
                      then (clr_req_flag GDP_REQ_ON_CHAN_LIST req, s\<lparr>chan_reqs := remove1 r (chan_reqs s)\<rparr>)
                      else (req, s))
      in if has_req_flag GDP_REQ_ON_GOB_LIST req then
           (case req_gob req of
              None \<Rightarrow> (False, req, s)
            | Some a \<Rightarrow> (True, clr_req_flag GDP_REQ_ON_GOB_LIST req,
                upd_gob a (\<lambda>g. g\<lparr>gob_reqs := remove1 r (gob_reqs g)\<rparr>) s))
         else (True, req, s))"

definition gdp_req_free ::
  "(nat \<Rightarrow> ('b, 'x) gdp_lib \<Rightarrow> ('b, 'x) gdp_lib option) \<Rightarrow> nat \<Rightarrow> ('b, 'x) gdp_lib \<Rightarrow> ('b, 'x) gdp_lib option" where
  "gdp_req_free free r s =
     do {
       req \<leftarrow> reqs s r;
       if req_state req = GDP_REQ_FREE then Some s
       else do {
         let req = req\<lparr>req_ev_to := gdp_evloop_timer_clr (req_ev_to req)\<rparr>;
         (req, q) \<leftarrow> gdp_event_trigger_pending (lib_clk s) (clk_acc (lib_conf s)) True req (ev_q s);
         let s = s\<lparr>ev_q := q\<rparr>;
         let (cont, req, s) = req_unlink r req s;
         if \<not> cont then Some (s\<lparr>reqs := (reqs s)(r \<mapsto> req)\<rparr>)
         else do {
           let s = s\<lparr>pdu_freelist := free_opt_pdu (req_cpdu req) (free_opt_pdu (req_rpdu req) (pdu_freelist s))\<rparr>;
           let req = req\<lparr>req_events := [], req_rpdu := None, req_cpdu := None\<rparr>;
           let s = s\<lparr>reqs := (reqs s)(r \<mapsto> req)\<rparr>;
           s \<leftarrow> (case req_gob req of
                   None \<Rightarrow> Some s
                 | Some a \<Rightarrow> do {
                     (cleared, s) \<leftarrow> gdp_gob_decref free True a s;
                     Some (if cleared then upd_req r (\<lambda>q. q\<lparr>req_gob := None\<rparr>) s else s)
                   });
           let s = upd_req r (\<lambda>q. q\<lparr>req_state := GDP_REQ_FREE, req_flags := 0, req_sub_cbarg := None\<rparr>) s;
           fl \<leftarrow> LIST_INSERT_HEAD r (ReqFreeList s);
           Some (s\<lparr>ReqFreeList := fl\<rparr>)
         }
       }
     }"

text \<open>
  The loop of \<^verbatim>\<open>_gdp_req_freeall\<close> over the requests of an object.  A request that a nested call has freed
  in the meantime ends the model with \<^term>\<open>None\<close>: the code would walk on through the free list.
  \<open>shutdown\<close> is the caller's function, if any.
\<close>

fun req_freeall_loop ::
  "(nat \<Rightarrow> ('b, 'x) gdp_lib \<Rightarrow> ('b, 'x) gdp_lib option) \<Rightarrow>
   (nat \<Rightarrow> ('b, 'x) gdp_lib \<Rightarrow> ('b, 'x) gdp_lib option) \<Rightarrow> nat option \<Rightarrow> nat list \<Rightarrow> bool \<Rightarrow> ('b, 'x) gdp_lib \<Rightarrow>
   (bool \<times> ('b, 'x) gdp_lib) option" where
  "req_freeall_loop free shutdown gin [] initlist s = Some (initlist, s)"
| "req_freeall_loop free shutdown gin (r # rs) initlist s =
     do {
       req \<leftarrow> reqs s r;
       if req_state req = GDP_REQ_FREE then None
       else if gin = None \<or> req_gin req = gin then do {
         s \<leftarrow> shutdown r s;
         s \<leftarrow> gdp_req_free free r s;
         req_freeall_loop free shutdown gin rs initlist s
       }
       else req_freeall_loop free shutdown gin rs False s
     }"

definition gdp_req_freeall ::
  "(nat \<Rightarrow> ('b, 'x) gdp_lib \<Rightarrow> ('b, 'x) gdp_lib option) \<Rightarrow>
   (nat \<Rightarrow> ('b, 'x) gdp_lib \<Rightarrow> ('b, 'x) gdp_lib option) \<Rightarrow> nat option \<Rightarrow> nat \<Rightarrow> ('b, 'x) gdp_lib \<Rightarrow>
   ('b, 'x) gdp_lib option" where
  "gdp_req_freeall free shutdown gin a s =
     do {
       gob \<leftarrow> gobs s a;
       (initlist, s) \<leftarrow> req_freeall_loop free shutdown gin (gob_reqs gob) True s;
       Some (if initlist then upd_gob a (\<lambda>g. g\<lparr>gob_reqs := []\<rparr>) s else s)
     }"

section \<open>Allocating and freeing objects\<close>

text \<open>A name from the metadata, or else the random bytes \<open>rand\<close>; \<open>sha\<close> is the SHA-256 digest.\<close>

definition gdp_newname :: "(byte list \<Rightarrow> byte list) \<Rightarrow> byte list \<Rightarrow> gdp_md option \<Rightarrow> byte list option" where
  "gdp_newname sha rand gmd =
     (case gmd of
        None \<Rightarrow> Some rand
      | Some m \<Rightarrow>
          map_option (\<lambda>(mdlen, mdbuf). sha (case mdbuf of None \<Rightarrow> [] | Some bs \<Rightarrow> take mdlen bs)) (gdp_md_serialize (Some m)))"

definition zeroed_gob :: "'x gdp_gob" where
  "zeroed_gob = \<lparr>gob_utime = 0, gob_reqs = [], gob_name = replicate 32 0, gob_pname = [], gob_flags = 0,
     gob_hashalg = 0, gob_refcnt = 0, gob_freefunc = False, gob_nrecs = 0, gob_md = None, gob_sign_ctx = None,
     gob_vrfy_ctx = None, gob_x = None\<rparr>"

definition alloc_gob :: "('b, 'x) gdp_lib \<Rightarrow> nat \<times> ('b, 'x) gdp_lib" where
  "alloc_gob s = (gob_brk s, s\<lparr>gob_brk := gob_brk s + 1, gobs := (gobs s)(gob_brk s \<mapsto> zeroed_gob)\<rparr>)"

text \<open>
  \<^verbatim>\<open>_gdp_gob_new\<close>; \<open>alg\<close> is what \<^verbatim>\<open>ep_crypto_md_alg_byname\<close> makes of the administrative parameter, \<open>rand\<close> and
  \<open>sha\<close> as above.  The test for an unknown algorithm, \<^verbatim>\<open>hashalg < 0\<close>, is on an unsigned field and has no
  effect.
\<close>

definition gdp_gob_new ::
  "(byte list \<Rightarrow> byte list) \<Rightarrow> byte list \<Rightarrow> int \<Rightarrow> byte list option \<Rightarrow> ('b, 'x) gdp_lib \<Rightarrow> (nat \<times> ('b, 'x) gdp_lib) option" where
  "gdp_gob_new sha rand alg name s =
     do {
       let (a, s) = (case GobFreeList s of
                       [] \<Rightarrow> alloc_gob s
                     | a # fl \<Rightarrow>
                         let s = s\<lparr>GobFreeList := fl\<rparr> in
                         if (case gobs s a of None \<Rightarrow> False | Some g \<Rightarrow> \<not> has_flag GOBF_INUSE g) then (a, s)
                         else alloc_gob s);
       gob \<leftarrow> gobs s a;
       nm \<leftarrow> (case name of
                Some n \<Rightarrow> if gdp_name_is_valid n then Some n else gdp_newname sha rand (gob_md gob)
              | None \<Rightarrow> gdp_newname sha rand (gob_md gob));
       Some (a, s\<lparr>gobs := (gobs s)(a \<mapsto> gob\<lparr>gob_reqs := [], gob_refcnt := 1, gob_nrecs := 0,
         gob_hashalg := word_of_int alg, gob_name := nm, gob_pname := gdp_printable_name nm,
         gob_flags := GOBF_INUSE OR GOBF_PENDING\<rparr>)\<rparr>)
     }"

text \<open>
  \<^verbatim>\<open>_gdp_gob_free\<close>.  Releasing the requests may drop the last reference of the object, which calls the
  function again; the first argument bounds the depth of these calls.
\<close>

fun gdp_gob_free :: "nat \<Rightarrow> nat \<Rightarrow> ('b, 'x) gdp_lib \<Rightarrow> ('b, 'x) gdp_lib option" where
  "gdp_gob_free 0 a s = None"
| "gdp_gob_free (Suc n) a s =
     do {
       gob \<leftarrow> gobs s a;
       if \<not> has_flag GOBF_INUSE gob then Some s
       else do {
         let s = upd_gob a (\<lambda>g. set_flag GOBF_DROPPING g\<lparr>gob_refcnt := 0\<rparr>) s;
         s \<leftarrow> (if has_flag GOBF_INCACHE gob then gdp_gob_cache_drop False a s else Some s);
         s \<leftarrow> gdp_req_freeall (gdp_gob_free n) (\<lambda>_. Some) None a s;
         let s = upd_gob a (\<lambda>g. g\<lparr>gob_freefunc := False, gob_md := None, gob_sign_ctx := None,
           gob_vrfy_ctx := None, gob_x := None\<rparr>) s;
         s \<leftarrow> gdp_gob_unlock a s;
         let s = upd_gob a (\<lambda>g. g\<lparr>gob_flags := 0\<rparr>) s;
         fl \<leftarrow> LIST_INSERT_HEAD a (GobFreeList s);
         Some (s\<lparr>GobFreeList := fl\<rparr>)
       }
     }"

section \<open>The cache\<close>

definition GGCF_CREATE :: u32 where "GGCF_CREATE = 0x00000001"
definition GGCF_GET_PENDING :: u32 where "GGCF_GET_PENDING = 0x00000002"
definition GGCF_PEEK :: u32 where "GGCF_PEEK = 0x00000004"

definition add_cache_unlocked :: "nat \<Rightarrow> ('b, 'x) gdp_lib \<Rightarrow> ('b, 'x) gdp_lib option" where
  "add_cache_unlocked a s =
     (case gobs s a of
        None \<Rightarrow> None
      | Some gob \<Rightarrow>
          if \<not> GDP_GOB_ISGOOD gob \<or> \<not> GDP_GOB_ASSERT_ISLOCKED gob then Some s
          else if has_flag GOBF_INCACHE gob then Some s
          else do {
            let s = s\<lparr>OpenGOBCache := snd (ep_hash_insert (OpenGOBCache s) (gob_name gob) (Some a))\<rparr>;
            let s = upd_gob a (\<lambda>g. g\<lparr>gob_utime := now_sec s\<rparr>) s;
            lru \<leftarrow> LIST_INSERT_HEAD a (GobsByUse s);
            Some (upd_gob a (set_flag GOBF_INCACHE) (s\<lparr>GobsByUse := lru\<rparr>))
          })"

definition gdp_gob_cache_add :: "nat \<Rightarrow> ('b, 'x) gdp_lib \<Rightarrow> ('b, 'x) gdp_lib option" where
  "gdp_gob_cache_add a s =
     do {
       s \<leftarrow> gdp_gob_unlock a s;
       s \<leftarrow> cache_lock s;
       s \<leftarrow> gdp_gob_lock a s;
       s \<leftarrow> add_cache_unlocked a s;
       Some (cache_unlock s)
     }"

definition gdp_gob_cache_changename :: "nat \<Rightarrow> byte list \<Rightarrow> ('b, 'x) gdp_lib \<Rightarrow> ('b, 'x) gdp_lib option" where
  "gdp_gob_cache_changename a newname s =
     (case gobs s a of
        None \<Rightarrow> None
      | Some gob \<Rightarrow>
          if \<not> GDP_GOB_ISGOOD gob \<or> \<not> gdp_name_is_valid (gob_name gob) \<or> \<not> gdp_name_is_valid newname \<or>
             \<not> has_flag GOBF_INCACHE gob then Some s
          else do {
            s \<leftarrow> cache_lock s;
            let s = s\<lparr>OpenGOBCache := snd (ep_hash_delete (OpenGOBCache s) (gob_name gob))\<rparr>;
            let s = upd_gob a (\<lambda>g. g\<lparr>gob_name := newname\<rparr>) s;
            let s = s\<lparr>OpenGOBCache := snd (ep_hash_insert (OpenGOBCache s) newname (Some a))\<rparr>;
            Some (cache_unlock s)
          })"

definition gdp_gob_touch :: "nat \<Rightarrow> ('b, 'x) gdp_lib \<Rightarrow> ('b, 'x) gdp_lib option" where
  "gdp_gob_touch a s =
     (case gobs s a of
        None \<Rightarrow> None
      | Some gob \<Rightarrow>
          if \<not> GDP_GOB_ISGOOD gob then Some s
          else
            let s = upd_gob a (\<lambda>g. g\<lparr>gob_utime := now_sec s\<rparr>) s in
            if \<not> GDP_GOB_ASSERT_ISLOCKED gob \<or> \<not> has_flag GOBF_INCACHE gob then Some s
            else do {
              lru \<leftarrow> LIST_INSERT_HEAD a (remove1 a (GobsByUse s));
              Some (s\<lparr>GobsByUse := lru\<rparr>)
            })"

text \<open>The list by use is rebuilt with the cache mutex taken once more, which is held already.\<close>

definition rebuild_lru_list :: "('b, 'x) gdp_lib \<Rightarrow> ('b, 'x) gdp_lib option" where
  "rebuild_lru_list s = cache_lock s"

definition gdp_gob_cache_get ::
  "(byte list \<Rightarrow> byte list) \<Rightarrow> byte list \<Rightarrow> int \<Rightarrow> byte list \<Rightarrow> u32 \<Rightarrow> ('b, 'x) gdp_lib \<Rightarrow>
   (nat option \<times> ('b, 'x) gdp_lib) option" where
  "gdp_gob_cache_get sha rand alg name flags s =
     do {
       s \<leftarrow> cache_lock s;
       s \<leftarrow> (if check_cache_consistency s then Some s else rebuild_lru_list s);
       (found, s) \<leftarrow>
         (case ep_hash_search (OpenGOBCache s) name of
            None \<Rightarrow> Some (None, s)
          | Some a \<Rightarrow> do {
              s \<leftarrow> gdp_gob_lock a s;
              gob \<leftarrow> gobs s a;
              if \<not> has_flag GOBF_INUSE gob \<or> \<not> has_flag GOBF_INCACHE gob \<or> has_flag GOBF_DROPPING gob \<or>
                 (has_flag GOBF_PENDING gob \<and> \<not> EP_UT_BITSET GGCF_GET_PENDING flags) then do {
                s \<leftarrow> gdp_gob_unlock a s;
                Some (None, s)
              }
              else if \<not> EP_UT_BITSET GGCF_PEEK flags then do {
                s \<leftarrow> gdp_gob_incref a s;
                s \<leftarrow> gdp_gob_touch a s;
                Some (Some a, s)
              }
              else Some (Some a, s)
            });
       (found, s) \<leftarrow>
         (if found = None \<and> EP_UT_BITSET GGCF_CREATE flags then do {
            (a, s) \<leftarrow> gdp_gob_new sha rand alg (Some name) s;
            s \<leftarrow> gdp_gob_lock a s;
            s \<leftarrow> add_cache_unlocked a s;
            Some (Some a, s)
          }
          else Some (found, s));
       Some (found, cache_unlock s)
     }"

text \<open>
  One pass of \<^verbatim>\<open>_gdp_gob_cache_reclaim\<close> over the objects by use: objects that are locked, in use
  recently, referenced or already being dropped are left alone.  \<open>n\<close> is the depth bound of
  \<^const>\<open>gdp_gob_free\<close>.
\<close>

fun reclaim_pass :: "nat \<Rightarrow> int \<Rightarrow> nat list \<Rightarrow> ('b, 'x) gdp_lib \<Rightarrow> ('b, 'x) gdp_lib option" where
  "reclaim_pass n mintime [] s = Some s"
| "reclaim_pass n mintime (a # as) s =
     (case gobs s a of
        None \<Rightarrow> None
      | Some gob \<Rightarrow>
          if has_flag GOBF_ISLOCKED gob then reclaim_pass n mintime as s
          else if gob_utime gob > mintime \<or> has_flag GOBF_DROPPING gob \<or> gob_refcnt gob > 0
          then reclaim_pass n mintime as s
          else do {
            let s = upd_gob a (set_flag GOBF_ISLOCKED) s;
            s \<leftarrow> gdp_gob_cache_drop True a s;
            s \<leftarrow> gdp_gob_free n a s;
            reclaim_pass n mintime as s
          })"

text \<open>\<open>nfds\<close> is the number of file descriptors in use, \<open>maxgobs\<close> the bound on the objects of one pass.\<close>

function gdp_gob_cache_reclaim ::
  "nat \<Rightarrow> nat \<Rightarrow> int \<Rightarrow> (('b, 'x) gdp_lib \<Rightarrow> int) \<Rightarrow> int \<Rightarrow> ('b, 'x) gdp_lib \<Rightarrow> ('b, 'x) gdp_lib option" where
  "gdp_gob_cache_reclaim n maxgobs limit nfds maxage s =
     (case cache_lock s of
        None \<Rightarrow> None
      | Some s \<Rightarrow>
          (case (if check_cache_consistency s then Some s else rebuild_lru_list s) of
             None \<Rightarrow> None
           | Some s \<Rightarrow>
               (case reclaim_pass n (now_sec s - maxage) (take (maxgobs + 1) (GobsByUse s)) s of
                  None \<Rightarrow> None
                | Some s \<Rightarrow>
                    let s = cache_unlock s in
                    if nfds s < limit then Some s
                    else
                      let maxage' = maxage - (if maxage < 4 then 1 else maxage div 4) in
                      if maxage' \<le> 0 then Some s
                      else gdp_gob_cache_reclaim n maxgobs limit nfds maxage' s)))"
  by pat_completeness auto
termination
  by (relation "measure (\<lambda>(n, maxgobs, limit, nfds, maxage, s). nat maxage)") auto

section \<open>Flags of an object\<close>

lemma bitset_or_right: "EP_UT_BITSET f (a OR b) \<longleftrightarrow> EP_UT_BITSET f a \<or> EP_UT_BITSET f b"
  by (simp add: EP_UT_BITSET_def bit.conj_disj_distrib or_eq_0_iff)

lemma has_flag_set [simp]: "has_flag f (set_flag h g) \<longleftrightarrow> has_flag f g \<or> EP_UT_BITSET f h"
  by (simp add: has_flag_def set_flag_def bitset_or_right)

lemma has_flag_clr_same [simp]: "\<not> has_flag f (clr_flag f g)"
proof -
  have "f AND (gob_flags g AND NOT f) = 0" by (intro bit_word_eqI) (auto simp: bit_simps)
  then show ?thesis by (simp add: has_flag_def clr_flag_def EP_UT_BITSET_def)
qed

lemma has_flag_clr [simp]:
  assumes "\<not> EP_UT_BITSET f h"
  shows "has_flag f (clr_flag h g) \<longleftrightarrow> has_flag f g"
proof -
  have "\<not> (bit f n \<and> bit h n)" for n
    using assms bit_and_iff [of f h n] by (auto simp: EP_UT_BITSET_def)
  then have "f AND (gob_flags g AND NOT h) = f AND gob_flags g"
    by (intro bit_word_eqI) (auto simp: bit_simps)
  then show ?thesis by (simp add: has_flag_def clr_flag_def EP_UT_BITSET_def)
qed

lemma set_clr_fields [simp]:
  "gob_name (set_flag f g) = gob_name g" "gob_name (clr_flag f g) = gob_name g"
  "gob_reqs (set_flag f g) = gob_reqs g" "gob_reqs (clr_flag f g) = gob_reqs g"
  "gob_refcnt (set_flag f g) = gob_refcnt g" "gob_refcnt (clr_flag f g) = gob_refcnt g"
  "gob_utime (set_flag f g) = gob_utime g" "gob_utime (clr_flag f g) = gob_utime g"
  by (simp_all add: set_flag_def clr_flag_def)

lemma gob_flag_bits [simp]:
  "\<not> EP_UT_BITSET GOBF_INUSE GOBF_ISLOCKED" "\<not> EP_UT_BITSET GOBF_INUSE GOBF_DROPPING"
  "\<not> EP_UT_BITSET GOBF_INUSE GOBF_INCACHE" "\<not> EP_UT_BITSET GOBF_INUSE GOBF_PENDING" "EP_UT_BITSET GOBF_INUSE GOBF_INUSE"
  "\<not> EP_UT_BITSET GOBF_ISLOCKED GOBF_INUSE" "\<not> EP_UT_BITSET GOBF_ISLOCKED GOBF_DROPPING"
  "\<not> EP_UT_BITSET GOBF_ISLOCKED GOBF_INCACHE" "\<not> EP_UT_BITSET GOBF_ISLOCKED GOBF_PENDING"
  "EP_UT_BITSET GOBF_ISLOCKED GOBF_ISLOCKED" "\<not> EP_UT_BITSET GOBF_ISLOCKED GOBF_KEEPLOCKED"
  "\<not> EP_UT_BITSET GOBF_INCACHE GOBF_INUSE" "\<not> EP_UT_BITSET GOBF_INCACHE GOBF_ISLOCKED"
  "\<not> EP_UT_BITSET GOBF_INCACHE GOBF_DROPPING" "\<not> EP_UT_BITSET GOBF_INCACHE GOBF_PENDING"
  "EP_UT_BITSET GOBF_INCACHE GOBF_INCACHE" "\<not> EP_UT_BITSET GOBF_DROPPING GOBF_ISLOCKED"
  "\<not> EP_UT_BITSET GOBF_DROPPING GOBF_INCACHE" "EP_UT_BITSET GOBF_DROPPING GOBF_DROPPING"
  "\<not> EP_UT_BITSET GOBF_DROPPING GOBF_INUSE" "\<not> EP_UT_BITSET GOBF_DROPPING GOBF_PENDING"
  "\<not> EP_UT_BITSET GOBF_PENDING GOBF_ISLOCKED" "\<not> EP_UT_BITSET GOBF_PENDING GOBF_INCACHE"
  "\<not> EP_UT_BITSET GOBF_PENDING GOBF_DROPPING"
  "\<not> EP_UT_BITSET GOBF_DEFER_FREE GOBF_ISLOCKED" "\<not> EP_UT_BITSET GOBF_DEFER_FREE GOBF_DROPPING"
  "\<not> EP_UT_BITSET GOBF_DEFER_FREE GOBF_INCACHE" "\<not> EP_UT_BITSET GOBF_KEEPLOCKED GOBF_ISLOCKED"
  by (simp_all add: EP_UT_BITSET_def GOBF_INUSE_def GOBF_ISLOCKED_def GOBF_DROPPING_def GOBF_INCACHE_def
    GOBF_PENDING_def GOBF_DEFER_FREE_def GOBF_KEEPLOCKED_def)

lemma has_flag_new [simp]:
  "has_flag f (g\<lparr>gob_flags := a OR b\<rparr>) \<longleftrightarrow> EP_UT_BITSET f a \<or> EP_UT_BITSET f b"
  "\<not> has_flag f (g\<lparr>gob_flags := 0\<rparr>)"
  by (simp_all add: has_flag_def bitset_or_right) (simp add: EP_UT_BITSET_def)

lemma has_flag_upd [simp]:
  "has_flag f (g\<lparr>gob_refcnt := c\<rparr>) = has_flag f g" "has_flag f (g\<lparr>gob_utime := t\<rparr>) = has_flag f g"
  "has_flag f (g\<lparr>gob_name := n\<rparr>) = has_flag f g" "has_flag f (g\<lparr>gob_reqs := rs\<rparr>) = has_flag f g"
  "has_flag f (g\<lparr>gob_x := x\<rparr>) = has_flag f g"
  by (simp_all add: has_flag_def)

lemma isgood_flag: "GDP_GOB_ISGOOD g \<longleftrightarrow> has_flag GOBF_INUSE g"
  "GDP_GOB_ASSERT_ISLOCKED g \<longleftrightarrow> has_flag GOBF_INUSE g \<and> has_flag GOBF_ISLOCKED g"
  by (simp_all add: GDP_GOB_ISGOOD_def GDP_GOB_ASSERT_ISLOCKED_def has_flag_def)

section \<open>Invariant of the cache\<close>

definition cached_as :: "('b, 'x) gdp_lib \<Rightarrow> nat \<Rightarrow> byte list \<Rightarrow> bool" where
  "cached_as s a nm \<longleftrightarrow> (\<exists>g. gobs s a = Some g \<and> has_flag GOBF_INCACHE g \<and> gob_name g = nm)"

text \<open>The objects on the list by use are those marked as cached, once each.\<close>

definition lru_ok :: "('b, 'x) gdp_lib \<Rightarrow> bool" where
  "lru_ok s \<longleftrightarrow> distinct (GobsByUse s) \<and> (\<forall>a. a \<in> set (GobsByUse s) \<longleftrightarrow> (\<exists>nm. cached_as s a nm))"

text \<open>The table leads from a name to a cached object of that name, and, if it is \<open>full\<close>, to every one: then no two cached
  objects have the same name.\<close>

definition table_ok :: "bool \<Rightarrow> ('b, 'x) gdp_lib \<Rightarrow> bool" where
  "table_ok full s \<longleftrightarrow> hash_wf (OpenGOBCache s) \<and>
     (\<forall>nm a. if full then ep_hash_search (OpenGOBCache s) nm = Some a \<longleftrightarrow> cached_as s a nm
             else ep_hash_search (OpenGOBCache s) nm = Some a \<longrightarrow> cached_as s a nm)"

text \<open>A cached object is in use, an object in use is referenced by each of its requests, and
  what is on the free list is unused.\<close>

definition gob_ok :: "'x gdp_gob \<Rightarrow> bool" where
  "gob_ok g \<longleftrightarrow> (has_flag GOBF_INCACHE g \<longrightarrow> has_flag GOBF_INUSE g) \<and>
     (has_flag GOBF_INUSE g \<longrightarrow> int (length (gob_reqs g)) \<le> gob_refcnt g)"

definition store_ok :: "('b, 'x) gdp_lib \<Rightarrow> bool" where
  "store_ok s \<longleftrightarrow> (\<forall>a g. gobs s a = Some g \<longrightarrow> a < gob_brk s \<and> gob_ok g) \<and> distinct (GobFreeList s) \<and>
     (\<forall>a\<in>set (GobFreeList s). \<exists>g. gobs s a = Some g \<and> \<not> has_flag GOBF_INUSE g)"

definition cache_keeps :: "bool \<Rightarrow> ('b, 'x) gdp_lib \<Rightarrow> bool" where
  "cache_keeps full s \<longleftrightarrow> lru_ok s \<and> table_ok full s \<and> store_ok s"

abbreviation cache_inv :: "('b, 'x) gdp_lib \<Rightarrow> bool" where
  "cache_inv \<equiv> cache_keeps True"

lemmas cache_inv_def = cache_keeps_def
lemmas cache_inv_defs = cache_keeps_def lru_ok_def table_ok_def store_ok_def

lemma keeps_found: "cache_keeps full s \<Longrightarrow> ep_hash_search (OpenGOBCache s) nm = Some a \<Longrightarrow> cached_as s a nm"
  by (auto simp: cache_keeps_def table_ok_def split: if_splits)

lemma keeps_wf: "cache_keeps full s \<Longrightarrow> hash_wf (OpenGOBCache s)"
  by (simp add: cache_keeps_def table_ok_def)

lemma table_okI:
  assumes "hash_wf (OpenGOBCache s)" "ep_hash_search (OpenGOBCache s) = m"
    "\<And>nm b. if full then m nm = Some b \<longleftrightarrow> cached_as s b nm else m nm = Some b \<longrightarrow> cached_as s b nm"
  shows "table_ok full s"
  unfolding table_ok_def using assms by blast

lemma store_upd:
  assumes "store_ok s" "gobs s a = Some g" "gob_ok g'" "has_flag GOBF_INUSE g' \<longrightarrow> has_flag GOBF_INUSE g"
    "gobs t = (gobs s)(a \<mapsto> g')" "gob_brk t = gob_brk s" "GobFreeList t = GobFreeList s"
  shows "store_ok t"
proof -
  have "b < gob_brk t \<and> gob_ok h" if "gobs t b = Some h" for b h
    using that assms(1-3,5,6) by (cases "b = a") (auto simp: store_ok_def)
  moreover have "\<exists>h. gobs t b = Some h \<and> \<not> has_flag GOBF_INUSE h" if "b \<in> set (GobFreeList t)" for b
    using that assms(1,2,4,5,7) by (cases "b = a") (auto simp: store_ok_def)
  ultimately show ?thesis using assms(1,7) by (simp add: store_ok_def)
qed

text \<open>A change to one object that the cache does not see.\<close>

lemma inv_upd:
  assumes "cache_keeps full s" "gobs s a = Some g" "has_flag GOBF_INCACHE g' = has_flag GOBF_INCACHE g"
    "has_flag GOBF_INCACHE g \<longrightarrow> gob_name g' = gob_name g" "gob_ok g'" "has_flag GOBF_INUSE g' \<longrightarrow> has_flag GOBF_INUSE g"
  shows "cache_keeps full (s\<lparr>gobs := (gobs s)(a \<mapsto> g')\<rparr>)" (is "cache_keeps full ?s")
proof -
  have "cached_as ?s b nm = cached_as s b nm" for b nm
    using assms(2-4) by (auto simp: cached_as_def)
  then have "lru_ok ?s" "table_ok full ?s"
    using assms(1) by (simp_all add: cache_keeps_def lru_ok_def table_ok_def)
  moreover have "store_ok ?s"
    by (rule store_upd [of s a g g']) (use assms(1,2,5,6) in \<open>simp_all add: cache_keeps_def\<close>)
  ultimately show ?thesis by (simp add: cache_keeps_def)
qed

lemma upd_gob_Some: "gobs s a = Some g \<Longrightarrow> upd_gob a f s = s\<lparr>gobs := (gobs s)(a \<mapsto> f g)\<rparr>"
  by simp

lemma gob_ok_flags:
  "has_flag GOBF_INUSE g' = has_flag GOBF_INUSE g \<Longrightarrow> has_flag GOBF_INCACHE g' = has_flag GOBF_INCACHE g \<Longrightarrow>
   gob_reqs g' = gob_reqs g \<Longrightarrow> gob_refcnt g \<le> gob_refcnt g' \<Longrightarrow> gob_ok g \<Longrightarrow> gob_ok g'"
  by (auto simp: gob_ok_def)

lemma inv_gob: "cache_keeps full s \<Longrightarrow> gobs s a = Some g \<Longrightarrow> gob_ok g"
  by (auto simp: cache_keeps_def store_ok_def)

text \<open>Entering an object under a name that is free.\<close>

lemma inv_enter:
  assumes "cache_keeps full s" "gobs s a = Some g" "has_flag GOBF_INUSE g" "\<not> has_flag GOBF_INCACHE g"
    "full \<longrightarrow> ep_hash_search (OpenGOBCache s) (gob_name g) = None"
    "has_flag GOBF_INCACHE g'" "gob_name g' = gob_name g" "gob_ok g'"
  shows "cache_keeps full (s\<lparr>gobs := (gobs s)(a \<mapsto> g'), GobsByUse := a # GobsByUse s,
    OpenGOBCache := snd (ep_hash_insert (OpenGOBCache s) (gob_name g) (Some a))\<rparr>)" (is "cache_keeps full ?s")
proof -
  have c: "cached_as ?s b nm \<longleftrightarrow> (b = a \<and> nm = gob_name g) \<or> cached_as s b nm" for b nm
    using assms(2,4,6,7) by (auto simp: cached_as_def)
  have na: "\<not> cached_as s a nm" for nm using assms(2,4) by (auto simp: cached_as_def)
  have "lru_ok ?s"
    using assms(1) na c by (auto simp: cache_keeps_def lru_ok_def)
  moreover have m: "if full then ((ep_hash_search (OpenGOBCache s))(gob_name g \<mapsto> a)) nm = Some b \<longleftrightarrow> cached_as ?s b nm
      else ((ep_hash_search (OpenGOBCache s))(gob_name g \<mapsto> a)) nm = Some b \<longrightarrow> cached_as ?s b nm" for nm b
  proof (cases full)
    case True
    then have t: "\<And>nm b. ep_hash_search (OpenGOBCache s) nm = Some b \<longleftrightarrow> cached_as s b nm"
      using assms(1) by (simp add: cache_keeps_def table_ok_def)
    have "\<not> cached_as s b (gob_name g)" for b using t [of "gob_name g" b] True assms(5) by simp
    then show ?thesis unfolding c using True t [of nm b] by auto
  next
    case False
    then show ?thesis unfolding c using keeps_found [OF assms(1), of nm b] by auto
  qed
  have "table_ok full ?s"
    by (rule table_okI [OF _ _ m]) (use insert_spec [OF keeps_wf [OF assms(1)], of "gob_name g" "Some a"] in \<open>simp_all add: fun_upd_def\<close>)
  moreover have "store_ok ?s"
    by (rule store_upd [of s a g g']) (use assms(1-3,8) in \<open>simp_all add: cache_keeps_def\<close>)
  ultimately show ?thesis by (simp add: cache_keeps_def)
qed

text \<open>Taking an object out.\<close>

lemma inv_leave:
  assumes "cache_keeps full s" "gobs s a = Some g" "has_flag GOBF_INCACHE g" "\<not> has_flag GOBF_INCACHE g'"
    "gob_ok g'" "has_flag GOBF_INUSE g' \<longrightarrow> has_flag GOBF_INUSE g"
  shows "cache_keeps full (s\<lparr>gobs := (gobs s)(a \<mapsto> g'), GobsByUse := remove1 a (GobsByUse s),
    OpenGOBCache := snd (ep_hash_delete (OpenGOBCache s) (gob_name g))\<rparr>)" (is "cache_keeps full ?s")
proof -
  have c: "cached_as ?s b nm \<longleftrightarrow> b \<noteq> a \<and> cached_as s b nm" for b nm
    using assms(4) by (auto simp: cached_as_def)
  have ca: "cached_as s a nm \<longleftrightarrow> nm = gob_name g" for nm using assms(2,3) by (auto simp: cached_as_def)
  have "lru_ok ?s"
    using assms(1) c by (auto simp: cache_keeps_def lru_ok_def)
  moreover have m: "if full then ((ep_hash_search (OpenGOBCache s))(gob_name g := None)) nm = Some b \<longleftrightarrow> cached_as ?s b nm
      else ((ep_hash_search (OpenGOBCache s))(gob_name g := None)) nm = Some b \<longrightarrow> cached_as ?s b nm" for nm b
  proof (cases full)
    case True
    then have t: "\<And>nm b. ep_hash_search (OpenGOBCache s) nm = Some b \<longleftrightarrow> cached_as s b nm"
      using assms(1) by (simp add: cache_keeps_def table_ok_def)
    have "b = a" if "cached_as s b (gob_name g)" for b
      using t [of "gob_name g" a] t [of "gob_name g" b] that ca by simp
    then show ?thesis unfolding c using True t [of nm b] ca by auto
  next
    case False
    then show ?thesis unfolding c using keeps_found [OF assms(1), of nm b] ca by auto
  qed
  have "table_ok full ?s"
    by (rule table_okI [OF _ _ m]) (use delete_spec [OF keeps_wf [OF assms(1)], of "gob_name g"] in \<open>simp_all add: fun_upd_def\<close>)
  moreover have "store_ok ?s"
    by (rule store_upd [of s a g g']) (use assms(1,2,5,6) in \<open>simp_all add: cache_keeps_def\<close>)
  ultimately show ?thesis by (simp add: cache_keeps_def)
qed

end
