(* ===== verification/Gdp_Cache.thy ===== *)
theory Gdp_Cache
  imports Gdp_Gob
begin

text \<open>
  The object cache: every operation of \<^verbatim>\<open>gdp/gdp_gob_cache.c\<close>, and the allocation and release of objects
  they lead to, keep the table of names and the list by use consistent.
\<close>

section \<open>The operations keep the invariant\<close>

lemma inv_locks [simp]: "cache_keeps full (s\<lparr>GobCacheMutex := b\<rparr>) = cache_keeps full s"
  by (simp add: cache_inv_defs cached_as_def)

lemma cache_lock_inv: "cache_lock s = Some s' \<Longrightarrow> s' = s\<lparr>GobCacheMutex := True\<rparr> \<and> \<not> GobCacheMutex s"
  by (simp add: cache_lock_def split: if_splits)

lemma gob_lock_inv:
  assumes "gdp_gob_lock a s = Some s'" "cache_keeps full s"
  shows "cache_keeps full s'" "\<exists>g. gobs s a = Some g \<and> \<not> has_flag GOBF_ISLOCKED g \<and> s' = s\<lparr>gobs := (gobs s)(a \<mapsto> set_flag GOBF_ISLOCKED g)\<rparr>"
proof -
  obtain g where g: "gobs s a = Some g" "\<not> has_flag GOBF_ISLOCKED g" "s' = s\<lparr>gobs := (gobs s)(a \<mapsto> set_flag GOBF_ISLOCKED g)\<rparr>"
    using assms(1) by (auto simp: gdp_gob_lock_def split: option.splits if_splits)
  show "cache_keeps full s'"
    unfolding g(3) by (rule inv_upd [OF assms(2) g(1)]) (use inv_gob [OF assms(2) g(1)] in \<open>auto intro: gob_ok_flags [of _ g]\<close>)
  show "\<exists>g. gobs s a = Some g \<and> \<not> has_flag GOBF_ISLOCKED g \<and> s' = s\<lparr>gobs := (gobs s)(a \<mapsto> set_flag GOBF_ISLOCKED g)\<rparr>"
    using g by blast
qed

lemma gob_unlock_inv:
  assumes "gdp_gob_unlock a s = Some s'" "cache_keeps full s"
  shows "cache_keeps full s'" "\<exists>g. gobs s a = Some g \<and> s' = s\<lparr>gobs := (gobs s)(a \<mapsto> clr_flag GOBF_ISLOCKED g)\<rparr>"
proof -
  obtain g where g: "gobs s a = Some g" "s' = s\<lparr>gobs := (gobs s)(a \<mapsto> clr_flag GOBF_ISLOCKED g)\<rparr>"
    using assms(1) by (auto simp: gdp_gob_unlock_def split: option.splits)
  show "cache_keeps full s'"
    unfolding g(2) by (rule inv_upd [OF assms(2) g(1)]) (use inv_gob [OF assms(2) g(1)] in \<open>auto intro: gob_ok_flags [of _ g]\<close>)
  show "\<exists>g. gobs s a = Some g \<and> s' = s\<lparr>gobs := (gobs s)(a \<mapsto> clr_flag GOBF_ISLOCKED g)\<rparr>"
    using g by blast
qed

lemma incref_inv:
  assumes "gdp_gob_incref a s = Some s'" "cache_keeps full s"
  shows "cache_keeps full s'" "GobCacheMutex s' = GobCacheMutex s"
proof -
  obtain g where g: "gobs s a = Some g" "s' = s \<or> s' = s\<lparr>gobs := (gobs s)(a \<mapsto> g\<lparr>gob_refcnt := gob_refcnt g + 1\<rparr>)\<rparr>"
    using assms(1) by (auto simp: gdp_gob_incref_def split: option.splits if_splits)
  have "cache_keeps full (s\<lparr>gobs := (gobs s)(a \<mapsto> g\<lparr>gob_refcnt := gob_refcnt g + 1\<rparr>)\<rparr>)"
    by (rule inv_upd [OF assms(2) g(1)]) (use inv_gob [OF assms(2) g(1)] in \<open>auto intro: gob_ok_flags [of _ g]\<close>)
  then show "cache_keeps full s'" "GobCacheMutex s' = GobCacheMutex s" using g(2) assms(2) by auto
qed

lemma inv_reorder:
  assumes "cache_keeps full s" "distinct lru" "set lru = set (GobsByUse s)"
  shows "cache_keeps full (s\<lparr>GobsByUse := lru\<rparr>)"
proof -
  have "cached_as (s\<lparr>GobsByUse := lru\<rparr>) a nm = cached_as s a nm" for a nm by (simp add: cached_as_def)
  then show ?thesis using assms by (simp add: cache_inv_defs)
qed

lemma touch_inv:
  assumes "gdp_gob_touch a s = Some s'" "cache_keeps full s"
  shows "cache_keeps full s'" "GobCacheMutex s' = GobCacheMutex s"
proof -
  obtain g where g: "gobs s a = Some g" using assms(1) by (auto simp: gdp_gob_touch_def split: option.splits)
  let ?s = "s\<lparr>gobs := (gobs s)(a \<mapsto> g\<lparr>gob_utime := now_sec s\<rparr>)\<rparr>"
  have i: "cache_keeps full ?s"
    by (rule inv_upd [OF assms(2) g]) (use inv_gob [OF assms(2) g] in \<open>auto intro: gob_ok_flags [of _ g]\<close>)
  have "cache_keeps full s' \<and> GobCacheMutex s' = GobCacheMutex s"
  proof (cases "has_flag GOBF_INUSE g")
    case False
    then have "s' = s" using assms(1) g by (simp add: gdp_gob_touch_def isgood_flag)
    then show ?thesis using assms(2) by simp
  next
    case u: True
    show ?thesis
    proof (cases "has_flag GOBF_ISLOCKED g \<and> has_flag GOBF_INCACHE g")
      case False
      then have "(\<not> GDP_GOB_ASSERT_ISLOCKED g \<or> \<not> has_flag GOBF_INCACHE g) = True"
        using u by (auto simp: isgood_flag)
      then have "s' = ?s"
        using assms(1) g u by (simp only: gdp_gob_touch_def) (simp add: isgood_flag)
      then show ?thesis using i by simp
    next
      case True
      have d: "distinct (GobsByUse s)" "a \<in> set (GobsByUse s)"
        using assms(2) g True by (auto simp: cache_keeps_def lru_ok_def cached_as_def)
      have "LIST_INSERT_HEAD a (remove1 a (GobsByUse s)) = Some (a # remove1 a (GobsByUse s))"
        using d(1) by (simp add: LIST_INSERT_HEAD_def)
      then have "s' = ?s\<lparr>GobsByUse := a # remove1 a (GobsByUse s)\<rparr>"
        using assms(1) g u True by (simp add: gdp_gob_touch_def isgood_flag Let_def)
      moreover have "cache_keeps full (?s\<lparr>GobsByUse := a # remove1 a (GobsByUse s)\<rparr>)"
        by (rule inv_reorder [OF i]) (use d in auto)
      ultimately show ?thesis by simp
    qed
  qed
  then show "cache_keeps full s'" "GobCacheMutex s' = GobCacheMutex s" by simp_all
qed

lemma add_inv:
  assumes "add_cache_unlocked a s = Some s'" "cache_keeps full s"
    "full \<longrightarrow> (\<forall>g. gobs s a = Some g \<and> \<not> has_flag GOBF_INCACHE g \<longrightarrow> ep_hash_search (OpenGOBCache s) (gob_name g) = None)"
  shows "cache_keeps full s'" "GobCacheMutex s' = GobCacheMutex s"
proof -
  obtain g where g: "gobs s a = Some g" using assms(1) by (auto simp: add_cache_unlocked_def split: option.splits)
  let ?g = "set_flag GOBF_INCACHE (g\<lparr>gob_utime := now_sec s\<rparr>)"
  let ?s = "s\<lparr>gobs := (gobs s)(a \<mapsto> ?g), GobsByUse := a # GobsByUse s,
    OpenGOBCache := snd (ep_hash_insert (OpenGOBCache s) (gob_name g) (Some a))\<rparr>"
  have "s' = s \<or> (has_flag GOBF_INUSE g \<and> \<not> has_flag GOBF_INCACHE g \<and> s' = ?s)"
    using assms(1) g
    by (auto simp: add_cache_unlocked_def isgood_flag LIST_INSERT_HEAD_def now_sec_def Let_def split: if_splits)
  moreover have "cache_keeps full ?s" if "has_flag GOBF_INUSE g" "\<not> has_flag GOBF_INCACHE g"
    by (rule inv_enter [OF assms(2) g that]) (use that assms(3) g inv_gob [OF assms(2) g] in \<open>auto simp: gob_ok_def\<close>)
  ultimately show "cache_keeps full s'" "GobCacheMutex s' = GobCacheMutex s" using assms(2) by auto
qed

text \<open>What leaving the cache does to the state.\<close>

definition dropped :: "nat \<Rightarrow> 'x gdp_gob \<Rightarrow> 'x gdp_gob \<Rightarrow> ('b, 'x) gdp_lib \<Rightarrow> ('b, 'x) gdp_lib" where
  "dropped a g g' s = s\<lparr>gobs := (gobs s)(a \<mapsto> g'), GobsByUse := remove1 a (GobsByUse s),
     OpenGOBCache := snd (ep_hash_delete (OpenGOBCache s) (gob_name g))\<rparr>"

lemma drop_spec:
  assumes "gobs s a = Some g" "has_flag GOBF_INUSE g" "has_flag GOBF_INCACHE g" "\<not> cleanup \<Longrightarrow> \<not> GobCacheMutex s"
  obtains g' where "gdp_gob_cache_drop cleanup a s = Some (dropped a g g' s)" "\<not> has_flag GOBF_INCACHE g'"
    "has_flag GOBF_INUSE g'" "gob_reqs g' = gob_reqs g" "gob_refcnt g' = gob_refcnt g" "gob_name g' = gob_name g"
proof (cases cleanup)
  case True
  then show thesis
    using assms(1-3) by (intro that [of "clr_flag GOBF_INCACHE (set_flag GOBF_DROPPING g)"])
      (simp_all add: gdp_gob_cache_drop_def isgood_flag dropped_def)
next
  case False
  then have m: "\<not> GobCacheMutex s" using assms(4) by simp
  then show thesis
    using False assms(1-3)
    by (intro that [of "clr_flag GOBF_INCACHE (set_flag GOBF_ISLOCKED (clr_flag GOBF_ISLOCKED (set_flag GOBF_DROPPING g)))"])
      (simp_all add: gdp_gob_cache_drop_def isgood_flag dropped_def gdp_gob_unlock_def gdp_gob_lock_def cache_lock_def
        cache_unlock_def)
qed

lemma dropped_inv:
  assumes "cache_keeps full s" "gobs s a = Some g" "has_flag GOBF_INCACHE g" "\<not> has_flag GOBF_INCACHE g'"
    "gob_ok g'" "has_flag GOBF_INUSE g' \<longrightarrow> has_flag GOBF_INUSE g"
  shows "cache_keeps full (dropped a g g' s)"
  unfolding dropped_def by (rule inv_leave [OF assms])

lemma dropped_fields [simp]:
  "gobs (dropped a g g' s) = (gobs s)(a \<mapsto> g')" "GobsByUse (dropped a g g' s) = remove1 a (GobsByUse s)"
  "GobCacheMutex (dropped a g g' s) = GobCacheMutex s" "GobFreeList (dropped a g g' s) = GobFreeList s"
  "gob_brk (dropped a g g' s) = gob_brk s" "reqs (dropped a g g' s) = reqs s" "lib_clk (dropped a g g' s) = lib_clk s"
  by (simp_all add: dropped_def)

lemma drop_inv:
  assumes "gdp_gob_cache_drop cleanup a s = Some s'" "cache_keeps full s" "\<not> cleanup \<Longrightarrow> \<not> GobCacheMutex s"
  shows "cache_keeps full s'" "GobCacheMutex s' = GobCacheMutex s"
proof -
  obtain g where g: "gobs s a = Some g" using assms(1) by (auto simp: gdp_gob_cache_drop_def split: option.splits)
  have "cache_keeps full s' \<and> GobCacheMutex s' = GobCacheMutex s"
  proof (cases "has_flag GOBF_INCACHE g")
    case True
    then have u: "has_flag GOBF_INUSE g" using inv_gob [OF assms(2) g] by (simp add: gob_ok_def)
    obtain g' where g': "gdp_gob_cache_drop cleanup a s = Some (dropped a g g' s)" "\<not> has_flag GOBF_INCACHE g'"
      "has_flag GOBF_INUSE g'" "gob_reqs g' = gob_reqs g" "gob_refcnt g' = gob_refcnt g"
      by (rule drop_spec [OF g u True assms(3)])
    have "cache_keeps full (dropped a g g' s)"
      by (rule dropped_inv [OF assms(2) g True g'(2)]) (use inv_gob [OF assms(2) g] u g' in \<open>auto simp: gob_ok_def\<close>)
    moreover have "s' = dropped a g g' s" using assms(1) g'(1) by simp
    ultimately show ?thesis by simp
  next
    case False
    then have "s' = s" using assms(1) g by (simp add: gdp_gob_cache_drop_def split: if_splits)
    then show ?thesis using assms(2) by simp
  qed
  then show "cache_keeps full s'" "GobCacheMutex s' = GobCacheMutex s" by simp_all
qed

lemma changename_inv:
  assumes "gdp_gob_cache_changename a newname s = Some s'" "cache_keeps full s" "\<not> GobCacheMutex s"
    "full \<longrightarrow> ep_hash_search (OpenGOBCache s) newname = None"
  shows "cache_keeps full s'" "\<not> GobCacheMutex s'"
proof -
  obtain g where g: "gobs s a = Some g" using assms(1) by (auto simp: gdp_gob_cache_changename_def split: option.splits)
  let ?del = "snd (ep_hash_delete (OpenGOBCache s) (gob_name g))"
  let ?s = "s\<lparr>gobs := (gobs s)(a \<mapsto> g\<lparr>gob_name := newname\<rparr>), OpenGOBCache := snd (ep_hash_insert ?del newname (Some a))\<rparr>"
  have "cache_keeps full s' \<and> \<not> GobCacheMutex s'"
  proof (cases "has_flag GOBF_INUSE g \<and> gdp_name_is_valid (gob_name g) \<and> gdp_name_is_valid newname \<and> has_flag GOBF_INCACHE g")
    case True
    then have s': "s' = ?s"
      using assms(1,3) g by (auto simp: gdp_gob_cache_changename_def isgood_flag cache_lock_def cache_unlock_def)
    have ca: "cached_as s a nm \<longleftrightarrow> nm = gob_name g" for nm using g True by (auto simp: cached_as_def)
    have c: "cached_as ?s b nm \<longleftrightarrow> (if b = a then nm = newname else cached_as s b nm)" for b nm
      using g True by (auto simp: cached_as_def)
    have "lru_ok ?s"
      using assms(2) c ca by (auto simp: cache_keeps_def lru_ok_def)
    moreover let ?m = "(ep_hash_search (OpenGOBCache s))(gob_name g := None, newname \<mapsto> a)"
    have m: "if full then ?m nm = Some b \<longleftrightarrow> cached_as ?s b nm else ?m nm = Some b \<longrightarrow> cached_as ?s b nm" for nm b
    proof (cases full)
      case True
      then have t: "\<And>nm b. ep_hash_search (OpenGOBCache s) nm = Some b \<longleftrightarrow> cached_as s b nm"
        using assms(2) by (simp add: cache_keeps_def table_ok_def)
      have un: "b = a" if "cached_as s b (gob_name g)" for b
        using t [of "gob_name g" a] t [of "gob_name g" b] that ca by simp
      have nn: "\<not> cached_as s b newname" for b using t [of newname b] True assms(4) by simp
      show ?thesis unfolding c using True t [of nm b] ca nn un by (auto split: if_splits)
    next
      case False
      then show ?thesis unfolding c using keeps_found [OF assms(2), of nm b] ca by (auto split: if_splits)
    qed
    have "table_ok full ?s"
      by (rule table_okI [OF _ _ m])
        (use delete_spec [OF keeps_wf [OF assms(2)], of "gob_name g"] insert_spec [of ?del newname "Some a"] in \<open>simp_all add: fun_upd_def\<close>)
    moreover have "store_ok ?s"
      by (rule store_upd [of s a g "g\<lparr>gob_name := newname\<rparr>"])
        (use assms(2) g inv_gob [OF assms(2) g] in \<open>auto simp: cache_keeps_def gob_ok_def\<close>)
    ultimately show ?thesis using s' assms(3) by (simp add: cache_keeps_def)
  next
    case False
    then have "s' = s" using assms(1) g by (auto simp: gdp_gob_cache_changename_def isgood_flag)
    then show ?thesis using assms(2,3) by simp
  qed
  then show "cache_keeps full s'" "\<not> GobCacheMutex s'" by simp_all
qed

text \<open>A new object: in use, not cached, with one reference and no requests.\<close>

lemma inv_fresh:
  assumes "cache_keeps full s" "\<forall>g. gobs s a = Some g \<longrightarrow> \<not> has_flag GOBF_INUSE g" "a < gob_brk t" "gob_brk s \<le> gob_brk t"
    "gobs t = (gobs s)(a \<mapsto> g')" "GobFreeList t = fl" "distinct fl" "set fl \<subseteq> set (GobFreeList s) - {a}"
    "\<not> has_flag GOBF_INCACHE g'" "gob_ok g'" "GobsByUse t = GobsByUse s" "OpenGOBCache t = OpenGOBCache s"
  shows "cache_keeps full t"
proof -
  have na: "\<not> cached_as s a nm" for nm
    using assms(1,2) inv_gob [OF assms(1), of a] by (auto simp: cached_as_def gob_ok_def)
  have c: "cached_as t b nm = cached_as s b nm" for b nm
    using assms(5,9) na by (auto simp: cached_as_def)
  have "lru_ok t" "table_ok full t"
    using assms(1,11,12) c by (simp_all add: cache_keeps_def lru_ok_def table_ok_def)
  moreover have "b < gob_brk t \<and> gob_ok h" if "gobs t b = Some h" for b h
    using that assms(1,3-5,10) by (cases "b = a") (auto simp: cache_keeps_def store_ok_def dest: order_less_le_trans)
  moreover have "\<exists>h. gobs t b = Some h \<and> \<not> has_flag GOBF_INUSE h" if "b \<in> set (GobFreeList t)" for b
    using that assms(1,5,6,8) by (auto simp: cache_keeps_def store_ok_def)
  ultimately show ?thesis using assms(6,7) by (simp add: cache_keeps_def store_ok_def)
qed

lemma gob_new_inv:
  assumes "gdp_gob_new sha rand alg name s = Some (a, s')" "cache_keeps full s"
  obtains g where "cache_keeps full s'" "gobs s' a = Some g" "has_flag GOBF_INUSE g" "\<not> has_flag GOBF_INCACHE g"
    "\<not> has_flag GOBF_ISLOCKED g" "OpenGOBCache s' = OpenGOBCache s" "GobsByUse s' = GobsByUse s"
    "GobCacheMutex s' = GobCacheMutex s" "\<And>n. name = Some n \<Longrightarrow> gdp_name_is_valid n \<Longrightarrow> gob_name g = n"
    "\<And>b. b \<noteq> a \<Longrightarrow> gobs s' b = gobs s b" "lib_clk s' = lib_clk s" "\<not> has_flag GOBF_DROPPING g"
proof -
  define p where "p = (case GobFreeList s of [] \<Rightarrow> alloc_gob s
    | a # fl \<Rightarrow> let s = s\<lparr>GobFreeList := fl\<rparr> in
        if (case gobs s a of None \<Rightarrow> False | Some g \<Rightarrow> \<not> has_flag GOBF_INUSE g) then (a, s) else alloc_gob s)"
  obtain b s1 where p: "p = (b, s1)" by fastforce
  have st: "\<forall>c. c \<in> set (GobFreeList s) \<longrightarrow> (\<exists>g. gobs s c = Some g \<and> \<not> has_flag GOBF_INUSE g)" "distinct (GobFreeList s)"
    "\<forall>c g. gobs s c = Some g \<longrightarrow> c < gob_brk s"
    using assms(2) by (auto simp: cache_keeps_def store_ok_def)
  obtain g0 nm where n: "gobs s1 b = Some g0" "a = b" "s' = s1\<lparr>gobs := (gobs s1)(b \<mapsto> g0\<lparr>gob_reqs := [], gob_refcnt := 1,
      gob_nrecs := 0, gob_hashalg := word_of_int alg, gob_name := nm, gob_pname := gdp_printable_name nm,
      gob_flags := GOBF_INUSE OR GOBF_PENDING\<rparr>)\<rparr>" "\<And>m. name = Some m \<Longrightarrow> gdp_name_is_valid m \<Longrightarrow> nm = m"
    using assms(1) p unfolding gdp_gob_new_def p_def [symmetric]
    by (auto simp: Let_def split: bind_splits option.splits if_splits)
  define g where "g = g0\<lparr>gob_reqs := [], gob_refcnt := 1, gob_nrecs := 0, gob_hashalg := word_of_int alg, gob_name := nm,
    gob_pname := gdp_printable_name nm, gob_flags := GOBF_INUSE OR GOBF_PENDING\<rparr>"
  have f: "has_flag GOBF_INUSE g" "\<not> has_flag GOBF_INCACHE g" "\<not> has_flag GOBF_ISLOCKED g" "gob_ok g" "gob_name g = nm"
    "\<not> has_flag GOBF_DROPPING g"
    by (simp_all add: g_def has_flag_def bitset_or_right gob_ok_def)
  have s1: "(\<forall>h. gobs s b = Some h \<longrightarrow> \<not> has_flag GOBF_INUSE h) \<and> b < gob_brk s1 \<and> gob_brk s \<le> gob_brk s1 \<and>
      (gobs s1)(b \<mapsto> g) = (gobs s)(b \<mapsto> g) \<and> distinct (GobFreeList s1) \<and> set (GobFreeList s1) \<subseteq> set (GobFreeList s) - {b} \<and>
      GobsByUse s1 = GobsByUse s \<and> OpenGOBCache s1 = OpenGOBCache s \<and> GobCacheMutex s1 = GobCacheMutex s \<and> lib_clk s1 = lib_clk s"
  proof (cases "GobFreeList s")
    case Nil
    then have "b = gob_brk s \<and> s1 = s\<lparr>gob_brk := gob_brk s + 1, gobs := (gobs s)(gob_brk s \<mapsto> zeroed_gob)\<rparr>"
      using p by (auto simp: p_def alloc_gob_def)
    then show ?thesis using Nil st(3) by fastforce
  next
    case (Cons c fl)
    then obtain h where h: "gobs s c = Some h" "\<not> has_flag GOBF_INUSE h" using st(1) by auto
    then have "b = c \<and> s1 = s\<lparr>GobFreeList := fl\<rparr>" using p Cons by (simp add: p_def)
    then show ?thesis using Cons h st by auto
  qed
  have gs: "gobs s' = (gobs s)(b \<mapsto> g)" using s1 n(3) by (simp add: g_def)
  have "cache_keeps full s'"
    by (rule inv_fresh [OF assms(2), of b s' g "GobFreeList s1"]) (use s1 n(3) gs f in auto)
  then show thesis
    by (rule that [of g]) (use s1 n f gs in auto)
qed

text \<open>Putting an object that is in use, but not cached, on the free list.\<close>

lemma inv_release:
  assumes "cache_keeps full s" "gobs s a = Some g" "has_flag GOBF_INUSE g" "\<not> has_flag GOBF_INCACHE g"
    "\<not> has_flag GOBF_INUSE g'" "\<not> has_flag GOBF_INCACHE g'"
  shows "a \<notin> set (GobFreeList s)" "cache_keeps full (s\<lparr>gobs := (gobs s)(a \<mapsto> g'), GobFreeList := a # GobFreeList s\<rparr>)" (is "cache_keeps full ?s")
proof -
  show na: "a \<notin> set (GobFreeList s)" using assms(1-3) by (auto simp: cache_keeps_def store_ok_def)
  have "cached_as ?s b nm = cached_as s b nm" for b nm
    using assms(2,4,6) by (auto simp: cached_as_def)
  then have "lru_ok ?s" "table_ok full ?s"
    using assms(1) by (simp_all add: cache_keeps_def lru_ok_def table_ok_def)
  moreover have "b < gob_brk ?s \<and> gob_ok h" if "gobs ?s b = Some h" for b h
    using that assms(1,2,5,6) by (cases "b = a") (auto simp: cache_keeps_def store_ok_def gob_ok_def)
  moreover have "\<exists>h. gobs ?s b = Some h \<and> \<not> has_flag GOBF_INUSE h" if "b \<in> set (GobFreeList ?s)" for b
    using that assms(1,5) by (cases "b = a") (auto simp: cache_keeps_def store_ok_def)
  ultimately show "cache_keeps full ?s"
    using na assms(1) by (simp add: cache_keeps_def store_ok_def)
qed

lemma freeall_none:
  assumes "gobs s a = Some g" "gob_reqs g = []"
  shows "gdp_req_freeall free shutdown gin a s = Some (s\<lparr>gobs := (gobs s)(a \<mapsto> g)\<rparr>)"
proof -
  have e: "g\<lparr>gob_reqs := []\<rparr> = g" using assms(2) by (cases g) simp
  show ?thesis using assms by (simp add: gdp_req_freeall_def) (simp only: e)
qed

text \<open>Freeing an object without requests; what is left of it is unused.\<close>

lemma gob_free_spec:
  assumes "cache_keeps full s" "gobs s a = Some g" "has_flag GOBF_INUSE g" "gob_reqs g = []"
    "has_flag GOBF_INCACHE g \<Longrightarrow> \<not> GobCacheMutex s"
  obtains s' g' where "gdp_gob_free (Suc n) a s = Some s'" "cache_keeps full s'" "GobCacheMutex s' = GobCacheMutex s"
    "gobs s' = (gobs s)(a \<mapsto> g')" "\<not> has_flag GOBF_INUSE g'" "lib_clk s' = lib_clk s"
    "GobsByUse s' = (if has_flag GOBF_INCACHE g then remove1 a (GobsByUse s) else GobsByUse s)"
proof -
  let ?g = "(set_flag GOBF_DROPPING g)\<lparr>gob_refcnt := 0\<rparr>"
  let ?s = "s\<lparr>gobs := (gobs s)(a \<mapsto> ?g)\<rparr>"
  have i: "cache_keeps full ?s"
    by (rule inv_upd [OF assms(1,2)]) (use assms(3,4) inv_gob [OF assms(1,2)] in \<open>auto simp: gob_ok_def\<close>)
  have "\<exists>s1 g1. (if has_flag GOBF_INCACHE g then gdp_gob_cache_drop False a ?s else Some ?s) = Some s1 \<and>
      cache_keeps full s1 \<and> gobs s1 = (gobs s)(a \<mapsto> g1) \<and> has_flag GOBF_INUSE g1 \<and> \<not> has_flag GOBF_INCACHE g1 \<and> gob_reqs g1 = [] \<and>
      GobCacheMutex s1 = GobCacheMutex s \<and> GobFreeList s1 = GobFreeList s \<and> lib_clk s1 = lib_clk s \<and>
      GobsByUse s1 = (if has_flag GOBF_INCACHE g then remove1 a (GobsByUse s) else GobsByUse s)"
  proof (cases "has_flag GOBF_INCACHE g")
    case True
    obtain g1 where g1: "gdp_gob_cache_drop False a ?s = Some (dropped a ?g g1 ?s)" "\<not> has_flag GOBF_INCACHE g1"
      "has_flag GOBF_INUSE g1" "gob_reqs g1 = gob_reqs ?g" "gob_refcnt g1 = gob_refcnt ?g"
      using drop_spec [of ?s a ?g False] assms(3,5) True by auto
    have "cache_keeps full (dropped a ?g g1 ?s)"
      by (rule dropped_inv [OF i]) (use True g1 assms(3,4) in \<open>auto simp: gob_ok_def\<close>)
    then show ?thesis using True g1 assms(4) by (intro exI [of _ "dropped a ?g g1 ?s"] exI [of _ g1]) simp
  next
    case False
    then show ?thesis using i assms(3,4) by (intro exI [of _ ?s] exI [of _ ?g]) simp
  qed
  then obtain s1 g1 where s1: "(if has_flag GOBF_INCACHE g then gdp_gob_cache_drop False a ?s else Some ?s) = Some s1"
    "cache_keeps full s1" "gobs s1 = (gobs s)(a \<mapsto> g1)" "has_flag GOBF_INUSE g1" "\<not> has_flag GOBF_INCACHE g1" "gob_reqs g1 = []"
    "GobCacheMutex s1 = GobCacheMutex s" "GobFreeList s1 = GobFreeList s" "lib_clk s1 = lib_clk s"
    "GobsByUse s1 = (if has_flag GOBF_INCACHE g then remove1 a (GobsByUse s) else GobsByUse s)"
    by blast
  let ?g2 = "(clr_flag GOBF_ISLOCKED (g1\<lparr>gob_freefunc := False, gob_md := None, gob_sign_ctx := None,
    gob_vrfy_ctx := None, gob_x := None\<rparr>))\<lparr>gob_flags := 0\<rparr>"
  have g1: "gobs s1 a = Some g1" using s1(3) by simp
  note rel = inv_release [OF s1(2) g1 s1(4,5), of ?g2]
  have ins: "LIST_INSERT_HEAD a (GobFreeList s1) = Some (a # GobFreeList s1)"
    using rel(1) by (simp add: LIST_INSERT_HEAD_def)
  let ?t = "s1\<lparr>gobs := (gobs s1)(a \<mapsto> ?g2), GobFreeList := a # GobFreeList s1\<rparr>"
  have "gdp_gob_free (Suc n) a s = Some ?t"
    using assms(2,3) s1(1) g1 ins freeall_none [OF g1 s1(6)]
    by (simp add: gdp_gob_unlock_def Let_def)
  moreover have "cache_keeps full ?t" using rel(2) by simp
  ultimately show thesis
    by (rule that [of ?t ?g2]) (use s1 in \<open>auto simp: fun_eq_iff\<close>)
qed

lemma decref_inv:
  assumes "gdp_gob_decref (gdp_gob_free (Suc n)) keeplocked a s = Some (c, s')" "cache_keeps full s" "\<not> GobCacheMutex s"
    "\<forall>g. gobs s a = Some g \<and> has_flag GOBF_INUSE g \<longrightarrow> int (length (gob_reqs g)) < gob_refcnt g"
  shows "cache_keeps full s'" "\<not> GobCacheMutex s'"
proof -
  obtain g where g: "gobs s a = Some g" using assms(1) by (auto simp: gdp_gob_decref_def split: option.splits)
  have "cache_keeps full s' \<and> \<not> GobCacheMutex s'"
  proof (cases "has_flag GOBF_INUSE g")
    case False
    then have "s' = s" using assms(1) g by (simp add: gdp_gob_decref_def isgood_flag)
    then show ?thesis using assms(2,3) by simp
  next
    case True
    then have r: "int (length (gob_reqs g)) < gob_refcnt g" using assms(4) g by simp
    let ?g = "g\<lparr>gob_refcnt := gob_refcnt g - 1\<rparr>"
    let ?s = "s\<lparr>gobs := (gobs s)(a \<mapsto> ?g)\<rparr>"
    have i: "cache_keeps full ?s"
      by (rule inv_upd [OF assms(2) g]) (use r inv_gob [OF assms(2) g] in \<open>auto simp: gob_ok_def\<close>)
    have d: "gdp_gob_decref (gdp_gob_free (Suc n)) keeplocked a s = map_option (Pair True)
      (if gob_refcnt ?g = 0 \<and> \<not> has_flag GOBF_DEFER_FREE ?g then gdp_gob_free (Suc n) a ?s
       else if \<not> GDP_GOB_ASSERT_ISLOCKED ?g then Some ?s
       else if \<not> keeplocked \<and> \<not> has_flag GOBF_KEEPLOCKED ?g then gdp_gob_unlock a ?s else Some ?s)"
      using g True r by (simp add: gdp_gob_decref_def isgood_flag Let_def del: gdp_gob_free.simps)
    show ?thesis
    proof (cases "gob_refcnt ?g = 0 \<and> \<not> has_flag GOBF_DEFER_FREE ?g")
      case free: True
      have e: "gobs ?s a = Some ?g" "has_flag GOBF_INUSE ?g" "gob_reqs ?g = []"
        using True r free by auto
      obtain s1 where "gdp_gob_free (Suc n) a ?s = Some s1" "cache_keeps full s1" "GobCacheMutex s1 = GobCacheMutex ?s"
        using gob_free_spec [OF i e, of n thesis] assms(3) by auto
      then show ?thesis using assms(1,3) d free by (simp del: gdp_gob_free.simps)
    next
      case False
      then have "s' = ?s \<or> gdp_gob_unlock a ?s = Some s'"
        using assms(1) d by (auto simp del: gdp_gob_free.simps split: if_splits)
      then show ?thesis using i gob_unlock_inv [OF _ i, of a s'] assms(3) by auto
    qed
  qed
  then show "cache_keeps full s'" "\<not> GobCacheMutex s'" by simp_all
qed

end
