(* ===== verification/Gdp_Cache_Steps.thy ===== *)
theory Gdp_Cache_Steps
  imports Gdp_Cache
begin

text \<open>
  The cache of objects as a whole: what \<^verbatim>\<open>_gdp_gob_cache_get\<close> finds and makes, what
  \<^verbatim>\<open>_gdp_gob_cache_reclaim\<close> takes away, and the invariant of \<^verbatim>\<open>Gdp_Gob\<close> in every state that the
  operations of \<^verbatim>\<open>gdp/gdp_gob_cache.c\<close> and \<^verbatim>\<open>gdp/gdp_gob_mgmt.c\<close> lead to.
\<close>

section \<open>Initialisation\<close>

text \<open>\<open>defsize\<close> is the administrative parameter for the size of hash tables.  A table that cannot be
  made ends the program.\<close>

definition gdp_gob_cache_init :: "nat \<Rightarrow> ('b, 'x) gdp_lib \<Rightarrow> ('b, 'x) gdp_lib option" where
  "gdp_gob_cache_init defsize s =
     (case ep_hash_new defsize None 0 of
        None \<Rightarrow> None
      | Some h \<Rightarrow> Some (s\<lparr>GobCacheMutex := False, OpenGOBCache := h\<rparr>))"

lemma init_inv:
  assumes "gdp_gob_cache_init defsize s = Some s'" "gobs s = Map.empty" "GobFreeList s = []" "GobsByUse s = []"
  shows "cache_inv s'" "\<not> GobCacheMutex s'"
proof -
  obtain h where h: "ep_hash_new defsize None 0 = Some h" "s' = s\<lparr>GobCacheMutex := False, OpenGOBCache := h\<rparr>"
    using assms(1) by (auto simp: gdp_gob_cache_init_def split: option.splits)
  then show "\<not> GobCacheMutex s'" by simp
  show "cache_inv s'"
    using h(2) assms(2-4) new_hash_wf [OF h(1)] by (simp add: cache_inv_defs cached_as_def)
qed

section \<open>Looking up an object\<close>

text \<open>An object that \<^verbatim>\<open>_gdp_gob_cache_get\<close> hands out.\<close>

definition usable :: "u32 \<Rightarrow> 'x gdp_gob \<Rightarrow> bool" where
  "usable flags g \<longleftrightarrow> has_flag GOBF_INUSE g \<and> has_flag GOBF_INCACHE g \<and> \<not> has_flag GOBF_DROPPING g \<and>
     (has_flag GOBF_PENDING g \<longrightarrow> EP_UT_BITSET GGCF_GET_PENDING flags)"

lemma usable_simps [simp]:
  "usable flags (set_flag GOBF_ISLOCKED g) = usable flags g" "usable flags (clr_flag GOBF_ISLOCKED g) = usable flags g"
  by (simp_all add: usable_def)

lemma usable_fold:
  "(\<not> has_flag GOBF_INUSE g \<or> \<not> has_flag GOBF_INCACHE g \<or> has_flag GOBF_DROPPING g \<or>
    (has_flag GOBF_PENDING g \<and> \<not> EP_UT_BITSET GGCF_GET_PENDING flags)) \<longleftrightarrow> \<not> usable flags g"
  by (auto simp: usable_def)

lemma inv_consistent: "cache_keeps full s \<Longrightarrow> check_cache_consistency s"
  by (simp add: cache_keeps_def lru_ok_def check_cache_consistency_def)

lemma inv_search: "cache_inv s \<Longrightarrow> ep_hash_search (OpenGOBCache s) nm = Some a \<longleftrightarrow> cached_as s a nm"
  by (simp add: cache_keeps_def table_ok_def)

lemma inv_miss: "cache_inv s \<Longrightarrow> ep_hash_search (OpenGOBCache s) nm = None \<longleftrightarrow> (\<forall>a. \<not> cached_as s a nm)"
  by (metis inv_search not_None_eq)

text \<open>The state after a hit: the object is locked and, unless the caller only peeks, counted once
  more and moved to the front of the list by use.\<close>

definition after_hit :: "u32 \<Rightarrow> nat \<Rightarrow> 'x gdp_gob \<Rightarrow> ('b, 'x) gdp_lib \<Rightarrow> ('b, 'x) gdp_lib" where
  "after_hit flags a g s =
     (let g = set_flag GOBF_ISLOCKED g in
      if EP_UT_BITSET GGCF_PEEK flags then s\<lparr>gobs := (gobs s)(a \<mapsto> g)\<rparr>
      else s\<lparr>gobs := (gobs s)(a \<mapsto> g\<lparr>gob_refcnt := gob_refcnt g + 1, gob_utime := now_sec s\<rparr>),
             GobsByUse := a # remove1 a (GobsByUse s)\<rparr>)"

lemma touch_locked:
  assumes "gobs s a = Some g" "has_flag GOBF_INUSE g" "has_flag GOBF_ISLOCKED g" "has_flag GOBF_INCACHE g"
    "distinct (GobsByUse s)"
  shows "gdp_gob_touch a s = Some (s\<lparr>gobs := (gobs s)(a \<mapsto> g\<lparr>gob_utime := now_sec s\<rparr>),
    GobsByUse := a # remove1 a (GobsByUse s)\<rparr>)"
  using assms by (simp add: gdp_gob_touch_def isgood_flag LIST_INSERT_HEAD_def Let_def)

lemma get_found:
  assumes "cache_keeps full s" "\<not> GobCacheMutex s" "ep_hash_search (OpenGOBCache s) name = Some a" "gobs s a = Some g"
    "\<not> has_flag GOBF_ISLOCKED g" "usable flags g"
  shows "gdp_gob_cache_get sha rand alg name flags s = Some (Some a, after_hit flags a g s)"
proof -
  let ?s = "s\<lparr>GobCacheMutex := True\<rparr>"
  let ?t = "?s\<lparr>gobs := (gobs s)(a \<mapsto> set_flag GOBF_ISLOCKED g)\<rparr>"
  let ?g = "(set_flag GOBF_ISLOCKED g)\<lparr>gob_refcnt := gob_refcnt g + 1\<rparr>"
  have l: "gdp_gob_lock a ?s = Some ?t" using assms(4,5) by (simp add: gdp_gob_lock_def)
  have c: "check_cache_consistency ?s" using inv_consistent [OF assms(1)] by (simp add: check_cache_consistency_def)
  note f = assms(3)
  have i: "gdp_gob_incref a ?t = Some (?t\<lparr>gobs := (gobs s)(a \<mapsto> ?g)\<rparr>)"
    using assms(6) by (simp add: gdp_gob_incref_def isgood_flag usable_def)
  have t: "gdp_gob_touch a (?t\<lparr>gobs := (gobs s)(a \<mapsto> ?g)\<rparr>) = Some (?t\<lparr>gobs := (gobs s)(a \<mapsto> ?g\<lparr>gob_utime := now_sec s\<rparr>),
      GobsByUse := a # remove1 a (GobsByUse s)\<rparr>)"
    using touch_locked [of "?t\<lparr>gobs := (gobs s)(a \<mapsto> ?g)\<rparr>" a ?g] assms(1,6)
    by (simp add: usable_def now_sec_def cache_keeps_def lru_ok_def)
  show ?thesis
  proof (cases "EP_UT_BITSET GGCF_PEEK flags")
    case True
    then show ?thesis
      using assms(2,6) l c f unfolding gdp_gob_cache_get_def usable_fold
      by (simp add: cache_lock_def cache_unlock_def after_hit_def)
  next
    case False
    then show ?thesis
      using assms(2,6) l c f i t unfolding gdp_gob_cache_get_def usable_fold
      by (simp add: cache_lock_def cache_unlock_def after_hit_def)
  qed
qed

lemma get_hit:
  assumes "cache_inv s" "\<not> GobCacheMutex s" "cached_as s a name" "gobs s a = Some g"
    "\<not> has_flag GOBF_ISLOCKED g" "usable flags g"
  shows "gdp_gob_cache_get sha rand alg name flags s = Some (Some a, after_hit flags a g s)"
  by (rule get_found [OF assms(1,2) _ assms(4-6)]) (use inv_search [OF assms(1)] assms(3) in simp)

lemma hit_inv:
  assumes "cache_keeps full s" "gobs s a = Some g" "usable flags g"
  shows "cache_keeps full (after_hit flags a g s)"
proof -
  have c: "has_flag GOBF_INCACHE g" using assms(3) by (simp add: usable_def)
  note ok = inv_gob [OF assms(1,2)]
  have "cache_keeps full (s\<lparr>gobs := (gobs s)(a \<mapsto> set_flag GOBF_ISLOCKED g)\<rparr>)"
    by (rule inv_upd [OF assms(1,2)]) (use ok in \<open>auto simp: gob_ok_def\<close>)
  moreover let ?g = "(set_flag GOBF_ISLOCKED g)\<lparr>gob_refcnt := gob_refcnt g + 1, gob_utime := now_sec s\<rparr>"
  have "cache_keeps full (s\<lparr>gobs := (gobs s)(a \<mapsto> ?g)\<rparr>)"
    by (rule inv_upd [OF assms(1,2)]) (use ok in \<open>auto simp: gob_ok_def\<close>)
  then have "cache_keeps full (s\<lparr>gobs := (gobs s)(a \<mapsto> ?g)\<rparr>\<lparr>GobsByUse := a # remove1 a (GobsByUse s)\<rparr>)"
    by (rule inv_reorder) (use assms(1,2) c in \<open>auto simp: cache_keeps_def lru_ok_def cached_as_def\<close>)
  ultimately show ?thesis by (simp add: after_hit_def Let_def)
qed

lemma get_none:
  assumes "cache_keeps full s" "\<not> GobCacheMutex s" "ep_hash_search (OpenGOBCache s) name = None" "\<not> EP_UT_BITSET GGCF_CREATE flags"
  shows "gdp_gob_cache_get sha rand alg name flags s = Some (None, s)"
proof -
  have "check_cache_consistency (s\<lparr>GobCacheMutex := True\<rparr>)"
    using inv_consistent [OF assms(1)] by (simp add: check_cache_consistency_def)
  then show ?thesis
    using assms(2-4)
    by (simp add: gdp_gob_cache_get_def cache_lock_def cache_unlock_def)
qed

text \<open>A new object always can be made.\<close>

lemma gob_new_total:
  assumes "cache_keeps full s" "gdp_name_is_valid name"
  shows "\<exists>a s'. gdp_gob_new sha rand alg (Some name) s = Some (a, s')"
proof (cases "GobFreeList s")
  case Nil
  then show ?thesis using assms(2) by (simp add: gdp_gob_new_def alloc_gob_def)
next
  case (Cons a fl)
  then obtain g where "gobs s a = Some g" "\<not> has_flag GOBF_INUSE g"
    using assms(1) by (auto simp: cache_keeps_def store_ok_def)
  then show ?thesis using Cons assms(2) by (simp add: gdp_gob_new_def Let_def)
qed

lemma add_fresh:
  assumes "gobs s a = Some g" "has_flag GOBF_INUSE g" "has_flag GOBF_ISLOCKED g" "\<not> has_flag GOBF_INCACHE g"
    "a \<notin> set (GobsByUse s)"
  obtains s' g' where "add_cache_unlocked a s = Some s'" "gobs s' = (gobs s)(a \<mapsto> g')" "has_flag GOBF_INCACHE g'"
    "has_flag GOBF_ISLOCKED g'" "gob_name g' = gob_name g" "GobsByUse s' = a # GobsByUse s"
    "gob_refcnt g' = gob_refcnt g" "has_flag GOBF_PENDING g' = has_flag GOBF_PENDING g" "lib_clk s' = lib_clk s"
    "has_flag GOBF_DROPPING g' = has_flag GOBF_DROPPING g"
    "OpenGOBCache s' = snd (ep_hash_insert (OpenGOBCache s) (gob_name g) (Some a))"
proof -
  let ?g = "set_flag GOBF_INCACHE (g\<lparr>gob_utime := now_sec s\<rparr>)"
  have "add_cache_unlocked a s = Some (s\<lparr>gobs := (gobs s)(a \<mapsto> ?g), GobsByUse := a # GobsByUse s,
    OpenGOBCache := snd (ep_hash_insert (OpenGOBCache s) (gob_name g) (Some a))\<rparr>)"
    using assms by (simp add: add_cache_unlocked_def isgood_flag LIST_INSERT_HEAD_def now_sec_def Let_def)
  then show thesis by (rule that [of _ ?g]) (use assms in \<open>simp_all add: has_flag_def set_flag_def bitset_or_right\<close>)
qed

lemma get_create:
  assumes "cache_keeps full s" "\<not> GobCacheMutex s" "ep_hash_search (OpenGOBCache s) name = None" "EP_UT_BITSET GGCF_CREATE flags"
    "gdp_name_is_valid name"
  obtains a s' g where "gdp_gob_cache_get sha rand alg name flags s = Some (Some a, s')" "cache_keeps full s'"
    "\<not> GobCacheMutex s'" "gobs s' a = Some g" "has_flag GOBF_INCACHE g" "has_flag GOBF_ISLOCKED g" "gob_name g = name"
    "\<not> has_flag GOBF_DROPPING g" "GobsByUse s' = a # GobsByUse s" "\<And>b. b \<noteq> a \<Longrightarrow> gobs s' b = gobs s b"
    "ep_hash_search (OpenGOBCache s') name = Some a"
proof -
  let ?s = "s\<lparr>GobCacheMutex := True\<rparr>"
  have i: "cache_keeps full ?s" using assms(1) by simp
  note miss = assms(3)
  obtain a s1 where n: "gdp_gob_new sha rand alg (Some name) ?s = Some (a, s1)"
    using gob_new_total [OF i assms(5)] by blast
  obtain g where g: "cache_keeps full s1" "gobs s1 a = Some g" "has_flag GOBF_INUSE g" "\<not> has_flag GOBF_INCACHE g"
    "\<not> has_flag GOBF_ISLOCKED g" "OpenGOBCache s1 = OpenGOBCache s" "GobsByUse s1 = GobsByUse s"
    "gob_name g = name" "\<And>b. b \<noteq> a \<Longrightarrow> gobs s1 b = gobs s b" "\<not> has_flag GOBF_DROPPING g"
    by (rule gob_new_inv [OF n i]) (use assms(5) in simp)
  let ?t = "s1\<lparr>gobs := (gobs s1)(a \<mapsto> set_flag GOBF_ISLOCKED g)\<rparr>"
  have l: "gdp_gob_lock a s1 = Some ?t" using g(2,5) by (simp add: gdp_gob_lock_def)
  have na: "a \<notin> set (GobsByUse s1)" using g(1,2,4) by (auto simp: cache_keeps_def lru_ok_def cached_as_def)
  obtain s2 g2 where a: "add_cache_unlocked a ?t = Some s2" "gobs s2 = (gobs ?t)(a \<mapsto> g2)" "has_flag GOBF_INCACHE g2"
    "has_flag GOBF_ISLOCKED g2" "gob_name g2 = gob_name g" "GobsByUse s2 = a # GobsByUse s1"
    "has_flag GOBF_DROPPING g2 = has_flag GOBF_DROPPING (set_flag GOBF_ISLOCKED g)"
    "OpenGOBCache s2 = snd (ep_hash_insert (OpenGOBCache ?t) (gob_name (set_flag GOBF_ISLOCKED g)) (Some a))"
    by (rule add_fresh [of ?t a "set_flag GOBF_ISLOCKED g"]) (use g(3,4) na in simp_all)
  have "cache_keeps full s2"
    by (rule add_inv(1) [OF a(1)])
      (use gob_lock_inv(1) [OF l g(1)] g(6,8) miss in simp_all)
  moreover have "gdp_gob_cache_get sha rand alg name flags s = Some (Some a, cache_unlock s2)"
    using assms(2,4) miss n l a(1) inv_consistent [OF i] by (simp add: gdp_gob_cache_get_def cache_lock_def)
  moreover have "ep_hash_search (OpenGOBCache s2) name = Some a"
    using insert_spec(2) [OF keeps_wf [OF g(1)], of name "Some a"] a(8) g(8) by simp
  ultimately show thesis
    by (intro that [of a "cache_unlock s2" g2]) (use a g(7-10) in \<open>simp_all add: cache_unlock_def\<close>)
qed

text \<open>An object that is found but cannot be handed out is locked and unlocked, and then counts as missing.\<close>

definition relocked :: "nat \<Rightarrow> 'x gdp_gob \<Rightarrow> ('b, 'x) gdp_lib \<Rightarrow> ('b, 'x) gdp_lib" where
  "relocked a g s = s\<lparr>gobs := (gobs s)(a \<mapsto> clr_flag GOBF_ISLOCKED (set_flag GOBF_ISLOCKED g))\<rparr>"

lemma get_unusable:
  assumes "cache_keeps full s" "\<not> GobCacheMutex s" "ep_hash_search (OpenGOBCache s) name = Some a" "gobs s a = Some g"
    "\<not> has_flag GOBF_ISLOCKED g" "\<not> usable flags g"
  shows "gdp_gob_cache_get sha rand alg name flags s =
    (let s = relocked a g (s\<lparr>GobCacheMutex := True\<rparr>) in
     if EP_UT_BITSET GGCF_CREATE flags then do {
       (b, s) \<leftarrow> gdp_gob_new sha rand alg (Some name) s;
       s \<leftarrow> gdp_gob_lock b s;
       s \<leftarrow> add_cache_unlocked b s;
       Some (Some b, cache_unlock s)
     }
     else Some (None, cache_unlock s))"
proof -
  let ?s = "s\<lparr>GobCacheMutex := True\<rparr>"
  let ?t = "?s\<lparr>gobs := (gobs s)(a \<mapsto> set_flag GOBF_ISLOCKED g)\<rparr>"
  have l: "gdp_gob_lock a ?s = Some ?t" using assms(4,5) by (simp add: gdp_gob_lock_def)
  have u: "gdp_gob_unlock a ?t = Some (relocked a g ?s)"
    by (simp add: gdp_gob_unlock_def relocked_def)
  have c: "check_cache_consistency ?s" using inv_consistent [OF assms(1)] by (simp add: check_cache_consistency_def)
  note f = assms(3)
  show ?thesis
    using assms(2,6) l u c f unfolding gdp_gob_cache_get_def usable_fold
    by (simp add: cache_lock_def case_prod_unfold)
qed

lemma relocked_inv:
  assumes "cache_keeps full s" "gobs s a = Some g"
  shows "cache_keeps full (relocked a g s)" "cached_as (relocked a g s) b nm = cached_as s b nm"
proof -
  show "cache_keeps full (relocked a g s)" unfolding relocked_def
    by (rule inv_upd [OF assms]) (use inv_gob [OF assms] in \<open>auto simp: gob_ok_def\<close>)
  show "cached_as (relocked a g s) b nm = cached_as s b nm"
    using assms(2) by (auto simp: cached_as_def relocked_def)
qed

lemma relocked_fields [simp]:
  "GobsByUse (relocked a g s) = GobsByUse s" "OpenGOBCache (relocked a g s) = OpenGOBCache s"
  "GobCacheMutex (relocked a g s) = GobCacheMutex s"
  by (simp_all add: relocked_def)

lemma get_locked:
  assumes "cache_keeps full s" "ep_hash_search (OpenGOBCache s) name = Some a" "gobs s a = Some g" "has_flag GOBF_ISLOCKED g"
  shows "gdp_gob_cache_get sha rand alg name flags s = None"
proof (cases "GobCacheMutex s")
  case True
  then show ?thesis by (simp add: gdp_gob_cache_get_def cache_lock_def)
next
  case False
  have "check_cache_consistency (s\<lparr>GobCacheMutex := True\<rparr>)"
    using inv_consistent [OF assms(1)] by (simp add: check_cache_consistency_def)
  then show ?thesis
    using False assms(2-4)
    by (simp add: gdp_gob_cache_get_def cache_lock_def gdp_gob_lock_def)
qed

text \<open>The condition under which the caller's wish to create an object cannot lead to a second one.\<close>

definition get_safe :: "byte list \<Rightarrow> u32 \<Rightarrow> ('b, 'x) gdp_lib \<Rightarrow> bool" where
  "get_safe name flags s \<longleftrightarrow> EP_UT_BITSET GGCF_CREATE flags \<longrightarrow>
     gdp_name_is_valid name \<and> (\<forall>a g. cached_as s a name \<and> gobs s a = Some g \<longrightarrow> usable flags g)"

lemma make_inv:
  assumes "gdp_gob_new sha rand alg (Some name) s = Some (b, sa)" "gdp_gob_lock b sa = Some sb" "add_cache_unlocked b sb = Some sc"
    "cache_keeps full s" "full \<longrightarrow> gdp_name_is_valid name \<and> ep_hash_search (OpenGOBCache s) name = None"
  shows "cache_keeps full sc"
proof -
  obtain g where g: "cache_keeps full sa" "gobs sa b = Some g" "OpenGOBCache sa = OpenGOBCache s"
    "gdp_name_is_valid name \<Longrightarrow> gob_name g = name"
    by (rule gob_new_inv [OF assms(1,4)]) simp
  have l: "sb = sa\<lparr>gobs := (gobs sa)(b \<mapsto> set_flag GOBF_ISLOCKED g)\<rparr>"
    using gob_lock_inv(2) [OF assms(2) g(1)] g(2) by auto
  show ?thesis
    by (rule add_inv(1) [OF assms(3) gob_lock_inv(1) [OF assms(2) g(1)]]) (use l g(3,4) assms(5) in auto)
qed

lemma get_inv:
  assumes "gdp_gob_cache_get sha rand alg name flags s = Some (r, s')" "cache_keeps full s" "\<not> GobCacheMutex s"
    "full \<longrightarrow> get_safe name flags s"
  shows "cache_keeps full s'" "\<not> GobCacheMutex s'"
proof -
  let ?s = "s\<lparr>GobCacheMutex := True\<rparr>"
  have cc: "check_cache_consistency ?s"
    using inv_consistent [OF assms(2)] by (simp add: check_cache_consistency_def)
  have "cache_keeps full s' \<and> \<not> GobCacheMutex s'"
  proof (cases "ep_hash_search (OpenGOBCache s) name")
    case (Some a)
    then obtain g where a: "gobs s a = Some g" "cached_as s a name"
      using keeps_found [OF assms(2) Some] by (auto simp: cached_as_def)
    have nl: "\<not> has_flag GOBF_ISLOCKED g" using get_locked [OF assms(2) Some a(1)] assms(1) by auto
    show ?thesis
    proof (cases "usable flags g")
      case True
      then show ?thesis
        using get_found [OF assms(2,3) Some a(1) nl True, of sha rand alg] hit_inv [OF assms(2) a(1) True] assms(1,3)
        by (auto simp: after_hit_def Let_def)
    next
      case False
      note u = get_unusable [OF assms(2,3) Some a(1) nl False, of sha rand alg]
      have i: "cache_keeps full (relocked a g ?s)" using relocked_inv(1) [of full ?s a g] assms(2) a(1) by simp
      have "full \<longrightarrow> \<not> EP_UT_BITSET GGCF_CREATE flags" using False assms(4) a by (auto simp: get_safe_def)
      then show ?thesis
        using assms(1) u i make_inv [OF _ _ _ i]
        by (auto simp: cache_unlock_def Let_def split: bind_splits if_splits)
    qed
  next
    case None
    show ?thesis
    proof (cases "EP_UT_BITSET GGCF_CREATE flags")
      case True
      have i: "cache_keeps full ?s" using assms(2) by simp
      obtain b sa sb sc where "gdp_gob_new sha rand alg (Some name) ?s = Some (b, sa)" "gdp_gob_lock b sa = Some sb"
        "add_cache_unlocked b sb = Some sc" "s' = cache_unlock sc"
        using assms(1,3) None True cc by (auto simp: gdp_gob_cache_get_def cache_lock_def split: bind_splits)
      then show ?thesis
        using make_inv [OF _ _ _ i] None True assms(4) by (auto simp: cache_unlock_def get_safe_def)
    next
      case c: False
      then show ?thesis using get_none [OF assms(2,3) None c, of sha rand alg] assms(1-3) by auto
    qed
  qed
  then show "cache_keeps full s'" "\<not> GobCacheMutex s'" by simp_all
qed

section \<open>Reclaiming objects\<close>

text \<open>What reclaiming may take: a cached object that nobody holds and that has not been used since \<open>t\<close>.\<close>

definition stale :: "int \<Rightarrow> 'x gdp_gob \<Rightarrow> bool" where
  "stale t g \<longleftrightarrow> has_flag GOBF_INCACHE g \<and> \<not> has_flag GOBF_ISLOCKED g \<and> \<not> has_flag GOBF_DROPPING g \<and>
     gob_refcnt g \<le> 0 \<and> gob_utime g \<le> t"

text \<open>Every object is left alone, or was stale and is free now.\<close>

definition reclaimed :: "int \<Rightarrow> ('b, 'x) gdp_lib \<Rightarrow> ('b, 'x) gdp_lib \<Rightarrow> bool" where
  "reclaimed t s s' \<longleftrightarrow> (\<forall>a. gobs s' a = gobs s a \<or>
     (\<exists>g g'. gobs s a = Some g \<and> stale t g \<and> gobs s' a = Some g' \<and> \<not> has_flag GOBF_INUSE g'))"

lemma reclaimed_refl [simp]: "reclaimed t s s"
  by (simp add: reclaimed_def)

lemma stale_mono: "stale t g \<Longrightarrow> t \<le> t' \<Longrightarrow> stale t' g"
  by (simp add: stale_def)

lemma reclaimed_trans:
  assumes "cache_keeps full s1" "reclaimed t s s1" "reclaimed t' s1 s2" "t \<le> t''" "t' \<le> t''"
  shows "reclaimed t'' s s2"
  unfolding reclaimed_def
proof
  fix a
  have n: "has_flag GOBF_INUSE g" if "gobs s1 a = Some g" "stale t' g" for g
    using inv_gob [OF assms(1) that(1)] that(2) by (simp add: gob_ok_def stale_def)
  show "gobs s2 a = gobs s a \<or>
     (\<exists>g g'. gobs s a = Some g \<and> stale t'' g \<and> gobs s2 a = Some g' \<and> \<not> has_flag GOBF_INUSE g')"
    using assms(2) [unfolded reclaimed_def, rule_format, of a] assms(3) [unfolded reclaimed_def, rule_format, of a]
      n stale_mono assms(4,5) by (metis (full_types) option.inject)
qed

lemma reclaim_one:
  assumes "cache_keeps full s" "gobs s a = Some g" "stale t g"
  obtains s1 s' where "gdp_gob_cache_drop True a (upd_gob a (set_flag GOBF_ISLOCKED) s) = Some s1"
    "gdp_gob_free (Suc n) a s1 = Some s'" "cache_keeps full s'" "reclaimed t s s'" "GobCacheMutex s' = GobCacheMutex s"
    "lib_clk s' = lib_clk s" "GobsByUse s' = remove1 a (GobsByUse s)"
    "\<exists>g'. gobs s' = (gobs s)(a \<mapsto> g') \<and> \<not> has_flag GOBF_INUSE g'"
proof -
  note ok = inv_gob [OF assms(1,2)]
  have c: "has_flag GOBF_INCACHE g" "has_flag GOBF_INUSE g" "int (length (gob_reqs g)) \<le> gob_refcnt g" "gob_refcnt g \<le> 0"
    using assms(3) ok by (simp_all add: stale_def gob_ok_def)
  then have "int (length (gob_reqs g)) \<le> 0" by linarith
  then have f: "has_flag GOBF_INCACHE g" "has_flag GOBF_INUSE g" "gob_reqs g = []" "gob_refcnt g = 0"
    using c by simp_all
  let ?g = "set_flag GOBF_ISLOCKED g"
  let ?s = "s\<lparr>gobs := (gobs s)(a \<mapsto> ?g)\<rparr>"
  have i: "cache_keeps full ?s" by (rule inv_upd [OF assms(1,2)]) (use ok in \<open>auto simp: gob_ok_def\<close>)
  obtain g1 where d: "gdp_gob_cache_drop True a ?s = Some (dropped a ?g g1 ?s)" "\<not> has_flag GOBF_INCACHE g1"
    "has_flag GOBF_INUSE g1" "gob_reqs g1 = gob_reqs g" "gob_refcnt g1 = gob_refcnt g"
    by (rule drop_spec [of ?s a ?g True]) (use f in simp_all)
  have i1: "cache_keeps full (dropped a ?g g1 ?s)"
    by (rule dropped_inv [OF i]) (use f d in \<open>simp_all add: gob_ok_def\<close>)
  obtain s' g' where fr: "gdp_gob_free (Suc n) a (dropped a ?g g1 ?s) = Some s'" "cache_keeps full s'"
    "GobCacheMutex s' = GobCacheMutex s" "gobs s' = (gobs s)(a \<mapsto> g')" "\<not> has_flag GOBF_INUSE g'"
    "lib_clk s' = lib_clk s" "GobsByUse s' = remove1 a (GobsByUse s)"
    by (rule gob_free_spec [OF i1, of a g1 n]) (use d(2-5) f in simp_all)
  show thesis
    by (rule that [of "dropped a ?g g1 ?s" s'])
      (use d(1) fr assms(2,3) in \<open>auto simp: reclaimed_def simp del: gdp_gob_free.simps\<close>)
qed

text \<open>What has been freed stays so.\<close>

definition freed :: "nat \<Rightarrow> ('b, 'x) gdp_lib \<Rightarrow> bool" where
  "freed a s \<longleftrightarrow> (\<exists>g. gobs s a = Some g \<and> \<not> has_flag GOBF_INUSE g)"

lemma freed_stays:
  assumes "cache_keeps full s" "freed a s" "reclaimed t s s'"
  shows "freed a s'"
proof -
  obtain g where g: "gobs s a = Some g" "\<not> has_flag GOBF_INUSE g" using assms(2) by (auto simp: freed_def)
  then have "\<not> stale t g" using inv_gob [OF assms(1) g(1)] by (simp add: gob_ok_def stale_def)
  then show ?thesis using assms(3) [unfolded reclaimed_def, rule_format, of a] g by (auto simp: freed_def)
qed

lemma freed_gone:
  assumes "cache_keeps full s" "freed a s"
  shows "a \<notin> set (GobsByUse s)" "ep_hash_search (OpenGOBCache s) nm \<noteq> Some a"
proof -
  have "\<not> cached_as s a nm" for nm
    using assms inv_gob [OF assms(1), of a] by (auto simp: freed_def cached_as_def gob_ok_def)
  then show "a \<notin> set (GobsByUse s)" "ep_hash_search (OpenGOBCache s) nm \<noteq> Some a"
    using assms(1) keeps_found [OF assms(1), of nm a] by (auto simp: cache_keeps_def lru_ok_def)
qed

lemma reclaim_pass_spec:
  assumes "cache_keeps full s" "distinct as" "set as \<subseteq> set (GobsByUse s)"
  shows "\<exists>s'. reclaim_pass (Suc n) t as s = Some s' \<and> cache_keeps full s' \<and> reclaimed t s s' \<and>
    GobCacheMutex s' = GobCacheMutex s \<and> lib_clk s' = lib_clk s \<and>
    (\<forall>a\<in>set as. \<forall>g. gobs s a = Some g \<and> stale t g \<longrightarrow> freed a s')"
  using assms
proof (induction as arbitrary: s)
  case (Cons a as)
  obtain g where g: "gobs s a = Some g" "has_flag GOBF_INCACHE g"
    using Cons.prems(1,3) by (auto simp: cache_keeps_def lru_ok_def cached_as_def)
  show ?case
  proof (cases "stale t g")
    case False
    then have "reclaim_pass (Suc n) t (a # as) s = reclaim_pass (Suc n) t as s"
      using g by (auto simp: stale_def simp del: gdp_gob_free.simps)
    then show ?thesis using Cons.IH [of s] Cons.prems False g(1) by auto
  next
    case True
    obtain s1 s2 where r: "gdp_gob_cache_drop True a (upd_gob a (set_flag GOBF_ISLOCKED) s) = Some s1"
      "gdp_gob_free (Suc n) a s1 = Some s2" "cache_keeps full s2" "reclaimed t s s2" "GobCacheMutex s2 = GobCacheMutex s"
      "lib_clk s2 = lib_clk s" "GobsByUse s2 = remove1 a (GobsByUse s)"
      "\<exists>g'. gobs s2 = (gobs s)(a \<mapsto> g') \<and> \<not> has_flag GOBF_INUSE g'"
      by (rule reclaim_one [OF Cons.prems(1) g(1) True])
    have e: "reclaim_pass (Suc n) t (a # as) s = reclaim_pass (Suc n) t as s2"
      using g(1) True r(1,2) by (simp add: stale_def del: gdp_gob_free.simps)
    have "set as \<subseteq> set (GobsByUse s2)"
      using Cons.prems r(7) by (auto simp: cache_keeps_def lru_ok_def)
    then obtain s' where s': "reclaim_pass (Suc n) t as s2 = Some s'" "cache_keeps full s'" "reclaimed t s2 s'"
      "GobCacheMutex s' = GobCacheMutex s2" "lib_clk s' = lib_clk s2"
      "\<forall>a\<in>set as. \<forall>g. gobs s2 a = Some g \<and> stale t g \<longrightarrow> freed a s'"
      using Cons.IH [OF r(3)] Cons.prems(2) by auto
    have "freed a s2" using r(8) by (auto simp: freed_def)
    note fa = freed_stays [OF r(3) this s'(3)]
    have "gobs s2 b = gobs s b" if "b \<in> set as" for b using r(8) that Cons.prems(2) by auto
    then have "\<forall>b\<in>set (a # as). \<forall>g. gobs s b = Some g \<and> stale t g \<longrightarrow> freed b s'"
      using fa s'(6) by auto
    then show ?thesis
      using e r s' reclaimed_trans [OF r(3,4), of t s' t] by auto
  qed
qed auto

declare gdp_gob_cache_reclaim.simps [simp del]

lemma reclaim_spec:
  assumes "cache_keeps full s" "\<not> GobCacheMutex s" "0 < maxage"
  shows "\<exists>s'. gdp_gob_cache_reclaim (Suc n) maxgobs limit nfds maxage s = Some s' \<and> cache_keeps full s' \<and>
    \<not> GobCacheMutex s' \<and> reclaimed (now_sec s - 1) s s' \<and> lib_clk s' = lib_clk s \<and>
    (length (GobsByUse s) \<le> maxgobs + 1 \<longrightarrow> (\<forall>a g. gobs s a = Some g \<and> stale (now_sec s - maxage) g \<longrightarrow> freed a s'))"
  using assms
proof (induction "nat maxage" arbitrary: maxage s rule: less_induct)
  case less
  let ?s = "s\<lparr>GobCacheMutex := True\<rparr>"
  let ?t = "now_sec s - maxage"
  let ?m = "maxage - (if maxage < 4 then 1 else maxage div 4)"
  have i: "cache_keeps full ?s" "distinct (take (maxgobs + 1) (GobsByUse ?s))" "set (take (maxgobs + 1) (GobsByUse ?s)) \<subseteq> set (GobsByUse ?s)"
    using less.prems(1) inv_consistent [OF less.prems(1)]
    by (simp_all add: check_cache_consistency_def set_take_subset)
  obtain s1 where p: "reclaim_pass (Suc n) ?t (take (maxgobs + 1) (GobsByUse s)) ?s = Some s1" "cache_keeps full s1"
    "reclaimed ?t ?s s1" "lib_clk s1 = lib_clk s"
    "\<forall>a\<in>set (take (maxgobs + 1) (GobsByUse s)). \<forall>g. gobs s a = Some g \<and> stale ?t g \<longrightarrow> freed a s1"
    using reclaim_pass_spec [OF i, of n ?t] by auto
  let ?u = "cache_unlock s1"
  have u: "cache_keeps full ?u" "\<not> GobCacheMutex ?u" "lib_clk ?u = lib_clk s" "reclaimed (now_sec s - 1) s ?u"
    using p(2-4) less.prems(3) stale_mono [of ?t _ "now_sec s - 1"]
    by (auto simp: cache_unlock_def reclaimed_def)
  have "a \<in> set (GobsByUse s)" if "gobs s a = Some g" "stale ?t g" for a g
    using less.prems(1) that by (auto simp: cache_keeps_def lru_ok_def cached_as_def stale_def)
  then have fr: "length (GobsByUse s) \<le> maxgobs + 1 \<longrightarrow> (\<forall>a g. gobs s a = Some g \<and> stale ?t g \<longrightarrow> freed a ?u)"
    using p(5) by (auto simp: freed_def cache_unlock_def)
  have e: "gdp_gob_cache_reclaim (Suc n) maxgobs limit nfds maxage s =
    (if nfds ?u < limit \<or> ?m \<le> 0 then Some ?u else gdp_gob_cache_reclaim (Suc n) maxgobs limit nfds ?m ?u)"
    using less.prems(2) p(1) inv_consistent [OF i(1)]
    by (subst gdp_gob_cache_reclaim.simps) (auto simp: cache_lock_def now_sec_def Let_def simp del: reclaim_pass.simps)
  show ?case
  proof (cases "nfds ?u < limit \<or> ?m \<le> 0")
    case True
    then show ?thesis unfolding e using u fr by auto
  next
    case False
    then have "nat ?m < nat maxage" "0 < ?m" using less.prems(3) by auto
    then obtain s' where "gdp_gob_cache_reclaim (Suc n) maxgobs limit nfds ?m ?u = Some s'" "cache_keeps full s'"
      "\<not> GobCacheMutex s'" "reclaimed (now_sec ?u - 1) ?u s'" "lib_clk s' = lib_clk ?u"
      using less.hyps [of ?m ?u] u by blast
    moreover have "now_sec ?u = now_sec s" using u(3) by (simp add: now_sec_def)
    moreover have "freed a s'" if "freed a ?u" for a
      using freed_stays [OF u(1) that] calculation(4) by blast
    ultimately show ?thesis
      unfolding e using False u fr reclaimed_trans [OF u(1,4), of "now_sec s - 1" s' "now_sec s - 1"] by auto
  qed
qed

section \<open>Every reachable state\<close>

text \<open>Objects are to be entered under a name that no cached object has.\<close>

definition add_safe :: "nat \<Rightarrow> ('b, 'x) gdp_lib \<Rightarrow> bool" where
  "add_safe a s \<longleftrightarrow>
     (\<forall>g. gobs s a = Some g \<and> \<not> has_flag GOBF_INCACHE g \<longrightarrow> ep_hash_search (OpenGOBCache s) (gob_name g) = None)"

lemma cache_add_inv:
  assumes "gdp_gob_cache_add a s = Some s'" "cache_keeps full s"
    "full \<longrightarrow> add_safe a s"
  shows "cache_keeps full s'" "\<not> GobCacheMutex s'"
proof -
  obtain s1 s2 s3 s4 where s: "gdp_gob_unlock a s = Some s1" "cache_lock s1 = Some s2" "gdp_gob_lock a s2 = Some s3"
    "add_cache_unlocked a s3 = Some s4" "s' = cache_unlock s4"
    using assms(1) by (auto simp: gdp_gob_cache_add_def split: bind_splits)
  obtain g where g: "gobs s a = Some g" "s1 = s\<lparr>gobs := (gobs s)(a \<mapsto> clr_flag GOBF_ISLOCKED g)\<rparr>"
    using gob_unlock_inv(2) [OF s(1) assms(2)] by blast
  have i2: "cache_keeps full s2" "s2 = s1\<lparr>GobCacheMutex := True\<rparr>"
    using gob_unlock_inv(1) [OF s(1) assms(2)] cache_lock_inv [OF s(2)] by simp_all
  have g3: "s3 = s2\<lparr>gobs := (gobs s2)(a \<mapsto> set_flag GOBF_ISLOCKED (clr_flag GOBF_ISLOCKED g))\<rparr>"
    using gob_lock_inv(2) [OF s(3) i2(1)] i2(2) g(2) by auto
  have "cache_keeps full s4"
    by (rule add_inv(1) [OF s(4) gob_lock_inv(1) [OF s(3) i2(1)]]) (use assms(3) g i2(2) g3 in \<open>simp add: add_safe_def\<close>)
  then show "cache_keeps full s'" "\<not> GobCacheMutex s'" using s(5) by (simp_all add: cache_unlock_def)
qed

lemma upd_gob_inv:
  assumes "cache_keeps full s"
    "\<And>g. gobs s a = Some g \<Longrightarrow> gob_ok g \<Longrightarrow> has_flag GOBF_INCACHE (f g) = has_flag GOBF_INCACHE g \<and>
      (has_flag GOBF_INCACHE g \<longrightarrow> gob_name (f g) = gob_name g) \<and> gob_ok (f g) \<and> (has_flag GOBF_INUSE (f g) \<longrightarrow> has_flag GOBF_INUSE g)"
  shows "cache_keeps full (upd_gob a f s)"
proof (cases "gobs s a")
  case None
  then have "(gobs s)(a := map_option f (gobs s a)) = gobs s" by auto
  then show ?thesis using assms(1) by simp
next
  case (Some g)
  then show ?thesis
    using inv_upd [OF assms(1) Some, of "f g"] assms(2) [OF Some inv_gob [OF assms(1) Some]] by simp
qed

lemma free_inv:
  assumes "gdp_gob_free (Suc n) a s = Some s'" "cache_keeps full s" "\<not> GobCacheMutex s"
    "\<forall>g. gobs s a = Some g \<longrightarrow> gob_reqs g = []"
  shows "cache_keeps full s'" "\<not> GobCacheMutex s'"
proof -
  obtain g where g: "gobs s a = Some g" using assms(1) by (auto split: bind_splits)
  have "cache_keeps full s' \<and> \<not> GobCacheMutex s'"
  proof (cases "has_flag GOBF_INUSE g")
    case True
    show ?thesis
      by (rule gob_free_spec [OF assms(2) g True, of n]) (use assms(1,3,4) g in auto)
  next
    case False
    then have "s' = s" using assms(1) g by simp
    then show ?thesis using assms(2,3) by simp
  qed
  then show "cache_keeps full s'" "\<not> GobCacheMutex s'" by simp_all
qed

text \<open>
  The operations, in any order, with the changes that the rest of the library and the daemon make to objects: flags are
  set and cleared, a request is linked to its object or taken off it, an object outside the cache is renamed, other
  fields and the rest of the state change.  \<open>n\<close> bounds the depth of \<^const>\<open>gdp_gob_free\<close>, which calls itself only for
  objects that have requests.  What is asked of the callers: whoever drops a reference drops its own (one that no request
  of the object holds), a request that is linked holds a reference of its own, and an object is freed outright only
  without requests.

  The flag of a step says whether it respects the names: an object is added under a name, or gets one, that no cached
  object has, and leave to create an object is given only as \<^const>\<open>get_safe\<close> says.  The operations do not check that.
\<close>

definition flags_set :: "u16 set" where
  "flags_set = {GOBF_DROPPING, GOBF_DEFER_FREE, GOBF_KEEPLOCKED, GOBF_SIGNING, GOBF_VERIFYING, GOBF_VRFY_WARN}"

definition flags_cleared :: "u16 set" where
  "flags_cleared = {GOBF_PENDING, GOBF_DEFER_FREE, GOBF_KEEPLOCKED}"

inductive cache_step :: "nat \<Rightarrow> (byte list \<Rightarrow> byte list) \<Rightarrow> bool \<Rightarrow> ('b, 'x) gdp_lib \<Rightarrow> ('b, 'x) gdp_lib \<Rightarrow> bool" for n sha where
  step_new: "gdp_gob_new sha rand alg name s = Some (a, s') \<Longrightarrow> cache_step n sha True s s'"
| step_lock: "gdp_gob_lock a s = Some s' \<Longrightarrow> cache_step n sha True s s'"
| step_unlock: "gdp_gob_unlock a s = Some s' \<Longrightarrow> cache_step n sha True s s'"
| step_incref: "gdp_gob_incref a s = Some s' \<Longrightarrow> cache_step n sha True s s'"
| step_decref: "gdp_gob_decref (gdp_gob_free (Suc n)) keeplocked a s = Some (c, s') \<Longrightarrow>
    \<forall>g. gobs s a = Some g \<and> has_flag GOBF_INUSE g \<longrightarrow> int (length (gob_reqs g)) < gob_refcnt g \<Longrightarrow> cache_step n sha True s s'"
| step_free: "gdp_gob_free (Suc n) a s = Some s' \<Longrightarrow> \<forall>g. gobs s a = Some g \<longrightarrow> gob_reqs g = [] \<Longrightarrow> cache_step n sha True s s'"
| step_touch: "gdp_gob_touch a s = Some s' \<Longrightarrow> cache_step n sha True s s'"
| step_add: "gdp_gob_cache_add a s = Some s' \<Longrightarrow> cache_step n sha (add_safe a s) s s'"
| step_changename: "gdp_gob_cache_changename a newname s = Some s' \<Longrightarrow>
    cache_step n sha (ep_hash_search (OpenGOBCache s) newname = None) s s'"
| step_get: "gdp_gob_cache_get sha rand alg name flags s = Some (r, s') \<Longrightarrow> cache_step n sha (get_safe name flags s) s s'"
| step_reclaim: "gdp_gob_cache_reclaim (Suc n) maxgobs limit nfds maxage s = Some s' \<Longrightarrow> 0 < maxage \<Longrightarrow> cache_step n sha True s s'"
| step_set_flag: "f \<in> flags_set \<Longrightarrow> cache_step n sha True s (upd_gob a (set_flag f) s)"
| step_clr_flag: "f \<in> flags_cleared \<Longrightarrow> cache_step n sha True s (upd_gob a (clr_flag f) s)"
| step_link: "\<forall>g. gobs s a = Some g \<longrightarrow> int (length (gob_reqs g)) < gob_refcnt g \<Longrightarrow>
    cache_step n sha True s (upd_gob a (\<lambda>g. g\<lparr>gob_reqs := r # gob_reqs g\<rparr>) s)"
| step_unlink: "cache_step n sha True s (upd_gob a (\<lambda>g. g\<lparr>gob_reqs := remove1 r (gob_reqs g)\<rparr>) s)"
| step_rename: "\<forall>g. gobs s a = Some g \<longrightarrow> \<not> has_flag GOBF_INCACHE g \<Longrightarrow>
    cache_step n sha True s (upd_gob a (\<lambda>g. g\<lparr>gob_name := name, gob_pname := pname\<rparr>) s)"
| step_data: "\<forall>g. gob_flags (f g) = gob_flags g \<and> gob_name (f g) = gob_name g \<and> gob_reqs (f g) = gob_reqs g \<and>
    gob_refcnt (f g) = gob_refcnt g \<Longrightarrow> cache_step n sha True s (upd_gob a f s)"
| step_rest: "gobs s' = gobs s \<Longrightarrow> gob_brk s' = gob_brk s \<Longrightarrow> GobFreeList s' = GobFreeList s \<Longrightarrow>
    OpenGOBCache s' = OpenGOBCache s \<Longrightarrow> GobsByUse s' = GobsByUse s \<Longrightarrow> GobCacheMutex s' = GobCacheMutex s \<Longrightarrow>
    cache_step n sha True s s'"

text \<open>The states that are reached from an empty cache; the flag says that every step so far has respected the names.\<close>

inductive cache_reach :: "nat \<Rightarrow> (byte list \<Rightarrow> byte list) \<Rightarrow> bool \<Rightarrow> ('b, 'x) gdp_lib \<Rightarrow> bool" for n sha where
  start: "gdp_gob_cache_init defsize s0 = Some s \<Longrightarrow> gobs s0 = Map.empty \<Longrightarrow> GobFreeList s0 = [] \<Longrightarrow>
    GobsByUse s0 = [] \<Longrightarrow> cache_reach n sha True s"
| step: "cache_reach n sha full s \<Longrightarrow> cache_step n sha k s s' \<Longrightarrow> cache_reach n sha (full \<and> k) s'"

lemma keeps_weaken: "cache_keeps full s \<Longrightarrow> cache_keeps (full \<and> k) s"
  by (cases full; cases k) (auto simp: cache_keeps_def table_ok_def)

lemma flags_neutral:
  "f \<in> flags_set \<union> flags_cleared \<Longrightarrow> \<not> EP_UT_BITSET GOBF_INUSE f \<and> \<not> EP_UT_BITSET GOBF_INCACHE f"
  by (auto simp: flags_set_def flags_cleared_def EP_UT_BITSET_def GOBF_INUSE_def GOBF_INCACHE_def GOBF_DROPPING_def
    GOBF_DEFER_FREE_def GOBF_KEEPLOCKED_def GOBF_SIGNING_def GOBF_VERIFYING_def GOBF_VRFY_WARN_def GOBF_PENDING_def)

lemma step_inv:
  assumes "cache_step n sha k s s'" "cache_keeps full s" "\<not> GobCacheMutex s"
  shows "cache_keeps (full \<and> k) s' \<and> \<not> GobCacheMutex s'"
proof -
  note i = keeps_weaken [OF assms(2), of k]
  show ?thesis
    using assms(1)
  proof cases
    case (step_new rand alg name a)
    show ?thesis by (rule gob_new_inv [OF step_new(2) i]) (use assms(3) in simp)
  next
    case (step_lock a)
    then show ?thesis using gob_lock_inv [OF step_lock(2) i] assms(3) by auto
  next
    case (step_unlock a)
    then show ?thesis using gob_unlock_inv [OF step_unlock(2) i] assms(3) by auto
  next
    case (step_incref a)
    then show ?thesis using incref_inv [OF step_incref(2) i] assms(3) by simp
  next
    case (step_decref keeplocked a c)
    then show ?thesis using decref_inv [OF step_decref(2) i assms(3) step_decref(3)] by simp
  next
    case (step_free a)
    then show ?thesis using free_inv [OF step_free(2) i assms(3) step_free(3)] by simp
  next
    case (step_touch a)
    then show ?thesis using touch_inv [OF step_touch(2) i] assms(3) by simp
  next
    case (step_add a)
    then show ?thesis using cache_add_inv [OF step_add(2) i] by simp
  next
    case (step_changename a newname)
    then show ?thesis using changename_inv [OF step_changename(2) i assms(3)] by simp
  next
    case (step_get rand alg name flags r)
    then show ?thesis using get_inv [OF step_get(2) i assms(3)] by simp
  next
    case (step_reclaim maxgobs limit nfds maxage)
    then show ?thesis using reclaim_spec [OF i assms(3) step_reclaim(3), of n maxgobs limit nfds] by auto
  next
    case (step_set_flag f a)
    then have "cache_keeps (full \<and> k) (upd_gob a (set_flag f) s)"
      using flags_neutral [of f] by (intro upd_gob_inv [OF i]) (simp add: gob_ok_def)
    then show ?thesis using step_set_flag assms(3) by simp
  next
    case (step_clr_flag f a)
    then have "cache_keeps (full \<and> k) (upd_gob a (clr_flag f) s)"
      using flags_neutral [of f] by (intro upd_gob_inv [OF i]) (simp add: gob_ok_def)
    then show ?thesis using step_clr_flag assms(3) by simp
  next
    case (step_link a r)
    then have "cache_keeps (full \<and> k) (upd_gob a (\<lambda>g. g\<lparr>gob_reqs := r # gob_reqs g\<rparr>) s)"
      by (intro upd_gob_inv [OF i]) (auto simp: gob_ok_def)
    then show ?thesis using step_link assms(3) by simp
  next
    case (step_unlink a r)
    have "length (remove1 r l) \<le> length l" for l :: "nat list" by (simp add: length_remove1)
    then have "cache_keeps (full \<and> k) (upd_gob a (\<lambda>g. g\<lparr>gob_reqs := remove1 r (gob_reqs g)\<rparr>) s)"
      by (intro upd_gob_inv [OF i]) (auto simp: gob_ok_def intro: order_trans [OF of_nat_mono])
    then show ?thesis using step_unlink assms(3) by simp
  next
    case (step_rename a pname name)
    then have "cache_keeps (full \<and> k) (upd_gob a (\<lambda>g. g\<lparr>gob_name := name, gob_pname := pname\<rparr>) s)"
      by (intro upd_gob_inv [OF i]) (auto simp: gob_ok_def has_flag_def)
    then show ?thesis using step_rename assms(3) by simp
  next
    case (step_data f a)
    then have "cache_keeps (full \<and> k) (upd_gob a f s)"
      by (intro upd_gob_inv [OF i]) (simp add: gob_ok_def has_flag_def)
    then show ?thesis using step_data assms(3) by simp
  next
    case step_rest
    have "cached_as s' a nm = cached_as s a nm" for a nm using step_rest by (simp add: cached_as_def)
    then show ?thesis using step_rest i assms(3) by (simp add: cache_inv_defs)
  qed
qed

lemma reach_inv: "cache_reach n sha full s \<Longrightarrow> cache_keeps full s \<and> \<not> GobCacheMutex s"
proof (induction rule: cache_reach.induct)
  case (start defsize s0 s)
  then show ?case using init_inv [of defsize s0 s] by simp
qed (blast dest: step_inv)

text \<open>C15: in every state that the operations of the cache and of the objects lead to, in any order, a name in the table leads to a
  cached object of that name, the list by use holds exactly the cached objects, once each, cached objects are in
  use, objects on the free list are not, an object in use has at least as many references as requests, and no operation leaves the
  mutex of the cache taken.  As long as no call has entered an object under a name that was taken (\<open>full\<close>), the table also leads to
  every cached object, so no two of them have the same name.  Of the callers this asks only that the references dropped are their own,
  that a linked request holds one, and that an object freed outright has no requests.\<close>

theorem cache_consistent:
  assumes "cache_reach n sha full s"
  shows "check_cache_consistency s \<and> \<not> GobCacheMutex s \<and>
    (\<forall>nm a. ep_hash_search (OpenGOBCache s) nm = Some a \<longrightarrow> cached_as s a nm) \<and>
    (full \<longrightarrow> (\<forall>nm a. cached_as s a nm \<longrightarrow> ep_hash_search (OpenGOBCache s) nm = Some a)) \<and>
    (\<forall>a. a \<in> set (GobsByUse s) \<longleftrightarrow> (\<exists>nm. cached_as s a nm)) \<and>
    (\<forall>a g. gobs s a = Some g \<and> has_flag GOBF_INCACHE g \<longrightarrow> has_flag GOBF_INUSE g) \<and>
    (\<forall>a g. gobs s a = Some g \<and> has_flag GOBF_INUSE g \<longrightarrow> int (length (gob_reqs g)) \<le> gob_refcnt g) \<and>
    distinct (GobFreeList s) \<and> (\<forall>a\<in>set (GobFreeList s). \<exists>g. gobs s a = Some g \<and> \<not> has_flag GOBF_INUSE g)"
proof -
  have i: "cache_keeps full s" "\<not> GobCacheMutex s" using reach_inv [OF assms] by simp_all
  have "full \<longrightarrow> (\<forall>nm a. cached_as s a nm \<longrightarrow> ep_hash_search (OpenGOBCache s) nm = Some a)"
    using i(1) by (cases full) (simp_all add: cache_keeps_def table_ok_def)
  moreover have "\<forall>a. a \<in> set (GobsByUse s) \<longleftrightarrow> (\<exists>nm. cached_as s a nm)"
    using i(1) unfolding cache_keeps_def lru_ok_def by blast
  moreover have "store_ok s" using i(1) unfolding cache_keeps_def by blast
  ultimately show ?thesis
    using i(2) keeps_found [OF i(1)] inv_consistent [OF i(1)] unfolding store_ok_def gob_ok_def by blast
qed

text \<open>A library right after initialisation, and a name.\<close>

definition bare_lib :: "(byte list, unit) gdp_lib" where
  "bare_lib = \<lparr>gobs = Map.empty, gob_brk = 0, GobFreeList = [], OpenGOBCache = \<lparr>hfunc = def_hfunc, tabsize = 0, tab = []\<rparr>,
     GobsByUse = [], GobCacheMutex = False, reqs = Map.empty, req_brk = 0, ReqFreeList = [], chan_reqs = [], MaxRid = 0,
     ev_q = no_events, pdu_freelist = [], lib_conf = sample_conf, lib_clk = Inr (1000, 0), my_name = replicate 32 7,
     sent = [], adverts = []\<rparr>"

definition sample_lib :: "(byte list, unit) gdp_lib" where
  "sample_lib = the (gdp_gob_cache_init 2003 bare_lib)"

definition sample_name :: "byte list" where
  "sample_name = replicate 32 1"

lemma sample_name_valid: "gdp_name_is_valid sample_name"
  by (simp add: gdp_name_is_valid_def sample_name_def upt_rec numeral_eq_Suc)

lemma reach_on: "cache_reach n sha full s \<Longrightarrow> cache_step n sha k s s' \<Longrightarrow> k \<Longrightarrow> cache_reach n sha full s'"
  using cache_reach.step [of n sha full s k s'] by simp

lemma sample_reach: "cache_reach n sha True sample_lib" "lib_clk sample_lib = Inr (1000, 0)" "gobs sample_lib = Map.empty"
proof -
  have i: "gdp_gob_cache_init 2003 bare_lib = Some sample_lib"
    by (simp add: sample_lib_def gdp_gob_cache_init_def ep_hash_new_def)
  show "cache_reach n sha True sample_lib"
    by (rule cache_reach.start [OF i]) (simp_all add: bare_lib_def)
  show "lib_clk sample_lib = Inr (1000, 0)" "gobs sample_lib = Map.empty"
    by (simp_all add: sample_lib_def gdp_gob_cache_init_def ep_hash_new_def bare_lib_def)
qed

text \<open>An object that has been made and entered into the cache, and that is unlocked: it is still pending.\<close>

definition sample_gob :: "unit gdp_gob" where
  "sample_gob = zeroed_gob\<lparr>gob_refcnt := 1, gob_name := sample_name, gob_pname := gdp_printable_name sample_name,
     gob_flags := GOBF_INUSE OR GOBF_PENDING\<rparr>"

lemma keep_bits [simp]:
  "\<not> EP_UT_BITSET GOBF_KEEPLOCKED GOBF_PENDING" "\<not> EP_UT_BITSET GOBF_KEEPLOCKED GOBF_INCACHE"
  by (simp_all add: EP_UT_BITSET_def GOBF_KEEPLOCKED_def GOBF_PENDING_def GOBF_INCACHE_def)

lemma sample_gob_flags [simp]:
  "has_flag GOBF_INUSE sample_gob" "has_flag GOBF_PENDING sample_gob" "\<not> has_flag GOBF_DROPPING sample_gob"
  "\<not> has_flag GOBF_ISLOCKED sample_gob" "\<not> has_flag GOBF_INCACHE sample_gob" "gob_name sample_gob = sample_name"
  "gob_refcnt sample_gob = 1" "gob_reqs sample_gob = []" "\<not> has_flag GOBF_KEEPLOCKED sample_gob"
  by (simp_all add: sample_gob_def) (simp_all add: EP_UT_BITSET_def GOBF_PENDING_def GOBF_KEEPLOCKED_def GOBF_INUSE_def
    zeroed_gob_def)

lemma sample_cached:
  obtains s :: "(byte list, unit) gdp_lib" and g where "cache_reach n sha True s" "cached_as s 0 sample_name" "gobs s 0 = Some g"
    "\<not> has_flag GOBF_ISLOCKED g" "gob_refcnt g = 1" "has_flag GOBF_PENDING g" "\<not> has_flag GOBF_DROPPING g"
    "has_flag GOBF_INUSE g" "has_flag GOBF_INCACHE g" "gob_utime g = 1000" "lib_clk s = Inr (1000, 0)"
    "gob_reqs g = []" "\<not> has_flag GOBF_KEEPLOCKED g" "gob_name g = sample_name" "GobsByUse s = [0]"
proof -
  let ?s1 = "sample_lib\<lparr>gob_brk := 1, gobs := [0 \<mapsto> sample_gob]\<rparr>"
  have b: "gob_brk sample_lib = 0" "GobFreeList sample_lib = []" "GobsByUse sample_lib = []" "\<not> GobCacheMutex sample_lib"
    by (simp_all add: sample_lib_def gdp_gob_cache_init_def ep_hash_new_def bare_lib_def)
  have "gdp_gob_new sha [] 0 (Some sample_name) sample_lib = Some (0, ?s1)"
    using b sample_reach(3) sample_name_valid
    by (simp add: gdp_gob_new_def alloc_gob_def sample_gob_def zeroed_gob_def)
  then have r1: "cache_reach n sha True ?s1"
    by (rule reach_on [OF sample_reach(1) cache_step.step_new TrueI])
  let ?g = "clr_flag GOBF_ISLOCKED sample_gob"
  let ?g2 = "set_flag GOBF_ISLOCKED ?g"
  let ?g3 = "set_flag GOBF_INCACHE (?g2\<lparr>gob_utime := 1000\<rparr>)"
  let ?s2 = "?s1\<lparr>gobs := [0 \<mapsto> ?g3], GobsByUse := [0],
    OpenGOBCache := snd (ep_hash_insert (OpenGOBCache ?s1) sample_name (Some 0))\<rparr>"
  have a: "gdp_gob_cache_add 0 ?s1 = Some ?s2"
    using b sample_reach(2)
    by (simp add: gdp_gob_cache_add_def gdp_gob_unlock_def cache_lock_def gdp_gob_lock_def add_cache_unlocked_def
      isgood_flag LIST_INSERT_HEAD_def now_sec_def cache_unlock_def)
  have "ep_hash_search (OpenGOBCache ?s1) sample_name = None"
    using inv_miss [of ?s1] reach_inv [OF r1] by (auto simp: cached_as_def)
  then have r2: "cache_reach n sha True ?s2"
    by (intro reach_on [OF r1 cache_step.step_add [OF a]]) (simp add: add_safe_def)
  let ?s3 = "?s2\<lparr>gobs := [0 \<mapsto> clr_flag GOBF_ISLOCKED ?g3]\<rparr>"
  have "gdp_gob_unlock 0 ?s2 = Some ?s3" by (simp add: gdp_gob_unlock_def)
  then have "cache_reach n sha True ?s3"
    by (rule reach_on [OF r2 cache_step.step_unlock TrueI])
  then show thesis
    by (rule that [of ?s3 "clr_flag GOBF_ISLOCKED ?g3"])
      (use sample_reach(2) in \<open>simp_all add: cached_as_def\<close>)
qed

theorem cache_consistent_witness:
  "\<exists>s. ep_hash_search (OpenGOBCache s) sample_name = Some 0 \<and> GobsByUse (s :: (byte list, unit) gdp_lib) \<noteq> [] \<and>
    check_cache_consistency s"
proof -
  obtain s :: "(byte list, unit) gdp_lib" and g where s: "cache_reach 0 (\<lambda>_. []) True s" "cached_as s 0 sample_name" "gobs s 0 = Some g"
    by (rule sample_cached)
  then have "ep_hash_search (OpenGOBCache s) sample_name = Some 0" "0 \<in> set (GobsByUse s)" "check_cache_consistency s"
    using cache_consistent [OF s(1)] by blast+
  then show ?thesis by (intro exI [of _ s] conjI) auto
qed

text \<open>The object that \<^verbatim>\<open>_gdp_gob_cache_get\<close> makes or finds is what the table has for the name.\<close>

lemma get_given:
  assumes "cache_keeps full s" "\<not> GobCacheMutex s" "gdp_name_is_valid name" "EP_UT_BITSET GGCF_CREATE f1"
    "\<forall>a g. ep_hash_search (OpenGOBCache s) name = Some a \<and> gobs s a = Some g \<longrightarrow> usable f1 g \<and> \<not> has_flag GOBF_ISLOCKED g"
  obtains a s1 g where "gdp_gob_cache_get sha rand alg name f1 s = Some (Some a, s1)" "cache_keeps full s1" "\<not> GobCacheMutex s1"
    "gobs s1 a = Some g" "has_flag GOBF_INCACHE g" "\<not> has_flag GOBF_DROPPING g" "ep_hash_search (OpenGOBCache s1) name = Some a"
    "has_flag GOBF_ISLOCKED g"
proof (cases "ep_hash_search (OpenGOBCache s) name")
  case None
  show thesis
    by (rule get_create [OF assms(1,2) None assms(4,3), of sha rand alg]) (rule that)
next
  case (Some a)
  then obtain g where g: "gobs s a = Some g" using keeps_found [OF assms(1) Some] by (auto simp: cached_as_def)
  then have u: "usable f1 g" "\<not> has_flag GOBF_ISLOCKED g" using assms(5) Some by auto
  show thesis
    by (rule that [OF get_found [OF assms(1,2) Some g u(2,1)], of "the (gobs (after_hit f1 a g s) a)"])
      (use hit_inv [OF assms(1) g u(1)] u assms(2) Some in \<open>auto simp: after_hit_def usable_def Let_def\<close>)
qed

text \<open>The object handed out, once unlocked: its opener has finished (\<open>fin\<close>) and cleared the mark of a pending object, or not.\<close>

definition given_back :: "bool \<Rightarrow> nat \<Rightarrow> ('b, 'x) gdp_lib \<Rightarrow> ('b, 'x) gdp_lib option" where
  "given_back fin a s = gdp_gob_unlock a (if fin then upd_gob a (clr_flag GOBF_PENDING) s else s)"

lemma given_back_spec:
  assumes "cache_keeps full s" "gobs s a = Some g"
  obtains s' g' where "given_back fin a s = Some s'" "cache_keeps full s'" "GobCacheMutex s' = GobCacheMutex s" "gobs s' a = Some g'"
    "OpenGOBCache s' = OpenGOBCache s" "\<not> has_flag GOBF_ISLOCKED g'" "gob_refcnt g' = gob_refcnt g"
    "\<forall>flags. usable flags g' \<longleftrightarrow> has_flag GOBF_INUSE g \<and> has_flag GOBF_INCACHE g \<and> \<not> has_flag GOBF_DROPPING g \<and>
      (\<not> fin \<and> has_flag GOBF_PENDING g \<longrightarrow> EP_UT_BITSET GGCF_GET_PENDING flags)"
proof -
  let ?g = "if fin then clr_flag GOBF_PENDING g else g"
  let ?s = "s\<lparr>gobs := (gobs s)(a \<mapsto> clr_flag GOBF_ISLOCKED ?g)\<rparr>"
  have "given_back fin a s = Some ?s"
    using assms(2) by (simp add: given_back_def gdp_gob_unlock_def fun_upd_idem)
  moreover have "cache_keeps full ?s"
    by (rule inv_upd [OF assms]) (use inv_gob [OF assms] in \<open>auto simp: gob_ok_def\<close>)
  ultimately show thesis
    by (rule that [of ?s "clr_flag GOBF_ISLOCKED ?g"]) (auto simp: usable_def)
qed

text \<open>C17: \<^verbatim>\<open>_gdp_gob_cache_get\<close> with leave to create gives a locked object, unless the one of that name is locked or being dropped or
  opened.  Once its opener has finished and unlocked it (or it was open before), whoever asks for the name, without only peeking, gets that
  same object: locked, counted once more, and first on the list by use.  While it is pending, those who take
  pending objects get it, and those who may not create one get none.\<close>

theorem cache_get_again:
  assumes "cache_reach n sha full s" "gdp_name_is_valid name" "EP_UT_BITSET GGCF_CREATE f1"
    "\<forall>a g. ep_hash_search (OpenGOBCache s) name = Some a \<and> gobs s a = Some g \<longrightarrow> usable f1 g \<and> \<not> has_flag GOBF_ISLOCKED g"
    "\<not> EP_UT_BITSET GGCF_PEEK f2"
  shows "\<exists>a s1 s2. gdp_gob_cache_get sha rand alg name f1 s = Some (Some a, s1) \<and>
    has_flag GOBF_ISLOCKED (the (gobs s1 a)) \<and> given_back fin a s1 = Some s2 \<and>
    (if fin \<or> \<not> has_flag GOBF_PENDING (the (gobs s1 a)) \<or> EP_UT_BITSET GGCF_GET_PENDING f2
     then \<exists>s3. gdp_gob_cache_get sha rand' alg' name f2 s2 = Some (Some a, s3) \<and>
       has_flag GOBF_ISLOCKED (the (gobs s3 a)) \<and> gob_refcnt (the (gobs s3 a)) = gob_refcnt (the (gobs s1 a)) + 1 \<and>
       GobsByUse s3 = a # remove1 a (GobsByUse s2)
     else \<not> EP_UT_BITSET GGCF_CREATE f2 \<longrightarrow> (\<exists>s3. gdp_gob_cache_get sha rand' alg' name f2 s2 = Some (None, s3)))"
proof -
  have i: "cache_keeps full s" "\<not> GobCacheMutex s" using reach_inv [OF assms(1)] by simp_all
  obtain a s1 g where g: "gdp_gob_cache_get sha rand alg name f1 s = Some (Some a, s1)" "cache_keeps full s1" "\<not> GobCacheMutex s1"
    "gobs s1 a = Some g" "has_flag GOBF_INCACHE g" "\<not> has_flag GOBF_DROPPING g" "ep_hash_search (OpenGOBCache s1) name = Some a"
    "has_flag GOBF_ISLOCKED g"
    by (rule get_given [OF i assms(2-4), of sha rand alg])
  have u: "has_flag GOBF_INUSE g" using inv_gob [OF g(2,4)] g(5) by (simp add: gob_ok_def)
  obtain s2 h where h: "given_back fin a s1 = Some s2" "cache_keeps full s2" "GobCacheMutex s2 = GobCacheMutex s1" "gobs s2 a = Some h"
    "OpenGOBCache s2 = OpenGOBCache s1" "\<not> has_flag GOBF_ISLOCKED h" "gob_refcnt h = gob_refcnt g"
    "\<forall>flags. usable flags h \<longleftrightarrow> has_flag GOBF_INUSE g \<and> has_flag GOBF_INCACHE g \<and> \<not> has_flag GOBF_DROPPING g \<and>
      (\<not> fin \<and> has_flag GOBF_PENDING g \<longrightarrow> EP_UT_BITSET GGCF_GET_PENDING flags)"
    by (rule given_back_spec [OF g(2,4), of fin])
  have m: "\<not> GobCacheMutex s2" "ep_hash_search (OpenGOBCache s2) name = Some a" using h(3,5) g(3,7) by simp_all
  show ?thesis
  proof (cases "fin \<or> \<not> has_flag GOBF_PENDING g \<or> EP_UT_BITSET GGCF_GET_PENDING f2")
    case True
    then have "usable f2 h" using h(8) u g(5,6) by auto
    from get_found [OF h(2) m h(4,6) this, of sha rand' alg'] show ?thesis
      using g(1,4,8) h(1,7) True assms(5)
      by (intro exI [of _ a] exI [of _ s1] exI [of _ s2]) (auto simp: after_hit_def Let_def)
  next
    case False
    then have "\<not> usable f2 h" using h(8) by auto
    from get_unusable [OF h(2) m h(4,6) this, of sha rand' alg'] show ?thesis
      using g(1,4,8) h(1) False by (intro exI [of _ a] exI [of _ s1] exI [of _ s2]) (auto simp: Let_def)
  qed
qed

theorem cache_get_again_witness:
  "\<exists>a s1 s2 s3. gdp_gob_cache_get (\<lambda>_. []) [] 0 sample_name GGCF_CREATE sample_lib = Some (Some a, s1) \<and>
    given_back True a s1 = Some s2 \<and> gdp_gob_cache_get (\<lambda>_. []) [] 0 sample_name 0 s2 = Some (Some a, s3) \<and>
    gob_refcnt (the (gobs s3 a)) = gob_refcnt (the (gobs s1 a)) + 1"
proof -
  have f: "EP_UT_BITSET GGCF_CREATE GGCF_CREATE" "\<not> EP_UT_BITSET GGCF_PEEK 0"
    by (simp_all add: EP_UT_BITSET_def GGCF_CREATE_def)
  have "\<forall>a g. ep_hash_search (OpenGOBCache sample_lib) sample_name = Some a \<and> gobs sample_lib a = Some g \<longrightarrow>
      usable GGCF_CREATE g \<and> \<not> has_flag GOBF_ISLOCKED g"
    by (simp add: sample_reach(3))
  from cache_get_again [OF sample_reach(1) sample_name_valid f(1) this f(2), of "\<lambda>_. []" "[]" 0 True "[]" 0]
  show ?thesis by auto
qed

text \<open>C16: reclaiming returns, and takes only objects that are unlocked, unreferenced, not being dropped already, and unused for at least a second: every object is
  exactly as it was, or was one of these and is freed now.  All such objects that have not been used for \<open>maxage\<close> seconds are
  freed and are found no more, on the list or under their name, unless there are more cached objects than one pass looks at.  As
  long as the names have been respected (\<open>full\<close>), the objects that are left are still found under their names, however many passes are needed.\<close>

theorem cache_reclaim_safe:
  assumes "cache_reach n sha full s" "0 < maxage"
  shows "\<exists>s'. gdp_gob_cache_reclaim (Suc n) maxgobs limit nfds maxage s = Some s' \<and>
    (\<forall>a. gobs s' a = gobs s a \<or> (\<exists>g. gobs s a = Some g \<and> stale (now_sec s - 1) g \<and> freed a s')) \<and>
    (length (GobsByUse s) \<le> maxgobs + 1 \<longrightarrow> (\<forall>a g. gobs s a = Some g \<and> stale (now_sec s - maxage) g \<longrightarrow>
      freed a s' \<and> a \<notin> set (GobsByUse s') \<and> (\<forall>nm. ep_hash_search (OpenGOBCache s') nm \<noteq> Some a))) \<and>
    (full \<longrightarrow> (\<forall>a nm. gobs s' a = gobs s a \<longrightarrow>
      (ep_hash_search (OpenGOBCache s') nm = Some a \<longleftrightarrow> ep_hash_search (OpenGOBCache s) nm = Some a)))"
proof -
  have i: "cache_keeps full s" "\<not> GobCacheMutex s" using reach_inv [OF assms(1)] by simp_all
  obtain s' where s: "gdp_gob_cache_reclaim (Suc n) maxgobs limit nfds maxage s = Some s'" "cache_keeps full s'"
    "reclaimed (now_sec s - 1) s s'"
    "length (GobsByUse s) \<le> maxgobs + 1 \<longrightarrow> (\<forall>a g. gobs s a = Some g \<and> stale (now_sec s - maxage) g \<longrightarrow> freed a s')"
    using reclaim_spec [OF i assms(2), of n maxgobs limit nfds] by blast
  have "ep_hash_search (OpenGOBCache s') nm = Some a \<longleftrightarrow> ep_hash_search (OpenGOBCache s) nm = Some a"
    if "full" "gobs s' a = gobs s a" for a nm
    using inv_search [of s' nm a] inv_search [of s nm a] s(2) i(1) that by (simp add: cached_as_def)
  moreover have "gobs s' a = gobs s a \<or> (\<exists>g. gobs s a = Some g \<and> stale (now_sec s - 1) g \<and> freed a s')" for a
    using s(3) [unfolded reclaimed_def, rule_format, of a] unfolding freed_def by blast
  ultimately show ?thesis
    using s(1,4) freed_gone [OF s(2)] by (intro exI [of _ s']) blast
qed

text \<open>The sample object after its only reference has been dropped: it is kept, as its flags say, and grows old.\<close>

lemma sample_idle:
  obtains s :: "(byte list, unit) gdp_lib" and g where "cache_reach n sha True s" "cached_as s 0 sample_name" "gobs s 0 = Some g"
    "stale 1970 g" "now_sec s = 2000" "length (GobsByUse s) \<le> 1"
proof -
  obtain s :: "(byte list, unit) gdp_lib" and g where s: "cache_reach n sha True s" "cached_as s 0 sample_name" "gobs s 0 = Some g"
    "\<not> has_flag GOBF_ISLOCKED g" "gob_refcnt g = 1" "\<not> has_flag GOBF_DROPPING g" "has_flag GOBF_INUSE g" "has_flag GOBF_INCACHE g"
    "gob_utime g = 1000" "gob_reqs g = []" "\<not> has_flag GOBF_KEEPLOCKED g" "gob_name g = sample_name" "GobsByUse s = [0]"
    by (rule sample_cached)
  have b: "\<not> EP_UT_BITSET GOBF_KEEPLOCKED GOBF_DEFER_FREE" "\<not> EP_UT_BITSET GOBF_ISLOCKED GOBF_DEFER_FREE"
    "\<not> EP_UT_BITSET GOBF_INUSE GOBF_DEFER_FREE" "\<not> EP_UT_BITSET GOBF_INCACHE GOBF_DEFER_FREE"
    "\<not> EP_UT_BITSET GOBF_DROPPING GOBF_DEFER_FREE" "EP_UT_BITSET GOBF_DEFER_FREE GOBF_DEFER_FREE"
    by (simp_all add: EP_UT_BITSET_def GOBF_KEEPLOCKED_def GOBF_ISLOCKED_def GOBF_INUSE_def GOBF_INCACHE_def GOBF_DROPPING_def
      GOBF_DEFER_FREE_def)
  let ?g = "set_flag GOBF_ISLOCKED (set_flag GOBF_DEFER_FREE g)"
  let ?h = "clr_flag GOBF_ISLOCKED (?g\<lparr>gob_refcnt := 0\<rparr>)"
  let ?a = "upd_gob 0 (set_flag GOBF_DEFER_FREE) s"
  let ?b = "s\<lparr>gobs := (gobs s)(0 \<mapsto> ?g)\<rparr>"
  let ?c = "s\<lparr>gobs := (gobs s)(0 \<mapsto> ?h)\<rparr>"
  have ra: "cache_reach n sha True ?a"
    by (rule reach_on [OF s(1) cache_step.step_set_flag TrueI]) (simp add: flags_set_def)
  have "gdp_gob_lock 0 ?a = Some ?b" using s(3,4) b by (simp add: gdp_gob_lock_def)
  then have rb: "cache_reach n sha True ?b" by (rule reach_on [OF ra cache_step.step_lock TrueI])
  have "gdp_gob_decref (gdp_gob_free (Suc n)) False 0 ?b = Some (True, ?c)"
    using s(5,7,11) b by (simp add: gdp_gob_decref_def isgood_flag gdp_gob_unlock_def Let_def)
  then have rc: "cache_reach n sha True ?c"
    by (rule reach_on [OF rb cache_step.step_decref TrueI]) (use s(5,10) in simp)
  have "cache_reach n sha True (?c\<lparr>lib_clk := Inr (2000, 0)\<rparr>)"
    by (rule reach_on [OF rc cache_step.step_rest TrueI]) simp_all
  then show thesis
    by (rule that [of _ ?h]) (use s b in \<open>simp_all add: cached_as_def stale_def now_sec_def\<close>)
qed

theorem cache_reclaim_safe_witness:
  "(\<exists>s s' :: (byte list, unit) gdp_lib. ep_hash_search (OpenGOBCache s) sample_name = Some 0 \<and>
    gdp_gob_cache_reclaim 1 100000 0 (\<lambda>_. 5) 30 s = Some s' \<and> ep_hash_search (OpenGOBCache s') sample_name = Some 0) \<and>
   (\<exists>s s' :: (byte list, unit) gdp_lib. ep_hash_search (OpenGOBCache s) sample_name = Some 0 \<and>
    gdp_gob_cache_reclaim 1 100000 0 (\<lambda>_. 5) 30 s = Some s' \<and> freed 0 s' \<and> ep_hash_search (OpenGOBCache s') sample_name \<noteq> Some 0)"
proof
  obtain s :: "(byte list, unit) gdp_lib" and g where s: "cache_reach 0 (\<lambda>_. []) True s" "cached_as s 0 sample_name" "gobs s 0 = Some g" "gob_refcnt g = 1"
    by (rule sample_cached)
  have e: "ep_hash_search (OpenGOBCache s) sample_name = Some 0" using reach_inv [OF s(1)] s(2) by (simp add: inv_search)
  have n: "\<not> stale t g" for t using s(4) by (simp add: stale_def)
  from cache_reclaim_safe [OF s(1), of 30 100000 0 "\<lambda>_. 5"]
  obtain s' where r: "gdp_gob_cache_reclaim (Suc 0) 100000 0 (\<lambda>_. 5) 30 s = Some s'"
    "gobs s' 0 = gobs s 0 \<or> (\<exists>g. gobs s 0 = Some g \<and> stale (now_sec s - 1) g \<and> freed 0 s')"
    "\<forall>a nm. gobs s' a = gobs s a \<longrightarrow>
      (ep_hash_search (OpenGOBCache s') nm = Some a \<longleftrightarrow> ep_hash_search (OpenGOBCache s) nm = Some a)"
    by auto
  then show "\<exists>s s' :: (byte list, unit) gdp_lib. ep_hash_search (OpenGOBCache s) sample_name = Some 0 \<and>
    gdp_gob_cache_reclaim 1 100000 0 (\<lambda>_. 5) 30 s = Some s' \<and> ep_hash_search (OpenGOBCache s') sample_name = Some 0"
    using e n s(3) by (intro exI [of _ s] exI [of _ s']) auto
next
  obtain s :: "(byte list, unit) gdp_lib" and g where s: "cache_reach 0 (\<lambda>_. []) True s" "cached_as s 0 sample_name" "gobs s 0 = Some g"
    "stale 1970 g" "now_sec s = 2000" "length (GobsByUse s) \<le> 1"
    by (rule sample_idle)
  have e: "ep_hash_search (OpenGOBCache s) sample_name = Some 0" using reach_inv [OF s(1)] s(2) by (simp add: inv_search)
  have l: "length (GobsByUse s) \<le> 100000 + 1" "stale (now_sec s - 30) g" using s(4-6) by simp_all
  from cache_reclaim_safe [OF s(1), of 30 100000 0 "\<lambda>_. 5"]
  obtain s' where "gdp_gob_cache_reclaim (Suc 0) 100000 0 (\<lambda>_. 5) 30 s = Some s'"
    "\<forall>a g. gobs s a = Some g \<and> stale (now_sec s - 30) g \<longrightarrow>
      freed a s' \<and> a \<notin> set (GobsByUse s') \<and> (\<forall>nm. ep_hash_search (OpenGOBCache s') nm \<noteq> Some a)"
    using l(1) by auto
  then show "\<exists>s s' :: (byte list, unit) gdp_lib. ep_hash_search (OpenGOBCache s) sample_name = Some 0 \<and>
    gdp_gob_cache_reclaim 1 100000 0 (\<lambda>_. 5) 30 s = Some s' \<and> freed 0 s' \<and> ep_hash_search (OpenGOBCache s') sample_name \<noteq> Some 0"
    using e l(2) s(3) by (intro exI [of _ s] exI [of _ s']) auto
qed

text \<open>C25: asking for leave to create while the object of that name is still pending (between the request to
  open it and the answer) makes a second object of the same name.  Both are marked as cached and are on
  the list by use, but the table leads to the new one only.  The two callers of \<^verbatim>\<open>_gdp_gob_cache_get\<close> that
  create objects ask like that, and what keeps them from it is outside the cache: \<^verbatim>\<open>gdp_gin_open\<close> holds \<^verbatim>\<open>OpenMutex\<close> until the
  object is open, and the daemon does not unlock an object before it is.\<close>

theorem cache_get_duplicate:
  assumes "cache_reach n sha full s" "gdp_name_is_valid name" "ep_hash_search (OpenGOBCache s) name = Some a"
    "gobs s a = Some g" "has_flag GOBF_PENDING g" "\<not> has_flag GOBF_ISLOCKED g"
  shows "\<exists>b s'. gdp_gob_cache_get sha rand alg name GGCF_CREATE s = Some (Some b, s') \<and> b \<noteq> a \<and>
    cached_as s' a name \<and> cached_as s' b name \<and> {a, b} \<subseteq> set (GobsByUse s') \<and>
    ep_hash_search (OpenGOBCache s') name = Some b"
proof -
  have i: "cache_keeps full s" "\<not> GobCacheMutex s" using reach_inv [OF assms(1)] by simp_all
  have c: "cached_as s a name" by (rule keeps_found [OF i(1) assms(3)])
  have f: "EP_UT_BITSET GGCF_CREATE GGCF_CREATE" "\<not> EP_UT_BITSET GGCF_GET_PENDING GGCF_CREATE"
    by (simp_all add: EP_UT_BITSET_def GGCF_CREATE_def GGCF_GET_PENDING_def)
  have u: "\<not> usable GGCF_CREATE g" using assms(5) f by (simp add: usable_def)
  let ?s = "relocked a g (s\<lparr>GobCacheMutex := True\<rparr>)"
  have i1: "cache_keeps full ?s" "cached_as ?s a name"
    using relocked_inv [of full "s\<lparr>GobCacheMutex := True\<rparr>" a g] i(1) c assms(4) by (simp_all add: cached_as_def)
  obtain b s1 where n: "gdp_gob_new sha rand alg (Some name) ?s = Some (b, s1)"
    using gob_new_total [OF i1(1) assms(2)] by blast
  obtain h where h: "cache_keeps full s1" "gobs s1 b = Some h" "has_flag GOBF_INUSE h" "\<not> has_flag GOBF_INCACHE h"
    "\<not> has_flag GOBF_ISLOCKED h" "OpenGOBCache s1 = OpenGOBCache s" "GobsByUse s1 = GobsByUse s"
    "gob_name h = name" "\<And>c. c \<noteq> b \<Longrightarrow> gobs s1 c = gobs ?s c"
    by (rule gob_new_inv [OF n i1(1)]) (use assms(2) in simp)
  have ba: "cached_as s1 a name" by (rule keeps_found [OF h(1)]) (use h(6) assms(3) in simp)
  then have ne: "b \<noteq> a" using h(2,4) by (auto simp: cached_as_def)
  have na: "b \<notin> set (GobsByUse s1)" "a \<in> set (GobsByUse s1)"
    using h(1,2,4) ba by (auto simp: cache_keeps_def lru_ok_def cached_as_def)
  let ?t = "s1\<lparr>gobs := (gobs s1)(b \<mapsto> set_flag GOBF_ISLOCKED h)\<rparr>"
  have l: "gdp_gob_lock b s1 = Some ?t" using h(2,5) by (simp add: gdp_gob_lock_def)
  obtain s2 h2 where a: "add_cache_unlocked b ?t = Some s2" "gobs s2 = (gobs ?t)(b \<mapsto> h2)" "has_flag GOBF_INCACHE h2"
    "gob_name h2 = name" "GobsByUse s2 = b # GobsByUse s1"
    "OpenGOBCache s2 = snd (ep_hash_insert (OpenGOBCache s1) name (Some b))"
    by (rule add_fresh [of ?t b "set_flag GOBF_ISLOCKED h"]) (use h(3,4,8) na in simp_all)
  have "gdp_gob_cache_get sha rand alg name GGCF_CREATE s = Some (Some b, cache_unlock s2)"
    using get_unusable [OF i assms(3,4,6) u, of sha rand alg] f(1) n l a(1) by (simp add: Let_def)
  moreover have "ep_hash_search (OpenGOBCache s2) name = Some b"
    using insert_spec(2) [OF keeps_wf [OF h(1)], of name "Some b"] a(6) by simp
  ultimately show ?thesis
    using a ba ne na by (intro exI [of _ b] exI [of _ "cache_unlock s2"]) (auto simp: cache_unlock_def cached_as_def)
qed

theorem cache_get_duplicate_witness:
  "\<exists>b s s'. ep_hash_search (OpenGOBCache (s :: (byte list, unit) gdp_lib)) sample_name = Some 0 \<and>
    gdp_gob_cache_get (\<lambda>_. []) [] 0 sample_name GGCF_CREATE s = Some (Some b, s') \<and> b \<noteq> 0 \<and>
    cached_as s' 0 sample_name \<and> cached_as s' b sample_name"
proof -
  obtain s :: "(byte list, unit) gdp_lib" and g where s: "cache_reach 0 (\<lambda>_. []) True s" "cached_as s 0 sample_name" "gobs s 0 = Some g"
    "\<not> has_flag GOBF_ISLOCKED g" "has_flag GOBF_PENDING g"
    by (rule sample_cached)
  have e: "ep_hash_search (OpenGOBCache s) sample_name = Some 0" using reach_inv [OF s(1)] s(2) by (simp add: inv_search)
  show ?thesis
    using cache_get_duplicate [OF s(1) sample_name_valid e s(3,5,4), of "[]" 0] e by blast
qed

end
