(* ===== verification/Gdp_Req.thy ===== *)
theory Gdp_Req
  imports Gdp_Cache_Steps
begin

text \<open>
  Requests of \<^verbatim>\<open>gdp/gdp_req.c\<close>: allocation and request ids, sending, finding the request a response
  belongs to, and the responses a server makes.  Releasing requests is in \<^verbatim>\<open>Gdp_Gob\<close>, where objects
  release theirs.

  \<^term>\<open>None\<close> stands for a step that does not return or follows a null or dangling pointer.  A response PDU and
  the command PDU of a request are different objects.
\<close>

section \<open>Output to the channel\<close>

text \<open>What \<^verbatim>\<open>_gdp_pdu_out\<close> sees of the channel: whether there is one, and whether the buffer has room
  for the bytes of a message.\<close>

record link =
  link_open :: bool
  link_room :: "gdp_msg \<Rightarrow> bool"

text \<open>\<^verbatim>\<open>_gdp_pdu_out\<close> on the library's state, which keeps the PDUs given to the channel.  \<open>pdu_out_link\<close> below
  relates it to the operation on the channel itself.\<close>

definition lib_pdu_out ::
  "link \<Rightarrow> gdp_pdu option \<Rightarrow> ('b, 'x) gdp_lib \<Rightarrow> (ep_stat \<times> gdp_pdu option \<times> ('b, 'x) gdp_lib) option" where
  "lib_pdu_out L pdu s =
     (case pdu of
        None \<Rightarrow> Some (EP_STAT_ASSERT_ABORT, None, s)
      | Some p \<Rightarrow>
          if \<not> link_open L then Some (GDP_STAT_DEAD_DAEMON, Some p, s)
          else
            let p = (if gdp_name_is_valid (pdu_src p) then p else p\<lparr>pdu_src := my_name s\<rparr>) in
            (case pdu_msg p of
               None \<Rightarrow> None
             | Some m \<Rightarrow>
                 let m = pdu_msg_flags m;
                     p = p\<lparr>pdu_msg := Some m\<rparr>
                 in if \<not> link_room L m then Some (GDP_STAT_PDU_WRITE_FAIL, Some p, s)
                    else Some (EP_STAT_OK, Some p, s\<lparr>sent := sent s @ [p]\<rparr>)))"

lemma pdu_out_link:
  assumes "L = \<lparr>link_open = (chan \<noteq> None), link_room = (\<lambda>m. case evbuffer_reserve_space S (gdp_buf_new E) (length (pack m)) of
      (istat, iov_len) \<Rightarrow> 0 < istat \<and> length (pack m) \<le> iov_len \<and>
        0 \<le> fst (evbuffer_commit_space S (gdp_buf_new E) (pack m)))\<rparr>"
  shows "map_option (\<lambda>(estat, p, _). (estat, p)) (gdp_pdu_out E B S pack (my_name s) pdu chan) =
    map_option (\<lambda>(estat, p, _). (estat, p)) (lib_pdu_out L pdu s)"
  unfolding assms gdp_pdu_out_def lib_pdu_out_def
  by (auto simp: Let_def split: option.splits prod.splits if_splits)

section \<open>Request ids and new requests\<close>

definition gdp_rid_new :: "('b, 'x) gdp_lib \<Rightarrow> u32 \<times> ('b, 'x) gdp_lib" where
  "gdp_rid_new s =
     (let r = MaxRid s + 1;
          r = (if r = GDP_PDU_ANY_RID then 100 else r)
      in (r, s\<lparr>MaxRid := r\<rparr>))"

definition zeroed_req :: "'b gdp_req" where
  "zeroed_req = \<lparr>req_state = 0, req_gob = None, req_cpdu = None, req_rpdu = None, req_stat = 0, req_nextrec = 0,
     req_s_results = 0, req_numrecs = 0, req_flags = 0, req_act_ts = ep_time_zero, req_postproc = None,
     req_sub_cbfunc = None, req_sub_cbarg = None, req_gin = None, req_r_results = 0, req_events = [],
     req_seqnext = 0, req_ev_to = None\<rparr>"

definition GDP_SEQNO_NONE :: u16 where "GDP_SEQNO_NONE = 0x8000"

text \<open>The first request of the free list, unless it is still in use or on a list, or else a new one.\<close>

definition alloc_req :: "('b, 'x) gdp_lib \<Rightarrow> nat \<times> ('b, 'x) gdp_lib" where
  "alloc_req s =
     (let fresh = (\<lambda>s. (req_brk s, s\<lparr>req_brk := req_brk s + 1, reqs := (reqs s)(req_brk s \<mapsto> zeroed_req)\<rparr>)) in
      case ReqFreeList s of
        [] \<Rightarrow> fresh s
      | r # fl \<Rightarrow>
          let s = s\<lparr>ReqFreeList := fl\<rparr> in
          (case reqs s r of
             None \<Rightarrow> fresh s
           | Some req \<Rightarrow>
               if req_state req = GDP_REQ_FREE \<and> \<not> has_req_flag GDP_REQ_ON_GOB_LIST req \<and>
                  \<not> has_req_flag GDP_REQ_ON_CHAN_LIST req then (r, s)
               else fresh s))"

text \<open>The PDU of a request that does not come with one; the destination is the object.\<close>

definition req_new_pdu ::
  "gdp_cmd \<Rightarrow> 'x gdp_gob option \<Rightarrow> u32 \<Rightarrow> ('b, 'x) gdp_lib \<Rightarrow> gdp_pdu \<times> ('b, 'x) gdp_lib" where
  "req_new_pdu c gob flags s =
     (let dst = (case gob of Some g \<Rightarrow> gob_name g | None \<Rightarrow> replicate 32 0);
          (r, s) = (if (gob = None \<or> \<not> EP_UT_BITSET GDP_REQ_PERSIST flags) \<and> \<not> EP_UT_BITSET GDP_REQ_ALLOC_RID flags
                    then (GDP_PDU_NO_RID, s) else gdp_rid_new s);
          msg = gdp_msg_new c r GDP_PDU_NO_L5SEQNO;
          (pdu, fl) = gdp_pdu_new (pdu_freelist s) (Some msg) (my_name s) dst GDP_SEQNO_NONE
      in (pdu, s\<lparr>pdu_freelist := fl\<rparr>))"

text \<open>\<open>chan\<close> says whether there is a channel; its list of requests is in the library's state.\<close>

definition gdp_req_new ::
  "gdp_cmd \<Rightarrow> nat option \<Rightarrow> bool \<Rightarrow> gdp_pdu option \<Rightarrow> u32 \<Rightarrow> ('b, 'x) gdp_lib \<Rightarrow>
   (ep_stat \<times> nat option \<times> ('b, 'x) gdp_lib) option" where
  "gdp_req_new c gob chan pdu flags s =
     do {
       let flags = (if EP_UT_BITSET GDP_REQ_ASYNCIO flags then flags OR GDP_REQ_ALLOC_RID else flags);
       g \<leftarrow> (case gob of None \<Rightarrow> Some None | Some a \<Rightarrow> map_option Some (gobs s a));
       if (case g of None \<Rightarrow> False | Some g \<Rightarrow> \<not> GDP_GOB_ASSERT_ISLOCKED g) then Some (EP_STAT_ASSERT_ABORT, None, s)
       else do {
         let (r, s) = alloc_req s;
         s \<leftarrow> (case gob of None \<Rightarrow> Some s | Some a \<Rightarrow> gdp_gob_incref a s);
         let (pdu, s) = (case pdu of Some p \<Rightarrow> (p, s) | None \<Rightarrow> req_new_pdu c g flags s);
         let s = upd_req r (\<lambda>req. req\<lparr>req_state := GDP_REQ_ACTIVE, req_stat := EP_STAT_OK, req_flags := flags,
           req_gob := gob, req_r_results := 0, req_s_results := -1\<rparr>) s;
         let s = upd_req r (\<lambda>req. if GDP_CMD_IS_COMMAND c then req\<lparr>req_cpdu := Some pdu\<rparr>
           else req\<lparr>req_rpdu := Some pdu\<rparr>) s;
         s \<leftarrow> (if chan then do {
                 l \<leftarrow> LIST_INSERT_HEAD r (chan_reqs s);
                 Some (upd_req r (set_req_flag GDP_REQ_ON_CHAN_LIST) (s\<lparr>chan_reqs := l\<rparr>))
               }
               else Some s);
         Some (EP_STAT_OK, Some r, s)
       }
     }"

section \<open>Sending\<close>

definition gdp_req_send ::
  "link \<Rightarrow> nat \<Rightarrow> ('b, 'x) gdp_lib \<Rightarrow> (ep_stat \<times> ('b, 'x) gdp_lib) option" where
  "gdp_req_send L r s =
     do {
       req \<leftarrow> reqs s r;
       if req_state req = GDP_REQ_FREE then Some (EP_STAT_ASSERT_ABORT, s)
       else do {
         let req = clr_req_flag GDP_REQ_DONE req;
         (req, s) \<leftarrow> (case req_gob req of
             Some a \<Rightarrow>
               if has_req_flag GDP_REQ_ON_GOB_LIST req then Some (req, s)
               else do {
                 g \<leftarrow> gobs s a;
                 l \<leftarrow> LIST_INSERT_HEAD r (gob_reqs g);
                 Some (set_req_flag GDP_REQ_ON_GOB_LIST req, s\<lparr>gobs := (gobs s)(a \<mapsto> g\<lparr>gob_reqs := l\<rparr>)\<rparr>)
               }
           | None \<Rightarrow> Some (req, s));
         (estat, p, s) \<leftarrow> lib_pdu_out L (req_cpdu req) s;
         Some (estat, s\<lparr>reqs := (reqs s)(r \<mapsto> req\<lparr>req_cpdu := p\<rparr>)\<rparr>)
       }
     }"

text \<open>Off the list of the object.  A request that is not on it is removed all the same, which changes
  nothing as long as nothing has been linked since it was on the list.\<close>

definition gdp_req_unsend :: "nat \<Rightarrow> ('b, 'x) gdp_lib \<Rightarrow> (ep_stat \<times> ('b, 'x) gdp_lib) option" where
  "gdp_req_unsend r s =
     do {
       req \<leftarrow> reqs s r;
       if req_state req = GDP_REQ_FREE then Some (EP_STAT_ASSERT_ABORT, s)
       else (case req_gob req of
         None \<Rightarrow> Some (GDP_STAT_NULL_GOB, s)
       | Some a \<Rightarrow> do {
           g \<leftarrow> gobs s a;
           Some (EP_STAT_OK, s\<lparr>gobs := (gobs s)(a \<mapsto> g\<lparr>gob_reqs := remove1 r (gob_reqs g)\<rparr>),
             reqs := (reqs s)(r \<mapsto> clr_req_flag GDP_REQ_ON_GOB_LIST req)\<rparr>)
         })
     }"

section \<open>Finding a request\<close>

text \<open>The walk over the requests of an object; a freed request cannot be locked and makes the search
  start over for ever.\<close>

fun req_search :: "u32 \<Rightarrow> nat list \<Rightarrow> ('b, 'x) gdp_lib \<Rightarrow> nat option option" where
  "req_search rd [] s = Some None"
| "req_search rd (r # rs) s =
     (case reqs s r of
        None \<Rightarrow> None
      | Some req \<Rightarrow>
          if req_state req = GDP_REQ_FREE then None
          else (case req_cpdu req of
                  None \<Rightarrow> req_search rd rs s
                | Some p \<Rightarrow>
                    (case pdu_msg p of
                       None \<Rightarrow> req_search rd rs s
                     | Some m \<Rightarrow> if rd = GDP_PDU_ANY_RID \<or> rid m = rd then Some (Some r) else req_search rd rs s)))"

text \<open>A request that another thread works on (\<^verbatim>\<open>GDP_REQ_ACTIVE\<close>) is waited for.\<close>

definition gdp_req_find ::
  "nat \<Rightarrow> u32 \<Rightarrow> ('b, 'x) gdp_lib \<Rightarrow> (nat option \<times> ('b, 'x) gdp_lib) option" where
  "gdp_req_find a rd s =
     do {
       g \<leftarrow> gobs s a;
       if \<not> GDP_GOB_ISGOOD g then Some (None, s)
       else do {
         found \<leftarrow> req_search rd (gob_reqs g) s;
         (case found of
            None \<Rightarrow> Some (None, s)
          | Some r \<Rightarrow> do {
              req \<leftarrow> reqs s r;
              if req_state req = GDP_REQ_ACTIVE then None
              else if has_req_flag (GDP_REQ_PERSIST OR GDP_REQ_ASYNCIO) req then Some (Some r, s)
              else Some (Some r, s\<lparr>gobs := (gobs s)(a \<mapsto> g\<lparr>gob_reqs := remove1 r (gob_reqs g)\<rparr>),
                reqs := (reqs s)(r \<mapsto> clr_req_flag GDP_REQ_ON_GOB_LIST req)\<rparr>)
            })
       }
     }"

section \<open>Responses\<close>

text \<open>The response PDU goes back to where the command came from.\<close>

definition response_pdu :: "gdp_cmd \<Rightarrow> nat \<Rightarrow> ('b, 'x) gdp_lib \<Rightarrow> (gdp_pdu \<times> ('b, 'x) gdp_lib) option" where
  "response_pdu c r s =
     do {
       req \<leftarrow> reqs s r;
       cp \<leftarrow> req_cpdu req;
       m \<leftarrow> pdu_msg cp;
       let fl = free_opt_pdu (req_rpdu req) (pdu_freelist s);
       let (p, fl) = gdp_pdu_new fl (Some (gdp_msg_new c (rid m) (l5seqno m))) (pdu_dst cp) (pdu_src cp) GDP_SEQNO_NONE;
       Some (p, s\<lparr>pdu_freelist := fl\<rparr>)
     }"

definition gdp_req_ack_resp :: "gdp_cmd \<Rightarrow> nat \<Rightarrow> ('b, 'x) gdp_lib \<Rightarrow> (ep_stat \<times> ('b, 'x) gdp_lib) option" where
  "gdp_req_ack_resp ack_type r s =
     do {
       (p, s) \<leftarrow> response_pdu ack_type r s;
       Some (EP_STAT_OK, upd_req r (\<lambda>req. req\<lparr>req_rpdu := Some p\<rparr>) s)
     }"

text \<open>\<open>descr\<close> is the text of the message.  A code whose messages have no NAK body (a router's) gives
  a null pointer.\<close>

definition gdp_req_nak_resp ::
  "gdp_cmd \<Rightarrow> byte list \<Rightarrow> ep_stat \<Rightarrow> nat \<Rightarrow> ('b, 'x) gdp_lib \<Rightarrow> (ep_stat \<times> ('b, 'x) gdp_lib) option" where
  "gdp_req_nak_resp nak_type descr estat r s =
     do {
       let nak_type = (if nak_type = 0 then gdp_acknak_from_estat estat 224 else nak_type);
       (p, s) \<leftarrow> response_pdu nak_type r s;
       m \<leftarrow> pdu_msg p;
       b \<leftarrow> (case body m of
               BODY_NAK _ _ rn \<Rightarrow> Some (BODY_NAK (Some (EP_STAT_TO_INT estat)) (Some descr) rn)
             | _ \<Rightarrow> None);
       let p = p\<lparr>pdu_msg := Some (m\<lparr>body := b\<rparr>)\<rparr>;
       Some (estat, upd_req r (\<lambda>req. req\<lparr>req_rpdu := Some p\<rparr>) s)
     }"

section \<open>Flags of a request\<close>

lemma has_req_flag_set [simp]: "has_req_flag f (set_req_flag h q) \<longleftrightarrow> has_req_flag f q \<or> EP_UT_BITSET f h"
  by (simp add: has_req_flag_def set_req_flag_def bitset_or_right)

lemma has_req_flag_clr_same [simp]: "\<not> has_req_flag f (clr_req_flag f q)"
proof -
  have "f AND (req_flags q AND NOT f) = 0" by (intro bit_word_eqI) (auto simp: bit_simps)
  then show ?thesis by (simp add: has_req_flag_def clr_req_flag_def EP_UT_BITSET_def)
qed

lemma has_req_flag_clr [simp]:
  assumes "\<not> EP_UT_BITSET f h"
  shows "has_req_flag f (clr_req_flag h q) \<longleftrightarrow> has_req_flag f q"
proof -
  have "\<not> (bit f n \<and> bit h n)" for n
    using assms bit_and_iff [of f h n] by (auto simp: EP_UT_BITSET_def)
  then have "f AND (req_flags q AND NOT h) = f AND req_flags q"
    by (intro bit_word_eqI) (auto simp: bit_simps)
  then show ?thesis by (simp add: has_req_flag_def clr_req_flag_def EP_UT_BITSET_def)
qed

lemma req_set_clr_fields [simp]:
  "req_state (set_req_flag f q) = req_state q" "req_state (clr_req_flag f q) = req_state q"
  "req_gob (set_req_flag f q) = req_gob q" "req_gob (clr_req_flag f q) = req_gob q"
  "req_cpdu (set_req_flag f q) = req_cpdu q" "req_cpdu (clr_req_flag f q) = req_cpdu q"
  "req_rpdu (set_req_flag f q) = req_rpdu q" "req_rpdu (clr_req_flag f q) = req_rpdu q"
  "req_stat (set_req_flag f q) = req_stat q" "req_stat (clr_req_flag f q) = req_stat q"
  "req_events (set_req_flag f q) = req_events q" "req_events (clr_req_flag f q) = req_events q"
  by (simp_all add: set_req_flag_def clr_req_flag_def)

lemma has_req_flag_upd [simp]:
  "has_req_flag f (q\<lparr>req_state := x1\<rparr>) = has_req_flag f q" "has_req_flag f (q\<lparr>req_cpdu := x2\<rparr>) = has_req_flag f q"
  "has_req_flag f (q\<lparr>req_rpdu := x3\<rparr>) = has_req_flag f q" "has_req_flag f (q\<lparr>req_stat := x4\<rparr>) = has_req_flag f q"
  "has_req_flag f (q\<lparr>req_act_ts := x5\<rparr>) = has_req_flag f q" "has_req_flag f (q\<lparr>req_seqnext := x6\<rparr>) = has_req_flag f q"
  by (simp_all add: has_req_flag_def)

lemma req_flag_bits [simp]:
  "\<not> EP_UT_BITSET GDP_REQ_DONE GDP_REQ_ASYNCIO" "\<not> EP_UT_BITSET GDP_REQ_DONE GDP_REQ_ON_GOB_LIST"
  "\<not> EP_UT_BITSET GDP_REQ_ON_GOB_LIST GDP_REQ_ASYNCIO" "\<not> EP_UT_BITSET GDP_REQ_ON_GOB_LIST GDP_REQ_DONE"
  "\<not> EP_UT_BITSET GDP_REQ_ASYNCIO GDP_REQ_ON_GOB_LIST" "\<not> EP_UT_BITSET GDP_REQ_ASYNCIO GDP_REQ_DONE"
  "\<not> EP_UT_BITSET GDP_REQ_PERSIST GDP_REQ_ON_GOB_LIST" "\<not> EP_UT_BITSET GDP_REQ_PERSIST GDP_REQ_DONE"
  "\<not> EP_UT_BITSET GDP_REQ_PERSIST GDP_REQ_ASYNCIO" "\<not> EP_UT_BITSET GDP_REQ_ROUTEFAIL GDP_REQ_ON_GOB_LIST"
  "\<not> EP_UT_BITSET GDP_REQ_ROUTEFAIL GDP_REQ_DONE" "\<not> EP_UT_BITSET GDP_REQ_ROUTEFAIL GDP_REQ_ASYNCIO"
  "\<not> EP_UT_BITSET GDP_REQ_ROUTEFAIL GDP_REQ_PERSIST" "\<not> EP_UT_BITSET GDP_REQ_ON_GOB_LIST GDP_REQ_PERSIST"
  "EP_UT_BITSET GDP_REQ_DONE (GDP_REQ_DONE OR GDP_REQ_ASYNCIO OR GDP_REQ_PERSIST)"
  "EP_UT_BITSET GDP_REQ_PERSIST (GDP_REQ_DONE OR GDP_REQ_ASYNCIO OR GDP_REQ_PERSIST)"
  "EP_UT_BITSET GDP_REQ_ON_GOB_LIST GDP_REQ_ON_GOB_LIST"
  by (simp_all add: EP_UT_BITSET_def GDP_REQ_DONE_def GDP_REQ_ASYNCIO_def GDP_REQ_ON_GOB_LIST_def GDP_REQ_PERSIST_def
    GDP_REQ_ROUTEFAIL_def)

end
