(* ===== verification/Gdp_Proto.thy ===== *)
theory Gdp_Proto
  imports Gdp_Req
begin

text \<open>
  The protocol engine of \<^verbatim>\<open>gdp/gdp_proto.c\<close> (the dispatch table with the functions that handle responses,
  and \<^verbatim>\<open>_gdp_invoke\<close>) and the processing of incoming PDUs in \<^verbatim>\<open>gdp/gdp_main.c\<close> (\<^verbatim>\<open>process_cmd\<close>, \<^verbatim>\<open>process_resp\<close>).

  The buffer library \<open>E\<close> and \<open>vf\<close>, the verification of a record for an object (\<^const>\<open>gdp_datum_vrfy_gob\<close> with the
  object's context), are parameters.  While \<^verbatim>\<open>_gdp_invoke\<close> waits, other threads work on the state: a wait is
  given by the value of the wait on the condition variable and by what happened in the meantime.
\<close>

section \<open>The dispatch table\<close>

datatype cmdfunc = ACK_SUCCESS_FN | ACK_DATA_CHANGED_FN | ACK_DATA_CONTENT_FN | ACK_END_RESULTS_FN |
  NAK_CLIENT_FN | NAK_SERVER_FN | NAK_ROUTER_FN | NAK_CONFLICT_FN

text \<open>The entries of the table; all others are \<^verbatim>\<open>NOENT\<close>.\<close>

definition DispatchTable :: "(gdp_cmd \<times> cmdfunc option \<times> string \<times> ep_stat) list" where
  "DispatchTable =
   [
    (0, None, ''CMD_KEEPALIVE'', EP_STAT_OK),
    (1, None, ''CMD_ADVERTISE'', EP_STAT_OK),
    (2, None, ''CMD_WITHDRAW'', EP_STAT_OK),
    (64, None, ''CMD_PING'', GDP_STAT_ACK_SUCCESS),
    (65, None, ''CMD_HELLO'', GDP_STAT_ACK_SUCCESS),
    (66, None, ''CMD_CREATE'', GDP_STAT_ACK_SUCCESS),
    (67, None, ''CMD_OPEN_AO'', GDP_STAT_ACK_SUCCESS),
    (68, None, ''CMD_OPEN_RO'', GDP_STAT_ACK_SUCCESS),
    (69, None, ''CMD_OPEN_RA'', GDP_STAT_ACK_SUCCESS),
    (70, None, ''CMD_CLOSE'', GDP_STAT_ACK_SUCCESS),
    (71, None, ''CMD_APPEND'', GDP_STAT_ACK_SUCCESS),
    (72, None, ''CMD_READ_BY_RECNO'', GDP_STAT_ACK_SUCCESS),
    (73, None, ''CMD_READ_BY_TS'', GDP_STAT_ACK_SUCCESS),
    (74, None, ''CMD_READ_BY_HASH'', GDP_STAT_ACK_SUCCESS),
    (75, None, ''CMD_SUBSCRIBE_BY_RECNO'', GDP_STAT_ACK_SUCCESS),
    (76, None, ''CMD_SUBSCRIBE_BY_TS'', GDP_STAT_ACK_SUCCESS),
    (77, None, ''CMD_SUBSCRIBE_BY_HASH'', GDP_STAT_ACK_SUCCESS),
    (78, None, ''CMD_UNSUBSCRIBE'', GDP_STAT_ACK_SUCCESS),
    (79, None, ''CMD_GETMETADATA'', GDP_STAT_ACK_SUCCESS),
    (80, None, ''CMD_NEWSEGMENT'', GDP_STAT_ACK_SUCCESS),
    (81, None, ''CMD_DELETE'', GDP_STAT_ACK_SUCCESS),
    (127, None, ''CMD_FWD_APPEND'', GDP_STAT_ACK_SUCCESS),
    (128, Some ACK_SUCCESS_FN, ''ACK_SUCCESS'', GDP_STAT_ACK_SUCCESS),
    (129, Some ACK_SUCCESS_FN, ''ACK_DATA_CREATED'', GDP_STAT_ACK_CREATED),
    (130, Some ACK_SUCCESS_FN, ''ACK_DATA_DEL'', GDP_STAT_ACK_DELETED),
    (131, Some ACK_SUCCESS_FN, ''ACK_DATA_VALID'', GDP_STAT_ACK_VALID),
    (132, Some ACK_DATA_CHANGED_FN, ''ACK_DATA_CHANGED'', GDP_STAT_ACK_CHANGED),
    (133, Some ACK_DATA_CONTENT_FN, ''ACK_DATA_CONTENT'', GDP_STAT_ACK_CONTENT),
    (191, Some ACK_END_RESULTS_FN, ''ACK_END_OF_RESULTS'', GDP_STAT_ACK_END_OF_RESULTS),
    (192, Some NAK_CLIENT_FN, ''NAK_C_BADREQ'', GDP_STAT_NAK_BADREQ),
    (193, Some NAK_CLIENT_FN, ''NAK_C_UNAUTH'', GDP_STAT_NAK_UNAUTH),
    (194, Some NAK_CLIENT_FN, ''NAK_C_BADOPT'', GDP_STAT_NAK_BADOPT),
    (195, Some NAK_CLIENT_FN, ''NAK_C_FORBIDDEN'', GDP_STAT_NAK_FORBIDDEN),
    (196, Some NAK_CLIENT_FN, ''NAK_C_NOTFOUND'', GDP_STAT_NAK_NOTFOUND),
    (197, Some NAK_CLIENT_FN, ''NAK_C_METHNOTALLOWED'', GDP_STAT_NAK_METHNOTALLOWED),
    (198, Some NAK_CLIENT_FN, ''NAK_C_NOTACCEPTABLE'', GDP_STAT_NAK_NOTACCEPTABLE),
    (201, Some NAK_CONFLICT_FN, ''NAK_C_CONFLICT'', GDP_STAT_NAK_CONFLICT),
    (202, Some NAK_CLIENT_FN, ''NAK_C_GONE'', GDP_STAT_NAK_GONE),
    (204, Some NAK_CLIENT_FN, ''NAK_C_PRECONFAILED'', GDP_STAT_NAK_PRECONFAILED),
    (205, Some NAK_CLIENT_FN, ''NAK_C_TOOLARGE'', GDP_STAT_NAK_TOOLARGE),
    (207, Some NAK_CLIENT_FN, ''NAK_C_UNSUPMEDIA'', GDP_STAT_NAK_UNSUPMEDIA),
    (222, Some NAK_CLIENT_FN, ''NAK_C_MISSING_RECORD'', GDP_STAT_NAK_REC_MISSING),
    (223, Some NAK_CLIENT_FN, ''NAK_C_REC_DUP'', GDP_STAT_NAK_REC_DUP),
    (224, Some NAK_SERVER_FN, ''NAK_S_INTERNAL'', GDP_STAT_NAK_INTERNAL),
    (225, Some NAK_SERVER_FN, ''NAK_S_NOTIMPL'', GDP_STAT_NAK_NOTIMPL),
    (226, Some NAK_SERVER_FN, ''NAK_S_BADGATEWAY'', GDP_STAT_NAK_BADGATEWAY),
    (227, Some NAK_SERVER_FN, ''NAK_S_SVCUNAVAIL'', GDP_STAT_NAK_SVCUNAVAIL),
    (228, Some NAK_SERVER_FN, ''NAK_S_GWTIMEOUT'', GDP_STAT_NAK_GWTIMEOUT),
    (229, Some NAK_SERVER_FN, ''NAK_S_PROXYNOTSUP'', GDP_STAT_NAK_PROXYNOTSUP),
    (238, Some NAK_SERVER_FN, ''NAK_S_REC_MISSING'', GDP_STAT_NAK_REC_MISSING),
    (239, Some NAK_SERVER_FN, ''NAK_S_LOSTSUB'', GDP_STAT_NAK_LOST_SUBSCR),
    (240, Some NAK_ROUTER_FN, ''NAK_R_NOROUTE'', GDP_STAT_NAK_NOROUTE)]"

definition dispatch_func :: "gdp_cmd \<Rightarrow> cmdfunc option" where
  "dispatch_func c = (case map_of DispatchTable c of Some (f, _, _) \<Rightarrow> f | None \<Rightarrow> None)"

definition get_default_estat :: "gdp_cmd \<Rightarrow> ep_stat" where
  "get_default_estat c = (case map_of DispatchTable c of Some (_, _, e) \<Rightarrow> e | None \<Rightarrow> GDP_STAT_NOT_IMPLEMENTED)"

text \<open>The decimal digits of a code, for codes without a name.\<close>

fun decimal :: "nat \<Rightarrow> string" where
  "decimal n = (if n < 10 then [char_of (48 + n)] else decimal (n div 10) @ [char_of (48 + n mod 10)])"

definition gdp_proto_cmd_name :: "gdp_cmd \<Rightarrow> string" where
  "gdp_proto_cmd_name c = (case map_of DispatchTable c of Some (_, nm, _) \<Rightarrow> nm | None \<Rightarrow> decimal (unat c))"

section \<open>Responses: acks and naks\<close>

type_synonym ('b, 'x) handler = "nat \<Rightarrow> ('b, 'x) gdp_lib \<Rightarrow> (ep_stat \<times> ('b, 'x) gdp_lib) option"

text \<open>The message of a response; \<^term>\<open>None\<close> when \<^verbatim>\<open>GDP_MSG_CHECK\<close> fails.\<close>

definition rpdu_msg :: "'b gdp_req \<Rightarrow> gdp_msg option" where
  "rpdu_msg req = Option.bind (req_rpdu req) pdu_msg"

definition acknak :: "'b gdp_req \<Rightarrow> ep_stat" where
  "acknak req = (case rpdu_msg req of None \<Rightarrow> EP_STAT_ASSERT_ABORT | Some m \<Rightarrow> get_default_estat (cmd m))"

definition ack :: "('b, 'x) handler" where
  "ack r s =
     do {
       req \<leftarrow> reqs s r;
       if EP_STAT_ISFAIL (acknak req) then Some (acknak req, s)
       else do {
         m \<leftarrow> rpdu_msg req;
         Some (GDP_STAT_FROM_ACK (uint (cmd m)), upd_req r (\<lambda>q. q\<lparr>req_act_ts := now_ts s (req_act_ts q)\<rparr>) s)
       }
     }"

definition ack_success :: "('b, 'x) handler" where
  "ack_success r s =
     do {
       (estat, s) \<leftarrow> ack r s;
       if EP_STAT_ISFAIL estat then Some (estat, s)
       else do {
         req \<leftarrow> reqs s r;
         rp \<leftarrow> req_rpdu req;
         s \<leftarrow> (case req_gob req of
                 None \<Rightarrow> Some s
               | Some a \<Rightarrow> do {
                   g \<leftarrow> gobs s a;
                   let g = (if gdp_name_is_valid (gob_name g) then g
                            else g\<lparr>gob_name := pdu_src rp, gob_pname := gdp_printable_name (pdu_src rp)\<rparr>);
                   Some (s\<lparr>gobs := (gobs s)(a \<mapsto> clr_flag GOBF_PENDING g)\<rparr>)
                 });
         Some (estat, upd_req r (\<lambda>q. q\<lparr>req_seqnext := seqno_after (pdu_seqno rp)\<rparr>) s)
       }
     }"

definition ack_data_changed :: "('b, 'x) handler" where
  "ack_data_changed r s =
     do {
       (estat, s) \<leftarrow> ack r s;
       if \<not> EP_STAT_ISOK estat then Some (estat, s)
       else do {
         req \<leftarrow> reqs s r;
         m \<leftarrow> rpdu_msg req;
         (case body m of
            BODY_ACK_CHANGED rn \<Rightarrow>
              Some (estat, case req_gob req of None \<Rightarrow> s | Some a \<Rightarrow> upd_gob a (\<lambda>g. g\<lparr>gob_nrecs := rn\<rparr>) s)
          | _ \<Rightarrow> Some (EP_STAT_ASSERT_ABORT, s))
       }
     }"

text \<open>The part of \<^verbatim>\<open>ack_data_content\<close> that counts results.\<close>

definition count_results :: "int \<Rightarrow> 'b gdp_req \<Rightarrow> 'b gdp_req" where
  "count_results n req =
     (let req = (if 0 < req_numrecs req then req\<lparr>req_numrecs := req_numrecs req - n\<rparr> else req);
          req = req\<lparr>req_r_results := req_r_results req + n\<rparr>
      in if 0 \<le> req_s_results req \<and> req_s_results req \<le> req_r_results req
         then clr_req_flag GDP_REQ_PERSIST req else req)"

definition ack_data_content ::
  "('b, 'z) evbuffer_scheme \<Rightarrow> ('x gdp_gob \<Rightarrow> 'b gdp_datum \<Rightarrow> ep_stat option) \<Rightarrow> ('b, 'x) handler" where
  "ack_data_content E vf r s =
     do {
       req \<leftarrow> reqs s r;
       if req_gob req = None \<or> rpdu_msg req = None then Some (EP_STAT_ASSERT_ABORT, s)
       else do {
         (estat, s) \<leftarrow> ack r s;
         if \<not> EP_STAT_ISOK estat then Some (estat, s)
         else do {
           req \<leftarrow> reqs s r;
           m \<leftarrow> rpdu_msg req;
           (case body m of
              BODY_ACK_CONTENT dl _ \<Rightarrow>
                if dl = [] then Some (GDP_STAT_RECORD_MISSING, s)
                else do {
                  a \<leftarrow> req_gob req;
                  g \<leftarrow> gobs s a;
                  let (datum, dfl) = gdp_datum_new E (datum_free (ev_q s));
                  let datum = gdp_datum_from_pb E datum (last dl) (pb_sig (last dl));
                  estat \<leftarrow> (if has_req_flag GDP_REQ_VRFY_CONTENT req then vf g datum else Some estat);
                  let s = (if 0 < recno datum \<and> gob_nrecs g < recno datum
                           then upd_gob a (\<lambda>g. g\<lparr>gob_nrecs := recno datum\<rparr>) s else s);
                  let s = upd_req r (count_results (int (length dl))) s;
                  Some (estat, s\<lparr>ev_q := (ev_q s)\<lparr>datum_free := gdp_datum_free E (Some datum) dfl\<rparr>\<rparr>)
                }
            | _ \<Rightarrow> Some (EP_STAT_ASSERT_ABORT, s))
         }
       }
     }"

definition ack_end_results :: "('b, 'x) handler" where
  "ack_end_results r s =
     do {
       req \<leftarrow> reqs s r;
       if req_gob req = None \<or> rpdu_msg req = None then Some (EP_STAT_ASSERT_ABORT, s)
       else do {
         (estat, s) \<leftarrow> ack r s;
         if EP_STAT_ISFAIL estat then Some (estat, s)
         else do {
           req \<leftarrow> reqs s r;
           m \<leftarrow> rpdu_msg req;
           (case body m of
              BODY_ACK_END_OF_RESULTS _ n \<Rightarrow> do {
                let req = req\<lparr>req_s_results := (case n of Some k \<Rightarrow> k | None \<Rightarrow> 0)\<rparr>;
                (req, q) \<leftarrow> (if req_s_results req \<le> req_r_results req
                            then map_option (\<lambda>(req, q). (clr_req_flag GDP_REQ_PERSIST req, q))
                              (gdp_event_trigger_pending (lib_clk s) (clk_acc (lib_conf s)) True req (ev_q s))
                            else Some (req, ev_q s));
                Some (EP_STAT_OK, s\<lparr>reqs := (reqs s)(r \<mapsto> req), ev_q := q\<rparr>)
              }
            | _ \<Rightarrow> Some (EP_STAT_ASSERT_ABORT, s))
         }
       }
     }"

text \<open>The functions for client, server and router naks; the three only differ in what they log.\<close>

definition nak :: "('b, 'x) handler" where
  "nak r s = map_option (\<lambda>req. (acknak req, s)) (reqs s r)"

definition nak_conflict :: "('b, 'x) handler" where
  "nak_conflict r s =
     do {
       req \<leftarrow> reqs s r;
       let estat = acknak req;
       if \<not> EP_STAT_ISOK estat then Some (estat, s)
       else do {
         m \<leftarrow> rpdu_msg req;
         (case body m of
            BODY_NAK_CONFLICT _ _ rn \<Rightarrow>
              Some (estat, case req_gob req of None \<Rightarrow> s
                | Some a \<Rightarrow> upd_gob a (\<lambda>g. g\<lparr>gob_nrecs := (case rn of Some k \<Rightarrow> k | None \<Rightarrow> 0)\<rparr>) s)
          | _ \<Rightarrow> Some (EP_STAT_ASSERT_ABORT, s))
       }
     }"

section \<open>Dispatch\<close>

text \<open>\<open>descr\<close> is the text of the response.\<close>

definition cmd_not_implemented :: "byte list \<Rightarrow> ('b, 'x) handler" where
  "cmd_not_implemented descr = gdp_req_nak_resp 192 descr GDP_STAT_NOT_IMPLEMENTED"

definition run_cmdfunc ::
  "('b, 'z) evbuffer_scheme \<Rightarrow> ('x gdp_gob \<Rightarrow> 'b gdp_datum \<Rightarrow> ep_stat option) \<Rightarrow> cmdfunc \<Rightarrow> ('b, 'x) handler" where
  "run_cmdfunc E vf f =
     (case f of
        ACK_SUCCESS_FN \<Rightarrow> ack_success
      | ACK_DATA_CHANGED_FN \<Rightarrow> ack_data_changed
      | ACK_DATA_CONTENT_FN \<Rightarrow> ack_data_content E vf
      | ACK_END_RESULTS_FN \<Rightarrow> ack_end_results
      | NAK_CLIENT_FN \<Rightarrow> nak
      | NAK_SERVER_FN \<Rightarrow> nak
      | NAK_ROUTER_FN \<Rightarrow> nak
      | NAK_CONFLICT_FN \<Rightarrow> nak_conflict)"

text \<open>\<open>cf\<close> holds the functions a program has registered with \<^verbatim>\<open>_gdp_register_cmdfuncs\<close>.\<close>

definition gdp_req_dispatch ::
  "('b, 'z) evbuffer_scheme \<Rightarrow> ('x gdp_gob \<Rightarrow> 'b gdp_datum \<Rightarrow> ep_stat option) \<Rightarrow> (gdp_cmd \<rightharpoonup> ('b, 'x) handler) \<Rightarrow>
   byte list \<Rightarrow> gdp_cmd \<Rightarrow> ('b, 'x) handler" where
  "gdp_req_dispatch E vf cf descr c r s =
     (if c > 255 then None
      else case cf c of
        Some f \<Rightarrow> f r s
      | None \<Rightarrow>
          (case dispatch_func c of
             Some f \<Rightarrow> run_cmdfunc E vf f r s
           | None \<Rightarrow> cmd_not_implemented descr r s))"

section \<open>Processing a response\<close>

text \<open>The walk over the channel's requests.\<close>

fun chan_search :: "gdp_pdu \<Rightarrow> u32 \<Rightarrow> nat list \<Rightarrow> ('b, 'x) gdp_lib \<Rightarrow> nat option option" where
  "chan_search rpdu rd [] s = Some None"
| "chan_search rpdu rd (r # rs) s =
     do {
       req \<leftarrow> reqs s r;
       (case req_cpdu req of
          None \<Rightarrow> chan_search rpdu rd rs s
        | Some cp \<Rightarrow> do {
            m \<leftarrow> pdu_msg cp;
            if (rd = GDP_PDU_ANY_RID \<or> rid m = rd) \<and> pdu_src cp = pdu_dst rpdu \<and> pdu_dst cp = pdu_src rpdu
            then Some (Some r) else chan_search rpdu rd rs s
          })
     }"

definition find_req_in_channel_list ::
  "gdp_pdu \<Rightarrow> u32 \<Rightarrow> ('b, 'x) gdp_lib \<Rightarrow> (ep_stat \<times> nat option \<times> ('b, 'x) gdp_lib) option" where
  "find_req_in_channel_list rpdu rd s =
     do {
       found \<leftarrow> chan_search rpdu rd (chan_reqs s) s;
       (case found of
          None \<Rightarrow> Some (EP_STAT_OK, None, s)
        | Some r \<Rightarrow> do {
            req \<leftarrow> reqs s r;
            s' \<leftarrow> (case req_gob req of None \<Rightarrow> Some s | Some a \<Rightarrow> gdp_gob_lock a s);
            if req_state req = GDP_REQ_FREE then do {
              s' \<leftarrow> (case req_gob req of None \<Rightarrow> Some s' | Some a \<Rightarrow> gdp_gob_unlock a s');
              Some (GDP_STAT_USING_FREE_REQ, None, s')
            }
            else Some (EP_STAT_OK, Some r, s')
          })
     }"

definition drop_pdu :: "gdp_pdu \<Rightarrow> ('b, 'x) gdp_lib \<Rightarrow> ('b, 'x) gdp_lib" where
  "drop_pdu p s = s\<lparr>pdu_freelist := gdp_pdu_free p (pdu_freelist s)\<rparr>"

text \<open>The request of a response, or nothing if the response is discarded; \<open>n\<close> is the depth bound of
  \<^const>\<open>gdp_gob_free\<close>.\<close>

definition resp_find ::
  "nat \<Rightarrow> (byte list \<Rightarrow> byte list) \<Rightarrow> gdp_pdu \<Rightarrow> u32 \<Rightarrow> ('b, 'x) gdp_lib \<Rightarrow> (nat option \<times> ('b, 'x) gdp_lib) option" where
  "resp_find n sha rpdu rd s =
     do {
       (gob, s) \<leftarrow> gdp_gob_cache_get sha [] 0 (pdu_src rpdu) GGCF_GET_PENDING s;
       (case gob of
          None \<Rightarrow> do {
            (estat, found, s) \<leftarrow> find_req_in_channel_list rpdu rd s;
            (case found of
               None \<Rightarrow> Some (None, drop_pdu rpdu s)
             | Some r \<Rightarrow> do {
                 req \<leftarrow> reqs s r;
                 if has_req_flag GDP_REQ_ON_GOB_LIST req then do {
                   a \<leftarrow> req_gob req;
                   let s = upd_gob a (\<lambda>g. g\<lparr>gob_reqs := remove1 r (gob_reqs g)\<rparr>) s;
                   let s = upd_req r (clr_req_flag GDP_REQ_ON_GOB_LIST) s;
                   s \<leftarrow> gdp_gob_incref a s;
                   Some (Some r, s)
                 }
                 else Some (Some r, s)
               })
          }
        | Some a \<Rightarrow> do {
            (found, s) \<leftarrow> gdp_req_find a rd s;
            (case found of
               None \<Rightarrow> do {
                 (_, s) \<leftarrow> gdp_gob_decref (gdp_gob_free n) False a s;
                 Some (None, drop_pdu rpdu s)
               }
             | Some r \<Rightarrow> Some (Some r, s))
          })
     }"

text \<open>Handing on the outcome: as an event, or to the thread that waits in \<^verbatim>\<open>_gdp_invoke\<close>.\<close>

definition resp_signal ::
  "('b, 'z) evbuffer_scheme \<Rightarrow> ep_stat \<Rightarrow> nat \<Rightarrow> ('b, 'x) gdp_lib \<Rightarrow> ('b, 'x) gdp_lib option" where
  "resp_signal E estat r s =
     do {
       req \<leftarrow> reqs s r;
       if has_req_flag GDP_REQ_ASYNCIO req then do {
         (_, req, q) \<leftarrow> gdp_event_add_from_req E (lib_conf s) (lib_clk s) (lib_clk s) (lib_clk s) req (ev_q s);
         Some (s\<lparr>reqs := (reqs s)(r \<mapsto> req\<lparr>req_rpdu := None\<rparr>), ev_q := q,
           pdu_freelist := free_opt_pdu (req_rpdu req) (pdu_freelist s)\<rparr>)
       }
       else if req_state req = GDP_REQ_WAITING then
         Some (s\<lparr>reqs := (reqs s)(r \<mapsto> set_req_flag (GDP_REQ_DONE OR GDP_REQ_ASYNCIO OR GDP_REQ_PERSIST)
           (req\<lparr>req_stat := estat\<rparr>))\<rparr>)
       else Some s
     }"

text \<open>A request that is kept, or released, and the reference of the lookup.\<close>

definition req_finish :: "nat \<Rightarrow> nat option \<Rightarrow> nat \<Rightarrow> ('b, 'x) gdp_lib \<Rightarrow> ('b, 'x) gdp_lib option" where
  "req_finish n gob r s =
     do {
       req \<leftarrow> reqs s r;
       s \<leftarrow> (if has_req_flag GDP_REQ_PERSIST req then Some s else gdp_req_free (gdp_gob_free n) r s);
       (case gob of
          None \<Rightarrow> Some s
        | Some a \<Rightarrow> map_option snd (gdp_gob_decref (gdp_gob_free n) False a s))
     }"

definition process_resp ::
  "('b, 'z) evbuffer_scheme \<Rightarrow> ('x gdp_gob \<Rightarrow> 'b gdp_datum \<Rightarrow> ep_stat option) \<Rightarrow> (gdp_cmd \<rightharpoonup> ('b, 'x) handler) \<Rightarrow>
   byte list \<Rightarrow> nat \<Rightarrow> (byte list \<Rightarrow> byte list) \<Rightarrow> gdp_pdu \<Rightarrow> ('b, 'x) gdp_lib \<Rightarrow> ('b, 'x) gdp_lib option" where
  "process_resp E vf cf descr n sha rpdu s =
     do {
       m \<leftarrow> pdu_msg rpdu;
       (found, s) \<leftarrow> resp_find n sha rpdu (rid m) s;
       (case found of
          None \<Rightarrow> Some s
        | Some r \<Rightarrow> do {
            req \<leftarrow> reqs s r;
            let s = s\<lparr>pdu_freelist := free_opt_pdu (req_rpdu req) (pdu_freelist s)\<rparr>;
            let s = upd_req r (\<lambda>q. q\<lparr>req_rpdu := Some rpdu, req_act_ts := now_ts s (req_act_ts q)\<rparr>) s;
            (estat, s) \<leftarrow> gdp_req_dispatch E vf cf descr (cmd m) r s;
            s \<leftarrow> resp_signal E estat r s;
            req \<leftarrow> reqs s r;
            req_finish n (req_gob req) r s
          })
     }"

section \<open>Processing a command\<close>

text \<open>The answer to a command: the code follows from the status of the function that has run.\<close>

definition cmd_answer :: "link \<Rightarrow> ep_stat \<Rightarrow> nat \<Rightarrow> ('b, 'x) gdp_lib \<Rightarrow> ('b, 'x) gdp_lib option" where
  "cmd_answer L estat r s =
     do {
       req \<leftarrow> reqs s r;
       rp \<leftarrow> req_rpdu req;
       m \<leftarrow> pdu_msg rp;
       let rp = rp\<lparr>pdu_msg := Some (m\<lparr>cmd := gdp_acknak_from_estat estat (cmd m)\<rparr>)\<rparr>;
       (st, p, s) \<leftarrow> lib_pdu_out L (Some rp) s;
       Some (s\<lparr>reqs := (reqs s)(r \<mapsto> req\<lparr>req_rpdu := p, req_stat := st\<rparr>)\<rparr>)
     }"

text \<open>
  \<^verbatim>\<open>process_cmd\<close>; \<open>post\<close> runs the post-processing of a request.  The lock that lets only one
  \<^verbatim>\<open>CMD_CREATE\<close> in at a time is left out.
\<close>

definition process_cmd ::
  "('b, 'z) evbuffer_scheme \<Rightarrow> ('x gdp_gob \<Rightarrow> 'b gdp_datum \<Rightarrow> ep_stat option) \<Rightarrow> (gdp_cmd \<rightharpoonup> ('b, 'x) handler) \<Rightarrow>
   byte list \<Rightarrow> nat \<Rightarrow> (byte list \<Rightarrow> byte list) \<Rightarrow> link \<Rightarrow> (postproc \<Rightarrow> nat \<Rightarrow> ('b, 'x) gdp_lib \<Rightarrow> ('b, 'x) gdp_lib option) \<Rightarrow>
   gdp_pdu \<Rightarrow> ('b, 'x) gdp_lib \<Rightarrow> ('b, 'x) gdp_lib option" where
  "process_cmd E vf cf descr n sha L post cpdu s =
     (case pdu_msg cpdu of
        None \<Rightarrow> Some s
      | Some m \<Rightarrow> do {
          (gob, s) \<leftarrow> gdp_gob_cache_get sha [] 0 (pdu_dst cpdu) 0 s;
          (estat, nr, s) \<leftarrow> gdp_req_new (cmd m) gob True (Some cpdu) 0 s;
          if \<not> EP_STAT_ISOK estat then Some (drop_pdu cpdu s)
          else do {
            r \<leftarrow> nr;
            (estat, s) \<leftarrow> gdp_req_dispatch E vf cf descr (cmd m) r s;
            req \<leftarrow> reqs s r;
            if rpdu_msg req = None then req_finish n gob r s
            else do {
              (gob, s) \<leftarrow> (case gob of
                  Some a \<Rightarrow>
                    if req_gob req = None \<and> cmd m = CMD_DELETE then map_option (Pair None) (gdp_gob_unlock a s)
                    else Some (gob, s)
                | None \<Rightarrow>
                    (case req_gob req of
                       None \<Rightarrow> Some (None, s)
                     | Some a \<Rightarrow> map_option (Pair (Some a)) (gdp_gob_incref a s)));
              s \<leftarrow> (if estat = GDP_STAT_RESPONSE_SENT then Some s else cmd_answer L estat r s);
              req \<leftarrow> reqs s r;
              s \<leftarrow> (case req_postproc req of
                      None \<Rightarrow> Some s
                    | Some pp \<Rightarrow> map_option (upd_req r (\<lambda>q. q\<lparr>req_postproc := None\<rparr>)) (post pp r s));
              req_finish n gob r s
            }
          }
        })"

section \<open>Remote invocation\<close>

definition ETIMEDOUT :: int where "ETIMEDOUT = 110"

type_synonym ('b, 'x) wake = "int \<times> (('b, 'x) gdp_lib \<Rightarrow> ('b, 'x) gdp_lib option)"

definition opt_gob :: "(nat \<Rightarrow> ('b, 'x) gdp_lib \<Rightarrow> ('b, 'x) gdp_lib option) \<Rightarrow> nat \<Rightarrow> ('b, 'x) gdp_lib \<Rightarrow> ('b, 'x) gdp_lib option" where
  "opt_gob f r s = (case reqs s r of
     None \<Rightarrow> None
   | Some req \<Rightarrow> (case req_gob req of None \<Rightarrow> Some s | Some a \<Rightarrow> f a s))"

text \<open>The loop around the wait: the object is unlocked while the thread waits.  The list holds the
  waits to come; at its end the thread is still waiting.\<close>

fun invoke_wait ::
  "nat \<Rightarrow> ('b, 'x) wake list \<Rightarrow> ('b, 'x) gdp_lib \<Rightarrow> (int \<times> ('b, 'x) wake list \<times> ('b, 'x) gdp_lib) option" where
  "invoke_wait r ws s =
     (case reqs s r of
        None \<Rightarrow> None
      | Some req \<Rightarrow>
          if has_req_flag GDP_REQ_DONE req then Some (0, ws, s)
          else (case ws of
                  [] \<Rightarrow> None
                | (e, others) # ws \<Rightarrow> do {
                    s \<leftarrow> opt_gob gdp_gob_unlock r s;
                    s \<leftarrow> others s;
                    s \<leftarrow> opt_gob gdp_gob_lock r s;
                    if e \<noteq> 0 then Some (e, ws, s) else invoke_wait r ws s
                  }))"

text \<open>The loop over the retransmissions; the first argument is the number of attempts left.\<close>

fun invoke_loop ::
  "nat \<Rightarrow> link \<Rightarrow> nat \<Rightarrow> ('b, 'x) wake list \<Rightarrow> ('b, 'x) gdp_lib \<Rightarrow> (ep_stat \<times> ('b, 'x) wake list \<times> ('b, 'x) gdp_lib) option" where
  "invoke_loop 0 L r ws s = None"
| "invoke_loop (Suc retries) L r ws s =
     do {
       (estat, s) \<leftarrow> gdp_req_send L r s;
       if \<not> EP_STAT_ISOK estat then Some (estat, ws, s)
       else do {
         let s = upd_req r (\<lambda>q. clr_req_flag GDP_REQ_ASYNCIO (q\<lparr>req_state := GDP_REQ_WAITING\<rparr>)) s;
         (e, ws, s) \<leftarrow> invoke_wait r ws s;
         let s = upd_req r (\<lambda>q. q\<lparr>req_state := GDP_REQ_ACTIVE\<rparr>) s;
         req \<leftarrow> reqs s r;
         let (estat, retry) =
           (if e \<noteq> 0 then (ep_stat_from_errno e, e = ETIMEDOUT)
            else (req_stat req, req_stat req = GDP_STAT_NAK_NOROUTE \<and> \<not> has_req_flag GDP_REQ_ROUTEFAIL req));
         if \<not> retry then Some (estat, ws, s)
         else do {
           (estat, s) \<leftarrow> gdp_req_unsend r s;
           if \<not> EP_STAT_ISOK estat \<or> retries = 0 then Some (estat, ws, s)
           else invoke_loop retries L r ws s
         }
       }
     }"

text \<open>\<open>retries\<close> is the administrative parameter \<^verbatim>\<open>swarm.gdp.invoke.retries\<close>.\<close>

definition gdp_invoke ::
  "int \<Rightarrow> link \<Rightarrow> ('b, 'x) wake list \<Rightarrow> nat \<Rightarrow> ('b, 'x) gdp_lib \<Rightarrow> (ep_stat \<times> ('b, 'x) gdp_lib) option" where
  "gdp_invoke retries L ws r s =
     do {
       req \<leftarrow> reqs s r;
       if Option.bind (req_cpdu req) pdu_msg = None \<or> req_state req \<noteq> GDP_REQ_ACTIVE then Some (EP_STAT_ASSERT_ABORT, s)
       else do {
         (estat, _, s) \<leftarrow> invoke_loop (nat (if retries < 1 then 1 else retries)) L r ws s;
         req \<leftarrow> reqs s r;
         (req, q) \<leftarrow> gdp_event_trigger_pending (lib_clk s) (clk_acc (lib_conf s)) False req (ev_q s);
         Some (estat, s\<lparr>reqs := (reqs s)(r \<mapsto> req), ev_q := q\<rparr>)
       }
     }"

end
