(* ===== verification/Gdp_Invoke.thy ===== *)
theory Gdp_Invoke
  imports Gdp_Proto
begin

text \<open>
  What \<^verbatim>\<open>_gdp_invoke\<close> returns: when nothing answers, and when \<^verbatim>\<open>process_resp\<close> handles a response to the
  command while the caller waits.
\<close>

section \<open>Fields and flags\<close>

lemma gob_more_fields [simp]:
  "gob_nrecs (set_flag f g) = gob_nrecs g" "gob_nrecs (clr_flag f g) = gob_nrecs g"
  "has_flag f (g\<lparr>gob_nrecs := k\<rparr>) = has_flag f g"
  by (simp_all add: set_flag_def clr_flag_def has_flag_def)

lemma req_more_fields [simp]:
  "req_s_results (set_req_flag f q) = req_s_results q" "req_s_results (clr_req_flag f q) = req_s_results q"
  "\<not> EP_UT_BITSET GDP_REQ_VRFY_CONTENT GDP_REQ_ON_GOB_LIST" "\<not> EP_UT_BITSET GDP_REQ_VRFY_CONTENT GDP_REQ_DONE"
  "\<not> EP_UT_BITSET GDP_REQ_VRFY_CONTENT GDP_REQ_ASYNCIO"
  by (simp_all add: set_req_flag_def clr_req_flag_def EP_UT_BITSET_def GDP_REQ_DONE_def GDP_REQ_ASYNCIO_def
    GDP_REQ_ON_GOB_LIST_def GDP_REQ_VRFY_CONTENT_def)

section \<open>A request that is about to be sent\<close>

definition idle_request :: "nat \<Rightarrow> nat \<Rightarrow> ('b, 'x) gdp_lib \<Rightarrow> bool" where
  "idle_request r a s \<longleftrightarrow> (\<exists>req g p m. reqs s r = Some req \<and> req_state req = GDP_REQ_ACTIVE \<and> req_gob req = Some a \<and>
     \<not> has_req_flag GDP_REQ_ON_GOB_LIST req \<and> req_cpdu req = Some p \<and> pdu_msg p = Some m \<and> req_events req = [] \<and>
     gobs s a = Some g \<and> has_flag GOBF_ISLOCKED g \<and> r \<notin> set (gob_reqs g))"

definition link_up :: "link \<Rightarrow> bool" where
  "link_up L \<longleftrightarrow> link_open L \<and> (\<forall>m. link_room L m)"

text \<open>The PDU as it goes out.\<close>

definition out_pdu :: "gdp_pdu \<Rightarrow> ('b, 'x) gdp_lib \<Rightarrow> gdp_pdu" where
  "out_pdu p s = (if gdp_name_is_valid (pdu_src p) then p else p\<lparr>pdu_src := my_name s\<rparr>)
     \<lparr>pdu_msg := map_option pdu_msg_flags (pdu_msg p)\<rparr>"

lemma pdu_out_up:
  assumes "link_up L" "pdu_msg p = Some m"
  shows "lib_pdu_out L (Some p) s = Some (EP_STAT_OK, Some (out_pdu p s), s\<lparr>sent := sent s @ [out_pdu p s]\<rparr>)"
  using assms by (simp add: lib_pdu_out_def link_up_def out_pdu_def Let_def)

lemma out_pdu_msg [simp]: "pdu_msg (out_pdu p s) = map_option pdu_msg_flags (pdu_msg p)"
  by (simp add: out_pdu_def)

lemma stat_ok [simp]: "EP_STAT_ISOK EP_STAT_OK"
  by (simp add: stat_simps EP_STAT_OK_def EP_STAT_NEW_def EP_STAT_SEVERITY_def)

lemma req_states [simp]:
  "GDP_REQ_ACTIVE \<noteq> GDP_REQ_FREE" "GDP_REQ_WAITING \<noteq> GDP_REQ_FREE" "GDP_REQ_WAITING \<noteq> GDP_REQ_ACTIVE"
  by (simp_all add: GDP_REQ_FREE_def GDP_REQ_ACTIVE_def GDP_REQ_WAITING_def)

text \<open>The request while its sender waits.\<close>

definition waiting :: "gdp_pdu \<Rightarrow> 'b gdp_req \<Rightarrow> 'b gdp_req" where
  "waiting p req = clr_req_flag GDP_REQ_ASYNCIO (set_req_flag GDP_REQ_ON_GOB_LIST (clr_req_flag GDP_REQ_DONE req)
     \<lparr>req_cpdu := Some p, req_state := GDP_REQ_WAITING\<rparr>)"

definition sent_state :: "nat \<Rightarrow> nat \<Rightarrow> gdp_pdu \<Rightarrow> 'b gdp_req \<Rightarrow> 'x gdp_gob \<Rightarrow> ('b, 'x) gdp_lib \<Rightarrow> ('b, 'x) gdp_lib" where
  "sent_state r a p req g s = s\<lparr>reqs := (reqs s)(r \<mapsto> waiting p req),
     gobs := (gobs s)(a \<mapsto> g\<lparr>gob_reqs := r # gob_reqs g\<rparr>), sent := sent s @ [p]\<rparr>"

lemma waiting_fields [simp]:
  "req_state (waiting p req) = GDP_REQ_WAITING" "req_gob (waiting p req) = req_gob req"
  "req_cpdu (waiting p req) = Some p" "req_events (waiting p req) = req_events req"
  "\<not> has_req_flag GDP_REQ_DONE (waiting p req)" "\<not> has_req_flag GDP_REQ_ASYNCIO (waiting p req)"
  "has_req_flag GDP_REQ_ON_GOB_LIST (waiting p req)"
  "has_req_flag GDP_REQ_ROUTEFAIL (waiting p req) = has_req_flag GDP_REQ_ROUTEFAIL req"
  "has_req_flag GDP_REQ_VRFY_CONTENT (waiting p req) = has_req_flag GDP_REQ_VRFY_CONTENT req"
  "req_rpdu (waiting p req) = req_rpdu req" "req_s_results (waiting p req) = req_s_results req"
  by (simp_all add: waiting_def)

lemma send_idle:
  assumes "reqs s r = Some req" "req_state req = GDP_REQ_ACTIVE" "req_gob req = Some a"
    "\<not> has_req_flag GDP_REQ_ON_GOB_LIST req" "req_cpdu req = Some p" "pdu_msg p = Some m" "gobs s a = Some g"
    "r \<notin> set (gob_reqs g)" "link_up L"
  obtains t where "gdp_req_send L r s = Some (EP_STAT_OK, t)"
    "upd_req r (\<lambda>q. clr_req_flag GDP_REQ_ASYNCIO (q\<lparr>req_state := GDP_REQ_WAITING\<rparr>)) t =
      sent_state r a (out_pdu p s) req g s"
proof -
  let ?q = "set_req_flag GDP_REQ_ON_GOB_LIST (clr_req_flag GDP_REQ_DONE req)"
  let ?t = "s\<lparr>gobs := (gobs s)(a \<mapsto> g\<lparr>gob_reqs := r # gob_reqs g\<rparr>)\<rparr>"
  have o: "lib_pdu_out L (Some p) ?t = Some (EP_STAT_OK, Some (out_pdu p s), ?t\<lparr>sent := sent s @ [out_pdu p s]\<rparr>)"
    using pdu_out_up [OF assms(9,6), of ?t] by (simp add: out_pdu_def)
  have "gdp_req_send L r s = Some (EP_STAT_OK,
      ?t\<lparr>sent := sent s @ [out_pdu p s], reqs := (reqs s)(r \<mapsto> ?q\<lparr>req_cpdu := Some (out_pdu p s)\<rparr>)\<rparr>)"
    using assms(1-5,7,8) o by (simp add: gdp_req_send_def LIST_INSERT_HEAD_def)
  then show thesis
    by (rule that) (simp add: sent_state_def waiting_def)
qed

declare invoke_loop.simps [simp del] invoke_wait.simps [simp del]

section \<open>Nothing answers\<close>

lemma timeout_round:
  assumes "idle_request r a s" "link_up L"
  shows "\<exists>s' p. idle_request r a s' \<and> sent s' = sent s @ [p] \<and> \<not> has_req_flag GDP_REQ_DONE (the (reqs s' r)) \<and>
    req_rpdu (the (reqs s' r)) = req_rpdu (the (reqs s r)) \<and>
    (\<forall>k ws. invoke_loop (Suc k) L r ((ETIMEDOUT, Some) # ws) s =
      (if k = 0 then Some (EP_STAT_OK, ws, s') else invoke_loop k L r ws s'))"
proof -
  obtain req g p m where q: "reqs s r = Some req" "req_state req = GDP_REQ_ACTIVE" "req_gob req = Some a"
    "\<not> has_req_flag GDP_REQ_ON_GOB_LIST req" "req_cpdu req = Some p" "pdu_msg p = Some m" "gobs s a = Some g"
    "r \<notin> set (gob_reqs g)" "req_events req = []" "has_flag GOBF_ISLOCKED g"
    using assms(1) by (auto simp: idle_request_def)
  obtain t where t: "gdp_req_send L r s = Some (EP_STAT_OK, t)"
    "upd_req r (\<lambda>q. clr_req_flag GDP_REQ_ASYNCIO (q\<lparr>req_state := GDP_REQ_WAITING\<rparr>)) t = sent_state r a (out_pdu p s) req g s"
    by (rule send_idle [OF q(1-8) assms(2)])
  let ?w = "waiting (out_pdu p s) req"
  let ?g = "set_flag GOBF_ISLOCKED (clr_flag GOBF_ISLOCKED (g\<lparr>gob_reqs := r # gob_reqs g\<rparr>))"
  let ?u = "(sent_state r a (out_pdu p s) req g s)\<lparr>gobs := (gobs s)(a \<mapsto> ?g)\<rparr>"
  let ?v = "?u\<lparr>reqs := (reqs s)(r \<mapsto> clr_req_flag GDP_REQ_ON_GOB_LIST (?w\<lparr>req_state := GDP_REQ_ACTIVE\<rparr>)),
    gobs := (gobs s)(a \<mapsto> ?g\<lparr>gob_reqs := gob_reqs g\<rparr>)\<rparr>"
  have w: "invoke_wait r ((ETIMEDOUT, Some) # ws) (sent_state r a (out_pdu p s) req g s) = Some (ETIMEDOUT, ws, ?u)" for ws
    using q(3) by (subst invoke_wait.simps) (simp add: sent_state_def opt_gob_def gdp_gob_unlock_def gdp_gob_lock_def ETIMEDOUT_def)
  have "gdp_req_unsend r (?u\<lparr>reqs := (reqs s)(r \<mapsto> ?w\<lparr>req_state := GDP_REQ_ACTIVE\<rparr>)\<rparr>) = Some (EP_STAT_OK, ?v)"
    using q(3) by (simp add: gdp_req_unsend_def sent_state_def)
  then have l: "invoke_loop (Suc k) L r ((ETIMEDOUT, Some) # ws) s =
      (if k = 0 then Some (EP_STAT_OK, ws, ?v) else invoke_loop k L r ws ?v)" for k ws
    using t w [of ws] by (simp add: invoke_loop.simps sent_state_def ETIMEDOUT_def)
  moreover have "idle_request r a ?v"
    using q by (auto simp: idle_request_def sent_state_def)
  moreover have "sent ?v = sent s @ [out_pdu p s]" "\<not> has_req_flag GDP_REQ_DONE (the (reqs ?v r))"
    "req_rpdu (the (reqs ?v r)) = req_rpdu (the (reqs s r))"
    using q(1) by (simp_all add: sent_state_def)
  ultimately show ?thesis by blast
qed

lemma timeout_loop:
  assumes "idle_request r a s" "link_up L"
  shows "\<exists>s' ps. invoke_loop (Suc k) L r (replicate (Suc k) (ETIMEDOUT, Some)) s = Some (EP_STAT_OK, [], s') \<and>
    idle_request r a s' \<and> sent s' = sent s @ ps \<and> length ps = Suc k \<and> \<not> has_req_flag GDP_REQ_DONE (the (reqs s' r)) \<and>
    req_rpdu (the (reqs s' r)) = req_rpdu (the (reqs s r))"
  using assms(1)
proof (induction k arbitrary: s)
  case 0
  then obtain s' p where "idle_request r a s'" "sent s' = sent s @ [p]" "\<not> has_req_flag GDP_REQ_DONE (the (reqs s' r))"
    "req_rpdu (the (reqs s' r)) = req_rpdu (the (reqs s r))"
    "invoke_loop (Suc 0) L r [(ETIMEDOUT, Some)] s = Some (EP_STAT_OK, [], s')"
    using timeout_round [OF 0 assms(2)] by auto
  then show ?case by (intro exI [of _ s'] exI [of _ "[p]"]) simp
next
  case (Suc k)
  obtain s1 p where s1: "idle_request r a s1" "sent s1 = sent s @ [p]"
    "req_rpdu (the (reqs s1 r)) = req_rpdu (the (reqs s r))"
    "invoke_loop (Suc (Suc k)) L r (replicate (Suc (Suc k)) (ETIMEDOUT, Some)) s =
      invoke_loop (Suc k) L r (replicate (Suc k) (ETIMEDOUT, Some)) s1"
    using timeout_round [OF Suc.prems assms(2)] unfolding replicate_Suc [of "Suc k"] by auto
  obtain s' ps where "invoke_loop (Suc k) L r (replicate (Suc k) (ETIMEDOUT, Some)) s1 = Some (EP_STAT_OK, [], s')"
    "idle_request r a s'" "sent s' = sent s1 @ ps" "length ps = Suc k" "\<not> has_req_flag GDP_REQ_DONE (the (reqs s' r))"
    "req_rpdu (the (reqs s' r)) = req_rpdu (the (reqs s1 r))"
    using Suc.IH [OF s1(1)] by blast
  then show ?case using s1 by (intro exI [of _ s'] exI [of _ "p # ps"]) simp
qed

lemma invoke_timeouts:
  assumes "idle_request r a s" "link_up L"
  shows "\<exists>s' ps. gdp_invoke retries L (replicate (nat (max 1 retries)) (ETIMEDOUT, Some)) r s = Some (EP_STAT_OK, s') \<and>
    idle_request r a s' \<and> sent s' = sent s @ ps \<and> length ps = nat (max 1 retries) \<and>
    \<not> has_req_flag GDP_REQ_DONE (the (reqs s' r)) \<and> req_rpdu (the (reqs s' r)) = req_rpdu (the (reqs s r))"
proof -
  define k where "k = nat (max 1 retries) - 1"
  have k: "nat (max 1 retries) = Suc k" "nat (if retries < 1 then 1 else retries) = Suc k"
    by (auto simp: k_def max_def)
  obtain s1 ps where l: "invoke_loop (Suc k) L r (replicate (Suc k) (ETIMEDOUT, Some)) s = Some (EP_STAT_OK, [], s1)"
    "idle_request r a s1" "sent s1 = sent s @ ps" "length ps = Suc k" "\<not> has_req_flag GDP_REQ_DONE (the (reqs s1 r))"
    "req_rpdu (the (reqs s1 r)) = req_rpdu (the (reqs s r))"
    using timeout_loop [OF assms, of k] by blast
  obtain req where q: "reqs s1 r = Some req" "req_events req = []" using l(2) by (auto simp: idle_request_def)
  have e: "gdp_event_trigger_pending clk acc False req ev = Some (req, ev)" for clk acc ev
    using q(2) by (simp add: gdp_event_trigger_pending_def trigger_loop.simps)
  obtain req0 m where "reqs s r = Some req0" "Option.bind (req_cpdu req0) pdu_msg = Some m" "req_state req0 = GDP_REQ_ACTIVE"
    using assms(1) by (auto simp: idle_request_def)
  then have "gdp_invoke retries L (replicate (nat (max 1 retries)) (ETIMEDOUT, Some)) r s =
      Some (EP_STAT_OK, s1\<lparr>reqs := (reqs s1)(r \<mapsto> req), ev_q := ev_q s1\<rparr>)"
    using l(1) q(1) e unfolding gdp_invoke_def k
    by (simp del: replicate_Suc)
  moreover have "s1\<lparr>reqs := (reqs s1)(r \<mapsto> req), ev_q := ev_q s1\<rparr> = s1" using q(1) by (simp add: fun_upd_idem)
  ultimately show ?thesis using l(2-6) k(1) by (intro exI [of _ s1] exI [of _ ps]) simp
qed

text \<open>C14: when no response comes, \<^verbatim>\<open>_gdp_invoke\<close> sends the command as often as \<^verbatim>\<open>swarm.gdp.invoke.retries\<close>
  says and then reports success, although the request is not done: the status of taking the request
  off the list has replaced the timeout.\<close>

theorem invoke_unanswered:
  assumes "idle_request r a s" "link_up L"
  shows "\<exists>s' ps. gdp_invoke retries L (replicate (nat (max 1 retries)) (ETIMEDOUT, Some)) r s = Some (EP_STAT_OK, s') \<and>
    sent s' = sent s @ ps \<and> length ps = nat (max 1 retries) \<and> \<not> has_req_flag GDP_REQ_DONE (the (reqs s' r))"
  using invoke_timeouts [OF assms] by blast

text \<open>A client with one object, locked by the caller, and one request for it.\<close>

definition sample_link :: link where
  "sample_link = \<lparr>link_open = True, link_room = (\<lambda>_. True)\<rparr>"

definition sample_pdu :: "gdp_cmd \<Rightarrow> byte list \<Rightarrow> byte list \<Rightarrow> gdp_pdu" where
  "sample_pdu c src dst = \<lparr>pdu_inuse = True, pdu_dst = dst, pdu_src = src, pdu_seqno = 0,
     pdu_msg = Some (gdp_msg_new c 5 0)\<rparr>"

definition sample_caller :: "(byte list, unit) gdp_lib" where
  "sample_caller = sample_lib\<lparr>gob_brk := 1, gobs := [0 \<mapsto> set_flag GOBF_ISLOCKED sample_gob],
     reqs := [0 \<mapsto> (sample_req 0)\<lparr>req_state := GDP_REQ_ACTIVE, req_gob := Some 0,
       req_cpdu := Some (sample_pdu CMD_OPEN_RO (replicate 32 7) sample_name)\<rparr>]\<rparr>"

lemma sample_caller_idle: "idle_request 0 0 sample_caller" "link_up sample_link"
proof -
  show "idle_request 0 0 sample_caller"
    by (simp add: idle_request_def sample_caller_def sample_req_def has_req_flag_def sample_pdu_def EP_UT_BITSET_def
      GOBF_ISLOCKED_def)
  show "link_up sample_link" by (simp add: link_up_def sample_link_def)
qed

theorem invoke_unanswered_witness:
  "\<exists>s' ps. gdp_invoke 3 sample_link (replicate 3 (ETIMEDOUT, Some)) 0 sample_caller = Some (EP_STAT_OK, s') \<and>
    sent s' = sent sample_caller @ ps \<and> length ps = 3 \<and> \<not> has_req_flag GDP_REQ_DONE (the (reqs s' 0))"
  using invoke_unanswered [OF sample_caller_idle, of 3] by simp

section \<open>A response arrives\<close>

text \<open>What a function that handles a response may do to the request and its object: it returns a
  status and leaves alone what the delivery of the status relies on.\<close>

definition handled :: "bool \<Rightarrow> nat \<Rightarrow> nat \<Rightarrow> ('b, 'x) gdp_lib \<Rightarrow> ('b, 'x) gdp_lib \<Rightarrow> bool" where
  "handled content r a s s' \<longleftrightarrow> (\<exists>req req' g g'. reqs s r = Some req \<and> reqs s' r = Some req' \<and> gobs s a = Some g \<and> gobs s' a = Some g' \<and>
     req_state req' = req_state req \<and> req_flags req' = req_flags req \<and> req_gob req' = req_gob req \<and>
     req_events req' = req_events req \<and> req_rpdu req' = req_rpdu req \<and> gob_refcnt g' = gob_refcnt g \<and> gob_name g' = gob_name g \<and>
     has_flag GOBF_INUSE g' = has_flag GOBF_INUSE g \<and> has_flag GOBF_ISLOCKED g' = has_flag GOBF_ISLOCKED g \<and>
     has_flag GOBF_KEEPLOCKED g' = has_flag GOBF_KEEPLOCKED g \<and> (content \<or> gob_nrecs g' = gob_nrecs g) \<and>
     ReqFreeList s' = ReqFreeList s \<and> sent s' = sent s)"

text \<open>The status that a response stands for.\<close>

definition response_stat :: "gdp_cmd \<Rightarrow> ep_stat" where
  "response_stat c = (if dispatch_func c \<in> {Some ACK_SUCCESS_FN, Some ACK_DATA_CONTENT_FN} then GDP_STAT_FROM_ACK (uint c)
     else get_default_estat c)"

text \<open>A response with data has at least one record.  The request counts no results and does not ask for
  verification.\<close>

definition content_ok :: "gdp_msg \<Rightarrow> bool" where
  "content_ok m \<longleftrightarrow> (case body m of BODY_ACK_CONTENT dl _ \<Rightarrow> dl \<noteq> [] | _ \<Rightarrow> False)"

definition takes_content :: "'b gdp_req \<Rightarrow> bool" where
  "takes_content req \<longleftrightarrow> req_s_results req < 0 \<and> \<not> has_req_flag GDP_REQ_VRFY_CONTENT req"

text \<open>The codes and the statuses of the table.\<close>

lemma dispatch_codes:
  assumes "dispatch_func c = Some f"
  shows "(case f of ACK_SUCCESS_FN \<Rightarrow> c \<in> {128, 129, 130, 131} | ACK_DATA_CHANGED_FN \<Rightarrow> c = 132 | ACK_DATA_CONTENT_FN \<Rightarrow> c = 133
     | ACK_END_RESULTS_FN \<Rightarrow> c = 191 | NAK_CLIENT_FN \<Rightarrow> c \<in> {192, 193, 194, 195, 196, 197, 198, 202, 204, 205, 207, 222, 223}
     | NAK_SERVER_FN \<Rightarrow> c \<in> {224, 225, 226, 227, 228, 229, 238, 239} | NAK_ROUTER_FN \<Rightarrow> c = 240 | NAK_CONFLICT_FN \<Rightarrow> c = 201)"
proof -
  obtain n e where "(c, Some f, n, e) \<in> set DispatchTable"
    using assms by (auto simp: dispatch_func_def split: option.splits dest: map_of_SomeD)
  then show ?thesis unfolding DispatchTable_def list.set by (elim insertE emptyE) simp_all
qed

lemma distinct_codes: "distinct (map fst DispatchTable)"
  by (simp add: DispatchTable_def)

lemma table_estats: "\<forall>(c, f, n, e)\<in>set DispatchTable. get_default_estat c = e"
  by (auto simp: get_default_estat_def map_of_is_SomeI [OF distinct_codes])

lemma default_estats:
  "get_default_estat 128 = GDP_STAT_ACK_SUCCESS" "get_default_estat 129 = GDP_STAT_ACK_CREATED"
  "get_default_estat 130 = GDP_STAT_ACK_DELETED" "get_default_estat 131 = GDP_STAT_ACK_VALID"
  "get_default_estat 132 = GDP_STAT_ACK_CHANGED" "get_default_estat 133 = GDP_STAT_ACK_CONTENT"
  "get_default_estat 191 = GDP_STAT_ACK_END_OF_RESULTS" "get_default_estat 192 = GDP_STAT_NAK_BADREQ"
  "get_default_estat 193 = GDP_STAT_NAK_UNAUTH" "get_default_estat 194 = GDP_STAT_NAK_BADOPT"
  "get_default_estat 195 = GDP_STAT_NAK_FORBIDDEN" "get_default_estat 196 = GDP_STAT_NAK_NOTFOUND"
  "get_default_estat 197 = GDP_STAT_NAK_METHNOTALLOWED" "get_default_estat 198 = GDP_STAT_NAK_NOTACCEPTABLE"
  "get_default_estat 201 = GDP_STAT_NAK_CONFLICT" "get_default_estat 202 = GDP_STAT_NAK_GONE"
  "get_default_estat 204 = GDP_STAT_NAK_PRECONFAILED" "get_default_estat 205 = GDP_STAT_NAK_TOOLARGE"
  "get_default_estat 207 = GDP_STAT_NAK_UNSUPMEDIA" "get_default_estat 222 = GDP_STAT_NAK_REC_MISSING"
  "get_default_estat 223 = GDP_STAT_NAK_REC_DUP" "get_default_estat 224 = GDP_STAT_NAK_INTERNAL"
  "get_default_estat 225 = GDP_STAT_NAK_NOTIMPL" "get_default_estat 226 = GDP_STAT_NAK_BADGATEWAY"
  "get_default_estat 227 = GDP_STAT_NAK_SVCUNAVAIL" "get_default_estat 228 = GDP_STAT_NAK_GWTIMEOUT"
  "get_default_estat 229 = GDP_STAT_NAK_PROXYNOTSUP" "get_default_estat 238 = GDP_STAT_NAK_REC_MISSING"
  "get_default_estat 239 = GDP_STAT_NAK_LOST_SUBSCR" "get_default_estat 240 = GDP_STAT_NAK_NOROUTE"
  using table_estats unfolding DispatchTable_def list.set ball_simps prod.case by blast+

lemma nak_handled:
  assumes "reqs s r = Some req" "rpdu_msg req = Some m" "gobs s a = Some g"
  shows "nak r s = Some (get_default_estat (cmd m), s)" "handled b r a s s"
  using assms by (simp_all add: nak_def acknak_def handled_def)

lemma ack_status:
  assumes "reqs s r = Some req" "rpdu_msg req = Some m" "cmd m \<in> {128, 129, 130, 131, 133}"
  shows "ack r s = Some (GDP_STAT_FROM_ACK (uint (cmd m)), s\<lparr>reqs := (reqs s)(r \<mapsto> req\<lparr>req_act_ts := now_ts s (req_act_ts req)\<rparr>)\<rparr>)"
    "EP_STAT_ISOK (GDP_STAT_FROM_ACK (uint (cmd m)))" "\<not> EP_STAT_ISFAIL (GDP_STAT_FROM_ACK (uint (cmd m)))"
proof -
  have ok: "\<not> EP_STAT_ISFAIL (acknak req)"
    using assms(2,3)
    by (auto simp: acknak_def default_estats stat_simps GDP_STAT_NEW_def EP_STAT_NEW_def EP_STAT_SEVERITY_def)
  show "EP_STAT_ISOK (GDP_STAT_FROM_ACK (uint (cmd m)))" "\<not> EP_STAT_ISFAIL (GDP_STAT_FROM_ACK (uint (cmd m)))"
    using assms(3) by (auto simp: stat_simps GDP_STAT_NEW_def EP_STAT_NEW_def EP_STAT_SEVERITY_def GDP_STAT_FROM_ACK_def)
  show "ack r s = Some (GDP_STAT_FROM_ACK (uint (cmd m)), s\<lparr>reqs := (reqs s)(r \<mapsto> req\<lparr>req_act_ts := now_ts s (req_act_ts req)\<rparr>)\<rparr>)"
    using assms(1,2) ok by (simp add: ack_def)
qed

lemma ack_handled:
  assumes "reqs s r = Some req" "req_rpdu req = Some rp" "pdu_msg rp = Some m" "dispatch_func (cmd m) = Some ACK_SUCCESS_FN"
    "req_gob req = Some a" "gobs s a = Some g" "gdp_name_is_valid (gob_name g)"
  shows "\<exists>s'. ack_success r s = Some (GDP_STAT_FROM_ACK (uint (cmd m)), s') \<and> handled False r a s s'"
proof -
  have c: "cmd m \<in> {128, 129, 130, 131, 133}"
    using dispatch_codes [OF assms(4)] by auto
  have m: "rpdu_msg req = Some m" using assms(2,3) by (simp add: rpdu_msg_def)
  show ?thesis
    using assms(1,2,5-7) ack_status [OF assms(1) m c]
    by (simp add: ack_success_def handled_def)
qed

lemma content_handled:
  assumes "reqs s r = Some req" "req_rpdu req = Some rp" "pdu_msg rp = Some m" "dispatch_func (cmd m) = Some ACK_DATA_CONTENT_FN"
    "req_gob req = Some a" "gobs s a = Some g" "content_ok m" "takes_content req"
  shows "\<exists>s'. ack_data_content E vf r s = Some (GDP_STAT_FROM_ACK (uint (cmd m)), s') \<and> handled True r a s s'"
proof -
  have c: "cmd m \<in> {128, 129, 130, 131, 133}"
    using dispatch_codes [OF assms(4)] by auto
  have m: "rpdu_msg req = Some m" "rpdu_msg (req\<lparr>req_act_ts := t\<rparr>) = Some m" for t using assms(2,3) by (simp_all add: rpdu_msg_def)
  obtain dl more where b: "body m = BODY_ACK_CONTENT dl more" "dl \<noteq> []"
    using assms(7) by (auto simp: content_ok_def split: gdp_body.splits)
  obtain datum dfl where d: "gdp_datum_new E (datum_free (ev_q s)) = (datum, dfl)" by force
  show ?thesis
    using assms(1,2,5,6,8) ack_status [OF assms(1) m(1) c] m b d
    by (simp add: ack_data_content_def handled_def takes_content_def count_results_def Let_def)
qed

lemma dispatch_handled:
  assumes "reqs s r = Some req" "req_rpdu req = Some rp" "pdu_msg rp = Some m" "cf (cmd m) = None"
    "dispatch_func (cmd m) \<in> Some ` {ACK_SUCCESS_FN, ACK_DATA_CONTENT_FN, NAK_CLIENT_FN, NAK_SERVER_FN, NAK_ROUTER_FN}"
    "req_gob req = Some a" "gobs s a = Some g" "gdp_name_is_valid (gob_name g)"
    "dispatch_func (cmd m) = Some ACK_DATA_CONTENT_FN \<Longrightarrow> content_ok m \<and> takes_content req"
  shows "\<exists>s'. gdp_req_dispatch E vf cf descr (cmd m) r s = Some (response_stat (cmd m), s') \<and>
    handled (dispatch_func (cmd m) = Some ACK_DATA_CONTENT_FN) r a s s'"
proof -
  obtain f where f: "dispatch_func (cmd m) = Some f" using assms(5) by auto
  have c: "\<not> 255 < cmd m"
    using dispatch_codes [OF f] by (cases f) auto
  have m: "rpdu_msg req = Some m" using assms(2,3) by (simp add: rpdu_msg_def)
  consider "dispatch_func (cmd m) = Some ACK_SUCCESS_FN" | "dispatch_func (cmd m) = Some ACK_DATA_CONTENT_FN"
    | "dispatch_func (cmd m) \<in> Some ` {NAK_CLIENT_FN, NAK_SERVER_FN, NAK_ROUTER_FN}"
    using assms(5) by auto
  then show ?thesis
  proof cases
    case 1
    then show ?thesis
      using ack_handled [OF assms(1-3) 1 assms(6-8)] assms(4) c
      by (simp add: gdp_req_dispatch_def run_cmdfunc_def response_stat_def)
  next
    case 2
    then show ?thesis
      using content_handled [OF assms(1-3) 2 assms(6,7), of E vf] assms(4,9) c
      by (simp add: gdp_req_dispatch_def run_cmdfunc_def response_stat_def)
  next
    case 3
    then show ?thesis
      using nak_handled [OF assms(1) m assms(7)] assms(4) c
      by (auto simp: gdp_req_dispatch_def run_cmdfunc_def response_stat_def)
  qed
qed

text \<open>The request is the first on the list of its object, so the response finds it.\<close>

lemma find_waiting:
  assumes "gobs s a = Some g" "has_flag GOBF_INUSE g" "gob_reqs g = r # rs" "reqs s r = Some q"
    "req_state q = GDP_REQ_WAITING" "req_cpdu q = Some p" "pdu_msg p = Some m" "rd = rid m \<or> rd = GDP_PDU_ANY_RID"
  obtains q' g' where "gdp_req_find a rd s = Some (Some r, s\<lparr>gobs := (gobs s)(a \<mapsto> g'), reqs := (reqs s)(r \<mapsto> q')\<rparr>)"
    "q' = q \<or> q' = clr_req_flag GDP_REQ_ON_GOB_LIST q" "g' = g \<or> g' = g\<lparr>gob_reqs := rs\<rparr>"
proof -
  have f: "req_search rd (gob_reqs g) s = Some (Some r)" using assms(3-8) by auto
  show thesis
  proof (cases "has_req_flag (GDP_REQ_PERSIST OR GDP_REQ_ASYNCIO) q")
    case True
    then have "gdp_req_find a rd s = Some (Some r, s)"
      using assms(1,2,4,5) f by (simp add: gdp_req_find_def isgood_flag)
    moreover have "s = s\<lparr>gobs := (gobs s)(a \<mapsto> g), reqs := (reqs s)(r \<mapsto> q)\<rparr>"
      using assms(1,4) by (simp add: fun_upd_idem)
    ultimately show thesis using that [of q g] by simp
  next
    case False
    then have "gdp_req_find a rd s = Some (Some r, s\<lparr>gobs := (gobs s)(a \<mapsto> g\<lparr>gob_reqs := rs\<rparr>),
        reqs := (reqs s)(r \<mapsto> clr_req_flag GDP_REQ_ON_GOB_LIST q)\<rparr>)"
      using assms(1-5) f by (simp add: gdp_req_find_def isgood_flag)
    then show thesis using that [of "clr_req_flag GDP_REQ_ON_GOB_LIST q" "g\<lparr>gob_reqs := rs\<rparr>"] by blast
  qed
qed

text \<open>Waking up the caller and giving back the reference of the lookup.\<close>

lemma signal_finish:
  assumes "reqs s r = Some q" "\<not> has_req_flag GDP_REQ_ASYNCIO q" "req_state q = GDP_REQ_WAITING" "req_gob q = Some a"
    "gobs s a = Some g" "1 < gob_refcnt g" "has_flag GOBF_INUSE g" "has_flag GOBF_ISLOCKED g" "\<not> has_flag GOBF_KEEPLOCKED g"
  obtains s1 s2 q2 g2 where "resp_signal E estat r s = Some s1" "reqs s1 r = Some q2" "req_finish n (req_gob q2) r s1 = Some s2"
    "reqs s2 r = Some q2" "req_stat q2 = estat" "has_req_flag GDP_REQ_DONE q2" "req_gob q2 = Some a"
    "req_events q2 = req_events q" "has_req_flag GDP_REQ_ROUTEFAIL q2 = has_req_flag GDP_REQ_ROUTEFAIL q"
    "req_rpdu q2 = req_rpdu q" "gobs s2 a = Some g2" "\<not> has_flag GOBF_ISLOCKED g2" "has_flag GOBF_INUSE g2"
    "\<not> has_flag GOBF_KEEPLOCKED g2" "gob_refcnt g2 = gob_refcnt g - 1" "gob_name g2 = gob_name g" "gob_nrecs g2 = gob_nrecs g"
    "ReqFreeList s2 = ReqFreeList s" "sent s2 = sent s"
proof -
  let ?q = "set_req_flag (GDP_REQ_DONE OR GDP_REQ_ASYNCIO OR GDP_REQ_PERSIST) (q\<lparr>req_stat := estat\<rparr>)"
  let ?s = "s\<lparr>reqs := (reqs s)(r \<mapsto> ?q)\<rparr>"
  let ?g = "clr_flag GOBF_ISLOCKED (g\<lparr>gob_refcnt := gob_refcnt g - 1\<rparr>)"
  have rf: "\<not> EP_UT_BITSET GDP_REQ_ROUTEFAIL (GDP_REQ_DONE OR GDP_REQ_ASYNCIO OR GDP_REQ_PERSIST)"
    by (simp add: bitset_or_right)
  have sg: "resp_signal E estat r s = Some ?s" using assms(1-3) by (simp add: resp_signal_def)
  have "gdp_gob_decref (gdp_gob_free n) False a ?s = Some (True, ?s\<lparr>gobs := (gobs s)(a \<mapsto> ?g)\<rparr>)"
    using assms(5-9) by (simp add: gdp_gob_decref_def isgood_flag gdp_gob_unlock_def Let_def)
  then have "req_finish n (Some a) r ?s = Some (?s\<lparr>gobs := (gobs s)(a \<mapsto> ?g)\<rparr>)"
    by (simp add: req_finish_def)
  then show thesis
    using that [OF sg, of ?q "?s\<lparr>gobs := (gobs s)(a \<mapsto> ?g)\<rparr>" ?g] assms(4,7,9) rf by simp
qed

lemma inv_requests [simp]: "cache_inv (s\<lparr>reqs := x\<rparr>) = cache_inv s" "cache_inv (s\<lparr>sent := y\<rparr>) = cache_inv s"
  by (simp_all add: cache_inv_defs cached_as_def)

text \<open>The response to a waiting request that is first on the list of its object.  The codes 132, 191 and 201, whose functions do more than
  hand on the status, are not among them.\<close>

definition answers :: "(gdp_cmd \<rightharpoonup> ('b, 'x) handler) \<Rightarrow> byte list \<Rightarrow> gdp_msg \<Rightarrow> gdp_pdu \<Rightarrow> gdp_cmd \<Rightarrow> bool" where
  "answers cf name m rpdu c \<longleftrightarrow> pdu_src rpdu = name \<and> (\<exists>rm. pdu_msg rpdu = Some rm \<and> cmd rm = c \<and>
     (rid rm = rid m \<or> rid rm = GDP_PDU_ANY_RID) \<and> (dispatch_func c = Some ACK_DATA_CONTENT_FN \<longrightarrow> content_ok rm)) \<and> cf c = None \<and>
     dispatch_func c \<in> Some ` {ACK_SUCCESS_FN, ACK_DATA_CONTENT_FN, NAK_CLIENT_FN, NAK_SERVER_FN, NAK_ROUTER_FN}"

text \<open>A request that has been given the response, and its object.\<close>

definition answered :: "gdp_cmd \<Rightarrow> gdp_pdu \<Rightarrow> nat \<Rightarrow> nat \<Rightarrow> 'x gdp_gob \<Rightarrow> ('b, 'x) gdp_lib \<Rightarrow> ('b, 'x) gdp_lib \<Rightarrow> bool" where
  "answered c rpdu r a g s s' \<longleftrightarrow> (\<exists>q g'. reqs s' r = Some q \<and> req_gob q = Some a \<and> req_events q = [] \<and> req_rpdu q = Some rpdu \<and>
     gobs s' a = Some g' \<and> has_flag GOBF_INUSE g' \<and> \<not> has_flag GOBF_KEEPLOCKED g' \<and> gob_refcnt g' = gob_refcnt g \<and>
     gob_name g' = gob_name g \<and> (dispatch_func c = Some ACK_DATA_CONTENT_FN \<or> gob_nrecs g' = gob_nrecs g) \<and>
     ReqFreeList s' = ReqFreeList s \<and> sent s' = sent s)"

lemma process_resp_waiting:
  assumes "cache_inv s" "\<not> GobCacheMutex s" "gobs s a = Some g" "has_flag GOBF_INCACHE g" "\<not> has_flag GOBF_ISLOCKED g"
    "\<not> has_flag GOBF_DROPPING g" "\<not> has_flag GOBF_KEEPLOCKED g" "0 < gob_refcnt g" "gdp_name_is_valid (gob_name g)"
    "gob_reqs g = r # rs" "reqs s r = Some q" "req_state q = GDP_REQ_WAITING" "req_gob q = Some a"
    "req_cpdu q = Some p" "pdu_msg p = Some m" "\<not> has_req_flag GDP_REQ_ASYNCIO q" "answers cf (gob_name g) m rpdu c"
    "req_events q = []" "dispatch_func c = Some ACK_DATA_CONTENT_FN \<Longrightarrow> takes_content q"
  shows "\<exists>s'. process_resp E vf cf descr n sha rpdu s = Some s' \<and> answered c rpdu r a g s s' \<and>
    req_stat (the (reqs s' r)) = response_stat c \<and> has_req_flag GDP_REQ_DONE (the (reqs s' r)) \<and>
    has_req_flag GDP_REQ_ROUTEFAIL (the (reqs s' r)) = has_req_flag GDP_REQ_ROUTEFAIL q \<and>
    \<not> has_flag GOBF_ISLOCKED (the (gobs s' a))"
proof -
  obtain rm where rm: "pdu_src rpdu = gob_name g" "pdu_msg rpdu = Some rm" "cmd rm = c"
    "rid rm = rid m \<or> rid rm = GDP_PDU_ANY_RID" "cf c = None"
    "dispatch_func c \<in> Some ` {ACK_SUCCESS_FN, ACK_DATA_CONTENT_FN, NAK_CLIENT_FN, NAK_SERVER_FN, NAK_ROUTER_FN}"
    "dispatch_func c = Some ACK_DATA_CONTENT_FN \<Longrightarrow> content_ok rm"
    using assms(17) by (auto simp: answers_def)
  have fl: "EP_UT_BITSET GGCF_GET_PENDING GGCF_GET_PENDING" "\<not> EP_UT_BITSET GGCF_PEEK GGCF_GET_PENDING"
    by (simp_all add: EP_UT_BITSET_def GGCF_GET_PENDING_def GGCF_PEEK_def)
  have u: "has_flag GOBF_INUSE g" "usable GGCF_GET_PENDING g" "cached_as s a (pdu_src rpdu)"
    using inv_gob [OF assms(1,3)] assms(3,4,6) fl rm(1) by (simp_all add: gob_ok_def usable_def cached_as_def)
  let ?g1 = "(set_flag GOBF_ISLOCKED g)\<lparr>gob_refcnt := gob_refcnt g + 1, gob_utime := now_sec s\<rparr>"
  let ?s1 = "s\<lparr>gobs := (gobs s)(a \<mapsto> ?g1), GobsByUse := a # remove1 a (GobsByUse s)\<rparr>"
  have get: "gdp_gob_cache_get sha [] 0 (pdu_src rpdu) GGCF_GET_PENDING s = Some (Some a, ?s1)"
    using get_hit [OF assms(1,2) u(3) assms(3,5) u(2)] fl by (simp add: after_hit_def Let_def)
  have g1: "gobs ?s1 a = Some ?g1" "has_flag GOBF_INUSE ?g1" "gob_reqs ?g1 = r # rs" "reqs ?s1 r = Some q"
    using u(1) assms(10,11) by simp_all
  obtain q2 g2 where f: "gdp_req_find a (rid rm) ?s1 =
      Some (Some r, ?s1\<lparr>gobs := (gobs ?s1)(a \<mapsto> g2), reqs := (reqs ?s1)(r \<mapsto> q2)\<rparr>)"
    "q2 = q \<or> q2 = clr_req_flag GDP_REQ_ON_GOB_LIST q" "g2 = ?g1 \<or> g2 = ?g1\<lparr>gob_reqs := rs\<rparr>"
    by (rule find_waiting [OF g1 assms(12,14,15) rm(4)])
  let ?s2 = "?s1\<lparr>gobs := (gobs ?s1)(a \<mapsto> g2), reqs := (reqs ?s1)(r \<mapsto> q2)\<rparr>"
  have find: "resp_find n sha rpdu (rid rm) s = Some (Some r, ?s2)"
    using get f(1) by (simp add: resp_find_def)
  let ?q3 = "q2\<lparr>req_rpdu := Some rpdu, req_act_ts := now_ts ?s2 (req_act_ts q2)\<rparr>"
  let ?s3 = "?s2\<lparr>pdu_freelist := free_opt_pdu (req_rpdu q2) (pdu_freelist ?s2), reqs := (reqs ?s2)(r \<mapsto> ?q3)\<rparr>"
  have q3: "reqs ?s3 r = Some ?q3" "req_rpdu ?q3 = Some rpdu" "req_gob ?q3 = Some a" "gobs ?s3 a = Some g2"
    "gdp_name_is_valid (gob_name g2)" "req_state ?q3 = GDP_REQ_WAITING" "\<not> has_req_flag GDP_REQ_ASYNCIO ?q3"
    "req_events ?q3 = []" "has_req_flag GDP_REQ_ROUTEFAIL ?q3 = has_req_flag GDP_REQ_ROUTEFAIL q"
    "gob_refcnt g2 = gob_refcnt g + 1" "gob_name g2 = gob_name g" "gob_nrecs g2 = gob_nrecs g"
    "has_flag GOBF_INUSE g2" "has_flag GOBF_ISLOCKED g2" "\<not> has_flag GOBF_KEEPLOCKED g2"
    "takes_content ?q3 = takes_content q"
    using f(2,3) assms(7,9,12,13,16,18) u(1) by (auto simp: takes_content_def)
  obtain s4 where d: "gdp_req_dispatch E vf cf descr c r ?s3 = Some (response_stat c, s4)"
    "handled (dispatch_func c = Some ACK_DATA_CONTENT_FN) r a ?s3 s4"
    using dispatch_handled [OF q3(1,2) rm(2) _ _ q3(3-5), of cf E vf descr] rm(3,5-7) assms(19) q3(16) by auto
  obtain q4 g4 where h: "reqs s4 r = Some q4" "gobs s4 a = Some g4" "req_state q4 = GDP_REQ_WAITING"
    "req_flags q4 = req_flags ?q3" "req_gob q4 = Some a" "req_events q4 = []" "gob_refcnt g4 = gob_refcnt g + 1"
    "has_flag GOBF_INUSE g4" "has_flag GOBF_ISLOCKED g4" "\<not> has_flag GOBF_KEEPLOCKED g4" "req_rpdu q4 = Some rpdu"
    "gob_name g4 = gob_name g" "dispatch_func c = Some ACK_DATA_CONTENT_FN \<or> gob_nrecs g4 = gob_nrecs g"
    "ReqFreeList s4 = ReqFreeList s" "sent s4 = sent s"
    using d(2) q3 unfolding handled_def by auto
  have h4: "\<not> has_req_flag GDP_REQ_ASYNCIO q4" "has_req_flag GDP_REQ_ROUTEFAIL q4 = has_req_flag GDP_REQ_ROUTEFAIL q" "1 < gob_refcnt g4"
    using h(4,7) q3(7,9) assms(8) by (simp_all add: has_req_flag_def)
  obtain s5 s6 q6 g6 where e: "resp_signal E (response_stat c) r s4 = Some s5" "reqs s5 r = Some q6"
    "req_finish n (req_gob q6) r s5 = Some s6" "reqs s6 r = Some q6" "req_stat q6 = response_stat c"
    "has_req_flag GDP_REQ_DONE q6" "req_gob q6 = Some a" "req_events q6 = req_events q4"
    "has_req_flag GDP_REQ_ROUTEFAIL q6 = has_req_flag GDP_REQ_ROUTEFAIL q4" "req_rpdu q6 = req_rpdu q4"
    "gobs s6 a = Some g6" "\<not> has_flag GOBF_ISLOCKED g6" "has_flag GOBF_INUSE g6" "\<not> has_flag GOBF_KEEPLOCKED g6"
    "gob_refcnt g6 = gob_refcnt g4 - 1" "gob_name g6 = gob_name g4" "gob_nrecs g6 = gob_nrecs g4"
    "ReqFreeList s6 = ReqFreeList s4" "sent s6 = sent s4"
    by (rule signal_finish [OF h(1) h4(1) h(3,5,2) h4(3) h(8-10)])
  have "process_resp E vf cf descr n sha rpdu s = Some s6"
    using rm(2,3) find d(1) e(1-3) by (simp add: process_resp_def now_ts_def)
  moreover have "answered c rpdu r a g s s6"
    using e(4,7,8,10,11,13-19) h(6,7,11-15) by (simp add: answered_def)
  ultimately show ?thesis using e(4-6,9,11,12) h4(2) by (intro exI [of _ s6]) simp
qed

text \<open>The state in which the caller waits, with the object unlocked.\<close>

definition asleep :: "nat \<Rightarrow> nat \<Rightarrow> gdp_pdu \<Rightarrow> 'b gdp_req \<Rightarrow> 'x gdp_gob \<Rightarrow> ('b, 'x) gdp_lib \<Rightarrow> ('b, 'x) gdp_lib" where
  "asleep r a p req g s = (sent_state r a p req g s)
     \<lparr>gobs := (gobs s)(a \<mapsto> clr_flag GOBF_ISLOCKED (g\<lparr>gob_reqs := r # gob_reqs g\<rparr>))\<rparr>"

lemma asleep_inv:
  assumes "cache_inv s" "gobs s a = Some g" "int (length (gob_reqs g)) < gob_refcnt g"
  shows "cache_inv (asleep r a p req g s)"
proof -
  let ?g = "clr_flag GOBF_ISLOCKED (g\<lparr>gob_reqs := r # gob_reqs g\<rparr>)"
  have "cache_inv (s\<lparr>gobs := (gobs s)(a \<mapsto> ?g)\<rparr>)"
    by (rule inv_upd [OF assms(1,2)]) (use inv_gob [OF assms(1,2)] assms(3) in \<open>auto simp: gob_ok_def\<close>)
  then have "cache_inv (s\<lparr>gobs := (gobs s)(a \<mapsto> ?g)\<rparr>\<lparr>reqs := (reqs s)(r \<mapsto> waiting p req)\<rparr>\<lparr>sent := sent s @ [p]\<rparr>)"
    by (simp only: inv_requests)
  moreover have "asleep r a p req g s =
      s\<lparr>gobs := (gobs s)(a \<mapsto> ?g)\<rparr>\<lparr>reqs := (reqs s)(r \<mapsto> waiting p req)\<rparr>\<lparr>sent := sent s @ [p]\<rparr>"
    by (simp add: asleep_def sent_state_def)
  ultimately show ?thesis by simp
qed

lemma wait_answered:
  assumes "req_gob req = Some a" "others (asleep r a p req g s) = Some t" "answered c rpdu r a g' u t"
    "has_req_flag GDP_REQ_DONE (the (reqs t r))" "\<not> has_flag GOBF_ISLOCKED (the (gobs t a))"
  shows "invoke_wait r [(0, others)] (sent_state r a p req g s) =
    Some (0, [], t\<lparr>gobs := (gobs t)(a \<mapsto> set_flag GOBF_ISLOCKED (the (gobs t a)))\<rparr>)" (is "_ = Some (0, [], ?t)")
proof -
  obtain q g1 where t: "reqs t r = Some q" "req_gob q = Some a" "gobs t a = Some g1"
    using assms(3) by (auto simp: answered_def)
  have u: "opt_gob gdp_gob_unlock r (sent_state r a p req g s) = Some (asleep r a p req g s)"
    using assms(1) by (simp add: asleep_def sent_state_def opt_gob_def gdp_gob_unlock_def)
  have k: "opt_gob gdp_gob_lock r t = Some ?t"
    using t assms(5) by (simp add: opt_gob_def gdp_gob_lock_def)
  have e: "invoke_wait r [] ?t = Some (0, [], ?t)" using t(1) assms(4) by (simp add: invoke_wait.simps)
  have n: "reqs (sent_state r a p req g s) r = Some (waiting p req)" by (simp add: sent_state_def)
  show ?thesis by (subst invoke_wait.simps) (simp only: n option.case waiting_fields if_False list.case prod.case
    u k e assms(2) Option.bind.simps simp_thms refl)
qed

text \<open>A command that is answered.  \<open>others\<close> is what the other threads do while the caller waits.\<close>

lemma invoke_response:
  assumes "cache_inv s" "\<not> GobCacheMutex s" "idle_request r a s" "link_up L" "gobs s a = Some g" "has_flag GOBF_INCACHE g"
    "\<not> has_flag GOBF_DROPPING g" "\<not> has_flag GOBF_KEEPLOCKED g" "int (length (gob_reqs g)) < gob_refcnt g"
    "gdp_name_is_valid (gob_name g)" "reqs s r = Some req" "req_cpdu req = Some p" "pdu_msg p = Some m"
    "answers cf (gob_name g) m rpdu c" "response_stat c \<noteq> GDP_STAT_NAK_NOROUTE \<or> has_req_flag GDP_REQ_ROUTEFAIL req"
    "dispatch_func c = Some ACK_DATA_CONTENT_FN \<Longrightarrow> takes_content req"
    "\<And>u. sent u = sent s @ [out_pdu p s] \<Longrightarrow> others u = process_resp E vf cf descr n sha rpdu u"
  shows "\<exists>s'. gdp_invoke retries L [(0, others)] r s = Some (response_stat c, s') \<and>
    answered c rpdu r a g (s\<lparr>sent := sent s @ [out_pdu p s]\<rparr>) s' \<and> req_state (the (reqs s' r)) = GDP_REQ_ACTIVE \<and>
    has_flag GOBF_ISLOCKED (the (gobs s' a))"
proof -
  have q: "req_state req = GDP_REQ_ACTIVE" "req_gob req = Some a" "\<not> has_req_flag GDP_REQ_ON_GOB_LIST req"
    "r \<notin> set (gob_reqs g)" "req_events req = []" "has_flag GOBF_ISLOCKED g"
    using assms(3,5,11,12) by (auto simp: idle_request_def)
  let ?p = "out_pdu p s"
  obtain t where t: "gdp_req_send L r s = Some (EP_STAT_OK, t)"
    "upd_req r (\<lambda>q. clr_req_flag GDP_REQ_ASYNCIO (q\<lparr>req_state := GDP_REQ_WAITING\<rparr>)) t = sent_state r a ?p req g s"
    by (rule send_idle [OF assms(11) q(1-3) assms(12,13,5) q(4) assms(4)])
  let ?g = "clr_flag GOBF_ISLOCKED (g\<lparr>gob_reqs := r # gob_reqs g\<rparr>)"
  let ?u = "asleep r a ?p req g s"
  have i: "cache_inv ?u" "\<not> GobCacheMutex ?u" "gobs ?u a = Some ?g" "sent ?u = sent s @ [?p]" "ReqFreeList ?u = ReqFreeList s"
    using asleep_inv [OF assms(1,5,9)] assms(2) by (simp_all add: asleep_def sent_state_def)
  have kp: "has_flag GOBF_INCACHE ?g" "\<not> has_flag GOBF_ISLOCKED ?g" "\<not> has_flag GOBF_DROPPING ?g" "\<not> has_flag GOBF_KEEPLOCKED ?g"
    "0 < gob_refcnt ?g" "gdp_name_is_valid (gob_name ?g)" "gob_reqs ?g = r # gob_reqs g"
    using assms(6-10) by simp_all
  have wq: "reqs ?u r = Some (waiting ?p req)" "req_state (waiting ?p req) = GDP_REQ_WAITING" "req_gob (waiting ?p req) = Some a"
    "req_cpdu (waiting ?p req) = Some ?p" "pdu_msg ?p = Some (pdu_msg_flags m)" "\<not> has_req_flag GDP_REQ_ASYNCIO (waiting ?p req)"
    "answers cf (gob_name ?g) (pdu_msg_flags m) rpdu c" "req_events (waiting ?p req) = []"
    "takes_content (waiting ?p req) = takes_content req"
    using q(2,5) assms(13,14) by (simp_all add: asleep_def sent_state_def answers_def pdu_msg_flags_def takes_content_def)
  obtain s1 where d: "process_resp E vf cf descr n sha rpdu ?u = Some s1" "answered c rpdu r a ?g ?u s1"
    "req_stat (the (reqs s1 r)) = response_stat c" "has_req_flag GDP_REQ_DONE (the (reqs s1 r))"
    "has_req_flag GDP_REQ_ROUTEFAIL (the (reqs s1 r)) = has_req_flag GDP_REQ_ROUTEFAIL req"
    "\<not> has_flag GOBF_ISLOCKED (the (gobs s1 a))"
    using process_resp_waiting [OF i(1-3) kp wq(1-8), of E vf descr n sha] assms(16) wq(9) by auto
  have ot: "others ?u = Some s1" using assms(17) [OF i(4)] d(1) by simp
  let ?s2 = "s1\<lparr>gobs := (gobs s1)(a \<mapsto> set_flag GOBF_ISLOCKED (the (gobs s1 a)))\<rparr>"
  have w: "invoke_wait r [(0, others)] (sent_state r a ?p req g s) = Some (0, [], ?s2)"
    using wait_answered [of req a others, OF q(2) ot d(2,4,6)] .
  obtain q1 where q1: "reqs s1 r = Some q1" "req_events q1 = []" using d(2) by (auto simp: answered_def)
  let ?q2 = "q1\<lparr>req_state := GDP_REQ_ACTIVE\<rparr>"
  let ?s3 = "?s2\<lparr>reqs := (reqs s1)(r \<mapsto> ?q2)\<rparr>"
  have nr: "(req_stat ?q2 = GDP_STAT_NAK_NOROUTE \<and> \<not> has_req_flag GDP_REQ_ROUTEFAIL ?q2) = False"
    using d(3,5) q1(1) assms(15) by auto
  have l: "invoke_loop (Suc k) L r [(0, others)] s = Some (response_stat c, [], ?s3)" for k
    unfolding invoke_loop.simps t(1) using t(2) w d(3) q1(1) nr by (simp add: Let_def)
  have e: "gdp_event_trigger_pending clk acc False ?q2 ev = Some (?q2, ev)" for clk acc ev
    using q1(2) by (simp add: gdp_event_trigger_pending_def trigger_loop.simps)
  obtain k where k: "nat (if retries < 1 then 1 else retries) = Suc k"
    by (rule that [of "nat (if retries < 1 then 1 else retries) - 1"]) auto
  have "gdp_invoke retries L [(0, others)] r s = Some (response_stat c, ?s3\<lparr>reqs := (reqs s1)(r \<mapsto> ?q2), ev_q := ev_q s1\<rparr>)"
    using assms(11-13) q(1) l e unfolding gdp_invoke_def k by simp
  moreover have "answered c rpdu r a g (s\<lparr>sent := sent s @ [?p]\<rparr>) ?s3"
    using d(2) i(4,5) q1(1) by (auto simp: answered_def)
  ultimately show ?thesis by (intro exI [of _ ?s3]) simp
qed

text \<open>C13: a response to the command that arrives while \<^verbatim>\<open>_gdp_invoke\<close> waits is what it returns: \<^verbatim>\<open>process_resp\<close>
  finds the request through the object in the cache, hands it the status that the response stands for
  and wakes up the caller, which has the response in its request, holds the lock of the object again and has
  sent the command once.  This is so for the acknowledgements 128 to 131 and 133 (with data that the request does not ask to verify) and for every negative
  acknowledgement with an entry in the dispatch table but a conflict (201), except that a missing route is tried again unless
  the request says otherwise.  Codes 132, 191 and 201 have functions of their own.\<close>

theorem invoke_answered:
  assumes "cache_inv s" "\<not> GobCacheMutex s" "idle_request r a s" "link_up L" "gobs s a = Some g" "has_flag GOBF_INCACHE g"
    "\<not> has_flag GOBF_DROPPING g" "\<not> has_flag GOBF_KEEPLOCKED g" "int (length (gob_reqs g)) < gob_refcnt g"
    "gdp_name_is_valid (gob_name g)" "reqs s r = Some req" "Option.bind (req_cpdu req) pdu_msg = Some m"
    "answers cf (gob_name g) m rpdu c" "response_stat c \<noteq> GDP_STAT_NAK_NOROUTE \<or> has_req_flag GDP_REQ_ROUTEFAIL req"
    "dispatch_func c = Some ACK_DATA_CONTENT_FN \<longrightarrow> takes_content req"
  shows "\<exists>s' q' g' p'. gdp_invoke retries L [(0, process_resp E vf cf descr n sha rpdu)] r s = Some (response_stat c, s') \<and>
    reqs s' r = Some q' \<and> req_rpdu q' = Some rpdu \<and> gobs s' a = Some g' \<and> has_flag GOBF_ISLOCKED g' \<and> sent s' = sent s @ [p']"
proof -
  obtain p where p: "req_cpdu req = Some p" "pdu_msg p = Some m" using assms(12) by (cases "req_cpdu req") auto
  have tc: "dispatch_func c = Some ACK_DATA_CONTENT_FN \<Longrightarrow> takes_content req" using assms(15) by simp
  obtain s' where "gdp_invoke retries L [(0, process_resp E vf cf descr n sha rpdu)] r s = Some (response_stat c, s')"
    "answered c rpdu r a g (s\<lparr>sent := sent s @ [out_pdu p s]\<rparr>) s'" "has_flag GOBF_ISLOCKED (the (gobs s' a))"
    using invoke_response [OF assms(1-11) p assms(13,14) tc, of "process_resp E vf cf descr n sha rpdu" E vf descr n sha retries]
    by blast
  then show ?thesis unfolding answered_def by (elim exE conjE) simp
qed

theorem invoke_answered_witness:
  "\<exists>s s' q' (g' :: unit gdp_gob) p'. gdp_invoke 3 sample_link
      [(0, process_resp list_evbuffer (\<lambda>_ _. Some EP_STAT_OK) Map.empty [] 1 (\<lambda>_. []) (sample_pdu 196 sample_name (replicate 32 7)))] 0 s =
      Some (GDP_STAT_NAK_NOTFOUND, s') \<and> reqs s' 0 = Some q' \<and>
      req_rpdu q' = Some (sample_pdu 196 sample_name (replicate 32 7)) \<and> gobs s' 0 = Some g' \<and> has_flag GOBF_ISLOCKED g' \<and>
      sent s' = sent s @ [p']"
proof -
  obtain s0 :: "(byte list, unit) gdp_lib" and g where c: "cache_reach 0 (\<lambda>_. []) True s0" "gobs s0 0 = Some g"
    "gob_refcnt g = 1" "\<not> has_flag GOBF_DROPPING g" "has_flag GOBF_INCACHE g" "gob_reqs g = []"
    "\<not> has_flag GOBF_KEEPLOCKED g" "gob_name g = sample_name" "has_flag GOBF_INUSE g"
    by (rule sample_cached)
  let ?g = "set_flag GOBF_ISLOCKED g"
  let ?req = "(sample_req 0)\<lparr>req_state := GDP_REQ_ACTIVE, req_gob := Some 0,
       req_cpdu := Some (sample_pdu CMD_OPEN_RO (replicate 32 7) sample_name)\<rparr>"
  let ?s = "s0\<lparr>gobs := (gobs s0)(0 \<mapsto> ?g)\<rparr>\<lparr>reqs := [0 \<mapsto> ?req]\<rparr>"
  have i: "cache_inv s0" "\<not> GobCacheMutex s0" using reach_inv [OF c(1)] by simp_all
  have "cache_inv (s0\<lparr>gobs := (gobs s0)(0 \<mapsto> ?g)\<rparr>)"
    by (rule inv_upd [OF i(1) c(2)]) (use inv_gob [OF i(1) c(2)] in \<open>auto simp: gob_ok_def\<close>)
  then have s: "cache_inv ?s" "\<not> GobCacheMutex ?s" using i(2) by simp_all
  have idle: "idle_request 0 0 ?s"
    using c(6) by (simp add: idle_request_def sample_req_def has_req_flag_def sample_pdu_def EP_UT_BITSET_def
      GOBF_ISLOCKED_def)
  have a: "answers Map.empty sample_name (gdp_msg_new CMD_OPEN_RO 5 0) (sample_pdu 196 sample_name (replicate 32 7)) 196"
    by (simp add: answers_def sample_pdu_def gdp_msg_new_def dispatch_func_def DispatchTable_def GDP_PDU_NO_RID_def)
  have df: "dispatch_func 196 = Some NAK_CLIENT_FN" by (simp add: dispatch_func_def DispatchTable_def)
  have r: "response_stat 196 = GDP_STAT_NAK_NOTFOUND" "GDP_STAT_NAK_NOTFOUND \<noteq> GDP_STAT_NAK_NOROUTE"
    "dispatch_func 196 \<noteq> Some ACK_DATA_CONTENT_FN"
    by (simp_all add: response_stat_def df default_estats stat_simps GDP_STAT_NEW_def EP_STAT_NEW_def mask_eq_exp_minus_1)
  have "\<exists>s' q' g' p'. gdp_invoke 3 sample_link [(0, process_resp list_evbuffer (\<lambda>_ _. Some EP_STAT_OK) Map.empty [] 1 (\<lambda>_. [])
      (sample_pdu 196 sample_name (replicate 32 7)))] 0 ?s =
      Some (response_stat 196, s') \<and> reqs s' 0 = Some q' \<and>
      req_rpdu q' = Some (sample_pdu 196 sample_name (replicate 32 7)) \<and> gobs s' 0 = Some g' \<and> has_flag GOBF_ISLOCKED g' \<and>
      sent s' = sent ?s @ [p']"
    by (rule invoke_answered [OF s idle sample_caller_idle(2), of ?g ?req "gdp_msg_new CMD_OPEN_RO 5 0"])
      (use c a r sample_name_valid in \<open>simp_all add: sample_pdu_def\<close>)
  then show ?thesis unfolding r(1) by blast
qed

section \<open>The status of a response\<close>

text \<open>C30: for every response that has a function in the dispatch table, the status of the table and the one that
  \<^verbatim>\<open>_gdp_stat_from_acknak\<close> computes are the same exactly for the negative acknowledgements, except for five: codes 202, 222, 223
  and 239 are warnings in the table and failures when computed, and code 238 is given the status of 222.  For
  no positive acknowledgement are they the same: what is computed has no registry and no module.  The detail
  agrees for all codes but 238.\<close>

theorem dispatch_estat_agrees:
  assumes "dispatch_func c \<noteq> None"
  shows "(get_default_estat c = gdp_stat_from_acknak (uint c) \<longleftrightarrow> 192 \<le> c \<and> c \<notin> {202, 222, 223, 238, 239}) \<and>
    (EP_STAT_DETAIL (get_default_estat c) = EP_STAT_DETAIL (gdp_stat_from_acknak (uint c)) \<longleftrightarrow> c \<noteq> 238)"
proof -
  obtain f where "dispatch_func c = Some f" using assms by blast
  from dispatch_codes [OF this]
  have "c \<in> {128, 129, 130, 131, 132, 133, 191, 192, 193, 194, 195, 196, 197, 198, 201, 202, 204, 205, 207, 222, 223, 224,
      225, 226, 227, 228, 229, 238, 239, 240}"
    by (cases f) auto
  then show ?thesis
    by (elim insertE) (simp_all add: default_estats gdp_stat_from_acknak_def stat_simps GDP_STAT_NEW_def EP_STAT_NEW_def
      GDP_STAT_FROM_ACK_def GDP_STAT_FROM_C_NAK_def GDP_STAT_FROM_S_NAK_def GDP_STAT_FROM_R_NAK_def mask_eq_exp_minus_1)
qed

theorem dispatch_estat_agrees_witness:
  "get_default_estat 196 = gdp_stat_from_acknak 196 \<and> get_default_estat 222 \<noteq> gdp_stat_from_acknak 222 \<and>
   get_default_estat 128 \<noteq> gdp_stat_from_acknak 128"
  using dispatch_estat_agrees [of 196] dispatch_estat_agrees [of 222] dispatch_estat_agrees [of 128]
  by (simp add: dispatch_func_def DispatchTable_def)

end
