(* ===== verification/Gdp_Gob_Ops.thy ===== *)
theory Gdp_Gob_Ops
  imports Gdp_Invoke
begin

text \<open>
  The operations of a client on GDP objects, \<^verbatim>\<open>gdp/gdp_gob_ops.c\<close>: creating, opening, closing and deleting a
  log, appending and reading, each with its asynchronous form, and the contexts for signing and
  verification.  An operation makes a request, invokes it and takes the result from the response.

  \<^term>\<open>None\<close> stands for a null pointer that is followed, for a message taken for one of another kind and
  for a step that does not return.
\<close>

definition CMD_PING :: gdp_cmd where "CMD_PING = 64"
definition CMD_CLOSE :: gdp_cmd where "CMD_CLOSE = 70"
definition CMD_UNSUBSCRIBE :: gdp_cmd where "CMD_UNSUBSCRIBE = 78"
definition CMD_GETMETADATA :: gdp_cmd where "CMD_GETMETADATA = 79"
definition CMD_ADVERTISE :: gdp_cmd where "CMD_ADVERTISE = 1"
definition CMD_WITHDRAW :: gdp_cmd where "CMD_WITHDRAW = 2"
definition ACK_DELETED :: gdp_cmd where "ACK_DELETED = 130"
definition NAK_C_BADREQ :: gdp_cmd where "NAK_C_BADREQ = 192"
definition NAK_C_UNAUTH :: gdp_cmd where "NAK_C_UNAUTH = 193"
definition NAK_C_BADOPT :: gdp_cmd where "NAK_C_BADOPT = 194"
definition NAK_C_FORBIDDEN :: gdp_cmd where "NAK_C_FORBIDDEN = 195"
definition NAK_C_NOTFOUND :: gdp_cmd where "NAK_C_NOTFOUND = 196"
definition NAK_S_INTERNAL :: gdp_cmd where "NAK_S_INTERNAL = 224"

section \<open>The verification context and the hash of a record\<close>

text \<open>The cryptographic library: the digest, whether a public key can be read, and the check and the
  making of a signature over the bytes digested, with the key of the object.\<close>

record 'g crypto =
  md_hash :: "byte list \<Rightarrow> byte list"
  key_read :: "byte list \<Rightarrow> bool"
  vrfy_final :: "'g \<Rightarrow> byte list \<Rightarrow> byte list \<Rightarrow> ep_stat"
  sign_final :: "'g \<Rightarrow> byte list \<Rightarrow> ep_stat \<times> byte list"

definition GDP_MD_PUBKEY :: u32 where "GDP_MD_PUBKEY = 0x00505542"

definition gdp_gob_init_vrfy_ctx :: "'x gdp_gob crypto \<Rightarrow> 'x gdp_gob \<Rightarrow> (ep_stat \<times> 'x gdp_gob) option" where
  "gdp_gob_init_vrfy_ctx C gob =
     do {
       key \<leftarrow> (case gdp_md_find (gob_md gob) GDP_MD_PUBKEY of
                 (estat, Some (pklen, pkbuf)) \<Rightarrow>
                   if \<not> EP_STAT_ISOK estat \<or> pklen < 5 then Some None
                   else map_option (\<lambda>pk. Some (drop 4 (take (unat pklen) pk))) pkbuf
               | (estat, None) \<Rightarrow> Some None);
       (mdlen, mdbuf) \<leftarrow> gdp_md_serialize (gob_md gob);
       let gob = gob\<lparr>gob_vrfy_ctx := Some (gob_name gob @ (case mdbuf of None \<Rightarrow> [] | Some bs \<Rightarrow> take mdlen bs))\<rparr>;
       Some (if (case key of None \<Rightarrow> False | Some k \<Rightarrow> key_read C k) then (EP_STAT_OK, set_flag GOBF_VERIFYING gob)
             else (GDP_STAT_CRYPTO_NO_PUB_KEY, gob))
     }"

text \<open>The context of an object, set up if it is not there yet; the status is that of the set-up.\<close>

definition vrfy_ctx_of ::
  "'x gdp_gob crypto \<Rightarrow> 'x gdp_gob \<Rightarrow> (ep_stat \<times> byte list \<times> 'x gdp_gob) option" where
  "vrfy_ctx_of C gob =
     do {
       (estat, gob) \<leftarrow> (if gob_vrfy_ctx gob = None then gdp_gob_init_vrfy_ctx C gob else Some (EP_STAT_OK, gob));
       ctx \<leftarrow> gob_vrfy_ctx gob;
       Some (estat, ctx, gob)
     }"

definition gob_vrfy_datum ::
  "('b, 'z) evbuffer_scheme \<Rightarrow> 'x gdp_gob crypto \<Rightarrow> 'b gdp_datum \<Rightarrow> 'x gdp_gob \<Rightarrow> (ep_stat \<times> 'x gdp_gob) option" where
  "gob_vrfy_datum E C datum gob =
     do {
       (estat, ctx, gob) \<leftarrow> vrfy_ctx_of C gob;
       estat \<leftarrow> gdp_datum_vrfy_gob E (md_hash C) (vrfy_final C gob) (if EP_STAT_ISOK estat then Inr ctx else Inl estat)
         (has_flag GOBF_VERIFYING gob) (has_flag GOBF_VRFY_WARN gob) datum;
       Some (estat, gob)
     }"

text \<open>\<^verbatim>\<open>_gdp_datum_hash\<close>: the hash of a record, in the context of its object.\<close>

definition gob_datum_hash ::
  "('b, 'z) evbuffer_scheme \<Rightarrow> 'x gdp_gob crypto \<Rightarrow> 'b gdp_datum \<Rightarrow> 'x gdp_gob \<Rightarrow> ('b \<times> 'x gdp_gob) option" where
  "gob_datum_hash E C datum gob =
     do {
       (_, ctx, gob) \<leftarrow> vrfy_ctx_of C gob;
       Some (gdp_datum_hash E (md_hash C) ctx datum, gob)
     }"

section \<open>The secret key\<close>

definition GDP_MD_OWNERPUBKEY :: u32 where "GDP_MD_OWNERPUBKEY = 0x004F504B"
definition GDP_MD_WRITERPUBKEY :: u32 where "GDP_MD_WRITERPUBKEY = 0x0057504B"
definition EP_STAT_CRYPTO_DIGEST :: ep_stat where
  "EP_STAT_CRYPTO_DIGEST = EP_STAT_INTERNAL EP_STAT_SEV_ERROR EP_STAT_MOD_CRYPTO 1"

text \<open>
  Where secret keys come from: the key and the callback of the open information (both absent without
  one) and the search for a key file by name.  \<open>key_compat\<close> compares a secret key with a public one, and
  \<open>sign_new\<close> says whether a signing context can be made.
\<close>

record 'k keys =
  signkey :: "'k option"
  signkey_cb :: "(byte list \<Rightarrow> ep_stat \<times> 'k option) option"
  skey_read :: "byte list \<Rightarrow> 'k option"
  key_compat :: "'k \<Rightarrow> byte list \<Rightarrow> ep_stat"
  sign_new :: "'k \<Rightarrow> byte \<Rightarrow> bool"

definition find_pubkey :: "gdp_md option \<Rightarrow> (u32 \<times> byte list option) option" where
  "find_pubkey gmd =
     (let found = filter (\<lambda>(estat, _). EP_STAT_ISOK estat)
            (map (gdp_md_find gmd) [GDP_MD_WRITERPUBKEY, GDP_MD_OWNERPUBKEY, GDP_MD_PUBKEY])
      in if found = [] then None else snd (hd found))"

definition secret_key :: "'k keys \<Rightarrow> 'x gdp_gob \<Rightarrow> ep_stat + 'k" where
  "secret_key K gob =
     (let search = (case skey_read K (gob_pname gob) of None \<Rightarrow> Inl GDP_STAT_SKEY_REQUIRED | Some k \<Rightarrow> Inr k) in
      case signkey K of
        Some k \<Rightarrow> Inr k
      | None \<Rightarrow>
          (case signkey_cb K of
             None \<Rightarrow> search
           | Some cb \<Rightarrow>
               (case cb (gob_name gob) of (estat, k) \<Rightarrow>
                  if \<not> EP_STAT_ISOK estat then Inl estat
                  else (case k of None \<Rightarrow> search | Some k \<Rightarrow> Inr k))))"

definition find_secret_key :: "'k keys \<Rightarrow> 'x gdp_gob \<Rightarrow> (ep_stat \<times> 'x gdp_gob) option" where
  "find_secret_key K gob =
     (case find_pubkey (gob_md gob) of
        None \<Rightarrow> Some (EP_STAT_OK, gob)
      | Some (pkbuflen, pkbuf) \<Rightarrow> do {
          pk \<leftarrow> pkbuf;
          if pk = [] then None
          else (case secret_key K gob of
            Inl estat \<Rightarrow> Some (estat, gob)
          | Inr skey \<Rightarrow>
              if unat pkbuflen < 4 \<or> length pk < unat pkbuflen then None
              else
                let estat = key_compat K skey (drop 4 (take (unat pkbuflen) pk)) in
                if \<not> EP_STAT_ISOK estat then Some (estat, gob)
                else if \<not> sign_new K skey (hd pk) then Some (EP_STAT_CRYPTO_DIGEST, gob\<lparr>gob_sign_ctx := None\<rparr>)
                else do {
                  (mdlen, mdbuf) \<leftarrow> gdp_md_serialize (gob_md gob);
                  let ctx = gob_name gob @ (case mdbuf of None \<Rightarrow> [] | Some bs \<Rightarrow> take mdlen bs);
                  Some (estat, set_flag GOBF_SIGNING (gob\<lparr>gob_sign_ctx := Some ctx\<rparr>))
                })
        })"

section \<open>The client's surroundings\<close>

text \<open>The libraries a client calls and its channel.  \<open>cl_depth\<close> is the depth bound of \<^const>\<open>gdp_gob_free\<close> and
  \<open>cl_retries\<close> the administrative parameter \<^verbatim>\<open>swarm.gdp.invoke.retries\<close>; \<open>cl_sha\<close>, \<open>cl_rand\<close> and \<open>cl_alg\<close> are used
  for new objects.\<close>

record ('b, 'x) gdp_client =
  cl_ev :: "'b evbuffer"
  cl_crypto :: "'x gdp_gob crypto"
  cl_link :: link
  cl_depth :: nat
  cl_retries :: int
  cl_sha :: "byte list \<Rightarrow> byte list"
  cl_rand :: "byte list"
  cl_alg :: int

abbreviation cl_free :: "('b, 'x) gdp_client \<Rightarrow> nat \<Rightarrow> ('b, 'x) gdp_lib \<Rightarrow> ('b, 'x) gdp_lib option" where
  "cl_free C \<equiv> gdp_gob_free (cl_depth C)"

abbreviation cl_invoke ::
  "('b, 'x) gdp_client \<Rightarrow> ('b, 'x) wake list \<Rightarrow> nat \<Rightarrow> ('b, 'x) gdp_lib \<Rightarrow> (ep_stat \<times> ('b, 'x) gdp_lib) option" where
  "cl_invoke C \<equiv> gdp_invoke (cl_retries C) (cl_link C)"

text \<open>A record as \<^verbatim>\<open>gdp_datum__init\<close> leaves it.\<close>

definition init_pb :: pb_datum where
  "init_pb = \<lparr>pb_recno = 0, pb_ts = None, pb_prevhash = None, pb_data = [], pb_sig = None\<rparr>"

text \<open>Filling in the body of the command.\<close>

definition set_payload :: "gdp_body \<Rightarrow> nat \<Rightarrow> ('b, 'x) gdp_lib \<Rightarrow> ('b, 'x) gdp_lib" where
  "set_payload b r s =
     upd_req r (\<lambda>q. q\<lparr>req_cpdu := map_option (\<lambda>p. p\<lparr>pdu_msg := map_option (\<lambda>m. m\<lparr>body := b\<rparr>) (pdu_msg p)\<rparr>) (req_cpdu q)\<rparr>) s"

definition GDP_DATUM_ISGOOD :: "'b gdp_datum \<Rightarrow> bool" where
  "GDP_DATUM_ISGOOD datum \<longleftrightarrow> dbuf datum \<noteq> None \<and> inuse datum"

text \<open>The metadata in a response.\<close>

definition resp_metadata :: "byte list option \<Rightarrow> gdp_md option option" where
  "resp_metadata md = gdp_md_deserialize (case md of None \<Rightarrow> [] | Some bs \<Rightarrow> bs)"

section \<open>Creating a log\<close>

text \<open>\<open>dflt\<close> is the name of the creation service from the configuration, if it can be parsed.\<close>

definition gdp_gob_create ::
  "('b, 'x) gdp_client \<Rightarrow> ('b, 'x) wake list \<Rightarrow> byte list option \<Rightarrow> gdp_md option \<Rightarrow> byte list \<Rightarrow> ('b, 'x) gdp_lib \<Rightarrow>
   (ep_stat \<times> nat option \<times> ('b, 'x) gdp_lib) option" where
  "gdp_gob_create C ws dflt gmd service_name s =
     (case (if gdp_name_is_valid service_name then Some service_name else dflt) of
        None \<Rightarrow> Some (GDP_STAT_SVC_NAME_REQ, None, s)
      | Some service \<Rightarrow> do {
          (estat, gobname, serialized_md) \<leftarrow> gdp_md_to_gdpname (cl_sha C) gmd;
          if \<not> EP_STAT_ISOK estat then Some (estat, None, s)
          else do {
            (a, s) \<leftarrow> gdp_gob_new (cl_sha C) (cl_rand C) (cl_alg C) (Some service) s;
            s \<leftarrow> gdp_gob_lock a s;
            (estat, nr, s) \<leftarrow> gdp_req_new CMD_CREATE (Some a) True None GDP_REQ_ROUTEFAIL s;
            (estat, s) \<leftarrow> (if \<not> EP_STAT_ISOK estat then Some (estat, s)
              else do {
                r \<leftarrow> nr;
                (estat, s) \<leftarrow> cl_invoke C ws r (set_payload (BODY_CMD_CREATE
                  (case serialized_md of None \<Rightarrow> [] | Some bs \<Rightarrow> bs) (Some gobname)) r s);
                s \<leftarrow> (if EP_STAT_ISOK estat then gdp_gob_cache_add a (upd_gob a (\<lambda>g. g\<lparr>gob_name := gobname\<rparr>) s) else Some s);
                s \<leftarrow> gdp_req_free (cl_free C) r s;
                Some (estat, s)
              });
            if \<not> EP_STAT_ISOK estat then map_option (\<lambda>(_, s). (estat, None, s)) (gdp_gob_decref (cl_free C) False a s)
            else map_option (\<lambda>s. (estat, Some a, s)) (gdp_gob_unlock a s)
          }
        })"

section \<open>Opening, closing and deleting\<close>

text \<open>What \<^verbatim>\<open>_gdp_gob_open\<close> does with the response; \<open>estat\<close> is the status so far.\<close>

definition open_finish ::
  "('b, 'x) gdp_client \<Rightarrow> 'k keys \<Rightarrow> gdp_cmd \<Rightarrow> u32 \<Rightarrow> ep_stat \<Rightarrow> nat \<Rightarrow> nat \<Rightarrow> ('b, 'x) gdp_lib \<Rightarrow>
   (ep_stat \<times> ('b, 'x) gdp_lib) option" where
  "open_finish C K c reqflags estat a r s =
     do {
       req \<leftarrow> reqs s r;
       rp \<leftarrow> req_rpdu req;
       m \<leftarrow> pdu_msg rp;
       gob \<leftarrow> gobs s a;
       gob \<leftarrow> (case body m of
           BODY_ACK_SUCCESS rn _ _ md \<Rightarrow>
             map_option (\<lambda>gmd. gob\<lparr>gob_nrecs := (case rn of None \<Rightarrow> 0 | Some k \<Rightarrow> k), gob_md := gmd\<rparr>) (resp_metadata md)
         | _ \<Rightarrow> Some gob);
       (estat, gob) \<leftarrow> (if c = CMD_OPEN_AO \<or> c = CMD_OPEN_RA then find_secret_key K gob else Some (estat, gob));
       (estat, gob) \<leftarrow> (if gob_vrfy_ctx gob = None
         then map_option (\<lambda>(e, g). (if EP_UT_BITSET GDP_REQ_VRFY_CONTENT reqflags then e else EP_STAT_OK, g))
           (gdp_gob_init_vrfy_ctx (cl_crypto C) gob)
         else Some (estat, gob));
       Some (estat, s\<lparr>gobs := (gobs s)(a \<mapsto> gob)\<rparr>)
     }"

definition gdp_gob_open ::
  "('b, 'x) gdp_client \<Rightarrow> ('b, 'x) wake list \<Rightarrow> 'k keys \<Rightarrow> gdp_cmd \<Rightarrow> u32 \<Rightarrow> nat \<Rightarrow> ('b, 'x) gdp_lib \<Rightarrow>
   (ep_stat \<times> ('b, 'x) gdp_lib) option" where
  "gdp_gob_open C ws K c reqflags a s =
     do {
       gob \<leftarrow> gobs s a;
       if \<not> GDP_GOB_ISGOOD gob then Some (EP_STAT_ASSERT_ABORT, s)
       else do {
         (estat, nr, s) \<leftarrow> gdp_req_new c (Some a) True None (reqflags OR GDP_REQ_ALLOC_RID OR GDP_REQ_ROUTEFAIL) s;
         if \<not> EP_STAT_ISOK estat then Some (estat, s)
         else do {
           r \<leftarrow> nr;
           (estat, s) \<leftarrow> cl_invoke C ws r s;
           (estat, s) \<leftarrow> (if EP_STAT_ISOK estat then open_finish C K c reqflags estat a r s else Some (estat, s));
           s \<leftarrow> gdp_req_free (cl_free C) r s;
           Some (estat, s)
         }
       }
     }"

definition gdp_gob_close ::
  "('b, 'x) gdp_client \<Rightarrow> ('b, 'x) wake list \<Rightarrow> u32 \<Rightarrow> nat \<Rightarrow> ('b, 'x) gdp_lib \<Rightarrow> (ep_stat \<times> ('b, 'x) gdp_lib) option" where
  "gdp_gob_close C ws reqflags a s =
     do {
       (estat, nr, s) \<leftarrow> gdp_req_new CMD_CLOSE (Some a) True None reqflags s;
       if \<not> EP_STAT_ISOK estat then Some (estat, s)
       else do {
         r \<leftarrow> nr;
         (estat, s) \<leftarrow> cl_invoke C ws r s;
         s \<leftarrow> gdp_req_free (cl_free C) r s;
         Some (estat, s)
       }
     }"

definition gdp_gob_delete ::
  "('b, 'x) gdp_client \<Rightarrow> ('b, 'x) wake list \<Rightarrow> u32 \<Rightarrow> nat \<Rightarrow> ('b, 'x) gdp_lib \<Rightarrow> (ep_stat \<times> ('b, 'x) gdp_lib) option" where
  "gdp_gob_delete C ws reqflags a s =
     do {
       (estat, nr, s) \<leftarrow> gdp_req_new CMD_DELETE (Some a) True None reqflags s;
       if \<not> EP_STAT_ISOK estat then Some (estat, s)
       else do {
         r \<leftarrow> nr;
         (estat, s) \<leftarrow> cl_invoke C ws r s;
         let s = (if EP_STAT_ISOK estat then upd_gob a (set_flag GOBF_DROPPING) s else s);
         s \<leftarrow> gdp_req_free (cl_free C) r s;
         Some (estat, s)
       }
     }"

section \<open>Appending\<close>

text \<open>The loop that numbers the records, gives them a time and links each to its predecessor by its
  hash; the flag says whether all of them were good.  A null pointer is like a record not in use.\<close>

fun chain_datums ::
  "('b, 'z) evbuffer_scheme \<Rightarrow> 'x gdp_gob crypto \<Rightarrow> (ep_time \<Rightarrow> ep_time) \<Rightarrow> int \<Rightarrow> 'b option \<Rightarrow> 'b gdp_datum list \<Rightarrow>
   'x gdp_gob \<Rightarrow> (bool \<times> 'b gdp_datum list \<times> 'x gdp_gob) option" where
  "chain_datums E C now rn prev [] gob = Some (True, [], gob)"
| "chain_datums E C now rn prev (datum # datums) gob =
     (if \<not> GDP_DATUM_ISGOOD datum then Some (False, datum # datums, gob)
      else do {
        let datum = datum\<lparr>recno := rn, ts := (if EP_TIME_IS_VALID (ts datum) then ts datum else now (ts datum)),
          prevhash := prev\<rparr>;
        (h, gob) \<leftarrow> gob_datum_hash E C datum gob;
        (ok, datums, gob) \<leftarrow> chain_datums E C now (rn + 1) (Some h) datums gob;
        Some (ok, datum # datums, gob)
      })"

text \<open>The last record is signed; a failure is only reported.\<close>

definition sign_last :: "('b, 'z) evbuffer_scheme \<Rightarrow> 'x gdp_gob crypto \<Rightarrow> 'x gdp_gob \<Rightarrow> 'b gdp_datum list \<Rightarrow> 'b gdp_datum list" where
  "sign_last E C gob datums =
     (if has_flag GOBF_SIGNING gob
      then butlast datums @ [snd (gdp_datum_sign E (md_hash C) (sign_final C gob) (gob_sign_ctx gob) (last datums))]
      else datums)"

definition append_common ::
  "('b, 'x) gdp_client \<Rightarrow> nat option \<Rightarrow> 'b gdp_datum list \<Rightarrow> 'b option \<Rightarrow> u32 \<Rightarrow> nat \<Rightarrow> ('b, 'x) gdp_lib \<Rightarrow>
   (ep_stat \<times> nat option \<times> 'b gdp_datum list \<times> ('b, 'x) gdp_lib) option" where
  "append_common C gin datums prev reqflags a s =
     do {
       gob \<leftarrow> gobs s a;
       if \<not> GDP_GOB_ISGOOD gob then Some (GDP_STAT_LOG_NOT_OPEN, None, datums, s)
       else if datums = [] then Some (GDP_STAT_DATUM_REQUIRED, None, datums, s)
       else do {
         (ok, datums, gob) \<leftarrow> chain_datums (cl_ev C) (cl_crypto C) (now_ts s) (gob_nrecs gob + 1) prev datums gob;
         let s = s\<lparr>gobs := (gobs s)(a \<mapsto> gob)\<rparr>;
         if \<not> ok then Some (GDP_STAT_DATUM_REQUIRED, None, datums, s)
         else do {
           let datums = sign_last (cl_ev C) (cl_crypto C) gob datums;
           (estat, nr, s) \<leftarrow> gdp_req_new CMD_APPEND (Some a) True None reqflags s;
           if \<not> EP_STAT_ISOK estat then Some (estat, nr, datums, s)
           else do {
             r \<leftarrow> nr;
             let s = upd_req r (\<lambda>q. q\<lparr>req_gin := gin\<rparr>) s;
             let s = set_payload (BODY_CMD_APPEND (map (\<lambda>d. gdp_datum_to_pb (cl_ev C) d init_pb) datums)) r s;
             Some (estat, Some r, datums, upd_gob a (\<lambda>g. g\<lparr>gob_nrecs := gob_nrecs g + int (length datums)\<rparr>) s)
           }
         }
       }
     }"

definition gdp_gob_append_sync ::
  "('b, 'x) gdp_client \<Rightarrow> ('b, 'x) wake list \<Rightarrow> 'b gdp_datum list \<Rightarrow> 'b option \<Rightarrow> u32 \<Rightarrow> nat \<Rightarrow> ('b, 'x) gdp_lib \<Rightarrow>
   (ep_stat \<times> 'b gdp_datum list \<times> ('b, 'x) gdp_lib) option" where
  "gdp_gob_append_sync C ws datums prev reqflags a s =
     do {
       (estat, nr, datums, s) \<leftarrow> append_common C None datums prev reqflags a s;
       if \<not> EP_STAT_ISOK estat then Some (estat, datums, s)
       else do {
         r \<leftarrow> nr;
         (estat, s) \<leftarrow> cl_invoke C ws r s;
         s \<leftarrow> gdp_req_free (cl_free C) r s;
         Some (estat, datums, s)
       }
     }"

definition gdp_gob_append_async ::
  "('b, 'x) gdp_client \<Rightarrow> nat \<Rightarrow> 'b gdp_datum list \<Rightarrow> 'b option \<Rightarrow> nat option \<Rightarrow> nat option \<Rightarrow> u32 \<Rightarrow> nat \<Rightarrow>
   ('b, 'x) gdp_lib \<Rightarrow> (ep_stat \<times> 'b gdp_datum list \<times> ('b, 'x) gdp_lib) option" where
  "gdp_gob_append_async C gin datums prev cbfunc cbarg reqflags a s =
     do {
       (estat, nr, datums, s) \<leftarrow> append_common C (Some gin) datums prev (reqflags OR GDP_REQ_ASYNCIO) a s;
       if \<not> EP_STAT_ISOK estat then Some (estat, datums, s)
       else do {
         r \<leftarrow> nr;
         (estat, s) \<leftarrow> gdp_req_send (cl_link C) r (upd_req r (\<lambda>q. fst (gdp_event_setcb cbfunc cbarg q True)) s);
         let datums = map (\<lambda>d. d\<lparr>dbuf := map_option (\<lambda>b. snd (gdp_buf_reset (cl_ev C) b)) (dbuf d),
           sig := map_option (gdp_sig_reset (cl_ev C)) (sig d)\<rparr>) datums;
         s \<leftarrow> (if \<not> EP_STAT_ISOK estat then gdp_req_free (cl_free C) r s
               else Some (upd_req r (\<lambda>q. q\<lparr>req_state := GDP_REQ_IDLE\<rparr>) s));
         Some (estat, datums, s)
       }
     }"

section \<open>Reading\<close>

text \<open>What \<^verbatim>\<open>_gdp_gob_read_by_recno\<close> takes from the response: the body is used as \<^verbatim>\<open>ack_content\<close> whatever it is.
  The flag says that the request is to be released, which it is not after a failed assertion.\<close>

definition read_finish ::
  "('b, 'x) gdp_client \<Rightarrow> ep_stat \<Rightarrow> gdp_pdu \<Rightarrow> 'b gdp_datum \<Rightarrow> (bool \<times> ep_stat \<times> 'b gdp_datum) option" where
  "read_finish C estat rp datum =
     (case pdu_msg rp of
        None \<Rightarrow> Some (False, EP_STAT_ASSERT_ABORT, datum)
      | Some m \<Rightarrow>
          (case body m of
             BODY_NOT_SET \<Rightarrow> Some (False, EP_STAT_ASSERT_ABORT, datum)
           | BODY_ACK_CONTENT dl _ \<Rightarrow>
               if dl = [] then Some (True, GDP_STAT_RECORD_MISSING, datum)
               else Some (True, estat, gdp_datum_from_pb (cl_ev C) datum (hd dl) (msg_sig m))
           | _ \<Rightarrow> None))"

definition gdp_gob_read_by_recno ::
  "('b, 'x) gdp_client \<Rightarrow> ('b, 'x) wake list \<Rightarrow> int \<Rightarrow> u32 \<Rightarrow> 'b gdp_datum \<Rightarrow> nat \<Rightarrow> ('b, 'x) gdp_lib \<Rightarrow>
   (ep_stat \<times> 'b gdp_datum \<times> ('b, 'x) gdp_lib) option" where
  "gdp_gob_read_by_recno C ws rn reqflags datum a s =
     do {
       gob \<leftarrow> gobs s a;
       if \<not> GDP_GOB_ISGOOD gob then Some (GDP_STAT_LOG_NOT_OPEN, datum, s)
       else if \<not> GDP_DATUM_ISGOOD datum then Some (GDP_STAT_DATUM_REQUIRED, datum, s)
       else do {
         (estat, nr, s) \<leftarrow> gdp_req_new CMD_READ_BY_RECNO (Some a) True None reqflags s;
         if \<not> EP_STAT_ISOK estat then Some (estat, datum, s)
         else do {
           r \<leftarrow> nr;
           (estat, s) \<leftarrow> cl_invoke C ws r (set_payload (BODY_CMD_READ_BY_RECNO rn (Some 0)) r s);
           (free, estat, datum) \<leftarrow> (if \<not> EP_STAT_ISOK estat then Some (True, estat, datum)
             else do {
               req \<leftarrow> reqs s r;
               rp \<leftarrow> req_rpdu req;
               read_finish C estat rp datum
             });
           s \<leftarrow> (if free then gdp_req_free (cl_free C) r s else Some s);
           Some (estat, datum, s)
         }
       }
     }"

text \<open>\<open>vrfy\<close> is the flag \<^verbatim>\<open>GINF_SIG_VRFY\<close> of the instance.\<close>

definition gdp_gob_read_by_recno_async ::
  "('b, 'x) gdp_client \<Rightarrow> nat \<Rightarrow> bool \<Rightarrow> int \<Rightarrow> u32 \<Rightarrow> nat option \<Rightarrow> nat option \<Rightarrow> nat \<Rightarrow> ('b, 'x) gdp_lib \<Rightarrow>
   (ep_stat \<times> ('b, 'x) gdp_lib) option" where
  "gdp_gob_read_by_recno_async C gin vrfy rn nrecs cbfunc cbarg a s =
     do {
       gob \<leftarrow> gobs s a;
       if \<not> GDP_GOB_ISGOOD gob then Some (GDP_STAT_LOG_NOT_OPEN, s)
       else do {
         let reqflags = GDP_REQ_ASYNCIO OR GDP_REQ_PERSIST OR (if vrfy then GDP_REQ_VRFY_CONTENT else 0);
         (estat, nr, s) \<leftarrow> gdp_req_new CMD_READ_BY_RECNO (Some a) True None reqflags s;
         if \<not> EP_STAT_ISOK estat then Some (estat, s)
         else do {
           r \<leftarrow> nr;
           let s = upd_req r (\<lambda>q. q\<lparr>req_gin := Some gin\<rparr>) s;
           let s = set_payload (BODY_CMD_READ_BY_RECNO rn (if 0 < nrecs then Some (sint nrecs) else None)) r s;
           (estat, s) \<leftarrow> gdp_req_send (cl_link C) r (upd_req r (\<lambda>q. fst (gdp_event_setcb cbfunc cbarg q True)) s);
           s \<leftarrow> (if EP_STAT_ISOK estat then Some (upd_req r (\<lambda>q. q\<lparr>req_state := GDP_REQ_IDLE\<rparr>) s)
                 else gdp_req_free (cl_free C) r s);
           Some (estat, s)
         }
       }
     }"

definition gdp_gob_getmetadata ::
  "('b, 'x) gdp_client \<Rightarrow> ('b, 'x) wake list \<Rightarrow> u32 \<Rightarrow> nat \<Rightarrow> ('b, 'x) gdp_lib \<Rightarrow>
   (ep_stat \<times> gdp_md option \<times> ('b, 'x) gdp_lib) option" where
  "gdp_gob_getmetadata C ws reqflags a s =
     do {
       gob \<leftarrow> gobs s a;
       if \<not> GDP_GOB_ISGOOD gob then Some (GDP_STAT_LOG_NOT_OPEN, None, s)
       else do {
         (estat, nr, s) \<leftarrow> gdp_req_new CMD_GETMETADATA (Some a) True None reqflags s;
         if \<not> EP_STAT_ISOK estat then Some (estat, None, s)
         else do {
           r \<leftarrow> nr;
           (estat, s) \<leftarrow> cl_invoke C ws r s;
           (gmd, s) \<leftarrow> (if \<not> EP_STAT_ISOK estat then Some (None, s)
             else do {
               req \<leftarrow> reqs s r;
               rp \<leftarrow> req_rpdu req;
               m \<leftarrow> pdu_msg rp;
               s \<leftarrow> (case body m of
                   BODY_ACK_SUCCESS _ _ _ md \<Rightarrow> map_option (\<lambda>gmd. upd_gob a (\<lambda>g. g\<lparr>gob_md := gmd\<rparr>) s) (resp_metadata md)
                 | _ \<Rightarrow> Some s);
               gob \<leftarrow> gobs s a;
               Some (gob_md gob, s)
             });
           s \<leftarrow> gdp_req_free (cl_free C) r s;
           Some (estat, gmd, s)
         }
       }
     }"

end
