(* ===== verification/Logd_Sqlite.thy ===== *)
theory Logd_Sqlite
  imports Gdp_Gob_Ops
begin

text \<open>
  The physical logs of the daemon, \<^verbatim>\<open>gdplogd/logd_sqlite.c\<close>, with the set-up of the verification context in
  \<^verbatim>\<open>gdp/gdp_gob_ops.c\<close> that hashing a record needs.  SQLite, the directory of the logs and the
  cryptographic library are parameters: records of the operations the code calls, each with the result
  codes it may give.  Allocation and the initialisation of locks succeed, and locks are left out.
  \<^term>\<open>None\<close> stands for a null pointer that is followed and for a loop that does not end.
\<close>

section \<open>SQLite\<close>

definition SQLITE_OK :: int where "SQLITE_OK = 0"
definition SQLITE_ABORT :: int where "SQLITE_ABORT = 4"
definition SQLITE_CANTOPEN :: int where "SQLITE_CANTOPEN = 14"
definition SQLITE_RANGE :: int where "SQLITE_RANGE = 25"
definition SQLITE_WARNING :: int where "SQLITE_WARNING = 28"
definition SQLITE_ROW :: int where "SQLITE_ROW = 100"
definition SQLITE_DONE :: int where "SQLITE_DONE = 101"

text \<open>A row of the table \<^verbatim>\<open>log_entry\<close>.  A column that is null and one that holds no bytes are not told
  apart: the code reads both alike.\<close>

record log_row =
  row_hash :: "byte list"
  row_recno :: int
  row_timestamp :: int
  row_accuracy :: u32
  row_prevhash :: "byte list"
  row_value :: "byte list"
  row_sig :: "byte list"

datatype sql_value = SQL_INT int | SQL_FLOAT u32 | SQL_BLOB "byte list"

text \<open>The prepared statements, and the commands that are executed at once.\<close>

datatype sql = INSERT_ENTRY | INSERT_METADATA | SELECT_BY_HASH | SELECT_RECNO | SELECT_FROM_RECNO | SELECT_FROM_TIME

datatype sql_command = BEGIN_TRANSACTION | END_TRANSACTION | ROLLBACK_TRANSACTION | SET_PRAGMAS | LOG_SCHEMA

datatype pragma = APPLICATION_ID | USER_VERSION

text \<open>
  A database of type \<open>'d\<close>.  \<open>sqlite3_open\<close> opens a file, and creates the database if the flag is set.  Reading
  a pragma, the metadata or the range of record numbers gives the result codes of preparing and stepping
  the statement and the columns (record numbers of an empty table are zero); setting a pragma also says
  whether stepping ends with \<^verbatim>\<open>SQLITE_DONE\<close>.  \<open>sqlite3_rows\<close> gives the rows of a query in the order of the steps,
  the code of the step after them and that of the reset.
\<close>

record 'd sqlite =
  sqlite3_open :: "bool \<Rightarrow> byte list \<Rightarrow> int \<times> 'd"
  sqlite3_extended_result_codes :: "'d \<Rightarrow> int"
  sqlite3_pragma :: "pragma \<Rightarrow> 'd \<Rightarrow> int \<times> int \<times> u32"
  sqlite3_set_pragma :: "pragma \<Rightarrow> u32 \<Rightarrow> 'd \<Rightarrow> int \<times> bool \<times> 'd"
  sqlite3_exec :: "sql_command \<Rightarrow> 'd \<Rightarrow> int \<times> 'd"
  sqlite3_prepare :: "sql \<Rightarrow> 'd \<Rightarrow> int"
  sqlite3_bind :: "sql \<Rightarrow> nat \<Rightarrow> sql_value \<Rightarrow> 'd \<Rightarrow> int"
  sqlite3_rows :: "sql \<Rightarrow> sql_value list \<Rightarrow> 'd \<Rightarrow> log_row list \<times> int \<times> int"
  sqlite3_insert :: "log_row \<Rightarrow> 'd \<Rightarrow> int \<times> 'd"
  sqlite3_metadata :: "'d \<Rightarrow> int \<times> int \<times> byte list"
  sqlite3_range :: "'d \<Rightarrow> int \<times> int \<times> int \<times> int"

definition sqlite_rc_success :: "int \<Rightarrow> bool" where
  "sqlite_rc_success rc \<longleftrightarrow> rc = SQLITE_OK \<or> rc = SQLITE_ROW \<or> rc = SQLITE_DONE"

definition EP_REGISTRY_USER :: u32 where "EP_REGISTRY_USER = 1"
definition SQLITE_MODULE :: u32 where "SQLITE_MODULE = 2"

definition ep_stat_from_sqlite_result_code :: "int \<Rightarrow> ep_stat" where
  "ep_stat_from_sqlite_result_code rc =
     (let c = rc mod 256;
          stat = (\<lambda>sev. EP_STAT_NEW sev EP_REGISTRY_USER SQLITE_MODULE (word_of_int c))
      in if c = SQLITE_OK then EP_STAT_OK
         else if c = SQLITE_ROW \<or> c = SQLITE_DONE then stat EP_STAT_SEV_OK
         else if c = SQLITE_ABORT then stat EP_STAT_SEV_ABORT
         else if c = SQLITE_WARNING then stat EP_STAT_SEV_WARN
         else if c = SQLITE_CANTOPEN then GDP_STAT_NAK_NOTFOUND
         else stat EP_STAT_SEV_ERROR)"

definition sqlite_error :: "int \<Rightarrow> ep_stat" where
  "sqlite_error rc =
     (let estat = ep_stat_from_sqlite_result_code rc in if EP_STAT_ISOK estat then GDP_STAT_SQLITE_ERROR else estat)"

text \<open>Binding parameters one after the other, up to the first that fails.\<close>

fun sql_bind :: "'d sqlite \<Rightarrow> sql \<Rightarrow> (nat \<times> sql_value) list \<Rightarrow> 'd \<Rightarrow> int" where
  "sql_bind Q stmt [] d = SQLITE_OK"
| "sql_bind Q stmt ((i, v) # bs) d =
     (let rc = sqlite3_bind Q stmt i v d in if sqlite_rc_success rc then sql_bind Q stmt bs d else rc)"

text \<open>A time takes two adjacent parameters.\<close>

definition sql_bind_timestamp :: "nat \<Rightarrow> ep_time \<Rightarrow> (nat \<times> sql_value) list" where
  "sql_bind_timestamp index t = [(index, SQL_INT (ep_time_to_nsec t)), (index + 1, SQL_FLOAT (tv_accuracy t))]"

section \<open>Logs in memory\<close>

text \<open>\<open>phys_stmts\<close> are the statements that have been prepared and kept.\<close>

record 'd physinfo =
  phys_db :: 'd
  phys_stmts :: "sql list"
  phys_ver :: u32
  min_recno :: int
  max_recno :: int

record 'd gob_xtra =
  physinfo :: "'d physinfo option"

type_synonym ('b, 'd) logd_state = "('b, 'd gob_xtra) gdp_lib"
type_synonym 'd log_gob = "'d gob_xtra gdp_gob"

definition GETPHYS :: "'d log_gob \<Rightarrow> 'd physinfo option" where
  "GETPHYS gob = Option.bind (gob_x gob) physinfo"

definition set_phys :: "'d physinfo option \<Rightarrow> 'd log_gob \<Rightarrow> 'd log_gob" where
  "set_phys p gob = gob\<lparr>gob_x := map_option (\<lambda>x. x\<lparr>physinfo := p\<rparr>) (gob_x gob)\<rparr>"

definition physinfo_alloc :: "'d \<Rightarrow> 'd physinfo" where
  "physinfo_alloc d = \<lparr>phys_db = d, phys_stmts = [], phys_ver = 0, min_recno = 0, max_recno = 0\<rparr>"

section \<open>Files\<close>

text \<open>The directory of the logs: the path, the outcome of \<^verbatim>\<open>stat\<close> (nothing there, or whether it is a
  directory), of \<^verbatim>\<open>mkdir\<close> and of the exclusive creation of a file (zero or the errno value).\<close>

record log_files =
  LogDir :: "byte list"
  fs_stat :: "byte list \<Rightarrow> bool option"
  fs_mkdir :: "byte list \<Rightarrow> int"
  fs_creat :: "byte list \<Rightarrow> int"

definition ENOTDIR :: int where "ENOTDIR = 20"
definition EEXIST :: int where "EEXIST = 17"
definition GOB_PATH_MAX :: nat where "GOB_PATH_MAX = 200"
definition GLOG_MAGIC :: u32 where "GLOG_MAGIC = 0x47434C30"
definition GLOG_VERSION :: u32 where "GLOG_VERSION = 20180428"

definition hex_digit :: "nat \<Rightarrow> byte" where
  "hex_digit k = (if k < 10 then of_nat (48 + k) else of_nat (87 + k))"

definition get_log_path :: "log_files \<Rightarrow> 'd log_gob \<Rightarrow> ep_stat + byte list" where
  "get_log_path F gob =
     (let b = unat (hd (gob_name gob));
          dir = LogDir F @ map of_char ''/_'' @ [hex_digit (b div 16), hex_digit (b mod 16)];
          path = dir @ map of_char ''/'' @ gdp_printable_name (gob_name gob) @ map of_char ''.glog'';
          errno_stat = (\<lambda>e. if e = 0 then EP_STAT_ERROR else ep_stat_from_errno e)
      in if GOB_PATH_MAX \<le> length dir then Inl EP_STAT_BUF_OVERFLOW
         else case fs_stat F dir of
           Some False \<Rightarrow> Inl (errno_stat ENOTDIR)
         | st \<Rightarrow>
             if st = None \<and> fs_mkdir F dir \<noteq> 0 then Inl (errno_stat (fs_mkdir F dir))
             else if GOB_PATH_MAX \<le> length path then Inl EP_STAT_BUF_OVERFLOW
             else Inr path)"

definition check_pragma :: "'d sqlite \<Rightarrow> 'd \<Rightarrow> pragma \<Rightarrow> u32 \<Rightarrow> ep_stat \<Rightarrow> ep_stat" where
  "check_pragma Q d name expected errstat =
     (case sqlite3_pragma Q name d of (prc, src, actual) \<Rightarrow>
        if prc \<noteq> SQLITE_OK then sqlite_error prc
        else if src \<noteq> SQLITE_ROW then sqlite_error src
        else if actual = expected then EP_STAT_OK else errstat)"

definition sqlite_set_pragmas :: "'d sqlite \<Rightarrow> 'd \<Rightarrow> ep_stat \<times> 'd" where
  "sqlite_set_pragmas Q d =
     (case sqlite3_exec Q SET_PRAGMAS d of (rc, d) \<Rightarrow> (if rc \<noteq> SQLITE_OK then sqlite_error rc else EP_STAT_OK, d))"

text \<open>Opening a log.  The metadata and the number of records come from the database.\<close>

definition open_fail :: "int \<Rightarrow> ep_stat" where
  "open_fail rc = (if rc \<noteq> SQLITE_OK then ep_stat_from_sqlite_result_code rc else GDP_STAT_NAK_INTERNAL)"

definition read_metadata :: "'d sqlite \<Rightarrow> 'd \<Rightarrow> 'd log_gob \<Rightarrow> (int \<times> 'd log_gob) option" where
  "read_metadata Q d gob =
     (if gob_md gob \<noteq> None then Some (SQLITE_OK, gob)
      else case sqlite3_metadata Q d of (prc, src, blob) \<Rightarrow>
        if \<not> sqlite_rc_success prc then Some (prc, gob)
        else if \<not> sqlite_rc_success src then Some (src, gob)
        else if blob = [] then Some (SQLITE_OK, gob)
        else map_option (\<lambda>m. (SQLITE_OK, gob\<lparr>gob_md := m\<rparr>)) (gdp_md_deserialize blob))"

definition read_stats :: "'d sqlite \<Rightarrow> 'd physinfo \<Rightarrow> 'd log_gob \<Rightarrow> int \<times> 'd physinfo \<times> 'd log_gob" where
  "read_stats Q phys gob =
     (case sqlite3_range Q (phys_db phys) of (prc, src, lo, hi) \<Rightarrow>
        if \<not> sqlite_rc_success prc then (prc, phys, gob)
        else if src = SQLITE_ROW then (SQLITE_OK, phys\<lparr>min_recno := lo, max_recno := hi\<rparr>, gob\<lparr>gob_nrecs := hi\<rparr>)
        else (src, phys, gob))"

definition sqlite_open :: "log_files \<Rightarrow> 'd sqlite \<Rightarrow> 'd log_gob \<Rightarrow> (ep_stat \<times> 'd log_gob) option" where
  "sqlite_open F Q gob =
     (let fail = (\<lambda>estat gob. (estat, set_phys None gob)) in
      case get_log_path F gob of
        Inl estat \<Rightarrow> Some (fail estat gob)
      | Inr path \<Rightarrow>
          (case sqlite3_open Q False path of (rc, d) \<Rightarrow>
             if rc \<noteq> SQLITE_OK then Some (fail (open_fail rc) gob)
             else if sqlite3_extended_result_codes Q d \<noteq> SQLITE_OK
             then Some (fail (open_fail (sqlite3_extended_result_codes Q d)) gob)
             else
               let estat = check_pragma Q d APPLICATION_ID GLOG_MAGIC GDP_STAT_CORRUPT_LOG;
                   estat = (if EP_STAT_ISOK estat
                            then check_pragma Q d USER_VERSION GLOG_VERSION GDP_STAT_LOG_VERSION_MISMATCH else estat)
               in if \<not> EP_STAT_ISOK estat then Some (fail estat gob)
                  else (case sqlite_set_pragmas Q d of (estat, d) \<Rightarrow>
                    if \<not> EP_STAT_ISOK estat then Some (fail estat gob)
                    else do {
                      (rc, gob) \<leftarrow> read_metadata Q d gob;
                      if \<not> sqlite_rc_success rc then Some (fail (open_fail rc) gob)
                      else (case read_stats Q (physinfo_alloc d) gob of (rc, phys, gob) \<Rightarrow>
                        if \<not> sqlite_rc_success rc then Some (fail (open_fail rc) gob)
                        else Some (EP_STAT_OK, set_phys (Some phys) gob))
                    })))"

definition sqlite_close :: "'d log_gob \<Rightarrow> 'd log_gob" where
  "sqlite_close gob = set_phys None gob"

text \<open>Removal; the files are outside of the model, the memory is released.\<close>

definition sqlite_remove :: "'d log_gob \<Rightarrow> 'd log_gob" where
  "sqlite_remove gob = set_phys None gob"

text \<open>Creation of a log.  Setting a pragma steps until \<^verbatim>\<open>SQLITE_DONE\<close>, for ever if that does not come.
  A name that is not valid, which would be replaced by a new one, does not occur: \<^verbatim>\<open>cmd_create\<close> checks it.\<close>

definition create_db :: "'d sqlite \<Rightarrow> 'd \<Rightarrow> (int \<times> 'd) option" where
  "create_db Q d =
     (if \<not> sqlite_rc_success (sqlite3_extended_result_codes Q d) then Some (sqlite3_extended_result_codes Q d, d)
      else case sqlite3_set_pragma Q APPLICATION_ID GLOG_MAGIC d of (rc, ends, d) \<Rightarrow>
        if \<not> sqlite_rc_success rc then Some (rc, d)
        else if \<not> ends then None
        else (case sqlite3_set_pragma Q USER_VERSION GLOG_VERSION d of (rc, ends, d) \<Rightarrow>
          if \<not> sqlite_rc_success rc then Some (rc, d)
          else if \<not> ends then None
          else Some (SQLITE_OK, d)))"

text \<open>The row with the metadata; \<open>t\<close> is the time of creation.\<close>

definition metadata_row :: "byte list \<Rightarrow> ep_time \<Rightarrow> byte list \<Rightarrow> log_row" where
  "metadata_row name t md =
     \<lparr>row_hash = name, row_recno = 0, row_timestamp = ep_time_to_nsec t, row_accuracy = tv_accuracy t,
      row_prevhash = [], row_value = md, row_sig = []\<rparr>"

definition metadata_stat :: "int \<Rightarrow> ep_stat" where
  "metadata_stat rc =
     (let estat = ep_stat_from_sqlite_result_code rc in if EP_STAT_ISOK estat then estat else sqlite_error rc)"

definition insert_metadata ::
  "'d sqlite \<Rightarrow> ep_time \<Rightarrow> gdp_md option \<Rightarrow> byte list \<Rightarrow> 'd \<Rightarrow> (ep_stat \<times> 'd) option" where
  "insert_metadata Q t gmd name d =
     (if \<not> sqlite_rc_success (sqlite3_prepare Q INSERT_METADATA d)
      then Some (metadata_stat (sqlite3_prepare Q INSERT_METADATA d), d)
      else
        let rc = sql_bind Q INSERT_METADATA ((1, SQL_BLOB name) # sql_bind_timestamp 2 t) d in
        if \<not> sqlite_rc_success rc then Some (metadata_stat rc, d)
        else do {
          (mdsize, obuf) \<leftarrow> gdp_md_serialize gmd;
          if gmd = None \<or> mdsize = 0 then Some (GDP_STAT_METADATA_REQUIRED, d)
          else do {
            md \<leftarrow> obuf;
            let rc = sqlite3_bind Q INSERT_METADATA 4 (SQL_BLOB md) d;
            if \<not> sqlite_rc_success rc then Some (metadata_stat rc, d)
            else (case sqlite3_insert Q (metadata_row name t md) d of (rc, d) \<Rightarrow>
              Some (if rc \<noteq> SQLITE_DONE then metadata_stat rc else EP_STAT_OK, d))
          }
        })"

definition sqlite_create ::
  "log_files \<Rightarrow> 'd sqlite \<Rightarrow> ep_time \<Rightarrow> gdp_md option \<Rightarrow> 'd log_gob \<Rightarrow> (ep_stat \<times> 'd log_gob) option" where
  "sqlite_create F Q t gmd gob =
     (let fail = (\<lambda>estat. (if estat = ep_stat_from_errno EEXIST then GDP_STAT_NAK_CONFLICT else estat, set_phys None gob)) in
      case get_log_path F gob of
        Inl estat \<Rightarrow> Some (fail estat)
      | Inr path \<Rightarrow>
          if fs_creat F path \<noteq> 0 then Some (fail (ep_stat_from_errno (fs_creat F path)))
          else (case sqlite3_open Q True path of (rc, d) \<Rightarrow>
            if \<not> sqlite_rc_success rc then Some (fail (sqlite_error rc))
            else do {
              (rc, d) \<leftarrow> create_db Q d;
              if \<not> sqlite_rc_success rc then Some (fail (sqlite_error rc))
              else (case sqlite_set_pragmas Q d of (estat, d) \<Rightarrow>
                if \<not> EP_STAT_ISOK estat then Some (fail estat)
                else (case sqlite3_exec Q LOG_SCHEMA d of (rc, d) \<Rightarrow>
                  if \<not> sqlite_rc_success rc then Some (fail (sqlite_error rc))
                  else do {
                    (estat, d) \<leftarrow> insert_metadata Q t gmd (gob_name gob) d;
                    if \<not> EP_STAT_ISOK estat then Some (fail estat)
                    else Some (estat,
                      set_phys (Some ((physinfo_alloc d)\<lparr>phys_ver := GLOG_VERSION, min_recno := 1, max_recno := 0\<rparr>)) gob)
                  }))
            }))"

section \<open>Appending\<close>

definition datum_row :: "('b, 'z) evbuffer_scheme \<Rightarrow> byte list \<Rightarrow> 'b gdp_datum \<Rightarrow> log_row" where
  "datum_row E hash datum =
     \<lparr>row_hash = hash, row_recno = recno datum, row_timestamp = ep_time_to_nsec (ts datum),
      row_accuracy = tv_accuracy (ts datum),
      row_prevhash = (case prevhash datum of None \<Rightarrow> [] | Some h \<Rightarrow> gdp_hash_getptr E h),
      row_value = (case dbuf datum of None \<Rightarrow> [] | Some b \<Rightarrow> gdp_hash_getptr E b),
      row_sig = (case sig datum of None \<Rightarrow> [] | Some h \<Rightarrow> gdp_sig_getptr E h)\<rparr>"

definition append_bindings :: "log_row \<Rightarrow> ep_time \<Rightarrow> bool \<Rightarrow> bool \<Rightarrow> (nat \<times> sql_value) list" where
  "append_bindings row t prev sg =
     (1, SQL_BLOB (row_hash row)) # (2, SQL_INT (row_recno row)) # sql_bind_timestamp 3 t @
     (if prev then [(5, SQL_BLOB (row_prevhash row))] else []) @ (6, SQL_BLOB (row_value row)) #
     (if sg then [(7, SQL_BLOB (row_sig row))] else [])"

definition sqlite_append ::
  "('b, 'z) evbuffer_scheme \<Rightarrow> 'd sqlite \<Rightarrow> 'd log_gob crypto \<Rightarrow> 'b gdp_datum \<Rightarrow> 'd log_gob \<Rightarrow>
   (ep_stat \<times> 'd log_gob) option" where
  "sqlite_append E Q C datum gob =
     do {
       phys \<leftarrow> GETPHYS gob;
       let prc = sqlite3_prepare Q INSERT_ENTRY (phys_db phys);
       if \<not> sqlite_rc_success prc then Some (sqlite_error prc, gob)
       else do {
         (_, ctx, gob) \<leftarrow> vrfy_ctx_of C gob;
         let row = datum_row E (gdp_hash_getptr E (gdp_datum_hash E (md_hash C) ctx datum)) datum;
         let rc = sql_bind Q INSERT_ENTRY
           (append_bindings row (ts datum) (prevhash datum \<noteq> None) (sig datum \<noteq> None)) (phys_db phys);
         if \<not> sqlite_rc_success rc then Some (sqlite_error rc, gob)
         else (case sqlite3_insert Q row (phys_db phys) of (rc, d) \<Rightarrow>
           Some (if rc \<noteq> SQLITE_DONE then sqlite_error rc else EP_STAT_OK, set_phys (Some (phys\<lparr>phys_db := d\<rparr>)) gob))
       }
     }"

definition sqlite_xact :: "'d sqlite \<Rightarrow> sql_command \<Rightarrow> 'd log_gob \<Rightarrow> (ep_stat \<times> 'd log_gob) option" where
  "sqlite_xact Q c gob =
     do {
       phys \<leftarrow> GETPHYS gob;
       let (rc, d) = sqlite3_exec Q c (phys_db phys);
       Some (if sqlite_rc_success rc then EP_STAT_OK else sqlite_error rc, set_phys (Some (phys\<lparr>phys_db := d\<rparr>)) gob)
     }"

definition sqlite_xact_begin :: "'d sqlite \<Rightarrow> 'd log_gob \<Rightarrow> (ep_stat \<times> 'd log_gob) option" where
  "sqlite_xact_begin Q = sqlite_xact Q BEGIN_TRANSACTION"

definition sqlite_xact_end :: "'d sqlite \<Rightarrow> 'd log_gob \<Rightarrow> (ep_stat \<times> 'd log_gob) option" where
  "sqlite_xact_end Q = sqlite_xact Q END_TRANSACTION"

definition sqlite_xact_abort :: "'d sqlite \<Rightarrow> 'd log_gob \<Rightarrow> (ep_stat \<times> 'd log_gob) option" where
  "sqlite_xact_abort Q = sqlite_xact Q ROLLBACK_TRANSACTION"

section \<open>Reading\<close>

text \<open>A result goes to a function of the caller, with its status and the record.\<close>

type_synonym ('b, 'd) result_cb =
  "ep_stat \<Rightarrow> 'b gdp_datum \<Rightarrow> ('b, 'd) logd_state \<Rightarrow> (ep_stat \<times> ('b, 'd) logd_state) option"

definition read_blob :: "('b, 'z) evbuffer_scheme \<Rightarrow> byte list \<Rightarrow> 'b option \<Rightarrow> 'b" where
  "read_blob E blob b =
     (let b = (case b of None \<Rightarrow> gdp_buf_new E | Some b \<Rightarrow> snd (gdp_buf_reset E b))
      in if 0 < length blob then snd (gdp_buf_write E b blob) else b)"

text \<open>Reading a hash or a signature: its buffer is there in either case, new or reset.\<close>

definition read_hash :: "('b, 'z) evbuffer_scheme \<Rightarrow> byte list \<Rightarrow> 'b option \<Rightarrow> 'b" where
  "read_hash E blob h =
     read_blob E blob (Some (case h of None \<Rightarrow> gdp_hash_new E None | Some h \<Rightarrow> snd (gdp_buf_reset E h)))"

definition read_signature :: "('b, 'z) evbuffer_scheme \<Rightarrow> byte list \<Rightarrow> 'b option \<Rightarrow> 'b" where
  "read_signature E blob h =
     read_blob E blob (Some (case h of None \<Rightarrow> gdp_sig_new E None | Some h \<Rightarrow> gdp_sig_reset E h))"

definition row_datum :: "('b, 'z) evbuffer_scheme \<Rightarrow> log_row \<Rightarrow> 'b gdp_datum \<Rightarrow> 'b gdp_datum" where
  "row_datum E row datum =
     datum\<lparr>recno := row_recno row,
       ts := (ep_time_from_nsec (row_timestamp row) (ts datum))\<lparr>tv_accuracy := row_accuracy row\<rparr>,
       prevhash := Some (read_hash E (row_prevhash row) (prevhash datum)),
       dbuf := Some (read_blob E (row_value row) (dbuf datum)),
       sig := Some (read_signature E (row_sig row) (sig datum))\<rparr>"

definition process_row ::
  "('b, 'z) evbuffer_scheme \<Rightarrow> ('b, 'd) result_cb \<Rightarrow> log_row \<Rightarrow> ('b, 'd) logd_state \<Rightarrow>
   (ep_stat \<times> ('b, 'd) logd_state) option" where
  "process_row E cb row s =
     do {
       let (datum, dfl) = gdp_datum_new E (datum_free (ev_q s));
       let s = s\<lparr>ev_q := (ev_q s)\<lparr>datum_free := dfl\<rparr>\<rparr>;
       let datum = row_datum E row datum;
       (estat, s) \<leftarrow> cb GDP_STAT_ACK_CONTENT datum s;
       Some (estat, s\<lparr>ev_q := (ev_q s)\<lparr>datum_free := gdp_datum_free E (Some datum) (datum_free (ev_q s))\<rparr>\<rparr>)
     }"

fun select_loop ::
  "('b, 'z) evbuffer_scheme \<Rightarrow> ('b, 'd) result_cb \<Rightarrow> bool \<Rightarrow> log_row list \<Rightarrow> int \<Rightarrow> int \<Rightarrow> ('b, 'd) logd_state \<Rightarrow>
   (int \<times> int \<times> ('b, 'd) logd_state) option" where
  "select_loop E cb one_only [] rc nresults s = Some (rc, nresults, s)"
| "select_loop E cb one_only (row # rows) rc nresults s =
     do {
       (_, s) \<leftarrow> process_row E cb row s;
       if one_only then Some (SQLITE_ROW, nresults + 1, s)
       else select_loop E cb one_only rows rc (nresults + 1) s
     }"

definition process_select_results ::
  "('b, 'z) evbuffer_scheme \<Rightarrow> ('b, 'd) result_cb \<Rightarrow> bool \<Rightarrow> log_row list \<times> int \<times> int \<Rightarrow> ('b, 'd) logd_state \<Rightarrow>
   (ep_stat \<times> ('b, 'd) logd_state) option" where
  "process_select_results E cb one_only res s =
     (case res of (rows, rc, reset_rc) \<Rightarrow> do {
        (rc, nresults, s) \<leftarrow> select_loop E cb one_only rows rc 0 s;
        let estat =
          (if reset_rc \<noteq> SQLITE_OK then sqlite_error reset_rc
           else if rc = SQLITE_ROW then GDP_STAT_RESPONSE_SENT
           else if rc = SQLITE_DONE then
             (if nresults \<le> 0 then GDP_STAT_NAK_NOTFOUND else GDP_STAT_ACK_END_OF_RESULTS)
           else if \<not> sqlite_rc_success rc then sqlite_error rc
           else EP_STAT_OK);
        Some (if EP_STAT_ISOK estat then EP_STAT_FROM_INT nresults else estat, s)
      })"

text \<open>Preparing a statement that is kept; the result code, and the log with the statement.\<close>

definition keep_stmt :: "'d sqlite \<Rightarrow> sql \<Rightarrow> 'd physinfo \<Rightarrow> int \<times> 'd physinfo" where
  "keep_stmt Q stmt phys =
     (if stmt \<in> set (phys_stmts phys) then (SQLITE_OK, phys)
      else
        let rc = sqlite3_prepare Q stmt (phys_db phys) in
        (rc, if sqlite_rc_success rc then phys\<lparr>phys_stmts := stmt # phys_stmts phys\<rparr> else phys))"

text \<open>A query: the statements are prepared, the parameters bound, and the results handed on.\<close>

definition sqlite_query ::
  "('b, 'z) evbuffer_scheme \<Rightarrow> 'd sqlite \<Rightarrow> ('b, 'd) result_cb \<Rightarrow> sql list \<Rightarrow> sql \<Rightarrow> (nat \<times> sql_value) list \<Rightarrow> bool \<Rightarrow>
   nat \<Rightarrow> ('b, 'd) logd_state \<Rightarrow> (ep_stat \<times> ('b, 'd) logd_state) option" where
  "sqlite_query E Q cb prep stmt bs one_only a s =
     do {
       gob \<leftarrow> gobs s a;
       phys \<leftarrow> GETPHYS gob;
       let (rc, phys) = fold (\<lambda>st (rc, phys). if sqlite_rc_success rc then keep_stmt Q st phys else (rc, phys))
         prep (SQLITE_OK, phys);
       let s = upd_gob a (set_phys (Some phys)) s;
       if \<not> sqlite_rc_success rc then Some (sqlite_error rc, s)
       else
         let rc = sql_bind Q stmt bs (phys_db phys) in
         if \<not> sqlite_rc_success rc then Some (sqlite_error rc, s)
         else process_select_results E cb one_only (sqlite3_rows Q stmt (map snd bs) (phys_db phys)) s
     }"

definition sqlite_read_by_hash ::
  "('b, 'z) evbuffer_scheme \<Rightarrow> 'd sqlite \<Rightarrow> ('b, 'd) result_cb \<Rightarrow> 'b \<Rightarrow> nat \<Rightarrow> ('b, 'd) logd_state \<Rightarrow>
   (ep_stat \<times> ('b, 'd) logd_state) option" where
  "sqlite_read_by_hash E Q cb hash =
     sqlite_query E Q cb [SELECT_BY_HASH] SELECT_BY_HASH [(1, SQL_BLOB (gdp_hash_getptr E hash))] True"

definition sqlite_read_by_recno ::
  "('b, 'z) evbuffer_scheme \<Rightarrow> 'd sqlite \<Rightarrow> ('b, 'd) result_cb \<Rightarrow> int \<Rightarrow> u32 \<Rightarrow> nat \<Rightarrow> ('b, 'd) logd_state \<Rightarrow>
   (ep_stat \<times> ('b, 'd) logd_state) option" where
  "sqlite_read_by_recno E Q cb startrec maxrecs =
     (let one_only = (maxrecs = 0);
          maxrecs = (if one_only then 1 else maxrecs)
      in sqlite_query E Q cb [SELECT_RECNO, SELECT_FROM_RECNO] (if one_only then SELECT_RECNO else SELECT_FROM_RECNO)
           [(1, SQL_INT startrec), (2, SQL_INT (sint maxrecs))] one_only)"

text \<open>The statement has two parameters; the time takes both, and the number of records goes to a third.\<close>

definition sqlite_read_by_timestamp ::
  "('b, 'z) evbuffer_scheme \<Rightarrow> 'd sqlite \<Rightarrow> ('b, 'd) result_cb \<Rightarrow> ep_time \<Rightarrow> u32 \<Rightarrow> nat \<Rightarrow> ('b, 'd) logd_state \<Rightarrow>
   (ep_stat \<times> ('b, 'd) logd_state) option" where
  "sqlite_read_by_timestamp E Q cb start_time maxrecs =
     (let one_only = (maxrecs = 0);
          maxrecs = (if one_only then 1 else maxrecs)
      in sqlite_query E Q cb [SELECT_FROM_TIME] SELECT_FROM_TIME
           (sql_bind_timestamp 1 start_time @ [(3, SQL_INT (sint maxrecs))]) one_only)"

definition sqlite_getmetadata :: ep_stat where
  "sqlite_getmetadata = GDP_STAT_NOT_IMPLEMENTED"

end
