(* ===== verification/Logd_Pubsub.thy ===== *)
theory Logd_Pubsub
  imports Logd_Sqlite
begin

text \<open>
  Opening logs and keeping subscriptions in the log daemon: \<^verbatim>\<open>gdplogd/logd_gcl.c\<close> and
  \<^verbatim>\<open>gdplogd/logd_pubsub.c\<close>.  A subscription is a request on the list of its object with the flag
  \<^verbatim>\<open>GDP_REQ_SRV_SUBSCR\<close>.  The locks of single requests are left out.
\<close>

section \<open>The daemon's surroundings\<close>

text \<open>
  The libraries the daemon calls, its channel and its configuration.  \<open>ld_depth\<close> is the depth bound of
  \<^const>\<open>gdp_gob_free\<close>; \<open>ld_rand\<close> and \<open>ld_alg\<close> are what a new object without a name and its digest use;
  \<open>ld_timeout\<close> and \<open>ld_reclaim\<close> are the timeouts of subscriptions, in seconds.
\<close>

record ('b, 'd) logd =
  ld_ev :: "'b evbuffer"
  ld_sql :: "'d sqlite"
  ld_files :: log_files
  ld_crypto :: "'d log_gob crypto"
  ld_link :: link
  ld_depth :: nat
  ld_sha :: "byte list \<Rightarrow> byte list"
  ld_rand :: "byte list"
  ld_alg :: int
  GdplogdForgive :: u32
  GdpSignatureStrictness :: u32
  ld_timeout :: int
  ld_reclaim :: int

abbreviation ld_free :: "('b, 'd) logd \<Rightarrow> nat \<Rightarrow> ('b, 'd) logd_state \<Rightarrow> ('b, 'd) logd_state option" where
  "ld_free D \<equiv> gdp_gob_free (ld_depth D)"

text \<open>An operation on an object, with its status, as one on the state.\<close>

definition on_gob ::
  "('d log_gob \<Rightarrow> (ep_stat \<times> 'd log_gob) option) \<Rightarrow> nat \<Rightarrow> ('b, 'd) logd_state \<Rightarrow> (ep_stat \<times> ('b, 'd) logd_state) option" where
  "on_gob f a s =
     do {
       gob \<leftarrow> gobs s a;
       (estat, gob) \<leftarrow> f gob;
       Some (estat, s\<lparr>gobs := (gobs s)(a \<mapsto> gob)\<rparr>)
     }"

section \<open>Handles\<close>

definition fresh_xtra :: "'d gob_xtra" where
  "fresh_xtra = \<lparr>physinfo = None\<rparr>"

definition gob_alloc :: "('b, 'd) logd \<Rightarrow> byte list \<Rightarrow> ('b, 'd) logd_state \<Rightarrow> (nat \<times> ('b, 'd) logd_state) option" where
  "gob_alloc D name s =
     do {
       (a, s) \<leftarrow> gdp_gob_new (ld_sha D) (ld_rand D) (ld_alg D) (Some name) s;
       Some (a, upd_gob a (\<lambda>g. g\<lparr>gob_x := Some fresh_xtra, gob_freefunc := True\<rparr>) s)
     }"

definition gob_close :: "'d log_gob \<Rightarrow> 'd log_gob" where
  "gob_close gob = (if gob_x gob = None then gob else (sqlite_close gob)\<lparr>gob_x := None\<rparr>)"

definition gob_delete :: "'d log_gob \<Rightarrow> 'd log_gob" where
  "gob_delete gob =
     (let gob = clr_flag GOBF_DEFER_FREE gob in
      if gob_x gob = None then gob else (sqlite_remove (sqlite_close gob))\<lparr>gob_x := None\<rparr>)"

definition do_physical_open :: "('b, 'd) logd \<Rightarrow> 'd log_gob \<Rightarrow> (ep_stat \<times> 'd log_gob) option" where
  "do_physical_open D gob =
     do {
       (estat, gob) \<leftarrow> sqlite_open (ld_files D) (ld_sql D) (gob\<lparr>gob_x := Some fresh_xtra, gob_freefunc := True\<rparr>);
       Some (if EP_STAT_ISOK estat then (estat, clr_flag GOBF_PENDING (set_flag GOBF_DEFER_FREE gob))
             else (if estat \<noteq> GDP_STAT_NAK_NOTFOUND then GDP_STAT_NAK_INTERNAL else estat, gob))
     }"

definition get_open_handle :: "('b, 'd) logd \<Rightarrow> ('b, 'd gob_xtra) handler" where
  "get_open_handle D r s =
     do {
       req \<leftarrow> reqs s r;
       if req_gob req \<noteq> None then Some (EP_STAT_OK, s)
       else do {
         cp \<leftarrow> req_cpdu req;
         (found, s) \<leftarrow> gdp_gob_cache_get (ld_sha D) (ld_rand D) (ld_alg D) (pdu_dst cp) GGCF_CREATE s;
         a \<leftarrow> found;
         gob \<leftarrow> gobs s a;
         let s = upd_req r (\<lambda>q. q\<lparr>req_gob := Some a\<rparr>) s;
         (estat, s) \<leftarrow> (if has_flag GOBF_PENDING gob then on_gob (do_physical_open D) a s else Some (EP_STAT_OK, s));
         if EP_STAT_ISOK estat then Some (estat, s)
         else if has_flag GOBF_PENDING gob \<and> estat = GDP_STAT_NAK_NOTFOUND then do {
           s \<leftarrow> ld_free D a (upd_req r (\<lambda>q. q\<lparr>req_gob := None\<rparr>) s);
           Some (estat, s)
         }
         else do {
           (cleared, s) \<leftarrow> gdp_gob_decref (ld_free D) False a s;
           Some (estat, if cleared then upd_req r (\<lambda>q. q\<lparr>req_gob := None\<rparr>) s else s)
         }
       }
     }"

section \<open>Notifying subscribers\<close>

text \<open>The PDU is addressed to the subscriber and carries the numbers of its request.\<close>

definition address_to :: "gdp_pdu \<Rightarrow> gdp_pdu \<Rightarrow> gdp_pdu option" where
  "address_to cp p =
     do {
       cm \<leftarrow> pdu_msg cp;
       m \<leftarrow> pdu_msg p;
       Some (p\<lparr>pdu_dst := pdu_src cp, pdu_msg := Some (m\<lparr>rid := rid cm, l5seqno := l5seqno cm\<rparr>)\<rparr>)
     }"

definition sub_send_message_notification ::
  "link \<Rightarrow> 'b gdp_req \<Rightarrow> gdp_pdu \<Rightarrow> ('b, 'x) gdp_lib \<Rightarrow> (ep_stat \<times> gdp_pdu option \<times> ('b, 'x) gdp_lib) option" where
  "sub_send_message_notification L req p s =
     do {
       cp \<leftarrow> req_cpdu req;
       p \<leftarrow> address_to cp p;
       lib_pdu_out L (Some p) s
     }"

text \<open>A message as \<^verbatim>\<open>gdp_message__init\<close> leaves it.\<close>

definition init_msg :: gdp_msg where
  "init_msg = \<lparr>cmd = 0, has_rid = False, rid = 0, has_l5seqno = False, l5seqno = 0, body = BODY_NOT_SET, msg_sig = None\<rparr>"

text \<open>The request keeps its pointer to the object although the reference is dropped.\<close>

definition sub_end_subscription ::
  "('b, 'd) logd \<Rightarrow> nat \<Rightarrow> ('b, 'd) logd_state \<Rightarrow> ('b, 'd) logd_state option" where
  "sub_end_subscription D r s =
     do {
       let s = upd_req r (clr_req_flag (GDP_REQ_PERSIST OR GDP_REQ_SRV_SUBSCR)) s;
       req \<leftarrow> reqs s r;
       s \<leftarrow> (if has_req_flag GDP_REQ_ON_GOB_LIST req then do {
               a \<leftarrow> req_gob req;
               let s = upd_gob a (\<lambda>g. g\<lparr>gob_reqs := remove1 r (gob_reqs g)\<rparr>) s;
               let s = upd_req r (clr_req_flag GDP_REQ_ON_GOB_LIST) s;
               map_option snd (gdp_gob_decref (ld_free D) True a s)
             }
             else Some s);
       req \<leftarrow> reqs s r;
       cp \<leftarrow> req_cpdu req;
       cm \<leftarrow> pdu_msg cp;
       let (rp, fl) = (case req_rpdu req of
           None \<Rightarrow> gdp_pdu_new (pdu_freelist s) (Some init_msg) (pdu_dst cp) (pdu_src cp) GDP_SEQNO_NONE
         | Some p \<Rightarrow> (if pdu_msg p = None then p\<lparr>pdu_msg := Some init_msg\<rparr> else p, pdu_freelist s));
       let rp = rp\<lparr>pdu_msg := map_option (\<lambda>m. m\<lparr>rid := rid cm, cmd := ACK_END_OF_RESULTS\<rparr>) (pdu_msg rp)\<rparr>;
       (_, p, s) \<leftarrow> lib_pdu_out (ld_link D) (Some rp) (s\<lparr>pdu_freelist := fl\<rparr>);
       Some (upd_req r (\<lambda>q. q\<lparr>req_rpdu := p\<rparr>) s)
     }"

text \<open>The bound before which a subscription counts as dead.\<close>

definition sub_timeout :: "int \<Rightarrow> ('b, 'x) gdp_lib \<Rightarrow> ep_time" where
  "sub_timeout timeout s =
     snd (ep_time_deltanow (lib_clk s) (clk_acc (lib_conf s)) (ep_time_from_nsec (- timeout * ONESECOND) ep_time_zero)
       ep_time_zero)"

text \<open>One subscriber; \<open>p\<close> is the PDU that goes round.\<close>

definition notify_one ::
  "('b, 'd) logd \<Rightarrow> ep_time \<Rightarrow> nat \<Rightarrow> gdp_pdu \<Rightarrow> ('b, 'd) logd_state \<Rightarrow> (gdp_pdu \<times> ('b, 'd) logd_state) option" where
  "notify_one D limit r p s =
     do {
       req \<leftarrow> reqs s r;
       if \<not> has_req_flag GDP_REQ_SRV_SUBSCR req then Some (p, s)
       else if \<not> ep_time_before (req_act_ts req) limit then
         (if Option.bind (req_cpdu req) pdu_msg = None then Some (p, s)
          else do {
            (estat, sp, s) \<leftarrow> sub_send_message_notification (ld_link D) req p s;
            p \<leftarrow> sp;
            if \<not> EP_STAT_ISOK estat then Some (p, s)
            else do {
              let s = upd_req r (\<lambda>q. q\<lparr>req_nextrec := req_nextrec q + 1,
                req_numrecs := (if 0 < req_numrecs q then req_numrecs q - 1 else req_numrecs q)\<rparr>) s;
              s \<leftarrow> (if req_numrecs req = 1 then sub_end_subscription D r s else Some s);
              Some (p, s)
            }
          })
       else map_option (Pair p) (gdp_req_free (ld_free D) r s)
     }"

fun notify_loop ::
  "('b, 'd) logd \<Rightarrow> ep_time \<Rightarrow> nat \<Rightarrow> nat list \<Rightarrow> gdp_pdu \<Rightarrow> ('b, 'd) logd_state \<Rightarrow>
   (gdp_pdu \<times> ('b, 'd) logd_state) option" where
  "notify_loop D limit pubreq [] p s = Some (p, s)"
| "notify_loop D limit pubreq (r # rs) p s =
     do {
       (p, s) \<leftarrow> (if r = pubreq then Some (p, s) else notify_one D limit r p s);
       notify_loop D limit pubreq rs p s
     }"

definition sub_notify_all_subscribers ::
  "('b, 'd) logd \<Rightarrow> nat \<Rightarrow> ('b, 'd) logd_state \<Rightarrow> ('b, 'd) logd_state option" where
  "sub_notify_all_subscribers D pubreq s =
     do {
       req \<leftarrow> reqs s pubreq;
       (case req_rpdu req of
          None \<Rightarrow> Some s
        | Some p \<Rightarrow>
            if pdu_msg p = None then Some s
            else do {
              a \<leftarrow> req_gob req;
              gob \<leftarrow> gobs s a;
              (p, s) \<leftarrow> notify_loop D (sub_timeout (ld_timeout D) s) pubreq (gob_reqs gob) p
                (upd_gob a (set_flag GOBF_KEEPLOCKED) s);
              Some (upd_gob a (clr_flag GOBF_KEEPLOCKED) (upd_req pubreq (\<lambda>q. q\<lparr>req_rpdu := Some p\<rparr>) s))
            })
     }"

section \<open>Ending subscriptions\<close>

text \<open>A freed request on the list cannot be locked, and the search starts over for ever.\<close>

fun end_all_loop ::
  "('b, 'd) logd \<Rightarrow> nat \<Rightarrow> byte list \<Rightarrow> u32 \<Rightarrow> nat list \<Rightarrow> ('b, 'd) logd_state \<Rightarrow> ('b, 'd) logd_state option" where
  "end_all_loop D a dest rd [] s = Some s"
| "end_all_loop D a dest rd (r # rs) s =
     do {
       req \<leftarrow> reqs s r;
       if req_state req = GDP_REQ_FREE then None
       else do {
         cp \<leftarrow> req_cpdu req;
         m \<leftarrow> (if pdu_dst cp = dest \<and> rd \<noteq> GDP_PDU_NO_RID then map_option Some (pdu_msg cp) else Some None);
         if pdu_dst cp \<noteq> dest \<or> (case m of None \<Rightarrow> False | Some m \<Rightarrow> rd \<noteq> rid m) \<or> req_gob req \<noteq> Some a
         then end_all_loop D a dest rd rs s
         else do {
           let s = upd_gob a (\<lambda>g. g\<lparr>gob_reqs := remove1 r (gob_reqs g)\<rparr>) s;
           let s = upd_req r (clr_req_flag GDP_REQ_ON_GOB_LIST) s;
           (cleared, s) \<leftarrow> gdp_gob_decref (ld_free D) False a s;
           let s = (if cleared then upd_req r (\<lambda>q. q\<lparr>req_gob := None\<rparr>) s else s);
           s \<leftarrow> gdp_req_free (ld_free D) r s;
           end_all_loop D a dest rd rs s
         }
       }
     }"

definition sub_end_all_subscriptions ::
  "('b, 'd) logd \<Rightarrow> nat \<Rightarrow> byte list \<Rightarrow> u32 \<Rightarrow> ('b, 'd) logd_state \<Rightarrow> ('b, 'd) logd_state option" where
  "sub_end_all_subscriptions D a dest rd s =
     do {
       gob \<leftarrow> gobs s a;
       s \<leftarrow> end_all_loop D a dest rd (gob_reqs gob) (upd_gob a (set_flag GOBF_KEEPLOCKED) s);
       Some (upd_gob a (clr_flag GOBF_KEEPLOCKED) s)
     }"

section \<open>Reclaiming subscriptions\<close>

fun reclaim_loop ::
  "('b, 'd) logd \<Rightarrow> ep_time \<Rightarrow> nat \<Rightarrow> nat list \<Rightarrow> ('b, 'd) logd_state \<Rightarrow> ('b, 'd) logd_state option" where
  "reclaim_loop D limit a [] s = Some s"
| "reclaim_loop D limit a (r # rs) s =
     do {
       req \<leftarrow> reqs s r;
       if req_gob req \<noteq> Some a then do {
         b \<leftarrow> req_gob req;
         gdp_gob_unlock b s
       }
       else if \<not> has_req_flag GDP_REQ_SRV_SUBSCR req \<or> \<not> ep_time_before (req_act_ts req) limit
       then reclaim_loop D limit a rs s
       else do {
         let s = (if has_req_flag GDP_REQ_ON_GOB_LIST req
                  then upd_gob a (\<lambda>g. g\<lparr>gob_reqs := remove1 r (gob_reqs g)\<rparr>) s else s);
         let s = (if has_req_flag GDP_REQ_ON_CHAN_LIST req then s\<lparr>chan_reqs := remove1 r (chan_reqs s)\<rparr> else s);
         let s = upd_req r (clr_req_flag (GDP_REQ_ON_GOB_LIST OR GDP_REQ_ON_CHAN_LIST)) s;
         (cleared, s) \<leftarrow> gdp_gob_decref (ld_free D) True a s;
         let s = (if cleared then upd_req r (\<lambda>q. q\<lparr>req_gob := None\<rparr>) s else s);
         s \<leftarrow> gdp_req_free (ld_free D) r s;
         reclaim_loop D limit a rs s
       }
     }"

definition gob_reclaim_subscriptions ::
  "('b, 'd) logd \<Rightarrow> nat \<Rightarrow> ('b, 'd) logd_state \<Rightarrow> ('b, 'd) logd_state option" where
  "gob_reclaim_subscriptions D a s =
     do {
       gob \<leftarrow> gobs s a;
       if has_flag GOBF_ISLOCKED gob then Some s
       else do {
         s \<leftarrow> reclaim_loop D (sub_timeout (ld_reclaim D) s) a (gob_reqs gob) (upd_gob a (set_flag GOBF_ISLOCKED) s);
         gdp_gob_unlock a s
       }
     }"

end
