(* ===== verification/Logd_Proto.thy ===== *)
theory Logd_Proto
  imports Logd_Pubsub
begin

text \<open>
  The commands of the log daemon, \<^verbatim>\<open>gdplogd/logd_proto.c\<close>: the functions it registers for the commands of
  the protocol, and the delivery of existing records after a subscription has been acknowledged.  What is
  only logged or posted as statistics is left out.  \<^term>\<open>None\<close> stands for a null pointer that is followed
  and for a step that does not return.
\<close>

definition FORGIVE_LOG_GAPS :: u32 where "FORGIVE_LOG_GAPS = 1"
definition FORGIVE_LOG_DUPS :: u32 where "FORGIVE_LOG_DUPS = 2"
definition GDP_SIG_MUSTVERIFY :: u32 where "GDP_SIG_MUSTVERIFY = 1"
definition GDP_SIG_REQUIRED :: u32 where "GDP_SIG_REQUIRED = 2"
definition GDP_SIG_PUBKEYREQ :: u32 where "GDP_SIG_PUBKEYREQ = 4"
definition INT32_MAX :: int where "INT32_MAX = 2147483647"

type_synonym ('b, 'd) log_handler = "('b, 'd gob_xtra) handler"

abbreviation nak_text :: "gdp_cmd \<Rightarrow> string \<Rightarrow> ep_stat \<Rightarrow> ('b, 'd) log_handler" where
  "nak_text c t estat \<equiv> gdp_req_nak_resp c (map of_char t) estat"

text \<open>The message of the command; \<^verbatim>\<open>GET_PAYLOAD\<close> without it gives \<^verbatim>\<open>EP_STAT_ASSERT_ABORT\<close>, and with a body of
  another kind \<^verbatim>\<open>GDP_STAT_PROTOCOL_FAIL\<close>.\<close>

definition cpdu_msg :: "'b gdp_req \<Rightarrow> gdp_msg option" where
  "cpdu_msg req = Option.bind (req_cpdu req) pdu_msg"

definition bad_payload :: "'b gdp_req \<Rightarrow> ep_stat" where
  "bad_payload req = (if cpdu_msg req = None then EP_STAT_ASSERT_ABORT else GDP_STAT_PROTOCOL_FAIL)"

definition payload_of :: "'b gdp_req \<Rightarrow> gdp_body" where
  "payload_of req = (case cpdu_msg req of None \<Rightarrow> BODY_NOT_SET | Some m \<Rightarrow> body m)"

text \<open>Filling in the body of the response.\<close>

definition fill_resp :: "(gdp_body \<Rightarrow> gdp_body) \<Rightarrow> nat \<Rightarrow> ('b, 'x) gdp_lib \<Rightarrow> ('b, 'x) gdp_lib" where
  "fill_resp f r s =
     upd_req r (\<lambda>q. q\<lparr>req_rpdu :=
       map_option (\<lambda>p. p\<lparr>pdu_msg := map_option (\<lambda>m. m\<lparr>body := f (body m)\<rparr>) (pdu_msg p)\<rparr>) (req_rpdu q)\<rparr>) s"

text \<open>An acknowledgement with the given body.\<close>

definition ack_with :: "gdp_cmd \<Rightarrow> (gdp_body \<Rightarrow> gdp_body) \<Rightarrow> nat \<Rightarrow> ('b, 'x) gdp_lib \<Rightarrow> ('b, 'x) gdp_lib option" where
  "ack_with c f r s = map_option (\<lambda>(_, s). fill_resp f r s) (gdp_req_ack_resp c r s)"

section \<open>Ping, create, open, close, delete\<close>

text \<open>The subscriptions \<^verbatim>\<open>cmd_ping\<close> looks for have a response PDU to the destination \<open>dst\<close>.\<close>

fun ping_search :: "byte list \<Rightarrow> nat list \<Rightarrow> ('b, 'x) gdp_lib \<Rightarrow> bool option" where
  "ping_search dst [] s = Some False"
| "ping_search dst (r # rs) s =
     do {
       sub \<leftarrow> reqs s r;
       p \<leftarrow> req_rpdu sub;
       if pdu_dst p = dst \<and> has_req_flag GDP_REQ_SRV_SUBSCR sub then Some True else ping_search dst rs s
     }"

definition cmd_ping :: "('b, 'd) logd \<Rightarrow> ('b, 'd) log_handler" where
  "cmd_ping D r s =
     do {
       req \<leftarrow> reqs s r;
       cp \<leftarrow> req_cpdu req;
       if pdu_dst cp = my_name s then gdp_req_ack_resp ACK_SUCCESS r s
       else do {
         rp \<leftarrow> req_rpdu req;
         (_, s) \<leftarrow> gdp_gob_cache_get (ld_sha D) (ld_rand D) (ld_alg D) (pdu_dst rp) 0 s;
         a \<leftarrow> req_gob req;
         gob \<leftarrow> gobs s a;
         found \<leftarrow> ping_search (pdu_dst rp) (gob_reqs gob) s;
         if found then gdp_req_ack_resp ACK_SUCCESS r s
         else nak_text NAK_S_LOST_SUBSCR ''cmd_ping: lost subscription'' GDP_STAT_NAK_NOTFOUND r s
       }
     }"

definition logd_advertise_one :: "gdp_cmd \<Rightarrow> byte list \<Rightarrow> ('b, 'x) gdp_lib \<Rightarrow> ('b, 'x) gdp_lib" where
  "logd_advertise_one c name s = s\<lparr>adverts := adverts s @ [(if c = CMD_ADVERTISE then c else CMD_WITHDRAW, name)]\<rparr>"

text \<open>The part of \<^verbatim>\<open>cmd_create\<close> that has a name to work with.\<close>

definition create_log :: "('b, 'd) logd \<Rightarrow> byte list \<Rightarrow> byte list \<Rightarrow> ('b, 'd) log_handler" where
  "create_log D gobname metadata r s =
     do {
       (a, s) \<leftarrow> gob_alloc D gobname s;
       if metadata = [] then nak_text NAK_C_BADOPT ''cmd_create: metadata required'' GDP_STAT_METADATA_REQUIRED r s
       else do {
         gmd \<leftarrow> gdp_md_deserialize metadata;
         s \<leftarrow> gdp_gob_lock a (upd_req r (\<lambda>q. q\<lparr>req_gob := Some a\<rparr>) s);
         (estat, s) \<leftarrow> on_gob (\<lambda>g. sqlite_create (ld_files D) (ld_sql D) (now_ts s ep_time_zero) gmd (g\<lparr>gob_md := gmd\<rparr>)) a s;
         if \<not> EP_STAT_ISOK estat then nak_text 0 ''cmd_create: physical create failure'' estat r s
         else do {
           let s = upd_gob a (\<lambda>g. clr_flag GOBF_PENDING (set_flag GOBF_DEFER_FREE g)) s;
           s \<leftarrow> gdp_gob_cache_add a s;
           gob \<leftarrow> gobs s a;
           (_, s) \<leftarrow> gdp_req_ack_resp ACK_CREATED r (logd_advertise_one CMD_ADVERTISE (gob_name gob) s);
           Some (estat, s)
         }
       }
     }"

definition cmd_create :: "('b, 'd) logd \<Rightarrow> ('b, 'd) log_handler" where
  "cmd_create D r s =
     do {
       req \<leftarrow> reqs s r;
       cp \<leftarrow> req_cpdu req;
       if pdu_dst cp \<noteq> my_name s then nak_text NAK_C_BADREQ ''cmd_create: log name required'' GDP_STAT_NAK_CONFLICT r s
       else (case payload_of req of
         BODY_CMD_CREATE metadata logname \<Rightarrow>
           (case logname of
              Some name \<Rightarrow>
                if length name \<noteq> 32 \<or> \<not> gdp_name_is_valid name
                then nak_text NAK_C_BADREQ ''cmd_create: improper log name'' GDP_STAT_GDP_NAME_INVALID r s
                else if name = my_name s
                then nak_text NAK_C_FORBIDDEN ''cmd_create: cannot create a log with same name as logd''
                  GDP_STAT_GDP_NAME_INVALID r s
                else create_log D name metadata r s
            | None \<Rightarrow> nak_text NAK_C_BADREQ ''cmd_create: improper log name'' GDP_STAT_GDP_NAME_INVALID r s)
       | _ \<Rightarrow> Some (bad_payload req, s))
     }"

text \<open>The metadata in the response to \<^verbatim>\<open>cmd_open\<close>.\<close>

definition open_resp :: "gdp_md option \<Rightarrow> int \<Rightarrow> gdp_body option" where
  "open_resp gmd nrecs =
     (case gmd of
        None \<Rightarrow> Some (BODY_ACK_SUCCESS (Some nrecs) None None None)
      | Some m \<Rightarrow> map_option (\<lambda>(olen, obuf). BODY_ACK_SUCCESS (Some nrecs) None None
          (Some (case obuf of None \<Rightarrow> [] | Some bs \<Rightarrow> take olen bs))) (gdp_md_serialize (Some m)))"

definition cmd_open :: "('b, 'd) logd \<Rightarrow> ('b, 'd) log_handler" where
  "cmd_open D r s =
     do {
       (estat, s) \<leftarrow> get_open_handle D r s;
       if \<not> EP_STAT_ISOK estat then nak_text 0 ''cmd_open: could not open GOB'' estat r s
       else do {
         req \<leftarrow> reqs s r;
         a \<leftarrow> req_gob req;
         gob \<leftarrow> gobs s a;
         b \<leftarrow> open_resp (gob_md gob) (gob_nrecs gob);
         s \<leftarrow> ack_with ACK_SUCCESS (\<lambda>_. b) r s;
         Some (estat, upd_gob a (set_flag GOBF_DEFER_FREE) s)
       }
     }"

text \<open>The number of records is set in the responses of \<^verbatim>\<open>cmd_close\<close>, \<^verbatim>\<open>cmd_delete\<close> and \<^verbatim>\<open>cmd_append\<close> without
  \<^verbatim>\<open>has_recno\<close>, so it is not sent.\<close>

definition cmd_close :: "('b, 'd) logd \<Rightarrow> ('b, 'd) log_handler" where
  "cmd_close D r s =
     do {
       (estat, s) \<leftarrow> get_open_handle D r s;
       if \<not> EP_STAT_ISOK estat then nak_text NAK_C_BADREQ ''cmd_close: GOB not open'' estat r s
       else do {
         (_, s) \<leftarrow> gdp_req_ack_resp ACK_SUCCESS r s;
         req \<leftarrow> reqs s r;
         a \<leftarrow> req_gob req;
         cp \<leftarrow> req_cpdu req;
         s \<leftarrow> sub_end_all_subscriptions D a (pdu_src cp) GDP_PDU_NO_RID s;
         Some (estat, s)
       }
     }"

text \<open>\<open>override\<close> is the debug flag \<^verbatim>\<open>gdplogd.sig.override\<close>.\<close>

definition verify_req_signature :: "bool \<Rightarrow> ep_stat" where
  "verify_req_signature override = (if override then EP_STAT_OK else GDP_STAT_NOT_IMPLEMENTED)"

definition cmd_delete :: "('b, 'd) logd \<Rightarrow> bool \<Rightarrow> ('b, 'd) log_handler" where
  "cmd_delete D override r s =
     do {
       (estat, s) \<leftarrow> get_open_handle D r s;
       if \<not> EP_STAT_ISOK estat then nak_text NAK_C_BADREQ ''cmd_delete: GOB not open'' estat r s
       else
         let estat = verify_req_signature override in
         if \<not> EP_STAT_ISOK estat then nak_text NAK_C_UNAUTH ''cmd_delete: signature failure'' estat r s
         else do {
           (_, s) \<leftarrow> gdp_req_ack_resp ACK_DELETED r s;
           req \<leftarrow> reqs s r;
           a \<leftarrow> req_gob req;
           gob \<leftarrow> gobs s a;
           cp \<leftarrow> req_cpdu req;
           s \<leftarrow> sub_end_all_subscriptions D a (pdu_src cp) GDP_PDU_NO_RID (logd_advertise_one CMD_WITHDRAW (gob_name gob) s);
           Some (estat, upd_gob a (\<lambda>g. gob_delete (g\<lparr>gob_freefunc := False\<rparr>)) s)
         }
     }"

section \<open>Reading\<close>

definition make_read_acknak_pdu :: "ep_stat \<Rightarrow> nat \<Rightarrow> ('b, 'x) gdp_lib \<Rightarrow> ('b, 'x) gdp_lib option" where
  "make_read_acknak_pdu estat r s =
     do {
       req \<leftarrow> reqs s r;
       if EP_STAT_ISOK estat then ack_with ACK_CONTENT (\<lambda>_. BODY_ACK_CONTENT [init_pb] None) r s
       else if estat = GDP_STAT_NAK_NOTFOUND
       then ack_with NAK_C_NOTFOUND (\<lambda>_. BODY_NAK (Some (EP_STAT_TO_INT estat)) None (Some (req_nextrec req))) r s
       else if estat = GDP_STAT_NAK_LOST_SUBSCR \<or> estat = GDP_STAT_ACK_END_OF_RESULTS
       then ack_with ACK_END_OF_RESULTS
         (\<lambda>_. BODY_ACK_END_OF_RESULTS (Some (EP_STAT_TO_INT estat)) (Some (req_s_results req))) r s
       else ack_with NAK_S_INTERNAL (\<lambda>_. BODY_NAK (Some (EP_STAT_TO_INT estat)) None (Some (req_nextrec req))) r s
     }"

definition send_read_result :: "('b, 'd) logd \<Rightarrow> nat \<Rightarrow> ('b, 'd) result_cb" where
  "send_read_result D r estat datum s =
     do {
       s \<leftarrow> make_read_acknak_pdu estat r s;
       let s = (if EP_STAT_ISOK estat
                then fill_resp (\<lambda>_. BODY_ACK_CONTENT [gdp_datum_to_pb (ld_ev D) datum init_pb] None) r s else s);
       req \<leftarrow> reqs s r;
       (estat, p, s) \<leftarrow> lib_pdu_out (ld_link D) (req_rpdu req) s;
       Some (estat, upd_req r (\<lambda>q. q\<lparr>req_rpdu := p, req_stat := estat,
         req_s_results := (if EP_STAT_ISOK estat then req_s_results q + 1 else req_s_results q)\<rparr>) s)
     }"

definition start_from :: "int \<Rightarrow> int \<Rightarrow> int" where
  "start_from start nrecs = (if start + nrecs + 1 \<le> 0 then 1 else start + nrecs + 1)"

definition cmd_read_by_recno :: "('b, 'd) logd \<Rightarrow> ('b, 'd) log_handler" where
  "cmd_read_by_recno D r s =
     do {
       (estat, s) \<leftarrow> get_open_handle D r s;
       if \<not> EP_STAT_ISOK estat then nak_text 0 ''cmd_read_by_recno: GOB open failure'' estat r s
       else do {
         req \<leftarrow> reqs s r;
         (case payload_of req of
            BODY_CMD_READ_BY_RECNO start nrecs \<Rightarrow> do {
              a \<leftarrow> req_gob req;
              gob \<leftarrow> gobs s a;
              let numrecs = (case nrecs of None \<Rightarrow> -1 | Some k \<Rightarrow> if k < 0 then -1 else k);
              let nextrec = (if start < 0 then start_from start (gob_nrecs gob) else start);
              let s = upd_req r (\<lambda>q. q\<lparr>req_numrecs := numrecs, req_nextrec := nextrec, req_s_results := 0\<rparr>) s;
              (estat, s) \<leftarrow> sqlite_read_by_recno (ld_ev D) (ld_sql D) (send_read_result D r) nextrec (word_of_int numrecs) a s;
              if EP_STAT_ISOK estat then Some (GDP_STAT_RESPONSE_SENT, s)
              else map_option (Pair estat) (make_read_acknak_pdu estat r s)
            }
          | _ \<Rightarrow> Some (bad_payload req, s))
       }
     }"

definition cmd_read_by_ts :: "('b, 'd) log_handler" where
  "cmd_read_by_ts r s = Some (GDP_STAT_NOT_IMPLEMENTED, s)"

section \<open>Appending\<close>

text \<open>The records the three loops of \<^verbatim>\<open>cmd_append\<close> get to see: the index is advanced in the header of the
  loop and once more when the record is taken.\<close>

fun visited :: "'a list \<Rightarrow> 'a list" where
  "visited (x # y # xs) = x # visited xs"
| "visited xs = xs"

text \<open>The checks of the record numbers.  \<open>Inl\<close> is the response that ends the command.  The store has no
  function for \<^verbatim>\<open>recno_exists\<close>.\<close>

fun append_check ::
  "('b, 'd) logd \<Rightarrow> int \<Rightarrow> pb_datum list \<Rightarrow> nat \<Rightarrow> ('b, 'd) logd_state \<Rightarrow> ((ep_stat \<times> ('b, 'd) logd_state) + unit) option" where
  "append_check D nrecs [] r s = Some (Inr ())"
| "append_check D nrecs (pbd # pbds) r s =
     (if pb_recno pbd \<le> 0
      then map_option Inl (nak_text NAK_C_BADOPT ''cmd_append: recno must be > 0'' GDP_STAT_NAK_BADOPT r s)
      else if pb_recno pbd \<le> nrecs \<and> \<not> EP_UT_BITSET FORGIVE_LOG_DUPS (GdplogdForgive D) then None
      else if nrecs + 1 < pb_recno pbd \<and> \<not> EP_UT_BITSET FORGIVE_LOG_GAPS (GdplogdForgive D)
      then map_option Inl (nak_text NAK_C_FORBIDDEN
        (''cmd_append: record number '' @ decimal (nat (pb_recno pbd)) @ '' missing'') GDP_STAT_RECNO_SEQ_ERROR r s)
      else append_check D nrecs pbds r s)"

text \<open>The signature of the last record; the flag says whether the command goes on.\<close>

definition strict :: "('b, 'd) logd \<Rightarrow> u32 \<Rightarrow> bool" where
  "strict D f \<longleftrightarrow> EP_UT_BITSET f (GdpSignatureStrictness D)"

definition append_vrfy ::
  "('b, 'd) logd \<Rightarrow> 'b gdp_datum \<Rightarrow> pb_datum \<Rightarrow> 'd log_gob \<Rightarrow> (bool \<times> ep_stat \<times> 'd log_gob) option" where
  "append_vrfy D datum pbd gob =
     do {
       (estat, gob) \<leftarrow> gob_vrfy_datum (ld_ev D) (ld_crypto D) datum gob;
       if (estat = GDP_STAT_CRYPTO_NO_PUB_KEY \<and> strict D GDP_SIG_PUBKEYREQ) \<or>
          (estat = GDP_STAT_CRYPTO_NO_SIG \<and> strict D GDP_SIG_REQUIRED) \<or>
          (estat = GDP_STAT_CRYPTO_VRFY_FAIL \<and> strict D GDP_SIG_MUSTVERIFY) then Some (False, estat, gob)
       else if \<not> has_flag GOBF_VERIFYING gob then Some (\<not> strict D GDP_SIG_PUBKEYREQ, estat, gob)
       else if pb_sig pbd = None then Some (\<not> strict D GDP_SIG_REQUIRED, estat, gob)
       else do {
         (estat, gob) \<leftarrow> gob_vrfy_datum (ld_ev D) (ld_crypto D) datum gob;
         Some (EP_STAT_ISOK estat, estat, gob)
       }
     }"

text \<open>The record of one turn: it is built anew, in the same place, unless the command has just one.\<close>

definition turn_datum :: "('b, 'd) logd \<Rightarrow> bool \<Rightarrow> pb_datum \<Rightarrow> 'b gdp_datum \<Rightarrow> 'b gdp_datum" where
  "turn_datum D one pbd datum = (if one then datum else gdp_datum_from_pb (ld_ev D) datum pbd (pb_sig pbd))"

fun append_loop ::
  "('b, 'd) logd \<Rightarrow> bool \<Rightarrow> pb_datum list \<Rightarrow> 'b gdp_datum \<Rightarrow> 'd log_gob \<Rightarrow> ep_stat \<Rightarrow>
   (ep_stat \<times> 'b gdp_datum \<times> 'd log_gob) option" where
  "append_loop D one [] datum gob estat = Some (estat, datum, gob)"
| "append_loop D one (pbd # pbds) datum gob estat =
     do {
       let datum = turn_datum D one pbd datum;
       (estat, gob) \<leftarrow> sqlite_append (ld_ev D) (ld_sql D) (ld_crypto D) datum gob;
       if \<not> EP_STAT_ISOK estat then Some (estat, datum, gob)
       else append_loop D one pbds datum gob estat
     }"

text \<open>The transaction around the loop.  What beginning and ending it report is ignored.\<close>

definition append_xact ::
  "('b, 'd) logd \<Rightarrow> bool \<Rightarrow> pb_datum list \<Rightarrow> 'b gdp_datum \<Rightarrow> 'd log_gob \<Rightarrow> ep_stat \<Rightarrow>
   (ep_stat \<times> 'b gdp_datum \<times> 'd log_gob) option" where
  "append_xact D one pbds datum gob estat =
     do {
       (_, gob) \<leftarrow> sqlite_xact_begin (ld_sql D) gob;
       (estat, datum, gob) \<leftarrow> append_loop D one pbds datum gob estat;
       (_, gob) \<leftarrow> (if EP_STAT_ISOK estat then sqlite_xact_end (ld_sql D) gob else sqlite_xact_abort (ld_sql D) gob);
       Some (estat, datum, gob)
     }"

definition content_msg :: "('b, 'd) logd \<Rightarrow> gdp_msg \<Rightarrow> 'b gdp_datum \<Rightarrow> gdp_msg" where
  "content_msg D m datum =
     (gdp_msg_new ACK_CONTENT (rid m) (l5seqno m))
       \<lparr>body := BODY_ACK_CONTENT [gdp_datum_to_pb (ld_ev D) datum init_pb] None\<rparr>"

definition notify_record :: "('b, 'd) logd \<Rightarrow> 'b gdp_datum \<Rightarrow> nat \<Rightarrow> ('b, 'd) logd_state \<Rightarrow> ('b, 'd) logd_state option" where
  "notify_record D datum r s =
     do {
       req \<leftarrow> reqs s r;
       cp \<leftarrow> req_cpdu req;
       m \<leftarrow> pdu_msg cp;
       let (p, fl) = gdp_pdu_new (pdu_freelist s) (Some (content_msg D m datum)) (pdu_dst cp) (pdu_src cp) GDP_SEQNO_NONE;
       s \<leftarrow> sub_notify_all_subscribers D r (upd_req r (\<lambda>q. q\<lparr>req_rpdu := Some p\<rparr>) (s\<lparr>pdu_freelist := fl\<rparr>));
       req \<leftarrow> reqs s r;
       Some (upd_req r (\<lambda>q. q\<lparr>req_rpdu := None\<rparr>) (s\<lparr>pdu_freelist := free_opt_pdu (req_rpdu req) (pdu_freelist s)\<rparr>))
     }"

fun notify_records ::
  "('b, 'd) logd \<Rightarrow> bool \<Rightarrow> pb_datum list \<Rightarrow> 'b gdp_datum \<Rightarrow> nat \<Rightarrow> ('b, 'd) logd_state \<Rightarrow>
   ('b gdp_datum \<times> ('b, 'd) logd_state) option" where
  "notify_records D one [] datum r s = Some (datum, s)"
| "notify_records D one (pbd # pbds) datum r s =
     do {
       let datum = turn_datum D one pbd datum;
       s \<leftarrow> notify_record D datum r s;
       notify_records D one pbds datum r s
     }"

text \<open>The time of the last record moves from the command to the response.\<close>

definition take_ts :: "pb_datum list \<Rightarrow> pb_datum list" where
  "take_ts dl = (let i = 2 * ((length dl - 1) div 2) in dl[i := (dl ! i)\<lparr>pb_ts := None\<rparr>])"

definition append_records :: "('b, 'd) logd \<Rightarrow> pb_datum list \<Rightarrow> nat \<Rightarrow> ('b, 'd) log_handler" where
  "append_records D dl a r s =
     do {
       let pbds = visited dl;
       let one = (length dl = 1);
       let (datum, dfl) = gdp_datum_new (ld_ev D) (datum_free (ev_q s));
       let s = s\<lparr>ev_q := (ev_q s)\<lparr>datum_free := dfl\<rparr>\<rparr>;
       let datum = gdp_datum_from_pb (ld_ev D) datum (last pbds) (pb_sig (last pbds));
       gob \<leftarrow> gobs s a;
       (ok, estat, gob) \<leftarrow> append_vrfy D datum (last pbds) gob;
       if \<not> ok then nak_text NAK_C_FORBIDDEN ''cmd_append'' estat r (s\<lparr>gobs := (gobs s)(a \<mapsto> gob)\<rparr>)
       else do {
         (estat, datum, gob) \<leftarrow> append_xact D one pbds datum gob estat;
         let s = s\<lparr>gobs := (gobs s)(a \<mapsto> gob)\<rparr>;
         (datum, s) \<leftarrow> (if EP_STAT_ISOK estat then notify_records D one pbds datum r s else Some (datum, s));
         let s = s\<lparr>ev_q := (ev_q s)\<lparr>datum_free := gdp_datum_free (ld_ev D) (Some datum) (datum_free (ev_q s))\<rparr>\<rparr>;
         if \<not> EP_STAT_ISOK estat then nak_text 0 ''cmd_append: append failure'' estat r s
         else do {
           let s = upd_gob a (\<lambda>g. g\<lparr>gob_nrecs := gob_nrecs g + 1\<rparr>) s;
           s \<leftarrow> ack_with ACK_SUCCESS (\<lambda>_. BODY_ACK_SUCCESS None (pb_ts (last pbds)) None None) r s;
           Some (estat, set_payload (BODY_CMD_APPEND (take_ts dl)) r s)
         }
       }
     }"

definition cmd_append :: "('b, 'd) logd \<Rightarrow> ('b, 'd) log_handler" where
  "cmd_append D r s =
     do {
       (estat, s) \<leftarrow> get_open_handle D r s;
       if \<not> EP_STAT_ISOK estat then nak_text NAK_C_BADREQ ''cmd_append: GOB not open'' estat r s
       else do {
         req \<leftarrow> reqs s r;
         (case payload_of req of
            BODY_CMD_APPEND dl \<Rightarrow>
              if dl = [] then nak_text NAK_C_BADREQ ''cmd_append: no data'' GDP_STAT_NAK_BADREQ r s
              else do {
                a \<leftarrow> req_gob req;
                gob \<leftarrow> gobs s a;
                checked \<leftarrow> append_check D (gob_nrecs gob) (visited dl) r s;
                (case checked of Inl res \<Rightarrow> Some res | Inr _ \<Rightarrow> append_records D dl a r s)
              }
          | _ \<Rightarrow> Some (bad_payload req, s))
       }
     }"

section \<open>Subscriptions\<close>

definition link_to_gob :: "nat \<Rightarrow> nat \<Rightarrow> ('b, 'x) gdp_lib \<Rightarrow> ('b, 'x) gdp_lib option" where
  "link_to_gob a r s =
     do {
       req \<leftarrow> reqs s r;
       if has_req_flag GDP_REQ_ON_GOB_LIST req then Some s
       else do {
         gob \<leftarrow> gobs s a;
         l \<leftarrow> LIST_INSERT_HEAD r (gob_reqs gob);
         Some (upd_req r (set_req_flag GDP_REQ_ON_GOB_LIST) (upd_gob a (\<lambda>g. g\<lparr>gob_reqs := l\<rparr>) s))
       }
     }"

definition post_subscribe :: "('b, 'd) logd \<Rightarrow> nat \<Rightarrow> ('b, 'd) logd_state \<Rightarrow> ('b, 'd) logd_state option" where
  "post_subscribe D r s =
     do {
       req \<leftarrow> reqs s r;
       if req_state req = GDP_REQ_FREE \<or> req_gob req = None then Some s
       else do {
         a \<leftarrow> req_gob req;
         gob \<leftarrow> gobs s a;
         let s = upd_req r (\<lambda>q. q\<lparr>req_numrecs := (if req_numrecs q \<le> 0 then INT32_MAX else req_numrecs q)\<rparr>) s;
         req \<leftarrow> reqs s r;
         s \<leftarrow> (if req_nextrec req \<le> gob_nrecs gob then do {
                 (estat, s) \<leftarrow> sqlite_read_by_recno (ld_ev D) (ld_sql D) (send_read_result D r) (req_nextrec req)
                   (word_of_int (req_numrecs req)) a s;
                 Some (if EP_STAT_ISOK estat
                       then upd_req r (\<lambda>q. q\<lparr>req_nextrec := req_nextrec q + uint (EP_STAT_TO_INT estat),
                         req_numrecs := req_numrecs q - uint (EP_STAT_TO_INT estat)\<rparr>) s
                       else s)
               }
               else Some s);
         req \<leftarrow> reqs s r;
         let s = upd_req r (\<lambda>q. q\<lparr>req_rpdu := None\<rparr>) (s\<lparr>pdu_freelist := free_opt_pdu (req_rpdu req) (pdu_freelist s)\<rparr>);
         if req_numrecs req < 0 \<or> \<not> has_req_flag GDP_REQ_SUBUPGRADE req then sub_end_subscription D r s
         else link_to_gob a r (upd_req r (set_req_flag GDP_REQ_SRV_SUBSCR) s)
       }
     }"

text \<open>The subscription that is being refreshed: of the same client, with the same request id.\<close>

fun find_old :: "byte list \<Rightarrow> u32 \<Rightarrow> nat list \<Rightarrow> ('b, 'x) gdp_lib \<Rightarrow> nat option option" where
  "find_old src rd [] s = Some None"
| "find_old src rd (r # rs) s =
     do {
       req \<leftarrow> reqs s r;
       cp \<leftarrow> req_cpdu req;
       if pdu_src cp \<noteq> src then find_old src rd rs s
       else do {
         m \<leftarrow> pdu_msg cp;
         if rid m = rd then Some (Some r) else find_old src rd rs s
       }
     }"

definition drop_old :: "('b, 'd) logd \<Rightarrow> nat \<Rightarrow> byte list \<Rightarrow> u32 \<Rightarrow> ('b, 'd) logd_state \<Rightarrow> ('b, 'd) logd_state option" where
  "drop_old D a src rd s =
     do {
       gob \<leftarrow> gobs s a;
       old \<leftarrow> find_old src rd (gob_reqs gob) s;
       (case old of
          None \<Rightarrow> Some s
        | Some r \<Rightarrow>
            gdp_req_free (ld_free D) r (upd_req r (clr_req_flag GDP_REQ_ON_GOB_LIST)
              (upd_gob a (\<lambda>g. g\<lparr>gob_reqs := remove1 r (gob_reqs g)\<rparr>) s)))
     }"

text \<open>The subscription proper, once the parameters are known.\<close>

definition subscribe_req :: "('b, 'd) logd \<Rightarrow> nat \<Rightarrow> ('b, 'd) log_handler" where
  "subscribe_req D a r s =
     do {
       req \<leftarrow> reqs s r;
       cp \<leftarrow> req_cpdu req;
       m \<leftarrow> pdu_msg cp;
       s \<leftarrow> drop_old D a (pdu_src cp) (rid m) s;
       let s = upd_req r (\<lambda>q. (set_req_flag (GDP_REQ_PERSIST OR GDP_REQ_SUBUPGRADE) q)\<lparr>req_act_ts := now_ts s (req_act_ts q)\<rparr>) s;
       gob \<leftarrow> gobs s a;
       s \<leftarrow> (if req_nextrec req \<le> gob_nrecs gob
            then Some (upd_req r (\<lambda>q. (clr_req_flag GDP_REQ_SRV_SUBSCR q)\<lparr>req_postproc := Some POST_SUBSCRIBE\<rparr>) s)
            else link_to_gob a r (upd_req r (set_req_flag GDP_REQ_SRV_SUBSCR) s));
       if req_rpdu req \<noteq> None then Some (EP_STAT_OK, s) else gdp_req_ack_resp ACK_SUCCESS r s
     }"

definition cmd_subscribe_by_recno :: "('b, 'd) logd \<Rightarrow> ('b, 'd) log_handler" where
  "cmd_subscribe_by_recno D r s =
     do {
       req \<leftarrow> reqs s r;
       (case payload_of req of
          BODY_CMD_SUBSCRIBE_BY_RECNO start nrecs _ \<Rightarrow> do {
            (estat, s) \<leftarrow> get_open_handle D r s;
            if \<not> EP_STAT_ISOK estat then nak_text NAK_C_BADREQ ''cmd_subscribe: GOB not open'' estat r s
            else do {
              req \<leftarrow> reqs s r;
              a \<leftarrow> req_gob req;
              gob \<leftarrow> gobs s a;
              if \<not> GDP_GOB_ISGOOD gob then Some (EP_STAT_ASSERT_ABORT, s)
              else
                let numrecs = (case nrecs of None \<Rightarrow> 0 | Some k \<Rightarrow> k);
                    s = upd_req r (\<lambda>q. q\<lparr>req_numrecs := numrecs\<rparr>) s
                in if numrecs < 0
                   then nak_text NAK_C_BADOPT ''cmd_subscribe: numrecs cannot be negative'' GDP_STAT_NAK_BADOPT r s
                   else
                     let first = (case start of None \<Rightarrow> 0 | Some k \<Rightarrow> k);
                         nextrec = (if first \<le> 0 then start_from first (gob_nrecs gob) else first)
                     in subscribe_req D a r (upd_req r (\<lambda>q. q\<lparr>req_nextrec := nextrec\<rparr>) s)
            }
          }
        | _ \<Rightarrow> Some (bad_payload req, s))
     }"

definition cmd_unsubscribe :: "('b, 'd) logd \<Rightarrow> ('b, 'd) log_handler" where
  "cmd_unsubscribe D r s =
     do {
       (estat, s) \<leftarrow> get_open_handle D r s;
       if \<not> EP_STAT_ISOK estat then nak_text NAK_C_BADREQ ''cmd_unsubscribe: GOB not open'' estat r s
       else do {
         req \<leftarrow> reqs s r;
         a \<leftarrow> req_gob req;
         cp \<leftarrow> req_cpdu req;
         m \<leftarrow> pdu_msg cp;
         s \<leftarrow> sub_end_all_subscriptions D a (pdu_src cp) (rid m) s;
         (_, s) \<leftarrow> gdp_req_ack_resp ACK_SUCCESS r s;
         Some (estat, s)
       }
     }"

text \<open>The store does not implement the reading of metadata, and the command returns without a response.\<close>

definition cmd_getmetadata :: "('b, 'd) logd \<Rightarrow> ('b, 'd) log_handler" where
  "cmd_getmetadata D r s =
     do {
       (estat, s) \<leftarrow> get_open_handle D r s;
       if \<not> EP_STAT_ISOK estat then nak_text 0 ''cmd_getmetadata: GOB open failure'' estat r s
       else Some (sqlite_getmetadata, s)
     }"

section \<open>The table of commands\<close>

definition CmdFuncs :: "('b, 'd) logd \<Rightarrow> bool \<Rightarrow> gdp_cmd \<rightharpoonup> ('b, 'd) log_handler" where
  "CmdFuncs D override =
     [CMD_PING \<mapsto> cmd_ping D, CMD_CREATE \<mapsto> cmd_create D, CMD_OPEN_AO \<mapsto> cmd_open D, CMD_OPEN_RO \<mapsto> cmd_open D,
      CMD_OPEN_RA \<mapsto> cmd_open D, CMD_CLOSE \<mapsto> cmd_close D, CMD_APPEND \<mapsto> cmd_append D,
      CMD_READ_BY_RECNO \<mapsto> cmd_read_by_recno D, CMD_READ_BY_TS \<mapsto> cmd_read_by_ts,
      CMD_SUBSCRIBE_BY_RECNO \<mapsto> cmd_subscribe_by_recno D, CMD_GETMETADATA \<mapsto> cmd_getmetadata D,
      CMD_UNSUBSCRIBE \<mapsto> cmd_unsubscribe D, CMD_DELETE \<mapsto> cmd_delete D override]"

text \<open>A command that arrives at the daemon.\<close>

definition logd_cmd ::
  "('b, 'd) logd \<Rightarrow> bool \<Rightarrow> byte list \<Rightarrow> gdp_pdu \<Rightarrow> ('b, 'd) logd_state \<Rightarrow> ('b, 'd) logd_state option" where
  "logd_cmd D override descr =
     process_cmd (ld_ev D) (\<lambda>g d. map_option fst (gob_vrfy_datum (ld_ev D) (ld_crypto D) d g)) (CmdFuncs D override) descr
       (ld_depth D) (ld_sha D) (ld_link D) (\<lambda>_. post_subscribe D)"

end
