(* ===== verification/Logd_Log.thy ===== *)
theory Logd_Log
  imports Logd_Proto Gdp_Invoke
begin

text \<open>
  What the log daemon relies on in SQLite, and reading: the records of a query are sent in its order, one
  message for each, and the response that ends a read tells how many there were.
\<close>

section \<open>The contract of the database\<close>

text \<open>An insertion is ignored when the hash is there already.\<close>

definition add_row :: "log_row \<Rightarrow> log_row list \<Rightarrow> log_row list" where
  "add_row row rows = (if row_hash row \<in> row_hash ` set rows then rows else rows @ [row])"

text \<open>A negative limit is none.\<close>

definition limited :: "int \<Rightarrow> 'a list \<Rightarrow> 'a list" where
  "limited k xs = (if k < 0 then xs else take (nat k) xs)"

definition selects :: "sql \<Rightarrow> sql_value list \<Rightarrow> log_row list \<Rightarrow> log_row list \<Rightarrow> bool" where
  "selects stmt vs rows xs \<longleftrightarrow>
     (case (stmt, vs) of
        (SELECT_RECNO, [SQL_INT n, SQL_INT k]) \<Rightarrow>
          \<exists>ys. mset ys = mset (filter (\<lambda>r. row_recno r = n) rows) \<and> xs = limited k ys
      | (SELECT_FROM_RECNO, [SQL_INT n, SQL_INT k]) \<Rightarrow>
          \<exists>ys. mset ys = mset (filter (\<lambda>r. n \<le> row_recno r) rows) \<and> sorted (map row_recno ys) \<and> xs = limited k ys
      | _ \<Rightarrow> True)"

definition sql_params :: "sql \<Rightarrow> nat" where
  "sql_params stmt =
     (case stmt of INSERT_ENTRY \<Rightarrow> 7 | INSERT_METADATA \<Rightarrow> 4 | SELECT_BY_HASH \<Rightarrow> 1 | SELECT_RECNO \<Rightarrow> 2
      | SELECT_FROM_RECNO \<Rightarrow> 2 | SELECT_FROM_TIME \<Rightarrow> 2)"

text \<open>
  The documented behaviour over the rows of the table, and the rows a rollback goes back to: an insertion
  that is done adds its row, a transaction that ends keeps the rows, a rollback restores those at its
  beginning, and a query that is done has given the rows it asks for.
\<close>

definition sqlite_ok :: "'d sqlite \<Rightarrow> ('d \<Rightarrow> log_row list) \<Rightarrow> ('d \<Rightarrow> log_row list) \<Rightarrow> bool" where
  "sqlite_ok Q rows saved \<longleftrightarrow>
     (\<forall>row d rc d'. sqlite3_insert Q row d = (rc, d') \<longrightarrow>
        saved d' = saved d \<and> (rc = SQLITE_DONE \<longrightarrow> rows d' = add_row row (rows d))) \<and>
     (\<forall>d rc d'. sqlite3_exec Q BEGIN_TRANSACTION d = (rc, d') \<longrightarrow>
        rows d' = rows d \<and> (rc = SQLITE_OK \<longrightarrow> saved d' = rows d)) \<and>
     (\<forall>d rc d'. sqlite3_exec Q END_TRANSACTION d = (rc, d') \<and> rc = SQLITE_OK \<longrightarrow> rows d' = rows d) \<and>
     (\<forall>d rc d'. sqlite3_exec Q ROLLBACK_TRANSACTION d = (rc, d') \<and> rc = SQLITE_OK \<longrightarrow> rows d' = saved d) \<and>
     (\<forall>stmt vs d xs rc. sqlite3_rows Q stmt vs d = (xs, SQLITE_DONE, rc) \<longrightarrow> selects stmt vs (rows d) xs) \<and>
     (\<forall>stmt i v d. sql_params stmt < i \<longrightarrow> sqlite3_bind Q stmt i v d = SQLITE_RANGE)"

text \<open>Statements are prepared and bound, transactions begin, end and are rolled back, queries run to their
  end.  Insertions may still fail.\<close>

definition sqlite_works :: "'d sqlite \<Rightarrow> bool" where
  "sqlite_works Q \<longleftrightarrow>
     (\<forall>stmt d. sqlite3_prepare Q stmt d = SQLITE_OK) \<and>
     (\<forall>stmt i v d. 1 \<le> i \<and> i \<le> sql_params stmt \<longrightarrow> sqlite3_bind Q stmt i v d = SQLITE_OK) \<and>
     (\<forall>c d. fst (sqlite3_exec Q c d) = SQLITE_OK) \<and>
     (\<forall>stmt vs d. snd (sqlite3_rows Q stmt vs d) = (SQLITE_DONE, SQLITE_OK))"

lemma rc_codes [simp]:
  "sqlite_rc_success SQLITE_OK" "sqlite_rc_success SQLITE_ROW" "sqlite_rc_success SQLITE_DONE"
  "SQLITE_DONE \<noteq> SQLITE_ROW" "SQLITE_DONE \<noteq> SQLITE_OK" "SQLITE_ROW \<noteq> SQLITE_DONE" "\<not> sqlite_rc_success SQLITE_RANGE"
  by (simp_all add: sqlite_rc_success_def SQLITE_OK_def SQLITE_ROW_def SQLITE_DONE_def SQLITE_RANGE_def)

lemma transaction_laws:
  assumes "sqlite_ok Q rows saved" "sqlite_works Q"
  shows "rows (snd (sqlite3_exec Q BEGIN_TRANSACTION d)) = rows d" "saved (snd (sqlite3_exec Q BEGIN_TRANSACTION d)) = rows d"
    "rows (snd (sqlite3_exec Q END_TRANSACTION d)) = rows d" "rows (snd (sqlite3_exec Q ROLLBACK_TRANSACTION d)) = saved d"
proof -
  have e: "sqlite3_exec Q k d = (SQLITE_OK, snd (sqlite3_exec Q k d))" for k
    using assms(2) by (metis prod.collapse sqlite_works_def)
  show "rows (snd (sqlite3_exec Q BEGIN_TRANSACTION d)) = rows d" "saved (snd (sqlite3_exec Q BEGIN_TRANSACTION d)) = rows d"
    "rows (snd (sqlite3_exec Q END_TRANSACTION d)) = rows d" "rows (snd (sqlite3_exec Q ROLLBACK_TRANSACTION d)) = saved d"
    using assms(1) e [of BEGIN_TRANSACTION] e [of END_TRANSACTION] e [of ROLLBACK_TRANSACTION]
    unfolding sqlite_ok_def by blast+
qed

lemma bind_works:
  assumes "sqlite_works Q" "\<And>i v. (i, v) \<in> set bs \<Longrightarrow> 1 \<le> i \<and> i \<le> sql_params stmt"
  shows "sql_bind Q stmt bs d = SQLITE_OK"
  using assms(2)
proof (induction bs)
  case (Cons b bs)
  obtain i v where b: "b = (i, v)" by (cases b)
  have "1 \<le> i \<and> i \<le> sql_params stmt" by (rule Cons.prems [of i v]) (simp add: b)
  then have "sqlite3_bind Q stmt i v d = SQLITE_OK" using assms(1) by (simp add: sqlite_works_def)
  moreover have "sql_bind Q stmt bs d = SQLITE_OK"
    by (rule Cons.IH) (use Cons.prems in \<open>meson list.set_intros(2)\<close>)
  ultimately show ?case by (simp add: b Let_def)
qed simp

lemma set_phys_id [simp]: "gobs s a = Some g \<Longrightarrow> GETPHYS g = Some ph \<Longrightarrow> GETPHYS (set_phys (Some q) g) = Some q"
  by (auto simp: GETPHYS_def set_phys_def split: Option.bind_splits option.splits)

lemma keep_stmt_works:
  assumes "sqlite_works Q"
  shows "\<exists>q. keep_stmt Q stmt ph = (SQLITE_OK, q) \<and> phys_db q = phys_db ph"
  using assms by (simp add: keep_stmt_def Let_def sqlite_works_def)

lemma keep_stmts_works:
  assumes "sqlite_works Q"
  shows "\<exists>q. fold (\<lambda>st (rc, phys). if sqlite_rc_success rc then keep_stmt Q st phys else (rc, phys)) prep (SQLITE_OK, ph) =
    (SQLITE_OK, q) \<and> phys_db q = phys_db ph"
proof (induction prep arbitrary: ph)
  case (Cons st prep)
  obtain q where q: "keep_stmt Q st ph = (SQLITE_OK, q)" "phys_db q = phys_db ph"
    using keep_stmt_works [OF assms] by blast
  show ?case using Cons.IH [of q] q by simp
qed simp

lemma query_works:
  assumes "sqlite_works Q" "gobs s a = Some g" "GETPHYS g = Some ph"
    "\<And>i v. (i, v) \<in> set bs \<Longrightarrow> 1 \<le> i \<and> i \<le> sql_params stmt"
  obtains q xs where "phys_db q = phys_db ph" "sqlite3_rows Q stmt (map snd bs) (phys_db ph) = (xs, SQLITE_DONE, SQLITE_OK)"
    "sqlite_query E Q cb prep stmt bs one a s =
      process_select_results E cb one (xs, SQLITE_DONE, SQLITE_OK) (upd_gob a (set_phys (Some q)) s)"
proof -
  obtain q where q: "fold (\<lambda>st (rc, phys). if sqlite_rc_success rc then keep_stmt Q st phys else (rc, phys)) prep (SQLITE_OK, ph) =
      (SQLITE_OK, q)" "phys_db q = phys_db ph"
    using keep_stmts_works [OF assms(1)] by blast
  obtain xs where "sqlite3_rows Q stmt (map snd bs) (phys_db ph) = (xs, SQLITE_DONE, SQLITE_OK)"
    using assms(1) by (metis prod.collapse sqlite_works_def)
  moreover have "sql_bind Q stmt bs (phys_db ph) = SQLITE_OK" by (rule bind_works [OF assms(1,4)])
  ultimately show thesis
    using assms(2,3) q by (intro that [of q xs]) (simp_all add: sqlite_query_def)
qed

section \<open>Records of the log\<close>

text \<open>The protobuf form of a row.\<close>

definition row_pb :: "log_row \<Rightarrow> pb_datum" where
  "row_pb row =
     (let t = row_timestamp row; sec = t sdiv ONESECOND; nsec = word_of_int (t smod ONESECOND) in
      \<lparr>pb_recno = row_recno row,
       pb_ts = (if sec \<noteq> EP_TIME_NOTIME
                then Some \<lparr>pbt_sec = Some sec, pbt_nsec = (if nsec \<noteq> 0 then Some nsec else None),
                  pbt_accuracy = (if row_accuracy row AND 0x7fffffff \<noteq> 0 then Some (row_accuracy row) else None)\<rparr>
                else None),
       pb_prevhash = Some (row_prevhash row), pb_data = row_value row, pb_sig = Some (row_sig row)\<rparr>)"

lemma read_blob_contents [simp]:
  assumes "evbuffer_ok E c"
  shows "c (read_blob E bs b) = bs" "c (read_hash E bs b) = bs" "c (read_signature E bs b) = bs"
  using assms by (simp_all add: read_blob_def read_hash_def read_signature_def Let_def split: option.split)

lemma row_datum_pb:
  assumes "evbuffer_ok E c"
  shows "gdp_datum_to_pb E (row_datum E row d) init_pb = row_pb row"
  using assms by (simp add: gdp_datum_to_pb_def row_datum_def row_pb_def init_pb_def Let_def EP_TIME_IS_VALID_def
    ep_time_from_nsec_def)

section \<open>Sending the records of a query\<close>

text \<open>A response to the command in the PDU \<open>cp\<close>.\<close>

definition response_to :: "gdp_cmd \<Rightarrow> gdp_pdu \<Rightarrow> gdp_msg \<Rightarrow> gdp_body \<Rightarrow> gdp_pdu" where
  "response_to c cp m b =
     \<lparr>pdu_inuse = True, pdu_dst = pdu_src cp, pdu_src = pdu_dst cp, pdu_seqno = GDP_SEQNO_NONE,
      pdu_msg = Some ((gdp_msg_new c (rid m) (l5seqno m))\<lparr>body := b\<rparr>)\<rparr>"

lemma ack_with_response:
  assumes "reqs s r = Some q" "req_cpdu q = Some cp" "pdu_msg cp = Some m"
  shows "\<exists>fl. ack_with c (\<lambda>_. b) r s =
    Some (s\<lparr>pdu_freelist := fl, reqs := (reqs s)(r \<mapsto> q\<lparr>req_rpdu := Some (response_to c cp m b)\<rparr>)\<rparr>)"
  by (rule exI [of _ "tl (dropWhile pdu_inuse (free_opt_pdu (req_rpdu q) (pdu_freelist s)))"])
    (use assms in \<open>simp add: ack_with_def gdp_req_ack_resp_def response_pdu_def gdp_pdu_new_def fill_resp_def response_to_def\<close>)

text \<open>The message with a record that answers the command in the PDU \<open>cp\<close>.\<close>

definition content_pdu :: "gdp_pdu \<Rightarrow> gdp_msg \<Rightarrow> pb_datum \<Rightarrow> gdp_pdu" where
  "content_pdu cp m pb = response_to ACK_CONTENT cp m (BODY_ACK_CONTENT [pb] None)"

lemma out_pdu_upd [simp]:
  "out_pdu p (s\<lparr>sent := x1\<rparr>) = out_pdu p s" "out_pdu p (s\<lparr>reqs := x2\<rparr>) = out_pdu p s"
  "out_pdu p (s\<lparr>gobs := x3\<rparr>) = out_pdu p s" "out_pdu p (s\<lparr>pdu_freelist := x4\<rparr>) = out_pdu p s"
  "out_pdu p (s\<lparr>ev_q := x5\<rparr>) = out_pdu p s"
  by (simp_all add: out_pdu_def)

lemma stat_content [simp]: "EP_STAT_ISOK GDP_STAT_ACK_CONTENT"
  by (simp add: stat_simps)

lemma send_one:
  assumes "link_up (ld_link D)" "reqs s r = Some q" "req_cpdu q = Some cp" "pdu_msg cp = Some m"
  shows "\<exists>fl. send_read_result D r GDP_STAT_ACK_CONTENT datum s =
    (let p = out_pdu (content_pdu cp m (gdp_datum_to_pb (ld_ev D) datum init_pb)) s in
     Some (EP_STAT_OK, s\<lparr>pdu_freelist := fl, sent := sent s @ [p], reqs := (reqs s)(r \<mapsto>
       q\<lparr>req_rpdu := Some p, req_stat := EP_STAT_OK, req_s_results := req_s_results q + 1\<rparr>)\<rparr>))"
proof -
  let ?pb = "gdp_datum_to_pb (ld_ev D) datum init_pb"
  obtain fl where fl: "ack_with ACK_CONTENT (\<lambda>_. BODY_ACK_CONTENT [init_pb] None) r s =
      Some (s\<lparr>pdu_freelist := fl, reqs := (reqs s)(r \<mapsto> q\<lparr>req_rpdu := Some (content_pdu cp m init_pb)\<rparr>)\<rparr>)"
    using ack_with_response [OF assms(2-4)] unfolding content_pdu_def by blast
  let ?s1 = "s\<lparr>pdu_freelist := fl, reqs := (reqs s)(r \<mapsto> q\<lparr>req_rpdu := Some (content_pdu cp m init_pb)\<rparr>)\<rparr>"
  let ?s2 = "s\<lparr>pdu_freelist := fl, reqs := (reqs s)(r \<mapsto> q\<lparr>req_rpdu := Some (content_pdu cp m ?pb)\<rparr>)\<rparr>"
  have a: "make_read_acknak_pdu GDP_STAT_ACK_CONTENT r s = Some ?s1"
    using assms(2) fl by (simp add: make_read_acknak_pdu_def)
  have f: "fill_resp (\<lambda>_. BODY_ACK_CONTENT [?pb] None) r ?s1 = ?s2"
    by (simp add: fill_resp_def content_pdu_def response_to_def)
  have o: "lib_pdu_out (ld_link D) (Some (content_pdu cp m ?pb)) ?s2 = Some (EP_STAT_OK, Some (out_pdu (content_pdu cp m ?pb) s),
      ?s2\<lparr>sent := sent s @ [out_pdu (content_pdu cp m ?pb) s]\<rparr>)"
    using pdu_out_up [OF assms(1), of "content_pdu cp m ?pb" _ ?s2] by (simp add: content_pdu_def response_to_def)
  show ?thesis
    by (rule exI [of _ fl]) (simp add: send_read_result_def a f o Let_def)
qed

text \<open>The state after \<open>n\<close> records have been sent for the request: only the request, the output and the
  free lists have changed.\<close>

definition results_sent ::
  "nat \<Rightarrow> gdp_pdu \<Rightarrow> gdp_msg \<Rightarrow> log_row list \<Rightarrow> ('b, 'x) gdp_lib \<Rightarrow> ('b, 'x) gdp_lib \<Rightarrow> bool" where
  "results_sent r cp m xs s s' \<longleftrightarrow>
     (\<exists>q rp st fl dfl. reqs s r = Some q \<and>
        s' = s\<lparr>pdu_freelist := fl, ev_q := (ev_q s)\<lparr>datum_free := dfl\<rparr>,
          sent := sent s @ map (\<lambda>row. out_pdu (content_pdu cp m (row_pb row)) s) xs,
          reqs := (reqs s)(r \<mapsto> q\<lparr>req_rpdu := rp, req_stat := st, req_s_results := req_s_results q + int (length xs)\<rparr>)\<rparr>)"

lemma row_step:
  assumes "evbuffer_ok (ld_ev D) c" "link_up (ld_link D)" "reqs s r = Some q" "req_cpdu q = Some cp" "pdu_msg cp = Some m"
  shows "\<exists>st s'. process_row (ld_ev D) (send_read_result D r) row s = Some (st, s') \<and> results_sent r cp m [row] s s'"
proof -
  obtain datum dfl where d: "gdp_datum_new (ld_ev D) (datum_free (ev_q s)) = (datum, dfl)"
    by (cases "gdp_datum_new (ld_ev D) (datum_free (ev_q s))")
  let ?s = "s\<lparr>ev_q := (ev_q s)\<lparr>datum_free := dfl\<rparr>\<rparr>"
  let ?p = "out_pdu (content_pdu cp m (row_pb row)) s"
  have q: "reqs ?s r = Some q" using assms(3) by simp
  obtain fl where f: "send_read_result D r GDP_STAT_ACK_CONTENT (row_datum (ld_ev D) row datum) ?s =
      Some (EP_STAT_OK, ?s\<lparr>pdu_freelist := fl, sent := sent s @ [?p], reqs := (reqs s)(r \<mapsto>
        q\<lparr>req_rpdu := Some ?p, req_stat := EP_STAT_OK, req_s_results := req_s_results q + 1\<rparr>)\<rparr>)"
    using send_one [OF assms(2) q assms(4,5), of "row_datum (ld_ev D) row datum"]
    by (auto simp: row_datum_pb [OF assms(1)] Let_def)
  have "process_row (ld_ev D) (send_read_result D r) row s = Some (EP_STAT_OK,
      s\<lparr>pdu_freelist := fl, ev_q := (ev_q s)\<lparr>datum_free := gdp_datum_free (ld_ev D) (Some (row_datum (ld_ev D) row datum)) dfl\<rparr>,
        sent := sent s @ [?p], reqs := (reqs s)(r \<mapsto>
        q\<lparr>req_rpdu := Some ?p, req_stat := EP_STAT_OK, req_s_results := req_s_results q + 1\<rparr>)\<rparr>)"
    by (simp add: process_row_def d f)
  moreover have "results_sent r cp m [row] s
      (s\<lparr>pdu_freelist := fl, ev_q := (ev_q s)\<lparr>datum_free := gdp_datum_free (ld_ev D) (Some (row_datum (ld_ev D) row datum)) dfl\<rparr>,
        sent := sent s @ [?p], reqs := (reqs s)(r \<mapsto>
        q\<lparr>req_rpdu := Some ?p, req_stat := EP_STAT_OK, req_s_results := req_s_results q + 1\<rparr>)\<rparr>)"
    unfolding results_sent_def
    by (rule exI [of _ q], rule exI [of _ "Some ?p"], rule exI [of _ EP_STAT_OK], rule exI [of _ fl],
      rule exI [of _ "gdp_datum_free (ld_ev D) (Some (row_datum (ld_ev D) row datum)) dfl"]) (simp add: assms(3))
  ultimately show ?thesis by blast
qed

lemma results_sent_trans:
  assumes "results_sent r cp m xs s t" "results_sent r cp m ys t u"
  shows "results_sent r cp m (xs @ ys) s u"
proof -
  obtain q rp st fl dfl where x: "reqs s r = Some q"
    "t = s\<lparr>pdu_freelist := fl, ev_q := (ev_q s)\<lparr>datum_free := dfl\<rparr>,
          sent := sent s @ map (\<lambda>row. out_pdu (content_pdu cp m (row_pb row)) s) xs,
          reqs := (reqs s)(r \<mapsto> q\<lparr>req_rpdu := rp, req_stat := st, req_s_results := req_s_results q + int (length xs)\<rparr>)\<rparr>"
    using assms(1) unfolding results_sent_def by blast
  obtain q' rp' st' fl' dfl' where y: "reqs t r = Some q'"
    "u = t\<lparr>pdu_freelist := fl', ev_q := (ev_q t)\<lparr>datum_free := dfl'\<rparr>,
          sent := sent t @ map (\<lambda>row. out_pdu (content_pdu cp m (row_pb row)) t) ys,
          reqs := (reqs t)(r \<mapsto> q'\<lparr>req_rpdu := rp', req_stat := st', req_s_results := req_s_results q' + int (length ys)\<rparr>)\<rparr>"
    using assms(2) unfolding results_sent_def by blast
  have q': "q' = q\<lparr>req_rpdu := rp, req_stat := st, req_s_results := req_s_results q + int (length xs)\<rparr>"
    using x y by simp
  show ?thesis
    unfolding results_sent_def
    by (rule exI [of _ q], rule exI [of _ rp'], rule exI [of _ st'], rule exI [of _ fl'], rule exI [of _ dfl'])
      (simp add: x y(2) q' add.assoc)
qed

lemma select_all:
  assumes "evbuffer_ok (ld_ev D) c" "link_up (ld_link D)"
  shows "reqs s r = Some q \<Longrightarrow> req_cpdu q = Some cp \<Longrightarrow> pdu_msg cp = Some m \<Longrightarrow>
    \<exists>s'. select_loop (ld_ev D) (send_read_result D r) False xs rc n s = Some (rc, n + int (length xs), s') \<and>
      results_sent r cp m xs s s'"
proof (induction xs arbitrary: s q n)
  case Nil
  then have "results_sent r cp m [] s s"
    unfolding results_sent_def
    by (intro exI [of _ q] exI [of _ "req_rpdu q"] exI [of _ "req_stat q"] exI [of _ "pdu_freelist s"]
      exI [of _ "datum_free (ev_q s)"]) (simp add: fun_upd_idem)
  then show ?case by simp
next
  case (Cons x xs)
  obtain st t where t: "process_row (ld_ev D) (send_read_result D r) x s = Some (st, t)" "results_sent r cp m [x] s t"
    using row_step [OF assms Cons.prems] by blast
  obtain q' where q': "reqs t r = Some q'" "req_cpdu q' = Some cp"
    using t(2) Cons.prems by (auto simp: results_sent_def)
  obtain u where "select_loop (ld_ev D) (send_read_result D r) False xs rc (n + 1) t = Some (rc, n + 1 + int (length xs), u)"
    "results_sent r cp m xs t u"
    using Cons.IH [OF q' Cons.prems(3)] by blast
  then show ?case
    using t results_sent_trans [OF t(2), of xs u] by (intro exI [of _ u]) (simp add: algebra_simps)
qed

lemma select_first:
  assumes "evbuffer_ok (ld_ev D) c" "link_up (ld_link D)" "reqs s r = Some q" "req_cpdu q = Some cp" "pdu_msg cp = Some m"
  shows "\<exists>s'. select_loop (ld_ev D) (send_read_result D r) True (x # xs) rc n s = Some (SQLITE_ROW, n + 1, s') \<and>
    results_sent r cp m [x] s s'"
  using row_step [OF assms, of x] by auto

section \<open>Reading by record number\<close>

text \<open>A request with a command for an object whose log is open.\<close>

definition serves :: "nat \<Rightarrow> nat \<Rightarrow> gdp_pdu \<Rightarrow> gdp_msg \<Rightarrow> ('b, 'x) gdp_lib \<Rightarrow> bool" where
  "serves r a cp m s \<longleftrightarrow>
     (\<exists>q. reqs s r = Some q \<and> req_gob q = Some a \<and> req_cpdu q = Some cp \<and> pdu_msg cp = Some m)"

definition log_open :: "nat \<Rightarrow> 'd log_gob \<Rightarrow> 'd \<Rightarrow> ('b, 'd) logd_state \<Rightarrow> bool" where
  "log_open a g d s \<longleftrightarrow> gobs s a = Some g \<and> (\<exists>ph. GETPHYS g = Some ph \<and> phys_db ph = d)"

lemma log_open_phys: "log_open a g d s \<Longrightarrow> \<exists>g'. log_open a g' d (upd_gob a (set_phys (Some q)) s)" if "phys_db q = d"
  using that by (auto simp: log_open_def)

lemma read_stats_codes [simp]:
  "\<not> EP_STAT_ISOK GDP_STAT_NAK_NOTFOUND" "\<not> EP_STAT_ISOK GDP_STAT_ACK_END_OF_RESULTS"
  "\<not> EP_STAT_ISOK GDP_STAT_RESPONSE_SENT" "GDP_STAT_ACK_END_OF_RESULTS \<noteq> GDP_STAT_NAK_NOTFOUND"
  "GDP_STAT_RESPONSE_SENT \<noteq> GDP_STAT_NAK_NOTFOUND" "GDP_STAT_RESPONSE_SENT \<noteq> GDP_STAT_NAK_LOST_SUBSCR"
  "GDP_STAT_RESPONSE_SENT \<noteq> GDP_STAT_ACK_END_OF_RESULTS"
  by (simp_all add: stat_simps mask_eq_exp_minus_1)

definition read_stat :: "'a list \<Rightarrow> ep_stat" where
  "read_stat xs = (if xs = [] then GDP_STAT_NAK_NOTFOUND else GDP_STAT_ACK_END_OF_RESULTS)"

lemma read_many:
  assumes "evbuffer_ok (ld_ev D) c" "sqlite_ok (ld_sql D) rows saved" "sqlite_works (ld_sql D)" "link_up (ld_link D)"
    "log_open a g d s" "serves r a cp m s" "n \<noteq> 0"
  obtains q xs s' where "phys_db q = d" "selects SELECT_FROM_RECNO [SQL_INT start, SQL_INT (sint n)] (rows d) xs"
    "results_sent r cp m xs (upd_gob a (set_phys (Some q)) s) s'"
    "sqlite_read_by_recno (ld_ev D) (ld_sql D) (send_read_result D r) start n a s = Some (read_stat xs, s')"
proof -
  let ?bs = "[(1, SQL_INT start), (2, SQL_INT (sint n))]"
  obtain ph where ph: "gobs s a = Some g" "GETPHYS g = Some ph" "phys_db ph = d"
    using assms(5) by (auto simp: log_open_def)
  obtain q xs where q: "phys_db q = phys_db ph"
    "sqlite3_rows (ld_sql D) SELECT_FROM_RECNO (map snd ?bs) (phys_db ph) = (xs, SQLITE_DONE, SQLITE_OK)"
    "sqlite_query (ld_ev D) (ld_sql D) (send_read_result D r) [SELECT_RECNO, SELECT_FROM_RECNO] SELECT_FROM_RECNO ?bs False a s =
      process_select_results (ld_ev D) (send_read_result D r) False (xs, SQLITE_DONE, SQLITE_OK) (upd_gob a (set_phys (Some q)) s)"
    by (rule query_works [OF assms(3) ph(1,2), of ?bs SELECT_FROM_RECNO "ld_ev D" "send_read_result D r"
      "[SELECT_RECNO, SELECT_FROM_RECNO]" False]) (auto simp: sql_params_def)
  obtain u where u: "reqs s r = Some u" "req_cpdu u = Some cp" "pdu_msg cp = Some m"
    using assms(6) by (auto simp: serves_def)
  have u': "reqs (upd_gob a (set_phys (Some q)) s) r = Some u" using u(1) by simp
  obtain s' where s': "select_loop (ld_ev D) (send_read_result D r) False xs SQLITE_DONE 0 (upd_gob a (set_phys (Some q)) s) =
      Some (SQLITE_DONE, 0 + int (length xs), s')" "results_sent r cp m xs (upd_gob a (set_phys (Some q)) s) s'"
    using select_all [OF assms(1,4) u' u(2,3)] by blast
  have "selects SELECT_FROM_RECNO [SQL_INT start, SQL_INT (sint n)] (rows d) xs"
    using assms(2) q(2) ph(3) by (simp add: sqlite_ok_def)
  moreover have "sqlite_read_by_recno (ld_ev D) (ld_sql D) (send_read_result D r) start n a s = Some (read_stat xs, s')"
    using assms(7) q(3) s'(1) by (simp add: sqlite_read_by_recno_def process_select_results_def read_stat_def)
  ultimately show thesis using q(1) ph(3) s'(2) by (intro that [of q xs s']) simp_all
qed

text \<open>The response that ends a read: how many records there were, or that there is none.\<close>

definition read_answer :: "'a list \<Rightarrow> int \<Rightarrow> gdp_pdu \<Rightarrow> gdp_msg \<Rightarrow> gdp_pdu" where
  "read_answer xs nextrec cp m =
     (if xs = [] then response_to NAK_C_NOTFOUND cp m (BODY_NAK (Some GDP_STAT_NAK_NOTFOUND) None (Some nextrec))
      else response_to ACK_END_OF_RESULTS cp m
        (BODY_ACK_END_OF_RESULTS (Some GDP_STAT_ACK_END_OF_RESULTS) (Some (int (length xs)))))"

lemma read_response:
  assumes "reqs s r = Some q" "req_cpdu q = Some cp" "pdu_msg cp = Some m" "req_s_results q = int (length xs)"
  shows "\<exists>fl. make_read_acknak_pdu (read_stat xs) r s =
    Some (s\<lparr>pdu_freelist := fl, reqs := (reqs s)(r \<mapsto> q\<lparr>req_rpdu := Some (read_answer xs (req_nextrec q) cp m)\<rparr>)\<rparr>)"
proof (cases "xs = []")
  case True
  then show ?thesis
    using assms(1) ack_with_response [OF assms(1-3)]
    by (simp add: make_read_acknak_pdu_def read_stat_def read_answer_def EP_STAT_TO_INT_def)
next
  case False
  then show ?thesis
    using assms(1,4) ack_with_response [OF assms(1-3)]
    by (simp add: make_read_acknak_pdu_def read_stat_def read_answer_def EP_STAT_TO_INT_def)
qed

text \<open>The first record of a read, from the number in the command.\<close>

definition first_rec :: "int \<Rightarrow> int \<Rightarrow> int" where
  "first_rec start nrecs = (if start < 0 then start_from start nrecs else start)"

definition read_limit :: "int option \<Rightarrow> int" where
  "read_limit nrecs = (case nrecs of None \<Rightarrow> -1 | Some k \<Rightarrow> if k < 0 then -1 else k)"

lemma sint_u32: "-2147483648 \<le> k \<Longrightarrow> k < 2147483648 \<Longrightarrow> sint (word_of_int k :: u32) = k"
  by (simp add: sint_sbintrunc' signed_take_bit_int_eq_self)

lemma handle_there: "serves r a cp m s \<Longrightarrow> get_open_handle D r s = Some (EP_STAT_OK, s)"
  by (auto simp: serves_def get_open_handle_def)

lemma read_by_recno_spec:
  assumes "evbuffer_ok (ld_ev D) c" "sqlite_ok (ld_sql D) rows saved" "sqlite_works (ld_sql D)" "link_up (ld_link D)"
    "log_open a g d s" "serves r a cp m s" "body m = BODY_CMD_READ_BY_RECNO start nrecs"
    "read_limit nrecs \<noteq> 0" "read_limit nrecs < 2147483648"
  shows "\<exists>s' q ys xs. cmd_read_by_recno D r s = Some (read_stat xs, s') \<and>
    mset ys = mset (filter (\<lambda>row. first_rec start (gob_nrecs g) \<le> row_recno row) (rows d)) \<and> sorted (map row_recno ys) \<and>
    xs = limited (read_limit nrecs) ys \<and>
    sent s' = sent s @ map (\<lambda>row. out_pdu (content_pdu cp m (row_pb row)) s) xs \<and>
    reqs s' r = Some q \<and> req_rpdu q = Some (read_answer xs (first_rec start (gob_nrecs g)) cp m)"
proof -
  let ?first = "first_rec start (gob_nrecs g)"
  let ?n = "read_limit nrecs"
  obtain u where u: "reqs s r = Some u" "req_gob u = Some a" "req_cpdu u = Some cp" "pdu_msg cp = Some m"
    using assms(6) by (auto simp: serves_def)
  let ?u = "u\<lparr>req_numrecs := ?n, req_nextrec := ?first, req_s_results := 0\<rparr>"
  let ?s = "s\<lparr>reqs := (reqs s)(r \<mapsto> ?u)\<rparr>"
  have o: "log_open a g d ?s" "serves r a cp m ?s" using assms(5) u by (simp_all add: log_open_def serves_def)
  have "-1 \<le> ?n" by (simp add: read_limit_def split: option.split)
  then have n: "sint (word_of_int ?n :: u32) = ?n" using assms(9) by (intro sint_u32) simp_all
  then have n0: "(word_of_int ?n :: u32) \<noteq> 0" using assms(8) by auto
  obtain q xs s1 where x: "phys_db q = d" "selects SELECT_FROM_RECNO [SQL_INT ?first, SQL_INT ?n] (rows d) xs"
    "results_sent r cp m xs (upd_gob a (set_phys (Some q)) ?s) s1"
    "sqlite_read_by_recno (ld_ev D) (ld_sql D) (send_read_result D r) ?first (word_of_int ?n) a ?s = Some (read_stat xs, s1)"
    by (rule read_many [OF assms(1-4) o n0, of ?first]) (simp add: n)
  obtain v where v: "reqs s1 r = Some v" "req_cpdu v = Some cp" "req_s_results v = int (length xs)" "req_nextrec v = ?first"
    "sent s1 = sent s @ map (\<lambda>row. out_pdu (content_pdu cp m (row_pb row)) s) xs"
    using x(3) u(3) by (auto simp: results_sent_def)
  obtain fl where fl: "make_read_acknak_pdu (read_stat xs) r s1 =
      Some (s1\<lparr>pdu_freelist := fl, reqs := (reqs s1)(r \<mapsto> v\<lparr>req_rpdu := Some (read_answer xs ?first cp m)\<rparr>)\<rparr>)"
    using read_response [OF v(1,2) u(4) v(3)] v(4) by auto
  have g: "gobs s a = Some g" using assms(5) by (simp add: log_open_def)
  have "cmd_read_by_recno D r s = Some (read_stat xs,
      s1\<lparr>pdu_freelist := fl, reqs := (reqs s1)(r \<mapsto> v\<lparr>req_rpdu := Some (read_answer xs ?first cp m)\<rparr>)\<rparr>)"
    using u g x(4) fl assms(7)
    by (simp add: cmd_read_by_recno_def handle_there [OF assms(6)] payload_of_def cpdu_msg_def first_rec_def read_limit_def
      read_stat_def split: option.splits)
  moreover obtain ys where "mset ys = mset (filter (\<lambda>row. ?first \<le> row_recno row) (rows d))" "sorted (map row_recno ys)"
    "xs = limited ?n ys"
    using x(2) by (auto simp: selects_def)
  ultimately show ?thesis using v(5) by fastforce
qed

text \<open>What the commands leave of the request they serve and of its object.\<close>

definition still_served :: "nat \<Rightarrow> nat \<Rightarrow> ('b, 'x) gdp_lib \<Rightarrow> ('b, 'x) gdp_lib \<Rightarrow> bool" where
  "still_served r a s s' \<longleftrightarrow> (\<exists>q q' g g'. reqs s r = Some q \<and> reqs s' r = Some q' \<and> gobs s a = Some g \<and> gobs s' a = Some g' \<and>
     req_state q' = req_state q \<and> req_gob q' = req_gob q \<and> req_events q' = req_events q \<and> req_postproc q' = req_postproc q \<and>
     req_flags q' = req_flags q \<and> gob_refcnt g' = gob_refcnt g \<and> gob_name g' = gob_name g \<and> gob_reqs g' = gob_reqs g \<and>
     (\<forall>f\<in>{GOBF_INUSE, GOBF_ISLOCKED, GOBF_INCACHE, GOBF_DROPPING, GOBF_PENDING}. has_flag f g' = has_flag f g) \<and>
     (has_flag GOBF_KEEPLOCKED g' \<longrightarrow> has_flag GOBF_KEEPLOCKED g) \<and> gobs s' = (gobs s)(a \<mapsto> g')) \<and>
     gob_brk s' = gob_brk s \<and> GobFreeList s' = GobFreeList s \<and> OpenGOBCache s' = OpenGOBCache s \<and> GobsByUse s' = GobsByUse s \<and>
     GobCacheMutex s' = GobCacheMutex s \<and> ReqFreeList s' = ReqFreeList s \<and> chan_reqs s' = chan_reqs s"

text \<open>A client that asks for one record gets it as the response, and nothing else, or is told that it is not there.\<close>

definition single_stat :: "'a list \<Rightarrow> ep_stat" where
  "single_stat xs = (if xs = [] then GDP_STAT_NAK_NOTFOUND else GDP_STAT_RESPONSE_SENT)"

lemma limited_one: "limited 1 ys = (case ys of [] \<Rightarrow> [] | y # _ \<Rightarrow> [y])"
  by (simp add: limited_def split: list.split)

lemma read_single:
  assumes "evbuffer_ok (ld_ev D) c" "sqlite_ok (ld_sql D) rows saved" "sqlite_works (ld_sql D)" "link_up (ld_link D)"
    "log_open a g d s" "serves r a cp m s"
  obtains q ys s' where "phys_db q = d" "mset ys = mset (filter (\<lambda>row. row_recno row = start) (rows d))"
    "results_sent r cp m (limited 1 ys) (upd_gob a (set_phys (Some q)) s) s'"
    "sqlite_read_by_recno (ld_ev D) (ld_sql D) (send_read_result D r) start 0 a s = Some (single_stat (limited 1 ys), s')"
proof -
  let ?bs = "[(1, SQL_INT start), (2, SQL_INT (sint (1 :: u32)))]"
  obtain ph where ph: "gobs s a = Some g" "GETPHYS g = Some ph" "phys_db ph = d"
    using assms(5) by (auto simp: log_open_def)
  obtain q xs where q: "phys_db q = phys_db ph"
    "sqlite3_rows (ld_sql D) SELECT_RECNO (map snd ?bs) (phys_db ph) = (xs, SQLITE_DONE, SQLITE_OK)"
    "sqlite_query (ld_ev D) (ld_sql D) (send_read_result D r) [SELECT_RECNO, SELECT_FROM_RECNO] SELECT_RECNO ?bs True a s =
      process_select_results (ld_ev D) (send_read_result D r) True (xs, SQLITE_DONE, SQLITE_OK) (upd_gob a (set_phys (Some q)) s)"
    by (rule query_works [OF assms(3) ph(1,2), of ?bs SELECT_RECNO "ld_ev D" "send_read_result D r"
      "[SELECT_RECNO, SELECT_FROM_RECNO]" True]) (auto simp: sql_params_def)
  have "selects SELECT_RECNO [SQL_INT start, SQL_INT 1] (rows d) xs"
    using assms(2) q(2) ph(3) by (simp add: sqlite_ok_def)
  then obtain ys where ys: "mset ys = mset (filter (\<lambda>r. row_recno r = start) (rows d))" "xs = limited 1 ys"
    by (auto simp: selects_def)
  obtain u where u: "reqs s r = Some u" "req_cpdu u = Some cp" "pdu_msg cp = Some m"
    using assms(6) by (auto simp: serves_def)
  let ?s = "upd_gob a (set_phys (Some q)) s"
  have u': "reqs ?s r = Some u" using u(1) by simp
  obtain s' where "results_sent r cp m (limited 1 ys) ?s s'"
    "sqlite_read_by_recno (ld_ev D) (ld_sql D) (send_read_result D r) start 0 a s = Some (single_stat (limited 1 ys), s')"
  proof (cases ys)
    case Nil
    then have "results_sent r cp m [] ?s ?s"
      using select_all [OF assms(1,4) u' u(2,3), of "[]" 0 0] by simp
    then show thesis using Nil q(3) ys(2)
      by (intro that [of ?s]) (simp_all add: sqlite_read_by_recno_def process_select_results_def limited_one single_stat_def)
  next
    case (Cons x zs)
    obtain s' where s': "select_loop (ld_ev D) (send_read_result D r) True [x] SQLITE_DONE 0 ?s = Some (SQLITE_ROW, 0 + 1, s')"
      "results_sent r cp m [x] ?s s'"
      using select_first [OF assms(1,4) u' u(2,3), of x "[]"] by blast
    show thesis using Cons q(3) ys(2) s'
      by (intro that [of s']) (simp_all del: select_loop.simps add: sqlite_read_by_recno_def process_select_results_def
        limited_one single_stat_def)
  qed
  then show thesis using q(1) ph(3) ys(1) by (intro that [of q ys s']) simp_all
qed

text \<open>The response that is made for one record that was found is not sent.\<close>

lemma read_single_spec:
  assumes "evbuffer_ok (ld_ev D) c" "sqlite_ok (ld_sql D) rows saved" "sqlite_works (ld_sql D)" "link_up (ld_link D)"
    "log_open a g d s" "serves r a cp m s" "body m = BODY_CMD_READ_BY_RECNO start (Some 0)"
  shows "\<exists>s' q ys xs. cmd_read_by_recno D r s = Some (single_stat xs, s') \<and>
    mset ys = mset (filter (\<lambda>row. row_recno row = first_rec start (gob_nrecs g)) (rows d)) \<and> xs = limited 1 ys \<and>
    sent s' = sent s @ map (\<lambda>row. out_pdu (content_pdu cp m (row_pb row)) s) xs \<and> reqs s' r = Some q \<and>
    Option.bind (req_rpdu q) pdu_msg \<noteq> None \<and> (xs = [] \<longrightarrow> req_rpdu q = Some (read_answer xs (first_rec start (gob_nrecs g)) cp m)) \<and>
    still_served r a s s'"
proof -
  let ?first = "first_rec start (gob_nrecs g)"
  obtain u where u: "reqs s r = Some u" "req_gob u = Some a" "req_cpdu u = Some cp" "pdu_msg cp = Some m"
    using assms(6) by (auto simp: serves_def)
  let ?u = "u\<lparr>req_numrecs := 0, req_nextrec := ?first, req_s_results := 0\<rparr>"
  let ?s = "s\<lparr>reqs := (reqs s)(r \<mapsto> ?u)\<rparr>"
  have o: "log_open a g d ?s" "serves r a cp m ?s" using assms(5) u by (simp_all add: log_open_def serves_def)
  have g: "gobs s a = Some g" using assms(5) by (simp add: log_open_def)
  obtain q ys s1 where x: "phys_db q = d" "mset ys = mset (filter (\<lambda>row. row_recno row = ?first) (rows d))"
    "results_sent r cp m (limited 1 ys) (upd_gob a (set_phys (Some q)) ?s) s1"
    "sqlite_read_by_recno (ld_ev D) (ld_sql D) (send_read_result D r) ?first 0 a ?s = Some (single_stat (limited 1 ys), s1)"
    by (rule read_single [OF assms(1-4) o, of ?first])
  let ?xs = "limited 1 ys"
  obtain v where v: "reqs s1 r = Some v" "req_cpdu v = Some cp"
    "sent s1 = sent s @ map (\<lambda>row. out_pdu (content_pdu cp m (row_pb row)) s) ?xs"
    "req_state v = req_state u" "req_gob v = req_gob u" "req_events v = req_events u" "req_postproc v = req_postproc u"
    "req_flags v = req_flags u" "gobs s1 = (gobs s)(a \<mapsto> set_phys (Some q) g)" "gob_brk s1 = gob_brk s"
    "GobFreeList s1 = GobFreeList s" "OpenGOBCache s1 = OpenGOBCache s" "GobsByUse s1 = GobsByUse s" "GobCacheMutex s1 = GobCacheMutex s"
    "ReqFreeList s1 = ReqFreeList s" "chan_reqs s1 = chan_reqs s" "req_s_results v = int (length ?xs)" "req_nextrec v = ?first"
    using x(3) u(3) g by (auto simp: results_sent_def)
  let ?b = "BODY_NAK (Some GDP_STAT_RESPONSE_SENT) None (Some (req_nextrec v))"
  let ?rp = "if ?xs = [] then read_answer ?xs ?first cp m else response_to NAK_S_INTERNAL cp m ?b"
  let ?v = "v\<lparr>req_rpdu := Some ?rp\<rparr>"
  have "\<exists>fl. make_read_acknak_pdu (single_stat ?xs) r s1 = Some (s1\<lparr>pdu_freelist := fl, reqs := (reqs s1)(r \<mapsto> ?v)\<rparr>)"
  proof (cases "?xs = []")
    case True
    then show ?thesis using read_response [OF v(1,2) u(4) v(17)] v(18) by (simp add: single_stat_def read_stat_def)
  next
    case False
    then show ?thesis using ack_with_response [OF v(1,2) u(4), of NAK_S_INTERNAL ?b] v(1)
      by (auto simp: make_read_acknak_pdu_def EP_STAT_TO_INT_def single_stat_def)
  qed
  then obtain fl where fl: "make_read_acknak_pdu (single_stat ?xs) r s1 = Some (s1\<lparr>pdu_freelist := fl, reqs := (reqs s1)(r \<mapsto> ?v)\<rparr>)"
    by blast
  have "cmd_read_by_recno D r s = Some (single_stat ?xs, s1\<lparr>pdu_freelist := fl, reqs := (reqs s1)(r \<mapsto> ?v)\<rparr>)" (is "_ = Some (_, ?t)")
    using u g x(4) fl assms(7)
    by (simp add: cmd_read_by_recno_def handle_there [OF assms(6)] payload_of_def cpdu_msg_def first_rec_def single_stat_def
      split: if_splits)
  moreover have "still_served r a s ?t"
    using u(1) g v(4-16) by (simp add: still_served_def set_phys_def has_flag_def)
  ultimately show ?thesis
    using x(2) v(3) by (intro exI [of _ ?t] exI [of _ ?v] exI [of _ ys] exI [of _ ?xs]) (simp add: response_to_def read_answer_def)
qed

lemma read_one_spec:
  assumes "evbuffer_ok (ld_ev D) c" "sqlite_ok (ld_sql D) rows saved" "sqlite_works (ld_sql D)" "link_up (ld_link D)"
    "log_open a g d s" "serves r a cp m s" "body m = BODY_CMD_READ_BY_RECNO start (Some 0)" "0 \<le> start"
    "row \<in> set (rows d)" "row_recno row = start"
  shows "\<exists>s' x q. cmd_read_by_recno D r s = Some (GDP_STAT_RESPONSE_SENT, s') \<and> x \<in> set (rows d) \<and> row_recno x = start \<and>
    sent s' = sent s @ [out_pdu (content_pdu cp m (row_pb x)) s] \<and> reqs s' r = Some q \<and> Option.bind (req_rpdu q) pdu_msg \<noteq> None \<and>
    still_served r a s s'"
proof -
  have f: "first_rec start (gob_nrecs g) = start" using assms(8) by (simp add: first_rec_def)
  obtain s' q ys where r: "cmd_read_by_recno D r s = Some (single_stat (limited 1 ys), s')"
    "mset ys = mset (filter (\<lambda>row. row_recno row = start) (rows d))"
    "sent s' = sent s @ map (\<lambda>row. out_pdu (content_pdu cp m (row_pb row)) s) (limited 1 ys)" "reqs s' r = Some q"
    "Option.bind (req_rpdu q) pdu_msg \<noteq> None" "still_served r a s s'"
    using read_single_spec [OF assms(1-7)] unfolding f by blast
  have "set ys = {r\<in>set (rows d). row_recno r = start}" using r(2) by (metis set_filter set_mset_mset)
  then obtain x zs where x: "ys = x # zs" "x \<in> set (rows d)" "row_recno x = start"
    using assms(9,10) by (cases ys) auto
  have e: "limited 1 ys = [x]" using x(1) by (simp add: limited_one)
  show ?thesis
    using r(1,3-6) x(2,3) unfolding e by (intro exI [of _ s'] exI [of _ x] exI [of _ q]) (simp add: single_stat_def)
qed

text \<open>C4: reading by record number sends the records of the log from the starting point on, in ascending
  order and up to the number asked for, each as it is stored; the response to the command then tells how
  many there were, or that nothing was found.  A command that asks for no records (\<open>nrecs\<close> is 0) is one for the single record of that number: it is
  sent alone, or the response tells that it was not found.  No acknowledgement comes before the records.\<close>

theorem read_in_order:
  assumes "evbuffer_ok (ld_ev D) c" "sqlite_ok (ld_sql D) rows saved" "sqlite_works (ld_sql D)" "link_up (ld_link D)"
    "log_open a g d s" "serves r a cp m s" "body m = BODY_CMD_READ_BY_RECNO start nrecs" "read_limit nrecs < 2147483648"
  shows "\<exists>s' q ys xs. cmd_read_by_recno D r s = Some (if read_limit nrecs = 0 then single_stat xs else read_stat xs, s') \<and>
    mset ys = mset (filter (\<lambda>row. if read_limit nrecs = 0 then row_recno row = first_rec start (gob_nrecs g)
                                 else first_rec start (gob_nrecs g) \<le> row_recno row) (rows d)) \<and>
    sorted (map row_recno ys) \<and> xs = limited (if read_limit nrecs = 0 then 1 else read_limit nrecs) ys \<and>
    sent s' = sent s @ map (\<lambda>row. out_pdu (content_pdu cp m (row_pb row)) s) xs \<and> reqs s' r = Some q \<and>
    (read_limit nrecs = 0 \<and> xs \<noteq> [] \<or> req_rpdu q = Some (read_answer xs (first_rec start (gob_nrecs g)) cp m))"
proof (cases "read_limit nrecs = 0")
  case False
  from read_by_recno_spec [OF assms(1-7) False assms(8)] show ?thesis unfolding if_not_P [OF False] using False by blast
next
  case True
  let ?first = "first_rec start (gob_nrecs g)"
  have "nrecs = Some 0" using True by (auto simp: read_limit_def split: option.splits if_splits)
  then have b: "body m = BODY_CMD_READ_BY_RECNO start (Some 0)" using assms(7) by simp
  obtain s' q ys xs where r: "cmd_read_by_recno D r s = Some (single_stat xs, s')"
    "mset ys = mset (filter (\<lambda>row. row_recno row = ?first) (rows d))" "xs = limited 1 ys"
    "sent s' = sent s @ map (\<lambda>row. out_pdu (content_pdu cp m (row_pb row)) s) xs" "reqs s' r = Some q"
    "xs = [] \<longrightarrow> req_rpdu q = Some (read_answer xs ?first cp m)"
    using read_single_spec [OF assms(1-6) b] by blast
  have "set ys = set (filter (\<lambda>row. row_recno row = ?first) (rows d))" using r(2) by (metis set_mset_mset)
  then have "\<forall>y\<in>set ys. row_recno y = ?first" by simp
  then have "sorted (map row_recno ys)" by (induction ys) auto
  then show ?thesis unfolding if_P [OF True] using r True by blast
qed

end
