(* ===== verification/Logd_Append.thy ===== *)
theory Logd_Append
  imports Logd_Log
begin

text \<open>
  Appending to a log: what is stored, who is notified and what is answered; and that a failing insertion
  leaves the log as it was.
\<close>

section \<open>Notifying\<close>

definition is_sub :: "('b, 'x) gdp_lib \<Rightarrow> nat \<Rightarrow> bool" where
  "is_sub s r = (case reqs s r of None \<Rightarrow> False | Some q \<Rightarrow> has_req_flag GDP_REQ_SRV_SUBSCR q)"

text \<open>A subscription that has not timed out and is not satisfied by the next record: one that waits for a single record ends with it.\<close>

definition live_sub :: "ep_time \<Rightarrow> 'b gdp_req \<Rightarrow> bool" where
  "live_sub limit q \<longleftrightarrow> \<not> ep_time_before (req_act_ts q) limit \<and> req_numrecs q \<noteq> 1 \<and>
     Option.bind (req_cpdu q) pdu_msg \<noteq> None"

definition bump :: "'b gdp_req \<Rightarrow> 'b gdp_req" where
  "bump q = q\<lparr>req_nextrec := req_nextrec q + 1,
     req_numrecs := (if 0 < req_numrecs q then req_numrecs q - 1 else req_numrecs q)\<rparr>"

text \<open>The notification of the subscription \<open>q\<close> with the PDU \<open>p\<close>.\<close>

definition notice :: "gdp_pdu \<Rightarrow> 'b gdp_req \<Rightarrow> gdp_pdu" where
  "notice p q = (case Option.bind (req_cpdu q) (\<lambda>cp. address_to cp p) of None \<Rightarrow> p | Some n \<Rightarrow> n)"

lemma notice_again:
  assumes "pdu_msg p \<noteq> None" "Option.bind (req_cpdu q) pdu_msg \<noteq> None" "Option.bind (req_cpdu q') pdu_msg \<noteq> None"
  shows "out_pdu (notice (out_pdu (notice p q) s) q') s = out_pdu (notice p q') s"
proof -
  obtain cp m cp' m' n where "req_cpdu q = Some cp" "pdu_msg cp = Some m" "req_cpdu q' = Some cp'" "pdu_msg cp' = Some m'"
    "pdu_msg p = Some n"
    using assms by (auto simp: bind_eq_Some_conv)
  then show ?thesis
    by (simp add: notice_def address_to_def out_pdu_def pdu_msg_flags_def)
qed

lemma notify_live:
  assumes "link_up (ld_link D)" "reqs s r = Some q" "has_req_flag GDP_REQ_SRV_SUBSCR q" "live_sub limit q" "pdu_msg p \<noteq> None"
  shows "notify_one D limit r p s =
    Some (out_pdu (notice p q) s, s\<lparr>sent := sent s @ [out_pdu (notice p q) s], reqs := (reqs s)(r \<mapsto> bump q)\<rparr>)"
proof -
  obtain cp m n where c: "req_cpdu q = Some cp" "pdu_msg cp = Some m" "pdu_msg p = Some n"
    using assms(4,5) by (auto simp: live_sub_def bind_eq_Some_conv)
  have a: "address_to cp p = Some (notice p q)" "pdu_msg (notice p q) \<noteq> None"
    using c by (simp_all add: notice_def address_to_def)
  then obtain k where "pdu_msg (notice p q) = Some k" by blast
  from pdu_out_up [OF assms(1) this]
  have "sub_send_message_notification (ld_link D) q p s =
      Some (EP_STAT_OK, Some (out_pdu (notice p q) s), s\<lparr>sent := sent s @ [out_pdu (notice p q) s]\<rparr>)"
    using c a(1) by (simp add: sub_send_message_notification_def)
  then show ?thesis
    using assms(2-4) c by (simp add: notify_one_def live_sub_def bump_def)
qed

text \<open>All requests of the object are there, and its subscriptions other than the publisher's are live.\<close>

definition subs_live :: "ep_time \<Rightarrow> nat \<Rightarrow> nat list \<Rightarrow> ('b, 'x) gdp_lib \<Rightarrow> bool" where
  "subs_live limit pub rs s \<longleftrightarrow> distinct rs \<and>
     (\<forall>r\<in>set rs. r \<noteq> pub \<longrightarrow> (\<exists>q. reqs s r = Some q \<and> (has_req_flag GDP_REQ_SRV_SUBSCR q \<longrightarrow> live_sub limit q)))"

definition notified :: "nat \<Rightarrow> nat list \<Rightarrow> ('b, 'x) gdp_lib \<Rightarrow> nat list" where
  "notified pub rs s = filter (\<lambda>r. r \<noteq> pub \<and> is_sub s r) rs"

definition bumped :: "nat list \<Rightarrow> ('b, 'x) gdp_lib \<Rightarrow> nat \<Rightarrow> 'b gdp_req option" where
  "bumped ns s r = (if r \<in> set ns then map_option bump (reqs s r) else reqs s r)"

definition notices :: "gdp_pdu \<Rightarrow> nat list \<Rightarrow> ('b, 'x) gdp_lib \<Rightarrow> gdp_pdu list" where
  "notices p ns s = map (\<lambda>r. out_pdu (notice p (the (reqs s r))) s) ns"

lemma notify_all:
  assumes "link_up (ld_link D)"
  shows "subs_live limit pub rs s \<Longrightarrow> pdu_msg p \<noteq> None \<Longrightarrow>
    \<exists>p'. notify_loop D limit pub rs p s =
      Some (p', s\<lparr>sent := sent s @ notices p (notified pub rs s) s, reqs := bumped (notified pub rs s) s\<rparr>)"
proof (induction rs arbitrary: p s)
  case Nil
  then show ?case by (simp add: notified_def notices_def bumped_def)
next
  case (Cons r rs)
  have live: "subs_live limit pub rs s" using Cons.prems(1) by (simp add: subs_live_def)
  show ?case
  proof (cases "r \<noteq> pub \<and> is_sub s r")
    case False
    then have "notify_loop D limit pub (r # rs) p s = notify_loop D limit pub rs p s"
      using Cons.prems(1) by (auto simp: subs_live_def is_sub_def notify_one_def)
    moreover have "notified pub (r # rs) s = notified pub rs s" using False by (auto simp: notified_def)
    ultimately show ?thesis using Cons.IH [OF live Cons.prems(2)] by simp
  next
    case True
    then obtain q where q: "reqs s r = Some q" "has_req_flag GDP_REQ_SRV_SUBSCR q" "live_sub limit q"
      using Cons.prems(1) by (auto simp: subs_live_def is_sub_def)
    let ?p = "out_pdu (notice p q) s"
    let ?s = "s\<lparr>sent := sent s @ [?p], reqs := (reqs s)(r \<mapsto> bump q)\<rparr>"
    have r: "r \<notin> set rs" using Cons.prems(1) by (simp add: subs_live_def)
    have l: "subs_live limit pub rs ?s" using live r by (auto simp: subs_live_def)
    have same: "notified pub rs ?s = notified pub rs s"
      using r by (auto simp: notified_def is_sub_def intro!: filter_cong)
    have p: "pdu_msg ?p \<noteq> None"
      using q(3) Cons.prems(2) by (auto simp: notice_def address_to_def live_sub_def bind_eq_Some_conv)
    have ns: "notices ?p (notified pub rs s) ?s = notices p (notified pub rs s) s"
    proof -
      have "out_pdu (notice ?p (the (reqs ?s k))) ?s = out_pdu (notice p (the (reqs s k))) s"
        if k: "k \<in> set (notified pub rs s)" for k
      proof -
        have "k \<noteq> r" using k r by (auto simp: notified_def)
        obtain q' where q': "reqs s k = Some q'" "live_sub limit q'"
          using k live by (auto simp: notified_def subs_live_def is_sub_def)
        show ?thesis
          using notice_again [of p q q' s] q(3) q' Cons.prems(2) \<open>k \<noteq> r\<close> by (simp add: live_sub_def)
      qed
      then show ?thesis unfolding notices_def by simp
    qed
    have b: "bumped (notified pub rs s) ?s = bumped (r # notified pub rs s) s"
      using r q(1) by (auto simp: bumped_def notified_def)
    obtain p' where "notify_loop D limit pub rs ?p ?s =
        Some (p', ?s\<lparr>sent := sent ?s @ notices ?p (notified pub rs s) ?s, reqs := bumped (notified pub rs s) ?s\<rparr>)"
      using Cons.IH [OF l p] unfolding same by blast
    moreover have "notified pub (r # rs) s = r # notified pub rs s" using True by (simp add: notified_def)
    ultimately show ?thesis
      using True notify_live [OF assms q Cons.prems(2)] q(1) ns b by (simp add: notices_def)
  qed
qed

section \<open>Storing records\<close>

text \<open>The verification context only touches itself and one flag of the object.\<close>

definition same_log :: "'x gdp_gob \<Rightarrow> 'x gdp_gob \<Rightarrow> bool" where
  "same_log g g' \<longleftrightarrow> (\<exists>ctx fl. fl \<in> {gob_flags g, gob_flags g OR GOBF_VERIFYING} \<and> g' = g\<lparr>gob_vrfy_ctx := Some ctx, gob_flags := fl\<rparr>)"

lemma same_logI:
  "same_log g (g\<lparr>gob_vrfy_ctx := Some ctx\<rparr>)" "same_log g (set_flag GOBF_VERIFYING (g\<lparr>gob_vrfy_ctx := Some ctx\<rparr>))"
proof -
  have "g\<lparr>gob_vrfy_ctx := Some ctx\<rparr> = g\<lparr>gob_vrfy_ctx := Some ctx, gob_flags := gob_flags g\<rparr>" by simp
  then show "same_log g (g\<lparr>gob_vrfy_ctx := Some ctx\<rparr>)" unfolding same_log_def by blast
  show "same_log g (set_flag GOBF_VERIFYING (g\<lparr>gob_vrfy_ctx := Some ctx\<rparr>))" unfolding same_log_def set_flag_def by simp blast
qed

lemma same_log_flags:
  assumes "same_log g g'" "f \<in> {GOBF_INUSE, GOBF_ISLOCKED, GOBF_KEEPLOCKED, GOBF_INCACHE, GOBF_DROPPING, GOBF_PENDING}"
  shows "has_flag f g' = has_flag f g"
proof -
  have "\<not> EP_UT_BITSET f GOBF_VERIFYING"
    using assms(2) by (auto simp: EP_UT_BITSET_def GOBF_VERIFYING_def GOBF_INUSE_def GOBF_ISLOCKED_def GOBF_KEEPLOCKED_def
      GOBF_INCACHE_def GOBF_DROPPING_def GOBF_PENDING_def)
  then show ?thesis using assms(1) by (auto simp: same_log_def has_flag_def bitset_or_right)
qed

lemma init_vrfy_shape: "gdp_gob_init_vrfy_ctx C g = Some (e, h) \<Longrightarrow> same_log g h"
  by (auto simp: gdp_gob_init_vrfy_ctx_def Let_def bind_eq_Some_conv same_logI split: if_splits)

lemma vrfy_ctx_shape:
  assumes "vrfy_ctx_of C g = Some (e, ctx, g')"
  shows "same_log g g'" "gob_vrfy_ctx g' = Some ctx"
proof -
  have "same_log g g" if "gob_vrfy_ctx g = Some k" for k
  proof -
    have "g\<lparr>gob_vrfy_ctx := Some k\<rparr> = g" using that by simp
    then show ?thesis using same_logI(1) [of g k] by metis
  qed
  then show "same_log g g'" "gob_vrfy_ctx g' = Some ctx"
    using assms init_vrfy_shape [of C g] by (auto simp: vrfy_ctx_of_def bind_eq_Some_conv split: if_splits)
qed

lemma vrfy_ctx_there: "gob_vrfy_ctx g = Some ctx \<Longrightarrow> vrfy_ctx_of C g = Some (EP_STAT_OK, ctx, g)"
  by (simp add: vrfy_ctx_of_def)

lemma vrfy_datum_shape:
  assumes "gob_vrfy_datum E C datum g = Some (e, g')"
  shows "same_log g g'" "gob_vrfy_ctx g \<noteq> None \<Longrightarrow> g' = g"
  using assms vrfy_ctx_shape(1) [of C g] by (auto simp: gob_vrfy_datum_def bind_eq_Some_conv vrfy_ctx_of_def)

lemma append_vrfy_shape:
  assumes "append_vrfy D datum pbd g = Some (ok, e, g')"
  shows "same_log g g'"
proof -
  obtain e1 h where h: "gob_vrfy_datum (ld_ev D) (ld_crypto D) datum g = Some (e1, h)"
    using assms by (auto simp: append_vrfy_def bind_eq_Some_conv)
  have s: "same_log g h" by (rule vrfy_datum_shape(1) [OF h])
  then have "h' = h" if "gob_vrfy_datum (ld_ev D) (ld_crypto D) datum h = Some (e2, h')" for e2 h'
    using vrfy_datum_shape(2) [OF that] by (auto simp: same_log_def)
  then show ?thesis
    using assms h s by (auto simp: append_vrfy_def bind_eq_Some_conv split: if_splits)
qed

text \<open>The row a record becomes.\<close>

definition row_of :: "('b, 'd) logd \<Rightarrow> byte list \<Rightarrow> 'b gdp_datum \<Rightarrow> log_row" where
  "row_of D ctx datum =
     datum_row (ld_ev D) (gdp_hash_getptr (ld_ev D) (gdp_datum_hash (ld_ev D) (md_hash (ld_crypto D)) ctx datum)) datum"

lemma set_phys_twice [simp]: "set_phys p (set_phys q g) = set_phys p g"
  by (simp add: set_phys_def option.map_comp comp_def)

lemma set_phys_same: "GETPHYS g = Some ph \<Longrightarrow> set_phys (Some ph) g = g"
  by (auto simp: GETPHYS_def set_phys_def bind_eq_Some_conv)

lemma GETPHYS_set: "GETPHYS g = Some ph \<Longrightarrow> GETPHYS (set_phys (Some q) g) = Some q"
  by (auto simp: GETPHYS_def set_phys_def bind_eq_Some_conv)

lemma set_phys_fields [simp]:
  "gob_vrfy_ctx (set_phys p g) = gob_vrfy_ctx g" "gob_nrecs (set_phys p g) = gob_nrecs g" "gob_reqs (set_phys p g) = gob_reqs g"
  by (simp_all add: set_phys_def)

lemma append_row:
  assumes "sqlite_works (ld_sql D)" "GETPHYS g = Some ph" "gob_vrfy_ctx g = Some ctx"
    "sqlite3_insert (ld_sql D) (row_of D ctx datum) (phys_db ph) = (rc, d')"
  shows "sqlite_append (ld_ev D) (ld_sql D) (ld_crypto D) datum g =
    Some (if rc \<noteq> SQLITE_DONE then sqlite_error rc else EP_STAT_OK, set_phys (Some (ph\<lparr>phys_db := d'\<rparr>)) g)"
proof -
  have "sql_bind (ld_sql D) INSERT_ENTRY
      (append_bindings (row_of D ctx datum) (ts datum) (prevhash datum \<noteq> None) (sig datum \<noteq> None)) (phys_db ph) = SQLITE_OK"
    by (rule bind_works [OF assms(1)]) (auto simp: append_bindings_def sql_bind_timestamp_def sql_params_def split: if_splits)
  moreover have "sqlite3_prepare (ld_sql D) INSERT_ENTRY (phys_db ph) = SQLITE_OK"
    using assms(1) by (simp add: sqlite_works_def)
  ultimately show ?thesis
    using assms(2-4) by (simp add: sqlite_append_def vrfy_ctx_there row_of_def)
qed

text \<open>The record of every turn of the loop.\<close>

fun turns :: "('b, 'd) logd \<Rightarrow> bool \<Rightarrow> pb_datum list \<Rightarrow> 'b gdp_datum \<Rightarrow> 'b gdp_datum list" where
  "turns D one [] datum = []"
| "turns D one (pbd # pbds) datum = turn_datum D one pbd datum # turns D one pbds (turn_datum D one pbd datum)"

lemma sqlite_error_fails [simp]: "\<not> EP_STAT_ISOK (sqlite_error rc)"
  by (simp add: sqlite_error_def Let_def) (simp add: stat_simps mask_eq_exp_minus_1)

lemma append_loop_spec:
  assumes "sqlite_works (ld_sql D)" "sqlite_ok (ld_sql D) rows saved"
  shows "GETPHYS g = Some ph \<Longrightarrow> gob_vrfy_ctx g = Some ctx \<Longrightarrow>
    \<exists>estat datum' ph'. append_loop D one pbds datum g e = Some (estat, datum', set_phys (Some ph') g) \<and>
      saved (phys_db ph') = saved (phys_db ph) \<and>
      ((\<exists>t\<in>set (turns D one pbds datum). \<forall>d. fst (sqlite3_insert (ld_sql D) (row_of D ctx t) d) \<noteq> SQLITE_DONE) \<longrightarrow>
        \<not> EP_STAT_ISOK estat) \<and>
      ((\<forall>t\<in>set (turns D one pbds datum). \<forall>d. fst (sqlite3_insert (ld_sql D) (row_of D ctx t) d) = SQLITE_DONE) \<longrightarrow>
        estat = (if pbds = [] then e else EP_STAT_OK)) \<and>
      (pbds \<noteq> [] \<and> \<not> EP_STAT_ISOK estat \<longrightarrow> (\<exists>rc. estat = sqlite_error rc)) \<and>
      (EP_STAT_ISOK estat \<longrightarrow> datum' = last (datum # turns D one pbds datum) \<and>
        rows (phys_db ph') = fold add_row (map (row_of D ctx) (turns D one pbds datum)) (rows (phys_db ph)))"
proof (induction pbds arbitrary: datum g ph e)
  case Nil
  then show ?case by (auto simp: set_phys_same intro!: exI [of _ ph])
next
  case (Cons pbd pbds)
  let ?t = "turn_datum D one pbd datum"
  obtain rc d' where i: "sqlite3_insert (ld_sql D) (row_of D ctx ?t) (phys_db ph) = (rc, d')"
    by (cases "sqlite3_insert (ld_sql D) (row_of D ctx ?t) (phys_db ph)")
  let ?ph = "ph\<lparr>phys_db := d'\<rparr>"
  have a: "sqlite_append (ld_ev D) (ld_sql D) (ld_crypto D) ?t g =
      Some (if rc \<noteq> SQLITE_DONE then sqlite_error rc else EP_STAT_OK, set_phys (Some ?ph) g)"
    by (rule append_row [OF assms(1) Cons.prems i])
  have l: "saved d' = saved (phys_db ph)" "rc = SQLITE_DONE \<Longrightarrow> rows d' = add_row (row_of D ctx ?t) (rows (phys_db ph))"
    using assms(2) i by (auto simp: sqlite_ok_def)
  show ?case
  proof (cases "rc = SQLITE_DONE")
    case False
    then have "append_loop D one (pbd # pbds) datum g e = Some (sqlite_error rc, ?t, set_phys (Some ?ph) g)"
      using a by simp
    moreover have "\<exists>d. fst (sqlite3_insert (ld_sql D) (row_of D ctx ?t) d) \<noteq> SQLITE_DONE"
      using i False by (intro exI [of _ "phys_db ph"]) simp
    ultimately show ?thesis using l(1) by fastforce
  next
    case True
    have ph: "GETPHYS (set_phys (Some ?ph) g) = Some ?ph" "gob_vrfy_ctx (set_phys (Some ?ph) g) = Some ctx"
      using Cons.prems by (simp_all add: GETPHYS_set)
    have db: "phys_db ?ph = d'" by simp
    have f: "fst (sqlite3_insert (ld_sql D) (row_of D ctx ?t) (phys_db ph)) = SQLITE_DONE" using i True by simp
    have e: "append_loop D one (pbd # pbds) datum g e = append_loop D one pbds ?t (set_phys (Some ?ph) g) EP_STAT_OK"
      using a True by simp
    obtain estat datum' ph' where h: "append_loop D one pbds ?t (set_phys (Some ?ph) g) EP_STAT_OK =
        Some (estat, datum', set_phys (Some ph') g)" "saved (phys_db ph') = saved d'"
      "(\<exists>t\<in>set (turns D one pbds ?t). \<forall>d. fst (sqlite3_insert (ld_sql D) (row_of D ctx t) d) \<noteq> SQLITE_DONE) \<longrightarrow>
        \<not> EP_STAT_ISOK estat"
      "(\<forall>t\<in>set (turns D one pbds ?t). \<forall>d. fst (sqlite3_insert (ld_sql D) (row_of D ctx t) d) = SQLITE_DONE) \<longrightarrow>
        estat = EP_STAT_OK"
      "pbds \<noteq> [] \<and> \<not> EP_STAT_ISOK estat \<longrightarrow> (\<exists>rc. estat = sqlite_error rc)"
      "EP_STAT_ISOK estat \<longrightarrow> datum' = last (?t # turns D one pbds ?t) \<and>
        rows (phys_db ph') = fold add_row (map (row_of D ctx) (turns D one pbds ?t)) (rows d')"
      using Cons.IH [OF ph, of ?t EP_STAT_OK] by (simp only: set_phys_twice if_cancel db) blast
    have "pbds = [] \<Longrightarrow> estat = EP_STAT_OK" using h(4) by simp
    then have "\<not> EP_STAT_ISOK estat \<longrightarrow> (\<exists>rc. estat = sqlite_error rc)" using h(5) by (cases "pbds = []") simp_all
    then show ?thesis
      unfolding e h(1)
      by (intro exI [of _ estat] exI [of _ datum'] exI [of _ ph']) (use h(2-4,6) l(1) l(2) [OF True] f in auto)
  qed
qed

lemma xact_works:
  assumes "sqlite_works Q" "GETPHYS g = Some ph"
  shows "sqlite_xact Q k g = Some (EP_STAT_OK, set_phys (Some (ph\<lparr>phys_db := snd (sqlite3_exec Q k (phys_db ph))\<rparr>)) g)"
proof -
  obtain d where "sqlite3_exec Q k (phys_db ph) = (SQLITE_OK, d)"
    using assms(1) by (metis prod.collapse sqlite_works_def)
  then show ?thesis using assms(2) by (simp add: sqlite_xact_def)
qed

lemma append_xact_spec:
  assumes "sqlite_works (ld_sql D)" "sqlite_ok (ld_sql D) rows saved" "GETPHYS g = Some ph" "gob_vrfy_ctx g = Some ctx"
    "pbds \<noteq> []"
  shows "\<exists>estat datum' ph'. append_xact D one pbds datum g e = Some (estat, datum', set_phys (Some ph') g) \<and>
      ((\<exists>t\<in>set (turns D one pbds datum). \<forall>d. fst (sqlite3_insert (ld_sql D) (row_of D ctx t) d) \<noteq> SQLITE_DONE) \<longrightarrow>
        \<not> EP_STAT_ISOK estat) \<and>
      ((\<forall>t\<in>set (turns D one pbds datum). \<forall>d. fst (sqlite3_insert (ld_sql D) (row_of D ctx t) d) = SQLITE_DONE) \<longrightarrow>
        estat = EP_STAT_OK) \<and>
      (\<not> EP_STAT_ISOK estat \<longrightarrow> (\<exists>rc. estat = sqlite_error rc) \<and> rows (phys_db ph') = rows (phys_db ph)) \<and>
      (EP_STAT_ISOK estat \<longrightarrow> datum' = last (turns D one pbds datum) \<and>
        rows (phys_db ph') = fold add_row (map (row_of D ctx) (turns D one pbds datum)) (rows (phys_db ph)))"
proof -
  let ?Q = "ld_sql D"
  let ?b = "snd (sqlite3_exec ?Q BEGIN_TRANSACTION (phys_db ph))"
  let ?g = "set_phys (Some (ph\<lparr>phys_db := ?b\<rparr>)) g"
  note law = transaction_laws [OF assms(2,1)]
  have g: "GETPHYS ?g = Some (ph\<lparr>phys_db := ?b\<rparr>)" "gob_vrfy_ctx ?g = Some ctx" using assms(3,4) by (simp_all add: GETPHYS_set)
  have db: "phys_db (ph\<lparr>phys_db := ?b\<rparr>) = ?b" by simp
  obtain estat datum' ph' where h: "append_loop D one pbds datum ?g e = Some (estat, datum', set_phys (Some ph') g)"
      "saved (phys_db ph') = rows (phys_db ph)"
      "(\<exists>t\<in>set (turns D one pbds datum). \<forall>d. fst (sqlite3_insert (ld_sql D) (row_of D ctx t) d) \<noteq> SQLITE_DONE) \<longrightarrow>
        \<not> EP_STAT_ISOK estat"
      "(\<forall>t\<in>set (turns D one pbds datum). \<forall>d. fst (sqlite3_insert (ld_sql D) (row_of D ctx t) d) = SQLITE_DONE) \<longrightarrow>
        estat = EP_STAT_OK"
      "\<not> EP_STAT_ISOK estat \<longrightarrow> (\<exists>rc. estat = sqlite_error rc)"
      "EP_STAT_ISOK estat \<longrightarrow> datum' = last (datum # turns D one pbds datum) \<and>
        rows (phys_db ph') = fold add_row (map (row_of D ctx) (turns D one pbds datum)) (rows (phys_db ph))"
    using append_loop_spec [OF assms(1,2) g, of one pbds datum e] assms(5)
    by (simp only: set_phys_twice db law(1,2) if_False simp_thms) blast
  let ?k = "if EP_STAT_ISOK estat then END_TRANSACTION else ROLLBACK_TRANSACTION"
  let ?d = "snd (sqlite3_exec ?Q ?k (phys_db ph'))"
  have p: "GETPHYS (set_phys (Some ph') g) = Some ph'" using assms(3) by (simp add: GETPHYS_set)
  have x: "append_xact D one pbds datum g e = Some (estat, datum', set_phys (Some (ph'\<lparr>phys_db := ?d\<rparr>)) g)"
    using xact_works [OF assms(1,3), of BEGIN_TRANSACTION] xact_works [OF assms(1) p, of ?k] h(1)
    by (simp add: append_xact_def sqlite_xact_begin_def sqlite_xact_end_def sqlite_xact_abort_def split: if_splits)
  have "EP_STAT_ISOK estat \<Longrightarrow> rows ?d = rows (phys_db ph')" "\<not> EP_STAT_ISOK estat \<Longrightarrow> rows ?d = rows (phys_db ph)"
    using law(3,4) [of "phys_db ph'"] h(2) by simp_all
  moreover have "turns D one pbds datum \<noteq> []" using assms(5) by (cases pbds) simp_all
  ultimately show ?thesis
    unfolding x by (intro exI [of _ estat] exI [of _ datum'] exI [of _ "ph'\<lparr>phys_db := ?d\<rparr>"]) (use h(3-6) in auto)
qed

section \<open>The command\<close>

text \<open>A record number the daemon takes: the next one, or one it forgives.\<close>

definition acceptable :: "('b, 'd) logd \<Rightarrow> int \<Rightarrow> pb_datum \<Rightarrow> bool" where
  "acceptable D nrecs pbd \<longleftrightarrow> 0 < pb_recno pbd \<and>
     (nrecs < pb_recno pbd \<or> EP_UT_BITSET FORGIVE_LOG_DUPS (GdplogdForgive D)) \<and>
     (pb_recno pbd \<le> nrecs + 1 \<or> EP_UT_BITSET FORGIVE_LOG_GAPS (GdplogdForgive D))"

lemma append_check_ok: "\<forall>pbd\<in>set pbds. acceptable D nrecs pbd \<Longrightarrow> append_check D nrecs pbds r s = Some (Inr ())"
  by (induction pbds) (auto simp: acceptable_def)

text \<open>The record of the daemon that the command's record is copied to.\<close>

definition record_of :: "('b, 'd) logd \<Rightarrow> ('b, 'x) gdp_lib \<Rightarrow> pb_datum \<Rightarrow> 'b gdp_datum" where
  "record_of D s pbd =
     gdp_datum_from_pb (ld_ev D) (fst (gdp_datum_new (ld_ev D) (datum_free (ev_q s)))) pbd (pb_sig pbd)"

definition drop_datum :: "('b, 'd) logd \<Rightarrow> ('b, 'x) gdp_lib \<Rightarrow> ('b, 'x) gdp_lib" where
  "drop_datum D s = s\<lparr>ev_q := (ev_q s)\<lparr>datum_free := snd (gdp_datum_new (ld_ev D) (datum_free (ev_q s)))\<rparr>\<rparr>"

text \<open>A command to append the records \<open>dl\<close>, whose numbers are taken and whose signature is accepted.\<close>

definition appends ::
  "('b, 'd) logd \<Rightarrow> pb_datum list \<Rightarrow> nat \<Rightarrow> 'd log_gob \<Rightarrow> 'd \<Rightarrow> byte list \<Rightarrow> nat \<Rightarrow> gdp_pdu \<Rightarrow> gdp_msg \<Rightarrow> ('b, 'd) logd_state \<Rightarrow> bool" where
  "appends D dl a g d ctx r cp m s \<longleftrightarrow> log_open a g d s \<and> serves r a cp m s \<and> body m = BODY_CMD_APPEND dl \<and> dl \<noteq> [] \<and>
     (\<forall>pbd\<in>set (visited dl). acceptable D (gob_nrecs g) pbd) \<and>
     (\<exists>e g'. append_vrfy D (record_of D s (last (visited dl))) (last (visited dl)) g = Some (True, e, g') \<and>
        gob_vrfy_ctx g' = Some ctx)"

lemma append_handler:
  assumes "appends D dl a g d ctx r cp m s"
  obtains g' e ph where "same_log g g'" "gob_vrfy_ctx g' = Some ctx" "GETPHYS g' = Some ph" "phys_db ph = d"
    "append_vrfy D (record_of D s (last (visited dl))) (last (visited dl)) g = Some (True, e, g')"
    "cmd_append D r s = append_records D dl a r s" "gobs s a = Some g"
proof -
  obtain ph where l: "gobs s a = Some g" "GETPHYS g = Some ph" "phys_db ph = d"
    using assms by (auto simp: appends_def log_open_def)
  obtain e g' where v: "append_vrfy D (record_of D s (last (visited dl))) (last (visited dl)) g = Some (True, e, g')"
    "gob_vrfy_ctx g' = Some ctx"
    using assms by (auto simp: appends_def)
  have g': "same_log g g'" by (rule append_vrfy_shape [OF v(1)])
  then have "GETPHYS g' = Some ph" using l(2) by (auto simp: same_log_def GETPHYS_def)
  moreover have "serves r a cp m s" using assms by (simp add: appends_def)
  moreover then obtain q where "reqs s r = Some q" "req_gob q = Some a" "req_cpdu q = Some cp" "pdu_msg cp = Some m"
    by (auto simp: serves_def)
  ultimately show thesis
    using that [OF g' v(2) _ l(3) v(1)] assms l(1) append_check_ok [of "visited dl" D "gob_nrecs g" r s]
    by (simp add: cmd_append_def handle_there payload_of_def cpdu_msg_def appends_def)
qed

lemma nak_response:
  assumes "reqs s r = Some q" "req_cpdu q = Some cp" "pdu_msg cp = Some m" "192 \<le> c'" "c' \<le> 239"
    "c' = (if c = 0 then gdp_acknak_from_estat estat 224 else c)"
  shows "\<exists>fl. gdp_req_nak_resp c descr estat r s = Some (estat, s\<lparr>pdu_freelist := fl,
    reqs := (reqs s)(r \<mapsto> q\<lparr>req_rpdu := Some (response_to c' cp m (BODY_NAK (Some estat) (Some descr) None))\<rparr>)\<rparr>)"
proof -
  have "body (gdp_msg_new c' (rid m) (l5seqno m)) = BODY_NAK None None None"
    using assms(4,5) by (auto simp: gdp_msg_new_def msg_body_init_def cmd_defs)
  then show ?thesis
    by (intro exI [of _ "tl (dropWhile pdu_inuse (free_opt_pdu (req_rpdu q) (pdu_freelist s)))"])
      (use assms(1-3) assms(6) [symmetric] in \<open>simp add: gdp_req_nak_resp_def response_pdu_def gdp_pdu_new_def response_to_def
        EP_STAT_TO_INT_def\<close>)
qed

lemma sqlite_nak: "192 \<le> gdp_acknak_from_estat (sqlite_error rc) 224 \<and> gdp_acknak_from_estat (sqlite_error rc) 224 \<le> 239"
  by (simp add: sqlite_error_def ep_stat_from_sqlite_result_code_def Let_def gdp_acknak_from_estat_def gdp_acknak_default_def
    EP_REGISTRY_USER_def SQLITE_MODULE_def stat_simps mask_eq_exp_minus_1)

lemma visited_nonempty [simp]: "visited dl = [] \<longleftrightarrow> dl = []"
  by (cases dl rule: visited.cases) simp_all

text \<open>C5: when the insertion of one of the records fails, the transaction is rolled back: the log has the
  records it had before, nobody is notified, the number of records stays, and the client gets a NAK with the
  status of the failure.\<close>

theorem append_failure_keeps_log:
  assumes "sqlite_ok (ld_sql D) rows saved" "sqlite_works (ld_sql D)" "appends D dl a g d ctx r cp m s"
    "t \<in> set (turns D (length dl = 1) (visited dl) (record_of D s (last (visited dl))))"
    "\<And>d. fst (sqlite3_insert (ld_sql D) (row_of D ctx t) d) \<noteq> SQLITE_DONE"
  shows "\<exists>s' g' d' q c estat descr. cmd_append D r s = Some (estat, s') \<and> \<not> EP_STAT_ISOK estat \<and>
    log_open a g' d' s' \<and> rows d' = rows d \<and> gob_nrecs g' = gob_nrecs g \<and> gob_reqs g' = gob_reqs g \<and> sent s' = sent s \<and>
    reqs s' r = Some q \<and> req_rpdu q = Some (response_to c cp m (BODY_NAK (Some estat) (Some descr) None)) \<and>
    192 \<le> c \<and> c \<le> 239"
proof -
  let ?d = "record_of D s (last (visited dl))"
  obtain g1 e ph where h: "same_log g g1" "gob_vrfy_ctx g1 = Some ctx" "GETPHYS g1 = Some ph" "phys_db ph = d"
    "append_vrfy D ?d (last (visited dl)) g = Some (True, e, g1)"
    "cmd_append D r s = append_records D dl a r s" "gobs s a = Some g"
    by (rule append_handler [OF assms(3)])
  have dl: "visited dl \<noteq> []" using assms(3) by (simp add: appends_def)
  obtain estat datum' ph' where x: "append_xact D (length dl = 1) (visited dl) ?d g1 e =
      Some (estat, datum', set_phys (Some ph') g1)" "\<not> EP_STAT_ISOK estat" "\<exists>rc. estat = sqlite_error rc"
      "rows (phys_db ph') = rows d"
    using append_xact_spec [OF assms(2,1) h(3,2) dl, of "length dl = 1" ?d e] assms(4,5) h(4) by blast
  obtain q where q: "reqs s r = Some q" "req_cpdu q = Some cp" "pdu_msg cp = Some m"
    using assms(3) by (auto simp: appends_def serves_def)
  let ?c = "gdp_acknak_from_estat estat 224"
  let ?s = "(drop_datum D s)\<lparr>gobs := (gobs s)(a \<mapsto> set_phys (Some ph') g1),
    ev_q := (ev_q s)\<lparr>datum_free := gdp_datum_free (ld_ev D) (Some datum') (datum_free (ev_q (drop_datum D s)))\<rparr>\<rparr>"
  have qs: "reqs ?s r = Some q" using q(1) by (simp add: drop_datum_def)
  have c: "192 \<le> ?c" "?c \<le> 239" using x(3) sqlite_nak by auto
  obtain fl where fl: "gdp_req_nak_resp 0 (map of_char ''cmd_append: append failure'') estat r ?s = Some (estat, ?s\<lparr>pdu_freelist := fl,
      reqs := (reqs ?s)(r \<mapsto> q\<lparr>req_rpdu := Some (response_to ?c cp m
        (BODY_NAK (Some estat) (Some (map of_char ''cmd_append: append failure'')) None))\<rparr>)\<rparr>)"
    using nak_response [OF qs q(2,3) c, of 0] by auto
  obtain dt dfl where "gdp_datum_new (ld_ev D) (datum_free (ev_q s)) = (dt, dfl)"
    by (cases "gdp_datum_new (ld_ev D) (datum_free (ev_q s))")
  then have "append_records D dl a r s = gdp_req_nak_resp 0 (map of_char ''cmd_append: append failure'') estat r ?s"
    using h(5,7) x(1,2) by (simp add: append_records_def record_of_def drop_datum_def)
  with fl h(6) have "cmd_append D r s = Some (estat, ?s\<lparr>pdu_freelist := fl,
      reqs := (reqs ?s)(r \<mapsto> q\<lparr>req_rpdu := Some (response_to ?c cp m
        (BODY_NAK (Some estat) (Some (map of_char ''cmd_append: append failure'')) None))\<rparr>)\<rparr>)" by simp
  moreover have "log_open a (set_phys (Some ph') g1) (phys_db ph') (?s\<lparr>pdu_freelist := fl,
      reqs := (reqs ?s)(r \<mapsto> q\<lparr>req_rpdu := Some (response_to ?c cp m
        (BODY_NAK (Some estat) (Some (map of_char ''cmd_append: append failure'')) None))\<rparr>)\<rparr>)"
    using h(3) by (simp add: log_open_def GETPHYS_set)
  moreover have "gob_nrecs g1 = gob_nrecs g" "gob_reqs g1 = gob_reqs g" using h(1) by (auto simp: same_log_def)
  ultimately show ?thesis
    using x(2,4) c by (intro exI conjI) (assumption | simp add: drop_datum_def)+
qed

text \<open>Publishing a record to the subscriptions of the object.\<close>

lemma sub_timeout_upd [simp]:
  "sub_timeout t (s\<lparr>reqs := x1\<rparr>) = sub_timeout t s" "sub_timeout t (s\<lparr>gobs := x2\<rparr>) = sub_timeout t s"
  "sub_timeout t (s\<lparr>pdu_freelist := x3\<rparr>) = sub_timeout t s" "sub_timeout t (s\<lparr>ev_q := x4\<rparr>) = sub_timeout t s"
  by (simp_all add: sub_timeout_def)

lemma notified_cong: "(\<And>k. k \<noteq> pub \<Longrightarrow> reqs s k = reqs t k) \<Longrightarrow> notified pub rs s = notified pub rs t"
  by (auto simp: notified_def is_sub_def intro!: filter_cong)

lemma publish:
  assumes "link_up (ld_link D)" "reqs s r = Some q" "req_gob q = Some a" "req_cpdu q = Some cp" "pdu_msg cp = Some m"
    "gobs s a = Some g" "subs_live (sub_timeout (ld_timeout D) s) r (gob_reqs g) s"
  shows "\<exists>fl. notify_record D datum r s = Some (s\<lparr>pdu_freelist := fl,
    gobs := (gobs s)(a \<mapsto> clr_flag GOBF_KEEPLOCKED (set_flag GOBF_KEEPLOCKED g)),
    sent := sent s @ notices (content_pdu cp m (gdp_datum_to_pb (ld_ev D) datum init_pb)) (notified r (gob_reqs g) s) s,
    reqs := (bumped (notified r (gob_reqs g) s) s)(r \<mapsto> q\<lparr>req_rpdu := None\<rparr>)\<rparr>)"
proof -
  let ?p = "content_pdu cp m (gdp_datum_to_pb (ld_ev D) datum init_pb)"
  let ?fl = "tl (dropWhile pdu_inuse (pdu_freelist s))"
  let ?s = "s\<lparr>pdu_freelist := ?fl, reqs := (reqs s)(r \<mapsto> q\<lparr>req_rpdu := Some ?p\<rparr>)\<rparr>"
  let ?t = "?s\<lparr>gobs := (gobs s)(a \<mapsto> set_flag GOBF_KEEPLOCKED g)\<rparr>"
  let ?ns = "notified r (gob_reqs g) s"
  have ns: "notified r (gob_reqs g) ?t = ?ns" by (rule notified_cong) simp
  have r: "r \<notin> set ?ns" by (simp add: notified_def)
  have "subs_live (sub_timeout (ld_timeout D) s) r (gob_reqs g) ?t" using assms(7) by (simp add: subs_live_def)
  from notify_all [OF assms(1) this, of ?p]
  obtain p' where p': "notify_loop D (sub_timeout (ld_timeout D) s) r (gob_reqs g) ?p ?t =
      Some (p', ?t\<lparr>sent := sent ?t @ notices ?p (notified r (gob_reqs g) ?t) ?t, reqs := bumped (notified r (gob_reqs g) ?t) ?t\<rparr>)"
    by (auto simp: content_pdu_def response_to_def)
  have no: "notices ?p ?ns ?t = notices ?p ?ns s" unfolding notices_def using r by (auto intro!: map_cong)
  have bu: "(bumped ?ns ?t)(r \<mapsto> x) = (bumped ?ns s)(r \<mapsto> x)" for x using r by (auto simp: bumped_def)
  have br: "bumped ?ns ?t r = Some (q\<lparr>req_rpdu := Some ?p\<rparr>)" using r by (simp add: bumped_def)
  have n: "sub_notify_all_subscribers D r ?s = Some (?t\<lparr>gobs := (gobs s)(a \<mapsto> clr_flag GOBF_KEEPLOCKED (set_flag GOBF_KEEPLOCKED g)),
      sent := sent s @ notices ?p ?ns s, reqs := (bumped ?ns s)(r \<mapsto> q\<lparr>req_rpdu := Some p'\<rparr>)\<rparr>)"
    using assms(2,3,6) p' ns no bu br
    by (simp add: sub_notify_all_subscribers_def content_pdu_def response_to_def)
  have "notify_record D datum r s = Some (s\<lparr>pdu_freelist := free_opt_pdu (Some p') ?fl,
    gobs := (gobs s)(a \<mapsto> clr_flag GOBF_KEEPLOCKED (set_flag GOBF_KEEPLOCKED g)),
    sent := sent s @ notices ?p ?ns s, reqs := (bumped ?ns s)(r \<mapsto> q\<lparr>req_rpdu := None\<rparr>)\<rparr>)"
    using assms(2,4,5) n
    by (simp add: notify_record_def gdp_pdu_new_def content_msg_def content_pdu_def response_to_def)
  then show ?thesis by blast
qed

text \<open>The command from the end of its transaction on, when its loops see one record.\<close>

lemma append_published:
  fixes D :: "('b, 'd) logd" and s :: "('b, 'd) logd_state"
  assumes "link_up (ld_link D)" "gobs s a = Some g" "visited dl = [pbd]"
    "append_vrfy D (record_of D s pbd) pbd g = Some (True, e, g1)"
    "append_xact D (length dl = 1) [pbd] (record_of D s pbd) g1 e = Some (EP_STAT_OK, datum, g2)" "gob_reqs g2 = gob_reqs g"
    "reqs s r = Some q" "req_gob q = Some a" "req_cpdu q = Some cp" "pdu_msg cp = Some m"
    "subs_live (sub_timeout (ld_timeout D) s) r (gob_reqs g) s"
    "told = turn_datum D (length dl = 1) pbd datum" "ns = notified r (gob_reqs g) s"
    "g3 = clr_flag GOBF_KEEPLOCKED (set_flag GOBF_KEEPLOCKED g2)"
  shows "\<exists>fl evs. append_records D dl a r s = Some (EP_STAT_OK, set_payload (BODY_CMD_APPEND (take_ts dl)) r
    (s\<lparr>sent := sent s @ notices (content_pdu cp m (gdp_datum_to_pb (ld_ev D) told init_pb)) ns s, ev_q := evs,
      gobs := (gobs s)(a \<mapsto> g3\<lparr>gob_nrecs := gob_nrecs g3 + 1\<rparr>), pdu_freelist := fl,
      reqs := (bumped ns s)(r \<mapsto> q\<lparr>req_rpdu := Some (response_to ACK_SUCCESS cp m (BODY_ACK_SUCCESS None (pb_ts pbd) None None))\<rparr>)\<rparr>))"
proof -
  let ?s = "(drop_datum D s)\<lparr>gobs := (gobs s)(a \<mapsto> g2)\<rparr>"
  let ?p = "content_pdu cp m (gdp_datum_to_pb (ld_ev D) told init_pb)"
  let ?b = "BODY_ACK_SUCCESS None (pb_ts pbd) None None"
  have same: "reqs ?s = reqs s" "sent ?s = sent s" "gobs ?s a = Some g2" "sub_timeout (ld_timeout D) ?s = sub_timeout (ld_timeout D) s"
    "notices x ks ?s = notices x ks s" "bumped ks ?s = bumped ks s" "notified r (gob_reqs g2) ?s = ns" for x ks
    using assms(6,13) by (simp_all add: drop_datum_def notices_def bumped_def notified_def is_sub_def fun_eq_iff)
  have l: "subs_live (sub_timeout (ld_timeout D) ?s) r (gob_reqs g2) ?s"
    unfolding same(4) assms(6) using assms(11) by (simp add: subs_live_def same(1))
  have qs: "reqs ?s r = Some q" using assms(7) same(1) by simp
  obtain fl where "notify_record D told r ?s = Some (?s\<lparr>pdu_freelist := fl,
      gobs := (gobs ?s)(a \<mapsto> clr_flag GOBF_KEEPLOCKED (set_flag GOBF_KEEPLOCKED g2)),
      sent := sent ?s @ notices ?p (notified r (gob_reqs g2) ?s) ?s,
      reqs := (bumped (notified r (gob_reqs g2) ?s) ?s)(r \<mapsto> q\<lparr>req_rpdu := None\<rparr>)\<rparr>)"
    using publish [OF assms(1) qs assms(8-10) same(3) l, of told] by blast
  then have n: "notify_records D (length dl = 1) [pbd] datum r ?s = Some (told, ?s\<lparr>pdu_freelist := fl, gobs := (gobs s)(a \<mapsto> g3),
      sent := sent s @ notices ?p ns s, reqs := (bumped ns s)(r \<mapsto> q\<lparr>req_rpdu := None\<rparr>)\<rparr>)"
    unfolding same assms(14) by (simp add: assms(12) Let_def)
  let ?w = "s\<lparr>pdu_freelist := fl, sent := sent s @ notices ?p ns s, reqs := (bumped ns s)(r \<mapsto> q\<lparr>req_rpdu := None\<rparr>),
      ev_q := (ev_q ?s)\<lparr>datum_free := gdp_datum_free (ld_ev D) (Some told) (datum_free (ev_q ?s))\<rparr>,
      gobs := (gobs s)(a \<mapsto> g3\<lparr>gob_nrecs := gob_nrecs g3 + 1\<rparr>)\<rparr>"
  have qw: "reqs ?w r = Some (q\<lparr>req_rpdu := None\<rparr>)" "req_cpdu (q\<lparr>req_rpdu := None\<rparr>) = Some cp" using assms(9) by simp_all
  obtain fl2 where ack: "ack_with ACK_SUCCESS (\<lambda>_. ?b) r ?w = Some (?w\<lparr>pdu_freelist := fl2,
      reqs := (reqs ?w)(r \<mapsto> (q\<lparr>req_rpdu := None\<rparr>)\<lparr>req_rpdu := Some (response_to ACK_SUCCESS cp m ?b)\<rparr>)\<rparr>)"
    using ack_with_response [OF qw assms(10)] by blast
  obtain dt dfl where dt: "gdp_datum_new (ld_ev D) (datum_free (ev_q s)) = (dt, dfl)"
    by (cases "gdp_datum_new (ld_ev D) (datum_free (ev_q s))")
  show ?thesis
    by (rule exI [of _ fl2], rule exI [of _ "ev_q ?w"])
      (use assms(2-5) n ack dt in \<open>simp add: append_records_def record_of_def drop_datum_def\<close>)
qed

text \<open>What the command does when its loops see one record; \<open>stored\<close> and \<open>told\<close> are the records that are
  stored and published.\<close>

lemma append_success:
  fixes D :: "('b, 'd) logd"
  assumes "sqlite_ok (ld_sql D) rows saved" "sqlite_works (ld_sql D)" "link_up (ld_link D)" "appends D dl a g d ctx r cp m s"
    "visited dl = [pbd]" "subs_live (sub_timeout (ld_timeout D) s) r (gob_reqs g) s"
    "stored = turn_datum D (length dl = 1) pbd (record_of D s pbd)" "told = turn_datum D (length dl = 1) pbd stored"
    "\<And>d. fst (sqlite3_insert (ld_sql D) (row_of D ctx stored) d) = SQLITE_DONE" "ns = notified r (gob_reqs g) s"
  shows "\<exists>s' g' d' q. cmd_append D r s = Some (EP_STAT_OK, s') \<and> log_open a g' d' s' \<and>
    rows d' = add_row (row_of D ctx stored) (rows d) \<and>
    gob_nrecs g' = gob_nrecs g + 1 \<and> gob_reqs g' = gob_reqs g \<and> my_name s' = my_name s \<and>
    sent s' = sent s @ notices (content_pdu cp m (gdp_datum_to_pb (ld_ev D) told init_pb)) ns s \<and>
    (\<forall>k. k \<noteq> r \<longrightarrow> reqs s' k = bumped ns s k) \<and>
    reqs s' r = Some q \<and> req_rpdu q = Some (response_to ACK_SUCCESS cp m (BODY_ACK_SUCCESS None (pb_ts pbd) None None)) \<and>
    still_served r a s s'"
proof -
  let ?one = "length dl = 1"
  let ?d = "record_of D s pbd"
  obtain g1 e ph where h: "same_log g g1" "gob_vrfy_ctx g1 = Some ctx" "GETPHYS g1 = Some ph" "phys_db ph = d"
    "append_vrfy D (record_of D s (last (visited dl))) (last (visited dl)) g = Some (True, e, g1)"
    "cmd_append D r s = append_records D dl a r s" "gobs s a = Some g"
    by (rule append_handler [OF assms(4)])
  have v: "append_vrfy D ?d pbd g = Some (True, e, g1)" using h(5) assms(5) by simp
  have t: "turns D ?one [pbd] ?d = [stored]" by (simp add: assms(7))
  obtain ph' where x: "append_xact D ?one [pbd] ?d g1 e = Some (EP_STAT_OK, stored, set_phys (Some ph') g1)"
      "rows (phys_db ph') = add_row (row_of D ctx stored) (rows d)"
  proof -
    obtain estat datum' ph' where "append_xact D ?one [pbd] ?d g1 e = Some (estat, datum', set_phys (Some ph') g1)"
      "estat = EP_STAT_OK" "EP_STAT_ISOK estat \<longrightarrow> datum' = stored \<and> rows (phys_db ph') = add_row (row_of D ctx stored) (rows d)"
      using append_xact_spec [OF assms(2,1) h(3,2), of "[pbd]" ?one ?d e] assms(9) h(4) unfolding t by auto
    then show thesis using that [of ph'] by simp
  qed
  obtain q where q: "reqs s r = Some q" "req_gob q = Some a" "req_cpdu q = Some cp" "pdu_msg cp = Some m"
    using assms(4) by (auto simp: appends_def serves_def)
  have gr: "gob_reqs (set_phys (Some ph') g1) = gob_reqs g" "gob_nrecs g1 = gob_nrecs g" using h(1) by (auto simp: same_log_def)
  let ?g3 = "clr_flag GOBF_KEEPLOCKED (set_flag GOBF_KEEPLOCKED (set_phys (Some ph') g1))"
  obtain fl evs where "append_records D dl a r s = Some (EP_STAT_OK, set_payload (BODY_CMD_APPEND (take_ts dl)) r
    (s\<lparr>sent := sent s @ notices (content_pdu cp m (gdp_datum_to_pb (ld_ev D) told init_pb)) ns s, ev_q := evs,
      gobs := (gobs s)(a \<mapsto> ?g3\<lparr>gob_nrecs := gob_nrecs ?g3 + 1\<rparr>), pdu_freelist := fl,
      reqs := (bumped ns s)(r \<mapsto> q\<lparr>req_rpdu := Some (response_to ACK_SUCCESS cp m (BODY_ACK_SUCCESS None (pb_ts pbd) None None))\<rparr>)\<rparr>))"
    (is "_ = Some (_, ?z)")
    using append_published [OF assms(3) h(7) assms(5) v x(1) gr(1) q assms(6,8,10) refl] by blast
  moreover have "log_open a (?g3\<lparr>gob_nrecs := gob_nrecs ?g3 + 1\<rparr>) (phys_db ph') ?z"
    using h(3) by (auto simp: log_open_def set_payload_def GETPHYS_def set_phys_def clr_flag_def set_flag_def bind_eq_Some_conv)
  moreover have "still_served r a s ?z"
  proof -
    have f: "has_flag f (set_phys x y) = has_flag f y" for f x and y :: "'d log_gob" by (simp add: has_flag_def set_phys_def)
    have k: "\<not> EP_UT_BITSET GOBF_INUSE GOBF_KEEPLOCKED" "\<not> EP_UT_BITSET GOBF_DROPPING GOBF_KEEPLOCKED"
      "\<not> EP_UT_BITSET GOBF_INCACHE GOBF_KEEPLOCKED" "\<not> EP_UT_BITSET GOBF_PENDING GOBF_KEEPLOCKED"
      by (simp_all add: EP_UT_BITSET_def GOBF_KEEPLOCKED_def GOBF_INUSE_def GOBF_DROPPING_def GOBF_INCACHE_def GOBF_PENDING_def)
    have "gob_refcnt g1 = gob_refcnt g" "gob_name g1 = gob_name g" using h(1) by (auto simp: same_log_def)
    then show ?thesis
      using q(1) h(7) k same_log_flags [OF h(1)] gr(1) by (simp add: still_served_def set_payload_def f set_phys_def)
  qed
  ultimately show ?thesis
    using h(6) x(2) gr by (intro exI conjI) (assumption | simp add: set_payload_def clr_flag_def set_flag_def)+
qed

end
