(* ===== verification/Logd_Service.thy ===== *)
theory Logd_Service
  imports Logd_Append
begin

text \<open>
  The service the log daemon gives, as its clients see it: one record appended, several records appended at
  once, and the end of a subscription.  At the end there is an instance of the database and a daemon with one
  log, on which the properties are evaluated.
\<close>

section \<open>The contents of records\<close>

lemma from_pb_fields:
  assumes "evbuffer_ok E c"
  shows "recno (gdp_datum_from_pb E n pbd sg) = pb_recno pbd"
    "data_of c (gdp_datum_from_pb E n pbd sg) = data_of c n @ pb_data pbd"
    "sg = Some bs \<Longrightarrow> \<exists>b. sig (gdp_datum_from_pb E n pbd sg) = Some b \<and> c b = bs"
  using assms by (auto simp: gdp_datum_from_pb_def Let_def data_of_def split: option.splits)

lemma to_pb_fields:
  assumes "evbuffer_ok E c"
  shows "pb_recno (gdp_datum_to_pb E datum init_pb) = recno datum"
    "pb_data (gdp_datum_to_pb E datum init_pb) = data_of c datum"
    "pb_sig (gdp_datum_to_pb E datum init_pb) = map_option c (sig datum)"
  using assms by (auto simp: gdp_datum_to_pb_def Let_def init_pb_def data_of_def map_option_case split: option.splits)

lemma row_of_fields:
  assumes "evbuffer_ok (ld_ev D) c"
  shows "row_recno (row_of D ctx datum) = recno datum" "row_value (row_of D ctx datum) = data_of c datum"
    "row_sig (row_of D ctx datum) = (case sig datum of None \<Rightarrow> [] | Some b \<Rightarrow> c b)"
  using assms by (simp_all add: row_of_def datum_row_def data_of_def split: option.splits)

lemma new_datum_empty: "evbuffer_ok E c \<Longrightarrow> data_of c (fst (gdp_datum_new E fl)) = []"
  by (auto simp: gdp_datum_new_def gdp_datum_reset_def data_of_def split: list.splits option.splits)

lemma record_of_data: "evbuffer_ok (ld_ev D) c \<Longrightarrow> data_of c (record_of D s pbd) = pb_data pbd"
  by (simp add: record_of_def from_pb_fields new_datum_empty)

section \<open>Appending\<close>

text \<open>The record \<open>pb\<close> says what the record \<open>pbd\<close> of a command says; the hash of the predecessor is not
  compared.\<close>

definition carries :: "pb_datum \<Rightarrow> pb_datum \<Rightarrow> bool" where
  "carries pb pbd \<longleftrightarrow> pb_recno pb = pb_recno pbd \<and> pb_data pb = pb_data pbd \<and> (pb_sig pbd \<noteq> None \<longrightarrow> pb_sig pb = pb_sig pbd)"

lemma record_carries:
  assumes "evbuffer_ok (ld_ev D) c"
  shows "carries (gdp_datum_to_pb (ld_ev D) (record_of D s pbd) init_pb) pbd" "carries (row_pb (row_of D ctx (record_of D s pbd))) pbd"
proof -
  have s: "\<exists>b. sig (record_of D s pbd) = Some b \<and> c b = bs" if "pb_sig pbd = Some bs" for bs
    unfolding record_of_def by (rule from_pb_fields(3) [OF assms that])
  have r: "recno (record_of D s pbd) = pb_recno pbd" by (simp add: record_of_def from_pb_fields [OF assms])
  show "carries (gdp_datum_to_pb (ld_ev D) (record_of D s pbd) init_pb) pbd"
    using s r by (auto simp: carries_def to_pb_fields [OF assms] record_of_data [OF assms])
  show "carries (row_pb (row_of D ctx (record_of D s pbd))) pbd"
    using s r by (auto simp: carries_def row_pb_def Let_def row_of_fields [OF assms] record_of_data [OF assms])
qed

text \<open>C6: a record that is appended is handed to the store in one row (which keeps it unless there is a row with its hash), the number of
  records grows by one, every subscription gets one message with the record, addressed to it and with the number of its request, and the
  client is told of the success.  No other request changes.  This is so when all subscriptions to the log are live: none has
  timed out, and for none is the record the last that it asked for.\<close>

theorem append_one_record:
  assumes "evbuffer_ok (ld_ev D) c" "sqlite_ok (ld_sql D) rows saved" "sqlite_works (ld_sql D)" "link_up (ld_link D)"
    "appends D [pbd] a g d ctx r cp m s" "subs_live (sub_timeout (ld_timeout D) s) r (gob_reqs g) s"
    "\<And>d. fst (sqlite3_insert (ld_sql D) (row_of D ctx (record_of D s pbd)) d) = SQLITE_DONE"
  shows "\<exists>s' g' d' q row pb. cmd_append D r s = Some (EP_STAT_OK, s') \<and> log_open a g' d' s' \<and>
    rows d' = add_row row (rows d) \<and> carries (row_pb row) pbd \<and>
    gob_nrecs g' = gob_nrecs g + 1 \<and> gob_reqs g' = gob_reqs g \<and> carries pb pbd \<and>
    sent s' = sent s @ notices (content_pdu cp m pb) (notified r (gob_reqs g) s) s \<and>
    (\<forall>k. k \<noteq> r \<longrightarrow> reqs s' k = bumped (notified r (gob_reqs g) s) s k) \<and>
    reqs s' r = Some q \<and> req_rpdu q = Some (response_to ACK_SUCCESS cp m (BODY_ACK_SUCCESS None (pb_ts pbd) None None))"
proof -
  have st: "record_of D s pbd = turn_datum D (length [pbd] = 1) pbd (record_of D s pbd)" by (simp add: turn_datum_def)
  have v: "visited [pbd] = [pbd]" by simp
  from append_success [OF assms(2-5) v assms(6) st st assms(7) refl] record_carries(1) [OF assms(1), of s pbd]
    record_carries(2) [OF assms(1), of ctx s pbd]
  show ?thesis by blast
qed

text \<open>C31: a command with two records is answered with success, but only the first is stored and published:
  the loops advance their index twice.  And its data are stored twice over and published three times over,
  because each turn adds them to the buffer of the same record again.\<close>

theorem append_two_records:
  assumes "evbuffer_ok (ld_ev D) c" "sqlite_ok (ld_sql D) rows saved" "sqlite_works (ld_sql D)" "link_up (ld_link D)"
    "appends D [pbd, other] a g d ctx r cp m s" "subs_live (sub_timeout (ld_timeout D) s) r (gob_reqs g) s"
    "\<And>row d. fst (sqlite3_insert (ld_sql D) row d) = SQLITE_DONE"
  shows "\<exists>s' g' d' q row pb. cmd_append D r s = Some (EP_STAT_OK, s') \<and> log_open a g' d' s' \<and>
    rows d' = add_row row (rows d) \<and> row_recno row = pb_recno pbd \<and> row_value row = pb_data pbd @ pb_data pbd \<and>
    gob_nrecs g' = gob_nrecs g + 1 \<and> sent s' = sent s @ notices (content_pdu cp m pb) (notified r (gob_reqs g) s) s \<and>
    pb_recno pb = pb_recno pbd \<and> pb_data pb = pb_data pbd @ pb_data pbd @ pb_data pbd \<and>
    reqs s' r = Some q \<and> req_rpdu q = Some (response_to ACK_SUCCESS cp m (BODY_ACK_SUCCESS None (pb_ts pbd) None None))"
proof -
  let ?st = "turn_datum D (length [pbd, other] = 1) pbd (record_of D s pbd)"
  let ?to = "turn_datum D (length [pbd, other] = 1) pbd ?st"
  have v: "visited [pbd, other] = [pbd]" by simp
  have f: "recno ?st = pb_recno pbd" "data_of c ?st = pb_data pbd @ pb_data pbd" "recno ?to = pb_recno pbd"
    "data_of c ?to = pb_data pbd @ pb_data pbd @ pb_data pbd"
    by (simp_all add: turn_datum_def from_pb_fields [OF assms(1)] record_of_data [OF assms(1)])
  have "row_recno (row_of D ctx ?st) = pb_recno pbd" "row_value (row_of D ctx ?st) = pb_data pbd @ pb_data pbd"
    "pb_recno (gdp_datum_to_pb (ld_ev D) ?to init_pb) = pb_recno pbd"
    "pb_data (gdp_datum_to_pb (ld_ev D) ?to init_pb) = pb_data pbd @ pb_data pbd @ pb_data pbd"
    using f by (simp_all only: row_of_fields [OF assms(1)] to_pb_fields [OF assms(1)])
  with append_success [OF assms(2-5) v assms(6) refl refl assms(7) refl] show ?thesis by blast
qed

section \<open>Ending a subscription\<close>

lemma end_none:
  assumes "\<forall>k\<in>set rs. \<exists>q p. reqs s k = Some q \<and> req_state q \<noteq> GDP_REQ_FREE \<and> req_cpdu q = Some p \<and> pdu_dst p \<noteq> dest"
  shows "end_all_loop D a dest rd rs s = Some s"
  using assms by (induction rs) auto

text \<open>C32: \<^verbatim>\<open>CMD_UNSUBSCRIBE\<close> is acknowledged, but ends no subscription: the function looks for requests that
  were sent to the client, and those of the subscriptions were sent to the log.\<close>

theorem unsubscribe_ends_nothing:
  assumes "serves r a cp m s" "gobs s a = Some g" "pdu_src cp \<noteq> gob_name g"
    "\<forall>k\<in>set (gob_reqs g). \<exists>q p. reqs s k = Some q \<and> req_state q \<noteq> GDP_REQ_FREE \<and> req_cpdu q = Some p \<and>
      pdu_dst p = gob_name g"
  shows "\<exists>s' g' q. cmd_unsubscribe D r s = Some (EP_STAT_OK, s') \<and> gobs s' a = Some g' \<and> gob_reqs g' = gob_reqs g \<and>
    (\<forall>k. k \<noteq> r \<longrightarrow> reqs s' k = reqs s k) \<and> reqs s' r = Some q \<and>
    Option.bind (req_rpdu q) pdu_msg = Some (gdp_msg_new ACK_SUCCESS (rid m) (l5seqno m))"
proof -
  let ?g = "clr_flag GOBF_KEEPLOCKED (set_flag GOBF_KEEPLOCKED g)"
  obtain q where q: "reqs s r = Some q" "req_gob q = Some a" "req_cpdu q = Some cp" "pdu_msg cp = Some m"
    using assms(1) by (auto simp: serves_def)
  have "\<forall>k\<in>set (gob_reqs g). \<exists>q p. reqs s k = Some q \<and> req_state q \<noteq> GDP_REQ_FREE \<and> req_cpdu q = Some p \<and> pdu_dst p \<noteq> pdu_src cp"
    using assms(3,4) by metis
  then have "sub_end_all_subscriptions D a (pdu_src cp) (rid m) s = Some (s\<lparr>gobs := (gobs s)(a \<mapsto> ?g)\<rparr>)"
    using assms(2) by (simp add: sub_end_all_subscriptions_def end_none)
  then show ?thesis
    using q by (simp add: cmd_unsubscribe_def handle_there [OF assms(1)] gdp_req_ack_resp_def response_pdu_def gdp_pdu_new_def
      clr_flag_def set_flag_def)
qed

section \<open>An instance\<close>

text \<open>A database that is its rows and those a rollback goes back to; when it is \<open>full\<close>, insertions fail.\<close>

type_synonym list_db = "log_row list \<times> log_row list"

definition list_select :: "sql \<Rightarrow> sql_value list \<Rightarrow> log_row list \<Rightarrow> log_row list" where
  "list_select stmt vs rows =
     (case (stmt, vs) of
        (SELECT_RECNO, [SQL_INT n, SQL_INT k]) \<Rightarrow> limited k (filter (\<lambda>r. row_recno r = n) rows)
      | (SELECT_FROM_RECNO, [SQL_INT n, SQL_INT k]) \<Rightarrow> limited k (sort_key row_recno (filter (\<lambda>r. n \<le> row_recno r) rows))
      | _ \<Rightarrow> [])"

definition list_exec :: "sql_command \<Rightarrow> list_db \<Rightarrow> int \<times> list_db" where
  "list_exec c d =
     (SQLITE_OK, case c of BEGIN_TRANSACTION \<Rightarrow> (fst d, fst d) | ROLLBACK_TRANSACTION \<Rightarrow> (snd d, snd d) | _ \<Rightarrow> d)"

definition list_sqlite :: "bool \<Rightarrow> list_db sqlite" where
  "list_sqlite full =
     \<lparr>sqlite3_open = (\<lambda>_ _. (SQLITE_OK, ([], []))), sqlite3_extended_result_codes = (\<lambda>_. SQLITE_OK),
      sqlite3_pragma = (\<lambda>p _. (SQLITE_OK, SQLITE_ROW, case p of APPLICATION_ID \<Rightarrow> GLOG_MAGIC | USER_VERSION \<Rightarrow> GLOG_VERSION)),
      sqlite3_set_pragma = (\<lambda>_ _ d. (SQLITE_OK, True, d)), sqlite3_exec = list_exec,
      sqlite3_prepare = (\<lambda>_ _. SQLITE_OK),
      sqlite3_bind = (\<lambda>stmt i _ _. if 1 \<le> i \<and> i \<le> sql_params stmt then SQLITE_OK else SQLITE_RANGE),
      sqlite3_rows = (\<lambda>stmt vs d. (list_select stmt vs (fst d), SQLITE_DONE, SQLITE_OK)),
      sqlite3_insert = (\<lambda>row d. if full then (13, d) else (SQLITE_DONE, (add_row row (fst d), snd d))),
      sqlite3_metadata = (\<lambda>_. (SQLITE_OK, SQLITE_DONE, [])),
      sqlite3_range = (\<lambda>d. (SQLITE_OK, SQLITE_ROW, 0, int (length (fst d))))\<rparr>"

lemma list_selects: "selects stmt vs rows (list_select stmt vs rows)"
proof -
  have "\<exists>ys. mset ys = mset (filter (\<lambda>r. row_recno r = n) rows) \<and>
      limited k (filter (\<lambda>r. row_recno r = n) rows) = limited k ys" for n k
    by blast
  moreover have "\<exists>ys. mset ys = mset (filter (\<lambda>r. n \<le> row_recno r) rows) \<and> sorted (map row_recno ys) \<and>
      limited k (sort_key row_recno (filter (\<lambda>r. n \<le> row_recno r) rows)) = limited k ys" for n k
    by (rule exI [of _ "sort_key row_recno (filter (\<lambda>r. n \<le> row_recno r) rows)"]) simp
  ultimately show ?thesis
    by (simp add: selects_def list_select_def split: sql.split list.split sql_value.split)
qed

lemma list_sqlite_ok: "sqlite_ok (list_sqlite full) fst snd" "sqlite_works (list_sqlite full)"
  by (auto simp: sqlite_ok_def sqlite_works_def list_sqlite_def list_exec_def list_selects SQLITE_DONE_def split: if_splits)

text \<open>A daemon with one log, whose name is \<^const>\<open>sample_name\<close>.  Its request 0 has the command \<open>b\<close> of a client,
  and request 1 is the subscription of another.\<close>

definition client :: "byte list" where "client = replicate 32 2"
definition reader :: "byte list" where "reader = replicate 32 3"

definition sample_crypto :: "list_db log_gob crypto" where
  "sample_crypto = \<lparr>md_hash = (\<lambda>bs. bs), key_read = (\<lambda>_. False), vrfy_final = (\<lambda>_ _ _. EP_STAT_OK),
     sign_final = (\<lambda>_ bs. (EP_STAT_OK, bs))\<rparr>"

definition sample_logd :: "bool \<Rightarrow> (byte list, list_db) logd" where
  "sample_logd full =
     \<lparr>ld_ev = list_evbuffer, ld_sql = list_sqlite full,
      ld_files = \<lparr>LogDir = [], fs_stat = (\<lambda>_. Some True), fs_mkdir = (\<lambda>_. 0), fs_creat = (\<lambda>_. 0)\<rparr>,
      ld_crypto = sample_crypto, ld_link = sample_link, ld_depth = 2, ld_sha = (\<lambda>bs. bs), ld_rand = [], ld_alg = 0,
      GdplogdForgive = 0, GdpSignatureStrictness = 1, ld_timeout = 180, ld_reclaim = 180\<rparr>"

definition client_msg :: "gdp_body \<Rightarrow> gdp_msg" where
  "client_msg b = \<lparr>cmd = 0, has_rid = True, rid = 5, has_l5seqno = False, l5seqno = 0, body = b, msg_sig = None\<rparr>"

definition client_pdu :: "byte list \<Rightarrow> gdp_body \<Rightarrow> gdp_pdu" where
  "client_pdu who b = \<lparr>pdu_inuse = True, pdu_dst = sample_name, pdu_src = who, pdu_seqno = 0, pdu_msg = Some (client_msg b)\<rparr>"

definition log_req :: "gdp_pdu \<Rightarrow> u32 \<Rightarrow> byte list gdp_req" where
  "log_req p fl = zeroed_req\<lparr>req_state := GDP_REQ_ACTIVE, req_gob := Some 0, req_cpdu := Some p, req_flags := fl,
     req_act_ts := ep_time_from_sec 1000\<rparr>"

definition sample_log :: "log_row list \<Rightarrow> list_db log_gob" where
  "sample_log rows = zeroed_gob\<lparr>gob_name := sample_name, gob_flags := GOBF_INUSE, gob_refcnt := 2, gob_reqs := [1],
     gob_nrecs := int (length rows), gob_vrfy_ctx := Some [], gob_x := Some \<lparr>physinfo = Some (physinfo_alloc (rows, []))\<rparr>\<rparr>"

definition sample_daemon :: "log_row list \<Rightarrow> gdp_body \<Rightarrow> (byte list, list_db) logd_state" where
  "sample_daemon rows b =
     \<lparr>gobs = [0 \<mapsto> sample_log rows], gob_brk = 1, GobFreeList = [],
      OpenGOBCache = \<lparr>hfunc = def_hfunc, tabsize = 0, tab = []\<rparr>, GobsByUse = [], GobCacheMutex = False,
      reqs = [0 \<mapsto> log_req (client_pdu client b) 0,
              1 \<mapsto> log_req (client_pdu reader BODY_NOT_SET) (GDP_REQ_SRV_SUBSCR OR GDP_REQ_ON_GOB_LIST)],
      req_brk = 2, ReqFreeList = [], chan_reqs = [], MaxRid = 0, ev_q = no_events, pdu_freelist = [],
      lib_conf = sample_conf, lib_clk = Inr (1000, 0), my_name = replicate 32 7, sent = [], adverts = []\<rparr>"

lemma sample_fields [simp]:
  "ld_ev (sample_logd full) = list_evbuffer" "ld_sql (sample_logd full) = list_sqlite full"
  "ld_link (sample_logd full) = sample_link" "gobs (sample_daemon rows b) 0 = Some (sample_log rows)"
  "gob_nrecs (sample_log rows) = int (length rows)" "gob_reqs (sample_log rows) = [1]" "gob_name (sample_log rows) = sample_name"
  "pdu_dst (client_pdu who b) = sample_name" "pdu_src (client_pdu who b) = who" "pdu_msg (client_pdu who b) = Some (client_msg b)"
  "body (client_msg b) = b" "rid (client_msg b) = 5" "l5seqno (client_msg b) = 0" "sent (sample_daemon rows b) = []"
  by (simp_all add: sample_logd_def sample_daemon_def sample_log_def client_pdu_def client_msg_def)

lemma sample_serves: "serves 0 0 (client_pdu client b) (client_msg b) (sample_daemon rows b)"
  by (simp add: serves_def sample_daemon_def log_req_def)

lemma sample_log_open: "log_open 0 (sample_log rows) (rows, []) (sample_daemon rows b)"
  by (simp add: log_open_def sample_log_def GETPHYS_def physinfo_alloc_def)

lemma sample_link_up: "link_up (ld_link (sample_logd full))"
  by (simp add: link_up_def sample_link_def)

lemma sample_timeout: "tv_sec (sub_timeout (ld_timeout (sample_logd full)) (sample_daemon rows b)) = 820"
proof -
  have "snd (ep_time_deltanow (Inr (1000, 0)) (clk_acc sample_conf) (ep_time_from_nsec (- 180 * ONESECOND) ep_time_zero) ep_time_zero)
      = \<lparr>tv_sec = 820, tv_nsec = 0, tv_accuracy = clk_acc sample_conf\<rparr>"
    by code_simp
  then show ?thesis by (simp add: sub_timeout_def sample_daemon_def sample_logd_def)
qed

lemma sample_subs: "subs_live (sub_timeout (ld_timeout (sample_logd full)) (sample_daemon rows b)) 0 [1] (sample_daemon rows b)"
proof -
  have "reqs (sample_daemon rows b) 1 = Some (log_req (client_pdu reader BODY_NOT_SET) (GDP_REQ_SRV_SUBSCR OR GDP_REQ_ON_GOB_LIST))"
    by (simp add: sample_daemon_def)
  moreover have "live_sub (sub_timeout (ld_timeout (sample_logd full)) (sample_daemon rows b))
      (log_req (client_pdu reader BODY_NOT_SET) fl)" for fl
    by (simp add: live_sub_def ep_time_before_def sample_timeout log_req_def zeroed_req_def ep_time_from_sec_def)
  ultimately show ?thesis by (simp add: subs_live_def)
qed

definition sample_pb :: "int \<Rightarrow> byte list \<Rightarrow> pb_datum" where
  "sample_pb n bs = init_pb\<lparr>pb_recno := n, pb_data := bs\<rparr>"

lemma sample_appends:
  assumes "0 < length dl" "\<forall>pbd\<in>set (visited dl). pb_recno pbd = int (length rows) + 1"
  shows "appends (sample_logd full) dl 0 (sample_log rows) (rows, []) [] 0 (client_pdu client (BODY_CMD_APPEND dl))
    (client_msg (BODY_CMD_APPEND dl)) (sample_daemon rows (BODY_CMD_APPEND dl))"
proof -
  have "vrfy_ctx_of C (sample_log rows) = Some (EP_STAT_OK, [], sample_log rows)" for C
    by (simp add: vrfy_ctx_of_def sample_log_def)
  moreover have f: "\<not> has_flag GOBF_VERIFYING (sample_log rows)"
    by (simp add: has_flag_def EP_UT_BITSET_def sample_log_def GOBF_VERIFYING_def GOBF_INUSE_def)
  ultimately have "gob_vrfy_datum E C datum (sample_log rows) = Some (EP_STAT_OK, sample_log rows)"
    for E :: "byte list evbuffer" and C datum
    by (simp add: gob_vrfy_datum_def gdp_datum_vrfy_gob_def)
  moreover have "EP_STAT_OK \<noteq> GDP_STAT_CRYPTO_NO_PUB_KEY" "EP_STAT_OK \<noteq> GDP_STAT_CRYPTO_NO_SIG" "EP_STAT_OK \<noteq> GDP_STAT_CRYPTO_VRFY_FAIL"
    by (simp_all add: stat_simps mask_eq_exp_minus_1)
  moreover have "\<not> strict (sample_logd full) GDP_SIG_PUBKEYREQ"
    by (simp add: strict_def sample_logd_def EP_UT_BITSET_def GDP_SIG_PUBKEYREQ_def)
  ultimately have "append_vrfy (sample_logd full) datum pbd (sample_log rows) = Some (True, EP_STAT_OK, sample_log rows)" for datum pbd
    using f by (simp add: append_vrfy_def)
  moreover have "gob_vrfy_ctx (sample_log rows) = Some []" by (simp add: sample_log_def)
  ultimately show ?thesis
    using assms sample_log_open [of rows] sample_serves [of _ rows] by (auto simp: appends_def acceptable_def)
qed

section \<open>The properties on the instance\<close>

definition sample_row :: log_row where
  "sample_row = \<lparr>row_hash = [1], row_recno = 1, row_timestamp = 0, row_accuracy = 0, row_prevhash = [], row_value = [8],
     row_sig = []\<rparr>"

lemma sample_hyps:
  "evbuffer_ok (ld_ev (sample_logd full)) (\<lambda>b. b)" "sqlite_ok (ld_sql (sample_logd full)) fst snd"
  "sqlite_works (ld_sql (sample_logd full))"
  using list_evbuffer_ok list_sqlite_ok [of full] by simp_all

lemma sample_insert:
  "fst (sqlite3_insert (ld_sql (sample_logd False)) row d) = SQLITE_DONE"
  "fst (sqlite3_insert (ld_sql (sample_logd True)) row d) \<noteq> SQLITE_DONE"
  by (simp_all add: list_sqlite_def SQLITE_DONE_def)

lemma sample_notified: "notified 0 [1] (sample_daemon rows b) = [1]"
proof -
  have "has_req_flag GDP_REQ_SRV_SUBSCR (log_req p (GDP_REQ_SRV_SUBSCR OR GDP_REQ_ON_GOB_LIST))" for p
    by (simp add: has_req_flag_def log_req_def EP_UT_BITSET_def GDP_REQ_SRV_SUBSCR_def GDP_REQ_ON_GOB_LIST_def)
  then show ?thesis by (simp add: notified_def is_sub_def sample_daemon_def)
qed

theorem read_in_order_witness:
  "\<exists>s'. cmd_read_by_recno (sample_logd False) 0 (sample_daemon [sample_row] (BODY_CMD_READ_BY_RECNO (-1) (Some 3))) =
      Some (GDP_STAT_ACK_END_OF_RESULTS, s') \<and>
    sent s' = [out_pdu (content_pdu (client_pdu client (BODY_CMD_READ_BY_RECNO (-1) (Some 3)))
      (client_msg (BODY_CMD_READ_BY_RECNO (-1) (Some 3))) (row_pb sample_row))
      (sample_daemon [sample_row] (BODY_CMD_READ_BY_RECNO (-1) (Some 3)))]"
proof -
  let ?D = "sample_logd False"
  let ?b = "BODY_CMD_READ_BY_RECNO (-1) (Some 3)"
  let ?out = "\<lambda>row. out_pdu (content_pdu (client_pdu client ?b) (client_msg ?b) (row_pb row)) (sample_daemon [sample_row] ?b)"
  have b: "body (client_msg ?b) = ?b" "read_limit (Some 3) < 2147483648" and n: "read_limit (Some 3) \<noteq> 0"
    by (simp_all add: read_limit_def)
  from read_in_order [OF sample_hyps sample_link_up sample_log_open sample_serves b]
  obtain s' ys xs where r: "cmd_read_by_recno ?D 0 (sample_daemon [sample_row] ?b) = Some (read_stat xs, s')"
    "mset ys = mset (filter (\<lambda>row. first_rec (-1) (gob_nrecs (sample_log [sample_row])) \<le> row_recno row) (fst ([sample_row], [] :: log_row list)))"
    "xs = limited (read_limit (Some 3)) ys" "sent s' = sent (sample_daemon [sample_row] ?b) @ map ?out xs"
    unfolding if_not_P [OF n] by blast
  from r(2) have "ys = [sample_row]" by (simp add: first_rec_def start_from_def sample_row_def)
  with r show ?thesis by (simp add: limited_def read_limit_def read_stat_def)
qed

theorem append_failure_keeps_log_witness:
  "\<exists>s' g' d' estat. cmd_append (sample_logd True) 0 (sample_daemon [sample_row] (BODY_CMD_APPEND [sample_pb 2 [9]])) =
      Some (estat, s') \<and> \<not> EP_STAT_ISOK estat \<and> log_open 0 g' d' s' \<and> fst d' = [sample_row] \<and> sent s' = []"
proof -
  let ?D = "sample_logd True"
  let ?s = "sample_daemon [sample_row] (BODY_CMD_APPEND [sample_pb 2 [9]])"
  have a: "appends ?D [sample_pb 2 [9]] 0 (sample_log [sample_row]) ([sample_row], []) [] 0
      (client_pdu client (BODY_CMD_APPEND [sample_pb 2 [9]])) (client_msg (BODY_CMD_APPEND [sample_pb 2 [9]])) ?s"
    by (rule sample_appends) (simp_all add: sample_pb_def)
  have t: "record_of ?D ?s (sample_pb 2 [9]) \<in>
      set (turns ?D (length [sample_pb 2 [9]] = 1) (visited [sample_pb 2 [9]]) (record_of ?D ?s (last (visited [sample_pb 2 [9]]))))"
    by (simp add: turn_datum_def)
  from append_failure_keeps_log [OF sample_hyps(2,3) a t sample_insert(2)]
  obtain s' g' d' estat where "cmd_append ?D 0 ?s = Some (estat, s')" "\<not> EP_STAT_ISOK estat" "log_open 0 g' d' s'"
    "fst d' = fst ([sample_row], [] :: log_row list)" "sent s' = sent ?s"
    by blast
  then show ?thesis by (intro exI [of _ s'] exI [of _ g'] exI [of _ d'] exI [of _ estat]) simp
qed

theorem append_one_record_witness:
  "\<exists>s' g' d' row. cmd_append (sample_logd False) 0 (sample_daemon [] (BODY_CMD_APPEND [sample_pb 1 [9]])) = Some (EP_STAT_OK, s') \<and>
    log_open 0 g' d' s' \<and> fst d' = [row] \<and> row_value row = [9] \<and> gob_nrecs g' = 1 \<and> length (sent s') = 1"
proof -
  have a: "appends (sample_logd False) [sample_pb 1 [9]] 0 (sample_log []) ([], []) [] 0
      (client_pdu client (BODY_CMD_APPEND [sample_pb 1 [9]])) (client_msg (BODY_CMD_APPEND [sample_pb 1 [9]]))
      (sample_daemon [] (BODY_CMD_APPEND [sample_pb 1 [9]]))"
    by (rule sample_appends) (simp_all add: sample_pb_def)
  have l: "subs_live (sub_timeout (ld_timeout (sample_logd False)) (sample_daemon [] (BODY_CMD_APPEND [sample_pb 1 [9]]))) 0
      (gob_reqs (sample_log [])) (sample_daemon [] (BODY_CMD_APPEND [sample_pb 1 [9]]))"
    using sample_subs by simp
  from append_one_record [OF sample_hyps sample_link_up a l sample_insert(1)]
  obtain s' g' d' row pb where r: "cmd_append (sample_logd False) 0 (sample_daemon [] (BODY_CMD_APPEND [sample_pb 1 [9]])) = Some (EP_STAT_OK, s')"
    "log_open 0 g' d' s'" "fst d' = add_row row (fst ([], [] :: log_row list))" "carries (row_pb row) (sample_pb 1 [9])"
    "gob_nrecs g' = gob_nrecs (sample_log []) + 1"
    "sent s' = sent (sample_daemon [] (BODY_CMD_APPEND [sample_pb 1 [9]])) @ notices pb
      (notified 0 (gob_reqs (sample_log [])) (sample_daemon [] (BODY_CMD_APPEND [sample_pb 1 [9]])))
      (sample_daemon [] (BODY_CMD_APPEND [sample_pb 1 [9]]))"
    by blast
  have "row_value row = [9]" using r(4) by (simp add: carries_def row_pb_def sample_pb_def Let_def)
  then show ?thesis
    using r(1-3,5,6) by (intro exI [of _ s'] exI [of _ g'] exI [of _ d'] exI [of _ row])
      (simp add: sample_notified [unfolded One_nat_def] notices_def add_row_def)
qed

theorem append_two_records_witness:
  "\<exists>s' g' d' row. cmd_append (sample_logd False) 0 (sample_daemon [] (BODY_CMD_APPEND [sample_pb 1 [9], sample_pb 2 [4]])) =
      Some (EP_STAT_OK, s') \<and>
    log_open 0 g' d' s' \<and> fst d' = [row] \<and> row_value row = [9, 9] \<and> gob_nrecs g' = 1"
proof -
  have a: "appends (sample_logd False) [sample_pb 1 [9], sample_pb 2 [4]] 0 (sample_log []) ([], []) [] 0
      (client_pdu client (BODY_CMD_APPEND [sample_pb 1 [9], sample_pb 2 [4]]))
      (client_msg (BODY_CMD_APPEND [sample_pb 1 [9], sample_pb 2 [4]]))
      (sample_daemon [] (BODY_CMD_APPEND [sample_pb 1 [9], sample_pb 2 [4]]))"
    by (rule sample_appends) (simp_all add: sample_pb_def)
  have l: "subs_live (sub_timeout (ld_timeout (sample_logd False))
      (sample_daemon [] (BODY_CMD_APPEND [sample_pb 1 [9], sample_pb 2 [4]]))) 0
      (gob_reqs (sample_log [])) (sample_daemon [] (BODY_CMD_APPEND [sample_pb 1 [9], sample_pb 2 [4]]))"
    using sample_subs by simp
  from append_two_records [OF sample_hyps sample_link_up a l sample_insert(1)]
  obtain s' g' d' row where r: "cmd_append (sample_logd False) 0
      (sample_daemon [] (BODY_CMD_APPEND [sample_pb 1 [9], sample_pb 2 [4]])) = Some (EP_STAT_OK, s')" "log_open 0 g' d' s'"
    "fst d' = add_row row (fst ([], [] :: log_row list))" "row_value row = pb_data (sample_pb 1 [9]) @ pb_data (sample_pb 1 [9])"
    "gob_nrecs g' = gob_nrecs (sample_log []) + 1"
    by blast
  then show ?thesis
    by (intro exI [of _ s'] exI [of _ g'] exI [of _ d'] exI [of _ row]) (simp add: add_row_def sample_pb_def)
qed

theorem unsubscribe_ends_nothing_witness:
  "\<exists>s' g'. cmd_unsubscribe (sample_logd False) 0 (sample_daemon [] BODY_CMD_UNSUBSCRIBE) = Some (EP_STAT_OK, s') \<and>
    gobs s' 0 = Some g' \<and> gob_reqs g' = [1] \<and> reqs s' 1 = reqs (sample_daemon [] BODY_CMD_UNSUBSCRIBE) 1"
proof -
  have "client \<noteq> sample_name" by (simp add: client_def sample_name_def)
  moreover have "reqs (sample_daemon [] BODY_CMD_UNSUBSCRIBE) 1 =
      Some (log_req (client_pdu reader BODY_NOT_SET) (GDP_REQ_SRV_SUBSCR OR GDP_REQ_ON_GOB_LIST))"
    by (simp add: sample_daemon_def)
  ultimately have h: "pdu_src (client_pdu client BODY_CMD_UNSUBSCRIBE) \<noteq> gob_name (sample_log [])"
    "\<forall>k\<in>set (gob_reqs (sample_log [])). \<exists>q p. reqs (sample_daemon [] BODY_CMD_UNSUBSCRIBE) k = Some q \<and>
      req_state q \<noteq> GDP_REQ_FREE \<and> req_cpdu q = Some p \<and> pdu_dst p = gob_name (sample_log [])"
    by (simp_all add: log_req_def)
  have g: "gobs (sample_daemon [] BODY_CMD_UNSUBSCRIBE) 0 = Some (sample_log [])" by simp
  from unsubscribe_ends_nothing [OF sample_serves g h, of "sample_logd False"]
  obtain s' g' where "cmd_unsubscribe (sample_logd False) 0 (sample_daemon [] BODY_CMD_UNSUBSCRIBE) = Some (EP_STAT_OK, s')"
    "gobs s' 0 = Some g'" "gob_reqs g' = gob_reqs (sample_log [])" "\<forall>k. k \<noteq> 0 \<longrightarrow> reqs s' k = reqs (sample_daemon [] BODY_CMD_UNSUBSCRIBE) k"
    by blast
  then show ?thesis by (intro exI [of _ s'] exI [of _ g']) simp
qed

end
