(* ===== verification/Gdp_Api.thy ===== *)
theory Gdp_Api
  imports Gdp_Gob_Ops
begin

text \<open>
  The programming interface, \<^verbatim>\<open>gdp/gdp_api.c\<close>, and the client's side of subscriptions, \<^verbatim>\<open>gdp/gdp_subscr.c\<close>.  A
  program works on instances (GINs) of the objects it has opened.  Each call locks the instance and its
  object, runs the operation and unlocks both.  The thread that repeats subscriptions is left out; what it
  does to one of them is \<open>subscr_resub\<close>.
\<close>

section \<open>Instances\<close>

definition GINF_INUSE :: u16 where "GINF_INUSE = 0x0001"
definition GINF_ISLOCKED :: u16 where "GINF_ISLOCKED = 0x0002"
definition GINF_SIG_VRFY :: u16 where "GINF_SIG_VRFY = 0x0004"

definition GOIF_KEEP_IN_CACHE :: u32 where "GOIF_KEEP_IN_CACHE = 0x00000001"
definition GOIF_VERIFY_PROOF :: u32 where "GOIF_VERIFY_PROOF = 0x00000002"

type_synonym gdp_iomode = u32

definition GDP_MODE_ANY :: gdp_iomode where "GDP_MODE_ANY = 0x0003"
definition GDP_MODE_RO :: gdp_iomode where "GDP_MODE_RO = 0x0001"
definition GDP_MODE_AO :: gdp_iomode where "GDP_MODE_AO = 0x0002"
definition GDP_MODE_RA :: gdp_iomode where "GDP_MODE_RA = 0x0003"

text \<open>A filter changes the record and gives a status.\<close>

type_synonym 'b gdp_filter = "'b gdp_datum \<Rightarrow> ep_stat \<times> 'b gdp_datum"

record 'b gdp_gin =
  gin_gob :: "nat option"
  gin_flags :: u16
  gin_iomode :: gdp_iomode
  gin_apndfilter :: "'b gdp_filter option"
  gin_readfilter :: "'b gdp_filter option"

record ('b, 'x) gdp_api =
  api_lib :: "('b, 'x) gdp_lib"
  gins :: "nat \<Rightarrow> 'b gdp_gin option"
  gin_brk :: nat
  GinFreeList :: "nat list"
  OpenMutex :: bool

abbreviation upd_gin :: "nat \<Rightarrow> ('b gdp_gin \<Rightarrow> 'b gdp_gin) \<Rightarrow> ('b, 'x) gdp_api \<Rightarrow> ('b, 'x) gdp_api" where
  "upd_gin i f w \<equiv> w\<lparr>gins := (gins w)(i := map_option f (gins w i))\<rparr>"

definition set_gin_flag :: "u16 \<Rightarrow> 'b gdp_gin \<Rightarrow> 'b gdp_gin" where
  "set_gin_flag f gin = gin\<lparr>gin_flags := gin_flags gin OR f\<rparr>"

definition clr_gin_flag :: "u16 \<Rightarrow> 'b gdp_gin \<Rightarrow> 'b gdp_gin" where
  "clr_gin_flag f gin = gin\<lparr>gin_flags := gin_flags gin AND NOT f\<rparr>"

definition has_gin_flag :: "u16 \<Rightarrow> 'b gdp_gin \<Rightarrow> bool" where
  "has_gin_flag f gin \<longleftrightarrow> EP_UT_BITSET f (gin_flags gin)"

text \<open>An operation of the library as one on the whole state.\<close>

definition on_lib :: "(('b, 'x) gdp_lib \<Rightarrow> ('b, 'x) gdp_lib option) \<Rightarrow> ('b, 'x) gdp_api \<Rightarrow> ('b, 'x) gdp_api option" where
  "on_lib f w = map_option (\<lambda>s. w\<lparr>api_lib := s\<rparr>) (f (api_lib w))"

definition bad_gin :: "nat option \<Rightarrow> ep_stat" where
  "bad_gin gin = (if gin = None then GDP_STAT_NULL_GIN else GDP_STAT_LOG_NOT_OPEN)"

definition gdp_gin_lock :: "nat \<Rightarrow> ('b, 'x) gdp_api \<Rightarrow> ('b, 'x) gdp_api option" where
  "gdp_gin_lock i w =
     do {
       gin \<leftarrow> gins w i;
       if has_gin_flag GINF_ISLOCKED gin then None else Some (upd_gin i (set_gin_flag GINF_ISLOCKED) w)
     }"

definition gdp_gin_unlock :: "nat \<Rightarrow> ('b, 'x) gdp_api \<Rightarrow> ('b, 'x) gdp_api" where
  "gdp_gin_unlock i w = upd_gin i (clr_gin_flag GINF_ISLOCKED) w"

definition unlock_gin_and_gob :: "nat \<Rightarrow> ('b, 'x) gdp_api \<Rightarrow> ('b, 'x) gdp_api option" where
  "unlock_gin_and_gob i w =
     do {
       gin \<leftarrow> gins w i;
       a \<leftarrow> gin_gob gin;
       w \<leftarrow> on_lib (gdp_gob_unlock a) w;
       Some (gdp_gin_unlock i w)
     }"

definition check_and_lock_gin :: "nat option \<Rightarrow> ('b, 'x) gdp_api \<Rightarrow> (ep_stat \<times> ('b, 'x) gdp_api) option" where
  "check_and_lock_gin g w =
     (case g of
        None \<Rightarrow> Some (bad_gin g, w)
      | Some i \<Rightarrow> do {
          w \<leftarrow> gdp_gin_lock i w;
          gin \<leftarrow> gins w i;
          if \<not> has_gin_flag GINF_INUSE gin \<or> gin_gob gin = None then Some (bad_gin g, gdp_gin_unlock i w)
          else Some (EP_STAT_OK, w)
        })"

definition check_and_lock_gin_and_gob :: "nat option \<Rightarrow> ('b, 'x) gdp_api \<Rightarrow> (ep_stat \<times> ('b, 'x) gdp_api) option" where
  "check_and_lock_gin_and_gob g w =
     do {
       (estat, w) \<leftarrow> check_and_lock_gin g w;
       if \<not> EP_STAT_ISOK estat then Some (estat, w)
       else do {
         i \<leftarrow> g;
         gin \<leftarrow> gins w i;
         a \<leftarrow> gin_gob gin;
         w \<leftarrow> on_lib (gdp_gob_lock a) w;
         gob \<leftarrow> gobs (api_lib w) a;
         if \<not> has_flag GOBF_INUSE gob \<or> has_flag GOBF_DROPPING gob \<or> gob_refcnt gob \<le> 0
         then map_option (Pair (bad_gin g)) (unlock_gin_and_gob i w)
         else Some (estat, w)
       }
     }"

text \<open>Instances that are in use are skipped on the free list.\<close>

fun gin_from_list :: "(nat \<Rightarrow> 'b gdp_gin option) \<Rightarrow> nat list \<Rightarrow> nat option \<times> nat list" where
  "gin_from_list gs [] = (None, [])"
| "gin_from_list gs (i # is) =
     (case gs i of
        None \<Rightarrow> gin_from_list gs is
      | Some gin \<Rightarrow> if has_gin_flag GINF_INUSE gin then gin_from_list gs is else (Some i, is))"

definition zeroed_gin :: "'b gdp_gin" where
  "zeroed_gin = \<lparr>gin_gob = None, gin_flags = 0, gin_iomode = GDP_MODE_ANY, gin_apndfilter = None, gin_readfilter = None\<rparr>"

definition gdp_gin_new :: "nat \<Rightarrow> ('b, 'x) gdp_api \<Rightarrow> nat \<times> ('b, 'x) gdp_api" where
  "gdp_gin_new a w =
     (let (found, fl) = gin_from_list (gins w) (GinFreeList w);
          (i, w) = (case found of
              Some i \<Rightarrow> (i, w\<lparr>GinFreeList := fl\<rparr>)
            | None \<Rightarrow> (gin_brk w, w\<lparr>GinFreeList := fl, gin_brk := gin_brk w + 1, gins := (gins w)(gin_brk w \<mapsto> zeroed_gin)\<rparr>))
      in (i, upd_gin i (\<lambda>g. g\<lparr>gin_flags := GINF_INUSE, gin_iomode := GDP_MODE_ANY, gin_gob := Some a\<rparr>) w))"

text \<open>Events of the instance that are still queued are put on the free list without being taken off their
  queue, which corrupts both.\<close>

definition gdp_event_free_all :: "nat \<Rightarrow> 'b ev_lists \<Rightarrow> 'b ev_lists option" where
  "gdp_event_free_all i q = (if \<exists>gev\<in>set (ev_callback q @ ev_active q). ev_gin gev = Some i then None else Some q)"

definition gdp_gin_free :: "('b, 'x) gdp_client \<Rightarrow> nat \<Rightarrow> ('b, 'x) gdp_api \<Rightarrow> ('b, 'x) gdp_api option" where
  "gdp_gin_free C i w =
     do {
       gin \<leftarrow> gins w i;
       if \<not> has_gin_flag GINF_INUSE gin then Some w
       else do {
         w \<leftarrow> (case gin_gob gin of
             None \<Rightarrow> Some w
           | Some a \<Rightarrow> do {
               s \<leftarrow> gdp_req_freeall (cl_free C) (\<lambda>_. Some) (Some i) a (api_lib w);
               (cleared, s) \<leftarrow> gdp_gob_decref (cl_free C) False a s;
               let w = w\<lparr>api_lib := s\<rparr>;
               Some (if cleared then upd_gin i (\<lambda>g. g\<lparr>gin_gob := None\<rparr>) w else w)
             });
         q \<leftarrow> gdp_event_free_all i (ev_q (api_lib w));
         fl \<leftarrow> LIST_INSERT_HEAD i (GinFreeList w);
         Some (gdp_gin_unlock i (upd_gin i (\<lambda>g. g\<lparr>gin_flags := 0\<rparr>) (w\<lparr>GinFreeList := fl\<rparr>)))
       }
     }"

definition GDP_GIN_ISGOOD :: "nat option \<Rightarrow> ('b, 'x) gdp_api \<Rightarrow> bool" where
  "GDP_GIN_ISGOOD g w \<longleftrightarrow>
     (case Option.bind g (gins w) of
        None \<Rightarrow> False
      | Some gin \<Rightarrow> has_gin_flag GINF_INUSE gin \<and>
          (case Option.bind (gin_gob gin) (gobs (api_lib w)) of None \<Rightarrow> False | Some gob \<Rightarrow> GDP_GOB_ISGOOD gob))"

definition gdp_gin_getname :: "nat option \<Rightarrow> ('b, 'x) gdp_api \<Rightarrow> byte list option" where
  "gdp_gin_getname g w =
     (if GDP_GIN_ISGOOD g w then map_option gob_name (Option.bind (gin_gob (the (gins w (the g)))) (gobs (api_lib w)))
      else None)"

definition gdp_gin_getnrecs :: "nat option \<Rightarrow> ('b, 'x) gdp_api \<Rightarrow> int" where
  "gdp_gin_getnrecs g w =
     (if GDP_GIN_ISGOOD g w then gob_nrecs (the (gobs (api_lib w) (the (gin_gob (the (gins w (the g)))))))
      else GDP_PDU_NO_RECNO)"

section \<open>Opening and closing\<close>

definition open_cmd :: "gdp_iomode \<Rightarrow> gdp_cmd option" where
  "open_cmd iomode =
     (if iomode = GDP_MODE_RO then Some CMD_OPEN_RO
      else if iomode = GDP_MODE_AO then Some CMD_OPEN_AO
      else if iomode = GDP_MODE_RA then Some CMD_OPEN_RA
      else None)"

text \<open>\<open>oflags\<close> are the flags of the open information, none without it.  The library is initialised; the
  reclaim timer is left out.  \<^verbatim>\<open>OpenMutex\<close> is held from the lookup to the end, also while the call waits for the
  answer to the command: a second call waits until the first is over.\<close>

definition gdp_gin_open ::
  "('b, 'x) gdp_client \<Rightarrow> ('b, 'x) wake list \<Rightarrow> 'k keys \<Rightarrow> u32 \<Rightarrow> byte list \<Rightarrow> gdp_iomode \<Rightarrow> ('b, 'x) gdp_api \<Rightarrow>
   (ep_stat \<times> nat option \<times> ('b, 'x) gdp_api) option" where
  "gdp_gin_open C ws K oflags name iomode w =
     (case open_cmd iomode of
        None \<Rightarrow> Some (GDP_STAT_BAD_IOMODE, None, w)
      | Some c \<Rightarrow>
          if \<not> gdp_name_is_valid name then Some (GDP_STAT_GDP_NAME_INVALID, None, w)
          else if OpenMutex w then None
          else do {
            let w = w\<lparr>OpenMutex := True\<rparr>;
            (found, s) \<leftarrow> gdp_gob_cache_get (cl_sha C) (cl_rand C) (cl_alg C) name GGCF_CREATE (api_lib w);
            a \<leftarrow> found;
            gob \<leftarrow> gobs s a;
            (estat, s) \<leftarrow> (if has_flag GOBF_PENDING gob then gdp_gob_open C ws K c 0 a s else Some (EP_STAT_OK, s));
            if \<not> EP_STAT_ISOK estat then do {
              s \<leftarrow> cl_free C a s;
              Some (estat, None, w\<lparr>api_lib := s, OpenMutex := False\<rparr>)
            }
            else do {
              let s = upd_gob a (clr_flag GOBF_PENDING) s;
              let (i, w) = gdp_gin_new a (w\<lparr>api_lib := s\<rparr>);
              let w = (if EP_UT_BITSET GOIF_KEEP_IN_CACHE oflags
                       then w\<lparr>api_lib := upd_gob a (set_flag GOBF_DEFER_FREE) (api_lib w)\<rparr> else w);
              let w = (if EP_UT_BITSET GOIF_VERIFY_PROOF oflags then upd_gin i (set_gin_flag GINF_SIG_VRFY) w else w);
              w \<leftarrow> on_lib (gdp_gob_unlock a) w;
              Some (estat, Some i, w\<lparr>OpenMutex := False\<rparr>)
            }
          })"

text \<open>An operation between locking and unlocking; what it returns beside the status is \<open>d\<close> when it is not
  run.\<close>

definition with_gin ::
  "nat option \<Rightarrow> 'r \<Rightarrow> (nat \<Rightarrow> 'b gdp_gin \<Rightarrow> nat \<Rightarrow> ('b, 'x) gdp_lib \<Rightarrow> (ep_stat \<times> 'r \<times> ('b, 'x) gdp_lib) option) \<Rightarrow>
   ('b, 'x) gdp_api \<Rightarrow> (ep_stat \<times> 'r \<times> ('b, 'x) gdp_api) option" where
  "with_gin g d f w =
     do {
       (estat, w) \<leftarrow> check_and_lock_gin_and_gob g w;
       if \<not> EP_STAT_ISOK estat then Some (estat, d, w)
       else do {
         i \<leftarrow> g;
         gin \<leftarrow> gins w i;
         a \<leftarrow> gin_gob gin;
         (estat, x, s) \<leftarrow> f i gin a (api_lib w);
         w \<leftarrow> unlock_gin_and_gob i (w\<lparr>api_lib := s\<rparr>);
         Some (estat, x, w)
       }
     }"

text \<open>Closing and deleting release the instance, whatever the status.\<close>

definition close_gin ::
  "('b, 'x) gdp_client \<Rightarrow> (nat \<Rightarrow> ('b, 'x) gdp_lib \<Rightarrow> (ep_stat \<times> ('b, 'x) gdp_lib) option) \<Rightarrow> nat option \<Rightarrow> ('b, 'x) gdp_api \<Rightarrow>
   (ep_stat \<times> ('b, 'x) gdp_api) option" where
  "close_gin C f g w =
     do {
       (estat, w) \<leftarrow> check_and_lock_gin_and_gob g w;
       if \<not> EP_STAT_ISOK estat then Some (estat, w)
       else do {
         i \<leftarrow> g;
         gin \<leftarrow> gins w i;
         a \<leftarrow> gin_gob gin;
         (estat, s) \<leftarrow> f a (api_lib w);
         w \<leftarrow> gdp_gin_free C i (w\<lparr>api_lib := s\<rparr>);
         Some (estat, w)
       }
     }"

definition gdp_gin_close ::
  "('b, 'x) gdp_client \<Rightarrow> ('b, 'x) wake list \<Rightarrow> nat option \<Rightarrow> ('b, 'x) gdp_api \<Rightarrow> (ep_stat \<times> ('b, 'x) gdp_api) option" where
  "gdp_gin_close C ws = close_gin C (gdp_gob_close C ws 0)"

definition gdp_gin_delete ::
  "('b, 'x) gdp_client \<Rightarrow> ('b, 'x) wake list \<Rightarrow> nat option \<Rightarrow> ('b, 'x) gdp_api \<Rightarrow> (ep_stat \<times> ('b, 'x) gdp_api) option" where
  "gdp_gin_delete C ws = close_gin C (gdp_gob_delete C ws 0)"

section \<open>Appending and reading\<close>

definition gdp_gin_append ::
  "('b, 'x) gdp_client \<Rightarrow> ('b, 'x) wake list \<Rightarrow> 'b gdp_datum \<Rightarrow> 'b option \<Rightarrow> nat option \<Rightarrow> ('b, 'x) gdp_api \<Rightarrow>
   (ep_stat \<times> 'b gdp_datum \<times> ('b, 'x) gdp_api) option" where
  "gdp_gin_append C ws datum prev g w =
     (if \<not> GDP_DATUM_ISGOOD datum then Some (GDP_STAT_DATUM_REQUIRED, datum, w)
      else with_gin g datum (\<lambda>i gin a s.
        let (estat, datum) = (case gin_apndfilter gin of None \<Rightarrow> (EP_STAT_OK, datum) | Some f \<Rightarrow> f datum) in
        if EP_STAT_ISOK estat then map_option (\<lambda>(e, ds, s). (e, hd ds, s)) (gdp_gob_append_sync C ws [datum] prev 0 a s)
        else Some (estat, datum, s)) w)"

definition gdp_gin_append_async ::
  "('b, 'x) gdp_client \<Rightarrow> 'b gdp_datum list \<Rightarrow> 'b option \<Rightarrow> nat option \<Rightarrow> nat option \<Rightarrow> nat option \<Rightarrow> ('b, 'x) gdp_api \<Rightarrow>
   (ep_stat \<times> 'b gdp_datum list \<times> ('b, 'x) gdp_api) option" where
  "gdp_gin_append_async C datums prev cbfunc udata g w =
     with_gin g datums (\<lambda>i gin a. gdp_gob_append_async C i datums prev cbfunc udata 0 a) w"

definition gdp_gin_read_by_recno ::
  "('b, 'x) gdp_client \<Rightarrow> ('b, 'x) wake list \<Rightarrow> int \<Rightarrow> 'b gdp_datum \<Rightarrow> nat option \<Rightarrow> ('b, 'x) gdp_api \<Rightarrow>
   (ep_stat \<times> 'b gdp_datum \<times> ('b, 'x) gdp_api) option" where
  "gdp_gin_read_by_recno C ws rn datum g w =
     (let datum = gdp_datum_reset (cl_ev C) datum in
      with_gin g datum (\<lambda>i gin a.
        gdp_gob_read_by_recno C ws rn (if has_gin_flag GINF_SIG_VRFY gin then GDP_REQ_VRFY_CONTENT else 0) datum a) w)"

definition gdp_gin_read_by_recno_async ::
  "('b, 'x) gdp_client \<Rightarrow> int \<Rightarrow> u32 \<Rightarrow> nat option \<Rightarrow> nat option \<Rightarrow> nat option \<Rightarrow> ('b, 'x) gdp_api \<Rightarrow>
   (ep_stat \<times> unit \<times> ('b, 'x) gdp_api) option" where
  "gdp_gin_read_by_recno_async C rn nrecs cbfunc cbarg g w =
     with_gin g () (\<lambda>i gin a s. map_option (\<lambda>(e, s). (e, (), s))
       (gdp_gob_read_by_recno_async C i (has_gin_flag GINF_SIG_VRFY gin) rn nrecs cbfunc cbarg a s)) w"

definition gdp_gin_getmetadata ::
  "('b, 'x) gdp_client \<Rightarrow> ('b, 'x) wake list \<Rightarrow> nat option \<Rightarrow> ('b, 'x) gdp_api \<Rightarrow>
   (ep_stat \<times> gdp_md option \<times> ('b, 'x) gdp_api) option" where
  "gdp_gin_getmetadata C ws g w = with_gin g None (\<lambda>i gin a. gdp_gob_getmetadata C ws 0 a) w"

definition gdp_gin_set_append_filter ::
  "'b gdp_filter option \<Rightarrow> nat option \<Rightarrow> ('b, 'x) gdp_api \<Rightarrow> (ep_stat \<times> ('b, 'x) gdp_api) option" where
  "gdp_gin_set_append_filter f g w =
     do {
       (estat, w) \<leftarrow> check_and_lock_gin g w;
       if \<not> EP_STAT_ISOK estat then Some (estat, w)
       else Some (EP_STAT_OK, gdp_gin_unlock (the g) (upd_gin (the g) (\<lambda>x. x\<lparr>gin_apndfilter := f\<rparr>) w))
     }"

text \<open>The filter is kept, and no operation applies it.\<close>

definition gdp_gin_set_read_filter ::
  "'b gdp_filter option \<Rightarrow> nat option \<Rightarrow> ('b, 'x) gdp_api \<Rightarrow> (ep_stat \<times> ('b, 'x) gdp_api) option" where
  "gdp_gin_set_read_filter f g w =
     do {
       (estat, w) \<leftarrow> check_and_lock_gin g w;
       if \<not> EP_STAT_ISOK estat then Some (estat, w)
       else Some (EP_STAT_OK, gdp_gin_unlock (the g) (upd_gin (the g) (\<lambda>x. x\<lparr>gin_readfilter := f\<rparr>) w))
     }"

section \<open>Subscriptions\<close>

text \<open>\<^verbatim>\<open>_gdp_gin_subscribe\<close> for \<^verbatim>\<open>GDP_CMD_SUBSCRIBE_BY_RECNO\<close>.\<close>

definition gin_subscribe ::
  "('b, 'x) gdp_client \<Rightarrow> ('b, 'x) wake list \<Rightarrow> nat \<Rightarrow> int \<Rightarrow> int \<Rightarrow> nat option \<Rightarrow> nat option \<Rightarrow> nat \<Rightarrow> ('b, 'x) gdp_lib \<Rightarrow>
   (ep_stat \<times> ('b, 'x) gdp_lib) option" where
  "gin_subscribe C ws gin start numrecs cbfunc cbarg a s =
     do {
       (estat, nr, s) \<leftarrow> gdp_req_new CMD_SUBSCRIBE_BY_RECNO (Some a) True None
         (GDP_REQ_PERSIST OR GDP_REQ_CLT_SUBSCR OR GDP_REQ_ALLOC_RID) s;
       if \<not> EP_STAT_ISOK estat then Some (estat, s)
       else do {
         r \<leftarrow> nr;
         let s = upd_req r (\<lambda>q. fst (gdp_event_setcb cbfunc cbarg (q\<lparr>req_gin := Some gin\<rparr>) True)) s;
         (estat, s) \<leftarrow> cl_invoke C ws r (set_payload (BODY_CMD_SUBSCRIBE_BY_RECNO
           (if start \<noteq> GDP_PDU_NO_RECNO then Some start else None) (if 0 < numrecs then Some numrecs else None) None) r s);
         if \<not> EP_STAT_ISOK estat then map_option (Pair estat) (gdp_req_free (cl_free C) r s)
         else do {
           req \<leftarrow> reqs s r;
           Some (estat, upd_req r (\<lambda>q. set_req_flag GDP_REQ_ASYNCIO (q\<lparr>req_state := GDP_REQ_IDLE, req_rpdu := None\<rparr>))
             (s\<lparr>pdu_freelist := free_opt_pdu (req_rpdu req) (pdu_freelist s)\<rparr>))
         }
       }
     }"

definition gdp_gin_subscribe_by_recno ::
  "('b, 'x) gdp_client \<Rightarrow> ('b, 'x) wake list \<Rightarrow> int \<Rightarrow> int \<Rightarrow> nat option \<Rightarrow> nat option \<Rightarrow> nat option \<Rightarrow> ('b, 'x) gdp_api \<Rightarrow>
   (ep_stat \<times> unit \<times> ('b, 'x) gdp_api) option" where
  "gdp_gin_subscribe_by_recno C ws start numrecs cbfunc cbarg g w =
     with_gin g () (\<lambda>i gin a s. map_option (\<lambda>(e, s). (e, (), s)) (gin_subscribe C ws i start numrecs cbfunc cbarg a s)) w"

definition subscr_resub ::
  "('b, 'x) gdp_client \<Rightarrow> ('b, 'x) wake list \<Rightarrow> nat \<Rightarrow> ('b, 'x) gdp_lib \<Rightarrow> (ep_stat \<times> ('b, 'x) gdp_lib) option" where
  "subscr_resub C ws r s =
     do {
       req \<leftarrow> reqs s r;
       if req_gin req = None \<or> req_cpdu req = None then Some (EP_STAT_ASSERT_ABORT, s)
       else do {
         cp \<leftarrow> req_cpdu req;
         a \<leftarrow> req_gob req;
         gob \<leftarrow> gobs s a;
         let s = upd_req r (\<lambda>q. q\<lparr>req_state := GDP_REQ_ACTIVE,
           req_cpdu := Some (cp\<lparr>pdu_dst := gob_name gob, pdu_src := my_name s\<rparr>)\<rparr>) s;
         (case pdu_msg cp of
            None \<Rightarrow> Some (EP_STAT_ASSERT_ABORT, s)
          | Some m \<Rightarrow>
              if cmd m \<noteq> CMD_SUBSCRIBE_BY_RECNO then Some (EP_STAT_ASSERT_ABORT, s)
              else do {
                t \<leftarrow> (case body m of BODY_CMD_SUBSCRIBE_BY_RECNO _ _ t \<Rightarrow> Some t | _ \<Rightarrow> None);
                (estat, s) \<leftarrow> cl_invoke C ws r (set_payload (BODY_CMD_SUBSCRIBE_BY_RECNO
                  (Some (gob_nrecs gob + 1)) (Some (req_numrecs req)) t) r s);
                Some (estat, upd_req r (\<lambda>q. q\<lparr>req_state := GDP_REQ_IDLE,
                  req_rpdu := map_option (\<lambda>p. p\<lparr>pdu_msg := None\<rparr>) (req_rpdu q)\<rparr>) s)
              })
       }
     }"

end
