(* ===== verification/Gdp_Client.thy ===== *)
theory Gdp_Client
  imports Gdp_Api
begin

text \<open>
  What the operations of a client on an object do: the requests they make, the records an append sends,
  and what becomes of an operation that is not answered.
\<close>

section \<open>New requests\<close>

text \<open>The request that the next command for the object gets: it is on no list and has no events.\<close>

definition ready_request :: "nat \<Rightarrow> ('b, 'x) gdp_lib \<Rightarrow> bool" where
  "ready_request a s \<longleftrightarrow>
     (case alloc_req s of (r, t) \<Rightarrow> r \<notin> set (chan_reqs s) \<and> r \<notin> set (ReqFreeList t) \<and>
        (\<forall>g. gobs s a = Some g \<longrightarrow> r \<notin> set (gob_reqs g)) \<and>
        (\<exists>q. reqs t r = Some q \<and> req_events q = [] \<and> req_rpdu q = None \<and> req_postproc q = None))"

lemma alloc_shape:
  assumes "alloc_req s = (r, t)"
  shows "t = s\<lparr>req_brk := req_brk t, ReqFreeList := ReqFreeList t, reqs := (reqs s)(r := reqs t r)\<rparr>"
  using assms by (intro gdp_lib.equality)
    (auto simp: alloc_req_def Let_def fun_eq_iff split: list.splits option.splits if_splits)

text \<open>A request as \<^verbatim>\<open>_gdp_req_new\<close> makes it.\<close>

definition new_req :: "u32 \<Rightarrow> nat \<Rightarrow> gdp_pdu \<Rightarrow> 'b gdp_req \<Rightarrow> bool" where
  "new_req flags a p q \<longleftrightarrow> req_state q = GDP_REQ_ACTIVE \<and> req_gob q = Some a \<and> req_cpdu q = Some p \<and> req_rpdu q = None \<and>
     req_events q = [] \<and> req_postproc q = None \<and> req_s_results q = -1 \<and> req_flags q = flags OR GDP_REQ_ON_CHAN_LIST"

text \<open>The command it carries: the one given, or a new one for the object.\<close>

definition command_of :: "gdp_pdu option \<Rightarrow> gdp_cmd \<Rightarrow> byte list \<Rightarrow> byte list \<Rightarrow> gdp_pdu \<Rightarrow> bool" where
  "command_of pdu c src dst p \<longleftrightarrow>
     (case pdu of
        Some x \<Rightarrow> p = x
      | None \<Rightarrow> pdu_src p = src \<and> pdu_dst p = dst \<and> (\<exists>rd. pdu_msg p = Some (gdp_msg_new c rd GDP_PDU_NO_L5SEQNO)))"

lemma command_choice:
  "\<exists>p mr pf. (case pdu of Some p \<Rightarrow> (p, u) | None \<Rightarrow> req_new_pdu c (Some g) flags u) =
    (p, u\<lparr>MaxRid := mr, pdu_freelist := pf\<rparr>) \<and> command_of pdu c (my_name u) (gob_name g) p"
proof (cases pdu)
  case None
  obtain rd mr where r: "(if ((Some g) = None \<or> \<not> EP_UT_BITSET GDP_REQ_PERSIST flags) \<and> \<not> EP_UT_BITSET GDP_REQ_ALLOC_RID flags
      then (GDP_PDU_NO_RID, u) else gdp_rid_new u) = (rd, u\<lparr>MaxRid := mr\<rparr>)"
    by (cases "\<not> EP_UT_BITSET GDP_REQ_PERSIST flags \<and> \<not> EP_UT_BITSET GDP_REQ_ALLOC_RID flags")
      (auto simp: gdp_rid_new_def Let_def intro: that [of _ "MaxRid u"])
  then show ?thesis using None
    by (intro exI [of _ "fst (req_new_pdu c (Some g) flags u)"] exI [of _ mr]
        exI [of _ "tl (dropWhile pdu_inuse (pdu_freelist u))"])
      (simp add: req_new_pdu_def Let_def gdp_pdu_new_def command_of_def, blast)
qed (auto simp: command_of_def intro!: exI [of _ "MaxRid u"] exI [of _ "pdu_freelist u"])

lemma new_request:
  assumes "gobs s a = Some g" "has_flag GOBF_INUSE g" "has_flag GOBF_ISLOCKED g" "ready_request a s" "GDP_CMD_IS_COMMAND c"
    "\<not> EP_UT_BITSET GDP_REQ_ASYNCIO flags"
  obtains r q p b fl mr pf where
    "gdp_req_new c (Some a) True pdu flags s = Some (EP_STAT_OK, Some r, s\<lparr>req_brk := b, ReqFreeList := fl, MaxRid := mr,
      pdu_freelist := pf, gobs := (gobs s)(a \<mapsto> g\<lparr>gob_refcnt := gob_refcnt g + 1\<rparr>), reqs := (reqs s)(r \<mapsto> q),
      chan_reqs := r # chan_reqs s\<rparr>)"
    "new_req flags a p q" "command_of pdu c (my_name s) (gob_name g) p" "r \<notin> set (gob_reqs g)" "r \<notin> set fl"
    "r \<notin> set (chan_reqs s)"
proof -
  obtain r t where t: "alloc_req s = (r, t)" by force
  obtain q where q: "reqs t r = Some q" "req_events q = []" "req_rpdu q = None" "req_postproc q = None"
    "r \<notin> set (chan_reqs s)" "r \<notin> set (ReqFreeList t)" "r \<notin> set (gob_reqs g)"
    using assms(1,4) t by (auto simp: ready_request_def)
  obtain b fl where sh: "t = s\<lparr>req_brk := b, ReqFreeList := fl, reqs := (reqs s)(r \<mapsto> q)\<rparr>" "fl = ReqFreeList t"
    using alloc_shape [OF t] q(1) by simp
  have nf: "r \<notin> set fl" using q(6) sh(2) by simp
  let ?u = "s\<lparr>req_brk := b, ReqFreeList := fl, reqs := (reqs s)(r \<mapsto> q),
    gobs := (gobs s)(a \<mapsto> g\<lparr>gob_refcnt := gob_refcnt g + 1\<rparr>)\<rparr>"
  obtain p mr pf where p: "(case pdu of Some p \<Rightarrow> (p, ?u) | None \<Rightarrow> req_new_pdu c (Some g) flags ?u) =
      (p, ?u\<lparr>MaxRid := mr, pdu_freelist := pf\<rparr>)" "command_of pdu c (my_name ?u) (gob_name g) p"
    using command_choice [where pdu = pdu and u = ?u and c = c and g = g and flags = flags] by blast
  let ?q = "q\<lparr>req_state := GDP_REQ_ACTIVE, req_stat := EP_STAT_OK, req_flags := flags, req_gob := Some a, req_r_results := 0,
    req_s_results := -1, req_cpdu := Some p\<rparr>"
  have "gdp_req_new c (Some a) True pdu flags s = Some (EP_STAT_OK, Some r, s\<lparr>req_brk := b, ReqFreeList := fl, MaxRid := mr,
      pdu_freelist := pf, gobs := (gobs s)(a \<mapsto> g\<lparr>gob_refcnt := gob_refcnt g + 1\<rparr>),
      reqs := (reqs s)(r \<mapsto> set_req_flag GDP_REQ_ON_CHAN_LIST ?q), chan_reqs := r # chan_reqs s\<rparr>)"
    using assms(1-3,5,6) q(5) p(1)
    by (simp add: gdp_req_new_def isgood_flag gdp_gob_incref_def LIST_INSERT_HEAD_def t sh(1) Let_def split del: if_split)
  then show thesis
    by (rule that) (use q(2-5,7) nf p(2) in \<open>simp_all add: new_req_def set_req_flag_def\<close>)
qed

lemma new_req_idle:
  assumes "new_req flags a p q" "\<not> EP_UT_BITSET GDP_REQ_ON_GOB_LIST flags" "pdu_msg p = Some m" "reqs s r = Some q" "gobs s a = Some g"
    "has_flag GOBF_ISLOCKED g" "r \<notin> set (gob_reqs g)"
  shows "idle_request r a s"
proof -
  have "\<not> has_req_flag GDP_REQ_ON_GOB_LIST q"
    using assms(1,2) by (simp add: new_req_def has_req_flag_def bitset_or_right)
      (simp add: EP_UT_BITSET_def GDP_REQ_ON_GOB_LIST_def GDP_REQ_ON_CHAN_LIST_def)
  then show ?thesis using assms by (auto simp: idle_request_def new_req_def)
qed

text \<open>Releasing a request gives back its reference to the object and leaves a clean request on the free list.\<close>

definition clean_req :: "'b gdp_req \<Rightarrow> bool" where
  "clean_req q \<longleftrightarrow> req_state q = GDP_REQ_FREE \<and> req_flags q = 0 \<and> req_gob q = None \<and> req_events q = [] \<and> req_rpdu q = None \<and>
     req_cpdu q = None"

lemma free_request:
  assumes "reqs s r = Some q" "req_state q = GDP_REQ_ACTIVE" "req_events q = []" "req_gob q = Some a" "gobs s a = Some g"
    "has_flag GOBF_INUSE g" "has_flag GOBF_ISLOCKED g" "1 < gob_refcnt g" "r \<notin> set (ReqFreeList s)"
  obtains q' pf where "gdp_req_free fr r s = Some (s\<lparr>
      chan_reqs := (if has_req_flag GDP_REQ_ON_CHAN_LIST q then remove1 r (chan_reqs s) else chan_reqs s),
      gobs := (gobs s)(a \<mapsto> g\<lparr>gob_reqs := (if has_req_flag GDP_REQ_ON_GOB_LIST q then remove1 r (gob_reqs g) else gob_reqs g),
        gob_refcnt := gob_refcnt g - 1\<rparr>),
      pdu_freelist := pf, reqs := (reqs s)(r \<mapsto> q'), ReqFreeList := r # ReqFreeList s\<rparr>)"
    "clean_req q'" "req_postproc q' = req_postproc q"
proof -
  have e: "gdp_event_trigger_pending clk acc fl (q\<lparr>req_ev_to := x\<rparr>) ev = Some (q\<lparr>req_ev_to := x\<rparr>, ev)" for clk acc fl x ev
    using assms(3) by (simp add: gdp_event_trigger_pending_def trigger_loop.simps)
  let ?q = "q\<lparr>req_ev_to := gdp_evloop_timer_clr (req_ev_to q), req_events := [], req_rpdu := None, req_cpdu := None,
    req_gob := None, req_state := GDP_REQ_FREE, req_flags := 0, req_sub_cbarg := None\<rparr>"
  have u: "\<not> EP_UT_BITSET GDP_REQ_ON_GOB_LIST GDP_REQ_ON_CHAN_LIST"
    by (simp add: EP_UT_BITSET_def GDP_REQ_ON_GOB_LIST_def GDP_REQ_ON_CHAN_LIST_def)
  have fx: "has_req_flag f (q\<lparr>req_ev_to := x\<rparr>) = has_req_flag f q" for f x by (simp add: has_req_flag_def)
  have fy: "has_req_flag GDP_REQ_ON_GOB_LIST (q\<lparr>req_ev_to := x, req_flags := req_flags q AND NOT GDP_REQ_ON_CHAN_LIST\<rparr>) =
      has_req_flag GDP_REQ_ON_GOB_LIST q" for x
    using has_req_flag_clr [OF u, of "q\<lparr>req_ev_to := x\<rparr>"] by (simp add: clr_req_flag_def fx)
  show thesis
    by (rule that [of ?q "free_opt_pdu (req_cpdu q) (free_opt_pdu (req_rpdu q) (pdu_freelist s))"])
      (use assms u in \<open>auto simp: gdp_req_free_def e fx fy req_unlink_def gdp_gob_decref_def isgood_flag LIST_INSERT_HEAD_def Let_def
        clean_req_def clr_req_flag_def intro!: gdp_lib.equality\<close>)
qed

section \<open>Nothing answers\<close>

text \<open>C28: when no response to the command to open a log comes, \<^verbatim>\<open>_gdp_gob_open\<close> follows a null pointer: the
  invocation reports success without a response, and the function goes on to look into it.\<close>

theorem open_unanswered:
  fixes C :: "('b, 'x) gdp_client"
  assumes "gobs s a = Some g" "has_flag GOBF_INUSE g" "has_flag GOBF_ISLOCKED g" "ready_request a s" "link_up (cl_link C)"
    "c \<in> {CMD_OPEN_AO, CMD_OPEN_RO, CMD_OPEN_RA}" "reqflags \<in> {0, GDP_REQ_VRFY_CONTENT}"
  shows "gdp_gob_open C (replicate (nat (max 1 (cl_retries C))) (ETIMEDOUT, Some)) K c reqflags a s = None"
proof -
  let ?fl = "reqflags OR GDP_REQ_ALLOC_RID OR GDP_REQ_ROUTEFAIL"
  have fl: "\<not> EP_UT_BITSET GDP_REQ_ASYNCIO ?fl" "\<not> EP_UT_BITSET GDP_REQ_ON_GOB_LIST ?fl"
    using assms(7) by (auto simp: EP_UT_BITSET_def GDP_REQ_ASYNCIO_def GDP_REQ_ON_GOB_LIST_def GDP_REQ_ALLOC_RID_def
      GDP_REQ_ROUTEFAIL_def GDP_REQ_VRFY_CONTENT_def)
  have c: "GDP_CMD_IS_COMMAND c" using assms(6)
    by (auto simp: GDP_CMD_IS_COMMAND_def CMD_OPEN_AO_def CMD_OPEN_RO_def CMD_OPEN_RA_def)
  define ws :: "('b, 'x) wake list" where "ws = replicate (nat (max 1 (cl_retries C))) (ETIMEDOUT, Some)"
  obtain r q p b l mr pf where n: "gdp_req_new c (Some a) True None ?fl s = Some (EP_STAT_OK, Some r, s\<lparr>req_brk := b,
      ReqFreeList := l, MaxRid := mr, pdu_freelist := pf, gobs := (gobs s)(a \<mapsto> g\<lparr>gob_refcnt := gob_refcnt g + 1\<rparr>),
      reqs := (reqs s)(r \<mapsto> q), chan_reqs := r # chan_reqs s\<rparr>)" (is "_ = Some (_, _, ?s)")
    "new_req ?fl a p q" "command_of None c (my_name s) (gob_name g) p" "r \<notin> set (gob_reqs g)"
    by (rule new_request [OF assms(1-4) c fl(1)])
  obtain m where m: "pdu_msg p = Some m" using n(3) by (auto simp: command_of_def)
  have i: "idle_request r a ?s"
    by (rule new_req_idle [OF n(2) fl(2) m, of _ _ "g\<lparr>gob_refcnt := gob_refcnt g + 1\<rparr>"]) (use assms(3) n(4) in simp_all)
  obtain s' where s': "cl_invoke C ws r ?s = Some (EP_STAT_OK, s')"
    "idle_request r a s'" "req_rpdu (the (reqs s' r)) = req_rpdu (the (reqs ?s r))"
    using invoke_timeouts [OF i assms(5), of "cl_retries C"] unfolding ws_def by blast
  obtain q' where q': "reqs s' r = Some q'" "req_rpdu q' = None"
    using s'(2,3) n(2) by (auto simp: idle_request_def new_req_def)
  have f: "open_finish C K c reqflags EP_STAT_OK a r s' = None" using q' by (simp add: open_finish_def)
  show ?thesis unfolding ws_def [symmetric] gdp_gob_open_def
    using assms(1,2) by (simp add: n(1) s'(1) f isgood_flag)
qed

section \<open>A command and its response\<close>

text \<open>An object that the client has open and holds locked.\<close>

definition open_object :: "nat \<Rightarrow> 'x gdp_gob \<Rightarrow> ('b, 'x) gdp_lib \<Rightarrow> bool" where
  "open_object a g s \<longleftrightarrow> cache_inv s \<and> \<not> GobCacheMutex s \<and> gobs s a = Some g \<and> has_flag GOBF_INCACHE g \<and> has_flag GOBF_ISLOCKED g \<and>
     \<not> has_flag GOBF_DROPPING g \<and> \<not> has_flag GOBF_KEEPLOCKED g \<and> 0 < gob_refcnt g \<and> gdp_name_is_valid (gob_name g)"

lemma open_object_inuse: "open_object a g s \<Longrightarrow> has_flag GOBF_INUSE g"
  using inv_gob by (fastforce simp: open_object_def gob_ok_def)

lemma inv_request_state:
  "cache_inv (s\<lparr>req_brk := b, ReqFreeList := fl, MaxRid := mr, pdu_freelist := pf, gobs := G, reqs := R, chan_reqs := ch\<rparr>) =
   cache_inv (s\<lparr>gobs := G\<rparr>)"
  by (simp add: cache_inv_defs cached_as_def)

text \<open>The command of a new request is sent, answered, and the request is released; \<open>k\<close> is the number of records the
  client counts meanwhile.\<close>

lemma command_answered:
  assumes "open_object a g s" "link_up (cl_link C)" "new_req flags a p q" "\<not> EP_UT_BITSET GDP_REQ_ON_GOB_LIST flags"
    "pdu_msg p = Some m" "r \<notin> set (gob_reqs g)" "r \<notin> set fl" "answers cf (gob_name g) m rpdu c"
    "response_stat c \<noteq> GDP_STAT_NAK_NOROUTE" "dispatch_func c = Some ACK_DATA_CONTENT_FN \<longrightarrow> \<not> EP_UT_BITSET GDP_REQ_VRFY_CONTENT flags"
    "t = s\<lparr>req_brk := b, ReqFreeList := fl, MaxRid := mr, pdu_freelist := pf,
      gobs := (gobs s)(a \<mapsto> g\<lparr>gob_refcnt := gob_refcnt g + 1, gob_nrecs := k\<rparr>), reqs := (reqs s)(r \<mapsto> q), chan_reqs := ch\<rparr>"
  shows "\<exists>s1 q1 s2 g2. cl_invoke C [(0, process_resp E vf cf descr n sha rpdu)] r t = Some (response_stat c, s1) \<and>
    reqs s1 r = Some q1 \<and> req_rpdu q1 = Some rpdu \<and> gdp_req_free (cl_free C) r s1 = Some s2 \<and>
    sent s2 = sent s @ [out_pdu p s] \<and> gobs s2 a = Some g2 \<and> has_flag GOBF_ISLOCKED g2 \<and> gob_refcnt g2 = gob_refcnt g \<and>
    gob_name g2 = gob_name g \<and> (dispatch_func c = Some ACK_DATA_CONTENT_FN \<or> gob_nrecs g2 = k)"
proof -
  let ?g = "g\<lparr>gob_refcnt := gob_refcnt g + 1, gob_nrecs := k\<rparr>"
  have o: "cache_inv s" "\<not> GobCacheMutex s" "gobs s a = Some g" "has_flag GOBF_INCACHE g" "has_flag GOBF_ISLOCKED g"
    "\<not> has_flag GOBF_DROPPING g" "\<not> has_flag GOBF_KEEPLOCKED g" "0 < gob_refcnt g" "gdp_name_is_valid (gob_name g)"
    using assms(1) by (simp_all add: open_object_def)
  have l: "int (length (gob_reqs g)) \<le> gob_refcnt g" "has_flag GOBF_INUSE g"
    using inv_gob [OF o(1,3)] o(4) by (simp_all add: gob_ok_def)
  have "cache_inv (s\<lparr>gobs := (gobs s)(a \<mapsto> ?g)\<rparr>)"
    by (rule inv_upd [OF o(1,3)]) (use l in \<open>simp_all add: gob_ok_def\<close>)
  then have t: "cache_inv t" "\<not> GobCacheMutex t" "gobs t a = Some ?g" "reqs t r = Some q" "sent t = sent s" "ReqFreeList t = fl"
    "out_pdu p t = out_pdu p s"
    using o(2) unfolding assms(11) inv_request_state by (simp_all add: out_pdu_def)
  have i: "idle_request r a t"
    by (rule new_req_idle [OF assms(3-5) t(4,3)]) (use o(5) assms(6) in simp_all)
  have g: "has_flag GOBF_INCACHE ?g" "\<not> has_flag GOBF_DROPPING ?g" "\<not> has_flag GOBF_KEEPLOCKED ?g"
    "int (length (gob_reqs ?g)) < gob_refcnt ?g" "gdp_name_is_valid (gob_name ?g)" "answers cf (gob_name ?g) m rpdu c"
    using o l assms(8) by simp_all
  have q: "req_cpdu q = Some p" using assms(3) by (simp add: new_req_def)
  have tc: "takes_content q" if "dispatch_func c = Some ACK_DATA_CONTENT_FN"
    using that assms(3,10) by (simp add: takes_content_def new_req_def has_req_flag_def bitset_or_right)
      (simp add: EP_UT_BITSET_def GDP_REQ_VRFY_CONTENT_def GDP_REQ_ON_CHAN_LIST_def)
  have nr: "response_stat c \<noteq> GDP_STAT_NAK_NOROUTE \<or> has_req_flag GDP_REQ_ROUTEFAIL q" using assms(9) by simp
  obtain s1 where s1: "cl_invoke C [(0, process_resp E vf cf descr n sha rpdu)] r t = Some (response_stat c, s1)"
    "answered c rpdu r a ?g (t\<lparr>sent := sent t @ [out_pdu p t]\<rparr>) s1" "req_state (the (reqs s1 r)) = GDP_REQ_ACTIVE"
    "has_flag GOBF_ISLOCKED (the (gobs s1 a))"
    using invoke_response [where others = "process_resp E vf cf descr n sha rpdu" and retries = "cl_retries C",
      OF t(1,2) i assms(2) t(3) g(1-5) t(4) q assms(5) g(6) nr tc refl] by blast
  obtain q1 g1 where a: "reqs s1 r = Some q1" "req_gob q1 = Some a" "req_events q1 = []" "req_rpdu q1 = Some rpdu"
    "gobs s1 a = Some g1" "has_flag GOBF_INUSE g1" "gob_refcnt g1 = gob_refcnt g + 1" "gob_name g1 = gob_name g"
    "dispatch_func c = Some ACK_DATA_CONTENT_FN \<or> gob_nrecs g1 = k" "ReqFreeList s1 = fl" "sent s1 = sent s @ [out_pdu p s]"
    using s1(2) t(5-7) unfolding answered_def by auto
  have b: "req_state q1 = GDP_REQ_ACTIVE" "has_flag GOBF_ISLOCKED g1" "1 < gob_refcnt g1" "r \<notin> set (ReqFreeList s1)"
    using s1(3,4) a(1,5,7,10) o(8) assms(7) by simp_all
  show ?thesis
    by (rule free_request [OF a(1) b(1) a(3,2,5,6) b(2-4), of "cl_free C"]) (use s1(1) a b(2) in auto)
qed

section \<open>Appending\<close>

text \<open>The records are numbered, and each is linked to its predecessor by its hash.\<close>

definition linked :: "('b, 'z) evbuffer_scheme \<Rightarrow> 'x gdp_gob crypto \<Rightarrow> byte list \<Rightarrow> int \<Rightarrow> 'b option \<Rightarrow> 'b gdp_datum list \<Rightarrow>
    'b gdp_datum list \<Rightarrow> bool" where
  "linked E C ctx rn prev ds ds' \<longleftrightarrow> length ds' = length ds \<and>
     (\<forall>i<length ds. recno (ds' ! i) = rn + int i \<and> dbuf (ds' ! i) = dbuf (ds ! i) \<and>
        prevhash (ds' ! i) = (if i = 0 then prev else Some (gdp_datum_hash E (md_hash C) ctx (ds' ! (i - 1)))))"

lemma chain_linked:
  assumes "gob_vrfy_ctx g = Some ctx" "\<forall>d\<in>set ds. GDP_DATUM_ISGOOD d"
  shows "\<exists>ds'. chain_datums E C now rn prev ds g = Some (True, ds', g) \<and> linked E C ctx rn prev ds ds'"
  using assms(2)
proof (induction ds arbitrary: rn prev)
  case Nil
  then show ?case by (simp add: linked_def)
next
  case (Cons d ds)
  let ?d = "d\<lparr>recno := rn, ts := (if EP_TIME_IS_VALID (ts d) then ts d else now (ts d)), prevhash := prev\<rparr>"
  let ?h = "gdp_datum_hash E (md_hash C) ctx ?d"
  obtain ds' where r: "chain_datums E C now (rn + 1) (Some ?h) ds g = Some (True, ds', g)"
    "linked E C ctx (rn + 1) (Some ?h) ds ds'"
    using Cons.IH [of "rn + 1" "Some ?h"] Cons.prems by auto
  have "gob_datum_hash E C ?d g = Some (?h, g)" using assms(1) by (simp add: gob_datum_hash_def vrfy_ctx_of_def)
  then have "chain_datums E C now rn prev (d # ds) g = Some (True, ?d # ds', g)"
    using r(1) Cons.prems by (simp add: Let_def)
  moreover have "linked E C ctx rn prev (d # ds) (?d # ds')"
    using r(2) unfolding linked_def by (auto simp: nth_Cons split: nat.split)
  ultimately show ?case by blast
qed

lemma sign_linked:
  assumes "linked E C ctx rn prev ds ds'" "ds \<noteq> []"
  shows "linked E C ctx rn prev ds (sign_last E C g ds')"
proof (cases "has_flag GOBF_SIGNING g")
  case True
  define x where "x = snd (gdp_datum_sign E (md_hash C) (sign_final C g) (gob_sign_ctx g) (last ds'))"
  have l: "length ds' = length ds" "ds' \<noteq> []" using assms by (auto simp: linked_def)
  have x: "recno x = recno (last ds')" "dbuf x = dbuf (last ds')" "prevhash x = prevhash (last ds')"
    by (auto simp: x_def gdp_datum_sign_def split: option.splits prod.splits)
  have n: "(butlast ds' @ [x]) ! i = (if i = length ds - 1 then x else ds' ! i)" if "i < length ds" for i
    using that l by (auto simp: nth_append nth_butlast)
  have "last ds' = ds' ! (length ds - 1)" using l by (simp add: last_conv_nth)
  then show ?thesis
    using assms l x True unfolding sign_last_def x_def [symmetric] by (auto simp: linked_def n)
qed (use assms in \<open>simp add: sign_last_def\<close>)

definition with_body :: "gdp_body \<Rightarrow> gdp_pdu \<Rightarrow> gdp_pdu" where
  "with_body b p = p\<lparr>pdu_msg := map_option (\<lambda>m. m\<lparr>body := b\<rparr>) (pdu_msg p)\<rparr>"

lemma append_made:
  assumes "gobs s a = Some g" "has_flag GOBF_INUSE g" "has_flag GOBF_ISLOCKED g" "ready_request a s" "gob_vrfy_ctx g = Some ctx"
    "datums \<noteq> []" "\<forall>d\<in>set datums. GDP_DATUM_ISGOOD d" "\<not> EP_UT_BITSET GDP_REQ_ASYNCIO flags"
  obtains r q p b fl mr pf ds ds' where
    "append_common C gin datums prev flags a s = Some (EP_STAT_OK, Some r, ds, s\<lparr>req_brk := b, ReqFreeList := fl, MaxRid := mr,
      pdu_freelist := pf, gobs := (gobs s)(a \<mapsto> g\<lparr>gob_refcnt := gob_refcnt g + 1, gob_nrecs := gob_nrecs g + int (length datums)\<rparr>),
      reqs := (reqs s)(r \<mapsto> q), chan_reqs := r # chan_reqs s\<rparr>)"
    "new_req flags a (with_body (BODY_CMD_APPEND (map (\<lambda>d. gdp_datum_to_pb (cl_ev C) d init_pb) ds)) p) q"
    "command_of None CMD_APPEND (my_name s) (gob_name g) p" "r \<notin> set (gob_reqs g)" "r \<notin> set fl"
    "linked (cl_ev C) (cl_crypto C) ctx (gob_nrecs g + 1) prev datums ds"
    "chain_datums (cl_ev C) (cl_crypto C) (now_ts s) (gob_nrecs g + 1) prev datums g = Some (True, ds', g)"
    "ds = sign_last (cl_ev C) (cl_crypto C) g ds'"
proof -
  obtain ds where ds: "chain_datums (cl_ev C) (cl_crypto C) (now_ts s) (gob_nrecs g + 1) prev datums g = Some (True, ds, g)"
    "linked (cl_ev C) (cl_crypto C) ctx (gob_nrecs g + 1) prev datums ds"
    using chain_linked [OF assms(5,7), where E = "cl_ev C" and C = "cl_crypto C" and now = "now_ts s" and rn = "gob_nrecs g + 1"] by blast
  define sd where "sd = sign_last (cl_ev C) (cl_crypto C) g ds"
  have sl: "linked (cl_ev C) (cl_crypto C) ctx (gob_nrecs g + 1) prev datums sd" unfolding sd_def by (rule sign_linked [OF ds(2) assms(6)])
  then have len: "length sd = length datums" by (simp add: linked_def)
  have c: "GDP_CMD_IS_COMMAND CMD_APPEND" by (simp add: GDP_CMD_IS_COMMAND_def CMD_APPEND_def)
  obtain r q p b fl mr pf where n: "gdp_req_new CMD_APPEND (Some a) True None flags s = Some (EP_STAT_OK, Some r, s\<lparr>req_brk := b,
      ReqFreeList := fl, MaxRid := mr, pdu_freelist := pf, gobs := (gobs s)(a \<mapsto> g\<lparr>gob_refcnt := gob_refcnt g + 1\<rparr>),
      reqs := (reqs s)(r \<mapsto> q), chan_reqs := r # chan_reqs s\<rparr>)"
    "new_req flags a p q" "command_of None CMD_APPEND (my_name s) (gob_name g) p" "r \<notin> set (gob_reqs g)" "r \<notin> set fl"
    by (rule new_request [OF assms(1-4) c assms(8)])
  let ?p = "with_body (BODY_CMD_APPEND (map (\<lambda>d. gdp_datum_to_pb (cl_ev C) d init_pb) sd)) p"
  have id: "s\<lparr>gobs := (gobs s)(a \<mapsto> g)\<rparr> = s" using assms(1) by (simp add: fun_upd_idem)
  have "append_common C gin datums prev flags a s = Some (EP_STAT_OK, Some r, sd, s\<lparr>req_brk := b, ReqFreeList := fl, MaxRid := mr,
      pdu_freelist := pf, gobs := (gobs s)(a \<mapsto> g\<lparr>gob_refcnt := gob_refcnt g + 1, gob_nrecs := gob_nrecs g + int (length datums)\<rparr>),
      reqs := (reqs s)(r \<mapsto> q\<lparr>req_gin := gin, req_cpdu := Some ?p\<rparr>), chan_reqs := r # chan_reqs s\<rparr>)"
    using assms(1,2,6) n(2)
    by (simp add: append_common_def isgood_flag ds(1) id sd_def [symmetric] n(1) set_payload_def len with_body_def new_req_def Let_def)
  then show thesis by (rule that) (use n(2-5) sl ds(1) sd_def in \<open>simp_all add: new_req_def\<close>)
qed

text \<open>C7: an append sends one command with all its records, to the object: they are numbered from the record
  after the last one the client knows of, each but the first carries the hash of its predecessor and all
  carry their data, and the client counts them at once.  (The hash in the first record is the caller's.)\<close>

theorem append_sends_chain:
  assumes "gobs s a = Some g" "has_flag GOBF_INUSE g" "has_flag GOBF_ISLOCKED g" "ready_request a s" "gob_vrfy_ctx g = Some ctx"
    "datums \<noteq> []" "\<forall>d\<in>set datums. GDP_DATUM_ISGOOD d" "\<not> EP_UT_BITSET GDP_REQ_ASYNCIO flags"
  shows "\<exists>r ds s' q p m g'. append_common C gin datums prev flags a s = Some (EP_STAT_OK, Some r, ds, s') \<and>
    reqs s' r = Some q \<and> req_cpdu q = Some p \<and> pdu_dst p = gob_name g \<and> pdu_msg p = Some m \<and> cmd m = CMD_APPEND \<and>
    body m = BODY_CMD_APPEND (map (\<lambda>d. gdp_datum_to_pb (cl_ev C) d init_pb) ds) \<and>
    length ds = length datums \<and> (\<forall>i<length datums. recno (ds ! i) = gob_nrecs g + 1 + int i \<and> dbuf (ds ! i) = dbuf (datums ! i)) \<and>
    (\<forall>i. Suc i < length datums \<longrightarrow>
      prevhash (ds ! Suc i) = Some (gdp_datum_hash (cl_ev C) (md_hash (cl_crypto C)) ctx (ds ! i))) \<and>
    gobs s' a = Some g' \<and> gob_nrecs g' = gob_nrecs g + int (length datums)"
proof -
  obtain r q p b fl mr pf ds where n: "append_common C gin datums prev flags a s = Some (EP_STAT_OK, Some r, ds, s\<lparr>req_brk := b,
      ReqFreeList := fl, MaxRid := mr, pdu_freelist := pf,
      gobs := (gobs s)(a \<mapsto> g\<lparr>gob_refcnt := gob_refcnt g + 1, gob_nrecs := gob_nrecs g + int (length datums)\<rparr>),
      reqs := (reqs s)(r \<mapsto> q), chan_reqs := r # chan_reqs s\<rparr>)" (is "_ = Some (_, _, _, ?s)")
    "new_req flags a (with_body (BODY_CMD_APPEND (map (\<lambda>d. gdp_datum_to_pb (cl_ev C) d init_pb) ds)) p) q" (is "new_req flags a ?p q")
    "command_of None CMD_APPEND (my_name s) (gob_name g) p" "linked (cl_ev C) (cl_crypto C) ctx (gob_nrecs g + 1) prev datums ds"
    by (rule append_made [OF assms])
  have l: "length ds = length datums" "\<forall>i<length datums. recno (ds ! i) = gob_nrecs g + 1 + int i \<and> dbuf (ds ! i) = dbuf (datums ! i)"
    "\<forall>i. Suc i < length datums \<longrightarrow> prevhash (ds ! Suc i) = Some (gdp_datum_hash (cl_ev C) (md_hash (cl_crypto C)) ctx (ds ! i))"
    using n(4) by (auto simp: linked_def)
  obtain m where m: "pdu_msg ?p = Some m" "cmd m = CMD_APPEND" "pdu_dst ?p = gob_name g"
    "body m = BODY_CMD_APPEND (map (\<lambda>d. gdp_datum_to_pb (cl_ev C) d init_pb) ds)"
    using n(3) by (auto simp: command_of_def with_body_def gdp_msg_new_def)
  show ?thesis using n(1,2) l m
    by (intro exI [of _ r] exI [of _ ds] exI [of _ ?s] exI [of _ q] exI [of _ ?p] exI [of _ m]
      exI [of _ "the (gobs ?s a)"]) (simp add: new_req_def)
qed

text \<open>One record as it is sent.\<close>

definition stamped :: "('b, 'x) gdp_client \<Rightarrow> ('b, 'x) gdp_lib \<Rightarrow> 'x gdp_gob \<Rightarrow> 'b option \<Rightarrow> 'b gdp_datum \<Rightarrow> 'b gdp_datum" where
  "stamped C s g prev datum = hd (sign_last (cl_ev C) (cl_crypto C) g
     [datum\<lparr>recno := gob_nrecs g + 1, ts := (if EP_TIME_IS_VALID (ts datum) then ts datum else now_ts s (ts datum)), prevhash := prev\<rparr>])"

lemma stamped_fields:
  "recno (stamped C s g prev datum) = gob_nrecs g + 1" "dbuf (stamped C s g prev datum) = dbuf datum"
  by (simp_all add: stamped_def sign_last_def gdp_datum_sign_def split: option.splits prod.splits)

lemma sign_last_one: "sign_last E C g [d] = [hd (sign_last E C g [d])]"
  by (simp add: sign_last_def)

lemma client_append:
  fixes C :: "('b, 'x) gdp_client" and s :: "('b, 'x) gdp_lib"
  assumes "open_object a g s" "ready_request a s" "link_up (cl_link C)" "gob_vrfy_ctx g = Some ctx" "GDP_DATUM_ISGOOD datum"
  obtains p m where "pdu_msg p = Some m" "cmd m = CMD_APPEND" "pdu_dst p = gob_name g" "pdu_src p = my_name s"
    "body m = BODY_CMD_APPEND [gdp_datum_to_pb (cl_ev C) (stamped C s g prev datum) init_pb]"
    "\<And>E vf cf descr n sha rpdu c. answers cf (gob_name g) m rpdu c \<Longrightarrow> response_stat c \<noteq> GDP_STAT_NAK_NOROUTE \<Longrightarrow>
      dispatch_func c \<noteq> Some ACK_DATA_CONTENT_FN \<Longrightarrow>
      \<exists>s' g'. gdp_gob_append_sync C [(0, process_resp E vf cf descr n sha rpdu)] [datum] prev 0 a s =
        Some (response_stat c, [stamped C s g prev datum], s') \<and> sent s' = sent s @ [p] \<and> gobs s' a = Some g' \<and>
        has_flag GOBF_ISLOCKED g' \<and> gob_refcnt g' = gob_refcnt g \<and> gob_nrecs g' = gob_nrecs g + 1"
proof -
  have o: "gobs s a = Some g" "has_flag GOBF_INUSE g" "has_flag GOBF_ISLOCKED g"
    using assms(1) open_object_inuse [OF assms(1)] by (simp_all add: open_object_def)
  have h: "[datum] \<noteq> []" "\<forall>d\<in>set [datum]. GDP_DATUM_ISGOOD d" "\<not> EP_UT_BITSET GDP_REQ_ASYNCIO 0" "\<not> EP_UT_BITSET GDP_REQ_ON_GOB_LIST 0"
    using assms(5) by (simp_all add: EP_UT_BITSET_def)
  obtain r q p b fl mr pf ds ds' where n: "append_common C None [datum] prev 0 a s = Some (EP_STAT_OK, Some r, ds, s\<lparr>req_brk := b,
      ReqFreeList := fl, MaxRid := mr, pdu_freelist := pf,
      gobs := (gobs s)(a \<mapsto> g\<lparr>gob_refcnt := gob_refcnt g + 1, gob_nrecs := gob_nrecs g + int (length [datum])\<rparr>),
      reqs := (reqs s)(r \<mapsto> q), chan_reqs := r # chan_reqs s\<rparr>)" (is "_ = Some (_, _, _, ?s)")
    "new_req 0 a (with_body (BODY_CMD_APPEND (map (\<lambda>d. gdp_datum_to_pb (cl_ev C) d init_pb) ds)) p) q" (is "new_req 0 a ?p q")
    "command_of None CMD_APPEND (my_name s) (gob_name g) p" "r \<notin> set (gob_reqs g)" "r \<notin> set fl"
    "chain_datums (cl_ev C) (cl_crypto C) (now_ts s) (gob_nrecs g + 1) prev [datum] g = Some (True, ds', g)"
    "ds = sign_last (cl_ev C) (cl_crypto C) g ds'"
    by (rule append_made [OF o assms(2,4) h(1-3)])
  have "ds' = [datum\<lparr>recno := gob_nrecs g + 1, ts := (if EP_TIME_IS_VALID (ts datum) then ts datum else now_ts s (ts datum)),
      prevhash := prev\<rparr>]"
    using n(6) assms(4,5) by (simp add: gob_datum_hash_def vrfy_ctx_of_def Let_def)
  then have ds: "ds = [stamped C s g prev datum]"
    using n(7) sign_last_one unfolding stamped_def by metis
  obtain m where m: "pdu_msg ?p = Some m" "cmd m = CMD_APPEND" "pdu_dst ?p = gob_name g" "pdu_src ?p = my_name s"
    "body m = BODY_CMD_APPEND [gdp_datum_to_pb (cl_ev C) (stamped C s g prev datum) init_pb]"
    using n(3) ds by (auto simp: command_of_def with_body_def gdp_msg_new_def)
  show thesis
  proof (rule that [of "out_pdu ?p s" "pdu_msg_flags m"])
    fix E vf descr n' sha rpdu c and cf :: "gdp_cmd \<rightharpoonup> ('b, 'x) handler"
    assume an: "answers cf (gob_name g) (pdu_msg_flags m) rpdu c" "response_stat c \<noteq> GDP_STAT_NAK_NOROUTE"
      "dispatch_func c \<noteq> Some ACK_DATA_CONTENT_FN"
    show "\<exists>s' g'. gdp_gob_append_sync C [(0, process_resp E vf cf descr n' sha rpdu)] [datum] prev 0 a s =
        Some (response_stat c, [stamped C s g prev datum], s') \<and> sent s' = sent s @ [out_pdu ?p s] \<and> gobs s' a = Some g' \<and>
        has_flag GOBF_ISLOCKED g' \<and> gob_refcnt g' = gob_refcnt g \<and> gob_nrecs g' = gob_nrecs g + 1"
    proof -
      have a: "answers cf (gob_name g) m rpdu c" using an(1) by (simp add: answers_def pdu_msg_flags_def)
      have nc: "dispatch_func c = Some ACK_DATA_CONTENT_FN \<longrightarrow> \<not> EP_UT_BITSET GDP_REQ_VRFY_CONTENT 0" using an(3) by simp
      obtain s1 q1 s2 g2 where r: "cl_invoke C [(0, process_resp E vf cf descr n' sha rpdu)] r ?s = Some (response_stat c, s1)"
        "gdp_req_free (cl_free C) r s1 = Some s2" "sent s2 = sent s @ [out_pdu ?p s]" "gobs s2 a = Some g2"
        "has_flag GOBF_ISLOCKED g2" "gob_refcnt g2 = gob_refcnt g" "gob_nrecs g2 = gob_nrecs g + int (length [datum])"
        using command_answered [OF assms(1,3) n(2) h(4) m(1) n(4,5) a an(2) nc refl, of E vf descr n' sha] an(3) by blast
      show ?thesis
        by (intro exI [of _ s2] exI [of _ g2]) (use n(1) r ds in \<open>simp add: gdp_gob_append_sync_def\<close>)
    qed
  qed (use m in \<open>auto simp: out_pdu_def pdu_msg_flags_def\<close>)
qed

section \<open>Reading\<close>

lemma client_read:
  fixes C :: "('b, 'x) gdp_client" and s :: "('b, 'x) gdp_lib"
  assumes "open_object a g s" "ready_request a s" "link_up (cl_link C)" "GDP_DATUM_ISGOOD datum"
  obtains p m where "pdu_msg p = Some m" "cmd m = CMD_READ_BY_RECNO" "pdu_dst p = gob_name g" "pdu_src p = my_name s"
    "body m = BODY_CMD_READ_BY_RECNO rn (Some 0)"
    "\<And>E vf cf descr n sha rpdu c rm pb more. answers cf (gob_name g) m rpdu c \<Longrightarrow> dispatch_func c = Some ACK_DATA_CONTENT_FN \<Longrightarrow>
      pdu_msg rpdu = Some rm \<Longrightarrow> body rm = BODY_ACK_CONTENT [pb] more \<Longrightarrow>
      \<exists>s' g'. gdp_gob_read_by_recno C [(0, process_resp E vf cf descr n sha rpdu)] rn 0 datum a s =
        Some (response_stat c, gdp_datum_from_pb (cl_ev C) datum pb (msg_sig rm), s') \<and> sent s' = sent s @ [p] \<and> gobs s' a = Some g' \<and>
        has_flag GOBF_ISLOCKED g' \<and> gob_refcnt g' = gob_refcnt g"
proof -
  have o: "gobs s a = Some g" "has_flag GOBF_INUSE g" "has_flag GOBF_ISLOCKED g"
    using assms(1) open_object_inuse [OF assms(1)] by (simp_all add: open_object_def)
  have h: "\<not> EP_UT_BITSET GDP_REQ_ASYNCIO 0" "\<not> EP_UT_BITSET GDP_REQ_ON_GOB_LIST 0" "\<not> EP_UT_BITSET GDP_REQ_VRFY_CONTENT 0"
    by (simp_all add: EP_UT_BITSET_def)
  have c: "GDP_CMD_IS_COMMAND CMD_READ_BY_RECNO" by (simp add: GDP_CMD_IS_COMMAND_def CMD_READ_BY_RECNO_def)
  obtain r q p b fl mr pf where n: "gdp_req_new CMD_READ_BY_RECNO (Some a) True None 0 s = Some (EP_STAT_OK, Some r, s\<lparr>req_brk := b,
      ReqFreeList := fl, MaxRid := mr, pdu_freelist := pf, gobs := (gobs s)(a \<mapsto> g\<lparr>gob_refcnt := gob_refcnt g + 1\<rparr>),
      reqs := (reqs s)(r \<mapsto> q), chan_reqs := r # chan_reqs s\<rparr>)"
    "new_req 0 a p q" "command_of None CMD_READ_BY_RECNO (my_name s) (gob_name g) p" "r \<notin> set (gob_reqs g)" "r \<notin> set fl"
    by (rule new_request [OF o assms(2) c h(1)])
  let ?p = "with_body (BODY_CMD_READ_BY_RECNO rn (Some 0)) p"
  let ?s = "s\<lparr>req_brk := b, ReqFreeList := fl, MaxRid := mr, pdu_freelist := pf,
    gobs := (gobs s)(a \<mapsto> g\<lparr>gob_refcnt := gob_refcnt g + 1, gob_nrecs := gob_nrecs g\<rparr>),
    reqs := (reqs s)(r \<mapsto> q\<lparr>req_cpdu := Some ?p\<rparr>), chan_reqs := r # chan_reqs s\<rparr>"
  have nq: "new_req 0 a ?p (q\<lparr>req_cpdu := Some ?p\<rparr>)" using n(2) by (simp add: new_req_def)
  have sp: "set_payload (BODY_CMD_READ_BY_RECNO rn (Some 0)) r (s\<lparr>req_brk := b, ReqFreeList := fl, MaxRid := mr, pdu_freelist := pf,
      gobs := (gobs s)(a \<mapsto> g\<lparr>gob_refcnt := gob_refcnt g + 1\<rparr>), reqs := (reqs s)(r \<mapsto> q), chan_reqs := r # chan_reqs s\<rparr>) = ?s"
    using n(2) by (simp add: set_payload_def with_body_def new_req_def)
  obtain m where m: "pdu_msg ?p = Some m" "cmd m = CMD_READ_BY_RECNO" "pdu_dst ?p = gob_name g" "pdu_src ?p = my_name s"
    "body m = BODY_CMD_READ_BY_RECNO rn (Some 0)"
    using n(3) by (auto simp: command_of_def with_body_def gdp_msg_new_def)
  show thesis
  proof (rule that [of "out_pdu ?p s" "pdu_msg_flags m"])
    fix E vf descr n' sha rpdu c rm pb more and cf :: "gdp_cmd \<rightharpoonup> ('b, 'x) handler"
    assume an: "answers cf (gob_name g) (pdu_msg_flags m) rpdu c" "dispatch_func c = Some ACK_DATA_CONTENT_FN"
      "pdu_msg rpdu = Some rm" "body rm = BODY_ACK_CONTENT [pb] more"
    have a: "answers cf (gob_name g) m rpdu c" using an(1) by (simp add: answers_def pdu_msg_flags_def)
    have c: "c = 133" using dispatch_codes [OF an(2)] by simp
    have ok: "response_stat c \<noteq> GDP_STAT_NAK_NOROUTE" "EP_STAT_ISOK (response_stat c)"
      unfolding response_stat_def using an(2) c
      by (simp_all add: stat_simps GDP_STAT_NEW_def EP_STAT_NEW_def EP_STAT_SEVERITY_def GDP_STAT_FROM_ACK_def mask_eq_exp_minus_1)
    have nv: "dispatch_func c = Some ACK_DATA_CONTENT_FN \<longrightarrow> \<not> EP_UT_BITSET GDP_REQ_VRFY_CONTENT 0" using h(3) by simp
    obtain s1 q1 s2 g2 where r: "cl_invoke C [(0, process_resp E vf cf descr n' sha rpdu)] r ?s = Some (response_stat c, s1)"
      "reqs s1 r = Some q1" "req_rpdu q1 = Some rpdu"
      "gdp_req_free (cl_free C) r s1 = Some s2" "sent s2 = sent s @ [out_pdu ?p s]" "gobs s2 a = Some g2"
      "has_flag GOBF_ISLOCKED g2" "gob_refcnt g2 = gob_refcnt g"
      using command_answered [OF assms(1,3) nq h(2) m(1) n(4,5) a ok(1) nv refl, of E vf descr n' sha] by blast
    show "\<exists>s' g'. gdp_gob_read_by_recno C [(0, process_resp E vf cf descr n' sha rpdu)] rn 0 datum a s =
        Some (response_stat c, gdp_datum_from_pb (cl_ev C) datum pb (msg_sig rm), s') \<and> sent s' = sent s @ [out_pdu ?p s] \<and>
        gobs s' a = Some g' \<and> has_flag GOBF_ISLOCKED g' \<and> gob_refcnt g' = gob_refcnt g"
      by (intro exI [of _ s2] exI [of _ g2])
        (use n(1) r sp in \<open>simp add: gdp_gob_read_by_recno_def isgood_flag o assms(4) ok(2) an(3,4) read_finish_def\<close>)
  qed (use m in \<open>auto simp: out_pdu_def pdu_msg_flags_def\<close>)
qed

section \<open>An instance\<close>

text \<open>A library whose cache has one object and which has no requests yet.\<close>

definition one_object :: "'x gdp_gob \<Rightarrow> (byte list, 'x) gdp_lib" where
  "one_object g =
     \<lparr>gobs = [0 \<mapsto> g], gob_brk = 1, GobFreeList = [], OpenGOBCache = hash_store (gob_name g) 0 (the (ep_hash_new 2003 None 0)),
      GobsByUse = [0], GobCacheMutex = False, reqs = Map.empty, req_brk = 0, ReqFreeList = [], chan_reqs = [], MaxRid = 0,
      ev_q = no_events, pdu_freelist = [], lib_conf = sample_conf, lib_clk = Inr (1000, 0), my_name = replicate 32 7,
      sent = [], adverts = []\<rparr>"

lemma one_object_inv:
  assumes "has_flag GOBF_INCACHE g" "has_flag GOBF_INUSE g" "int (length (gob_reqs g)) \<le> gob_refcnt g"
  shows "cache_inv (one_object g)"
proof -
  have e: "ep_hash_new 2003 None 0 = Some (the (ep_hash_new 2003 None 0 :: nat ep_hash option))" by (simp add: ep_hash_new_def)
  have "hash_wf (OpenGOBCache (one_object g))" "ep_hash_search (OpenGOBCache (one_object g)) = [gob_name g \<mapsto> 0]"
    using new_hash_wf [OF e] insert_spec [where hp = "the (ep_hash_new 2003 None 0) :: nat ep_hash"]
    by (simp_all add: one_object_def hash_store_def)
  then show ?thesis
    using assms by (auto simp: cache_inv_defs cached_as_def one_object_def gob_ok_def)
qed

lemma one_object_ready: "0 \<notin> set (gob_reqs g) \<Longrightarrow> ready_request 0 (one_object g)"
  by (simp add: ready_request_def alloc_req_def one_object_def zeroed_req_def)

lemma one_object_fields [simp]: "gobs (one_object g) 0 = Some g" "sent (one_object g) = []" "my_name (one_object g) = replicate 32 7"
  by (simp_all add: one_object_def)

definition open_gob :: "'x gdp_gob" where
  "open_gob = zeroed_gob\<lparr>gob_name := sample_name, gob_flags := GOBF_INUSE OR GOBF_INCACHE OR GOBF_ISLOCKED, gob_refcnt := 1,
     gob_vrfy_ctx := Some []\<rparr>"

lemma open_gob_fields [simp]:
  "has_flag GOBF_INCACHE open_gob" "has_flag GOBF_INUSE open_gob" "has_flag GOBF_ISLOCKED open_gob" "\<not> has_flag GOBF_DROPPING open_gob"
  "\<not> has_flag GOBF_KEEPLOCKED open_gob" "gob_refcnt open_gob = 1" "gob_reqs open_gob = []" "gob_name open_gob = sample_name"
  "gob_vrfy_ctx open_gob = Some []" "gob_nrecs open_gob = 0"
  by (simp_all add: open_gob_def has_flag_def EP_UT_BITSET_def GOBF_INCACHE_def GOBF_INUSE_def GOBF_ISLOCKED_def GOBF_DROPPING_def
    GOBF_KEEPLOCKED_def zeroed_gob_def)

definition sample_client :: "(byte list, unit) gdp_client" where
  "sample_client =
     \<lparr>cl_ev = list_evbuffer, cl_crypto = \<lparr>md_hash = (\<lambda>bs. bs), key_read = (\<lambda>_. False), vrfy_final = (\<lambda>_ _ _. EP_STAT_OK),
        sign_final = (\<lambda>_ bs. (EP_STAT_OK, bs))\<rparr>,
      cl_link = sample_link, cl_depth = 2, cl_retries = 3, cl_sha = (\<lambda>bs. bs), cl_rand = [], cl_alg = 0\<rparr>"

lemma sample_client_fields [simp]:
  "cl_ev sample_client = list_evbuffer" "cl_retries sample_client = 3" "link_up (cl_link sample_client)"
  using sample_caller_idle(2) by (simp_all add: sample_client_def)

lemma sample_open: "open_object 0 open_gob (one_object open_gob)" "ready_request 0 (one_object open_gob)"
  using one_object_inv [of open_gob] one_object_ready [of open_gob] sample_name_valid by (simp_all add: open_object_def) (simp add: one_object_def)

definition no_keys :: "unit keys" where
  "no_keys = \<lparr>signkey = None, signkey_cb = None, skey_read = (\<lambda>_. None), key_compat = (\<lambda>_ _. EP_STAT_OK), sign_new = (\<lambda>_ _. False)\<rparr>"

theorem open_unanswered_witness:
  "gdp_gob_open sample_client (replicate 3 (ETIMEDOUT, Some)) no_keys CMD_OPEN_RO 0 0 (one_object open_gob) = None"
  using open_unanswered [of "one_object open_gob" 0 open_gob sample_client CMD_OPEN_RO 0 no_keys] sample_open(2) by simp

definition filled_datum :: "byte list \<Rightarrow> byte list gdp_datum" where
  "filled_datum bs = (fst (gdp_datum_new list_evbuffer []))\<lparr>dbuf := Some bs\<rparr>"

lemma filled_datum_good: "GDP_DATUM_ISGOOD (filled_datum bs)" "dbuf (filled_datum bs) = Some bs"
  by (simp_all add: filled_datum_def gdp_datum_new_def GDP_DATUM_ISGOOD_def)

theorem append_sends_chain_witness:
  "\<exists>r ds s' q p m g'. append_common sample_client None [filled_datum [8], filled_datum [9]] None 0 0 (one_object open_gob) =
      Some (EP_STAT_OK, Some r, ds, s') \<and>
    reqs s' r = Some q \<and> req_cpdu q = Some p \<and> pdu_dst p = sample_name \<and> pdu_msg p = Some m \<and> cmd m = CMD_APPEND \<and>
    body m = BODY_CMD_APPEND (map (\<lambda>d. gdp_datum_to_pb list_evbuffer d init_pb) ds) \<and> length ds = 2 \<and>
    prevhash (ds ! 1) = Some (gdp_datum_hash list_evbuffer (md_hash (cl_crypto sample_client)) [] (ds ! 0)) \<and>
    gobs s' 0 = Some g' \<and> gob_nrecs g' = 2"
proof -
  have h: "\<forall>d\<in>set [filled_datum [8], filled_datum [9]]. GDP_DATUM_ISGOOD d" "\<not> EP_UT_BITSET GDP_REQ_ASYNCIO 0"
    using filled_datum_good by (simp_all add: EP_UT_BITSET_def)
  obtain r ds s' q p m g' where
    "append_common sample_client None [filled_datum [8], filled_datum [9]] None 0 0 (one_object open_gob) = Some (EP_STAT_OK, Some r, ds, s')"
    "reqs s' r = Some q" "req_cpdu q = Some p" "pdu_dst p = gob_name (open_gob :: unit gdp_gob)" "pdu_msg p = Some m" "cmd m = CMD_APPEND"
    "body m = BODY_CMD_APPEND (map (\<lambda>d. gdp_datum_to_pb (cl_ev sample_client) d init_pb) ds)"
    "length ds = length [filled_datum [8], filled_datum [9]]"
    "\<forall>i. Suc i < length [filled_datum [8], filled_datum [9]] \<longrightarrow>
      prevhash (ds ! Suc i) = Some (gdp_datum_hash (cl_ev sample_client) (md_hash (cl_crypto sample_client)) [] (ds ! i))"
    "gobs s' 0 = Some g'" "gob_nrecs g' = gob_nrecs (open_gob :: unit gdp_gob) + int (length [filled_datum [8], filled_datum [9]])"
    using append_sends_chain [OF one_object_fields(1) open_gob_fields(2,3) sample_open(2) open_gob_fields(9) _ h,
      where C = sample_client and gin = None and prev = None] by blast
  then show ?thesis by (intro exI [of _ r] exI [of _ ds] exI [of _ s'] exI [of _ q] exI [of _ p] exI [of _ m] exI [of _ g']) simp
qed

end
