(* ===== verification/Logd_Command.thy ===== *)
theory Logd_Command
  imports Logd_Service Gdp_Client
begin

text \<open>
  A command that reaches the log daemon: \<^verbatim>\<open>process_cmd\<close> finds the object in the cache, makes a request for the
  command, runs the function of the daemon and sends its response.  Afterwards the object is as idle as before, ready for
  the next command.
\<close>

section \<open>From the command to the response\<close>

text \<open>An object in the cache of the daemon that nobody holds.\<close>

definition idle_object :: "nat \<Rightarrow> 'x gdp_gob \<Rightarrow> ('b, 'x) gdp_lib \<Rightarrow> bool" where
  "idle_object a g s \<longleftrightarrow> cache_inv s \<and> \<not> GobCacheMutex s \<and> gobs s a = Some g \<and> has_flag GOBF_INCACHE g \<and> \<not> has_flag GOBF_ISLOCKED g \<and>
     \<not> has_flag GOBF_DROPPING g \<and> \<not> has_flag GOBF_PENDING g \<and> \<not> has_flag GOBF_KEEPLOCKED g \<and> 0 < gob_refcnt g"

text \<open>The object while a command for it is served.\<close>

definition held :: "('b, 'x) gdp_lib \<Rightarrow> 'x gdp_gob \<Rightarrow> 'x gdp_gob" where
  "held s g = (set_flag GOBF_ISLOCKED g)\<lparr>gob_utime := now_sec s, gob_refcnt := 2 + gob_refcnt g\<rparr>"

lemma ready_hit:
  assumes "ready_request a s" "gobs s a = Some g" "gob_reqs g' = gob_reqs g"
  shows "ready_request a (s\<lparr>gobs := (gobs s)(a \<mapsto> g'), GobsByUse := x\<rparr>)"
  using assms by (auto simp: ready_request_def alloc_req_def Let_def split: list.splits option.splits if_splits)

lemma taken:
  assumes "idle_object a g s" "ready_request a s" "pdu_dst cp = gob_name g" "GDP_CMD_IS_COMMAND c"
  obtains r q b fl mr pf t where
    "gdp_gob_cache_get sha [] 0 (pdu_dst cp) 0 s = Some (Some a, t)"
    "gdp_req_new c (Some a) True (Some cp) 0 t = Some (EP_STAT_OK, Some r, s\<lparr>GobsByUse := a # remove1 a (GobsByUse s),
      req_brk := b, ReqFreeList := fl, MaxRid := mr, pdu_freelist := pf, gobs := (gobs s)(a \<mapsto> held s g), reqs := (reqs s)(r \<mapsto> q),
      chan_reqs := r # chan_reqs s\<rparr>)"
    "new_req 0 a cp q" "r \<notin> set (gob_reqs g)" "r \<notin> set fl" "r \<notin> set (chan_reqs s)"
proof -
  have o: "cache_inv s" "\<not> GobCacheMutex s" "gobs s a = Some g" "has_flag GOBF_INCACHE g" "\<not> has_flag GOBF_ISLOCKED g"
    "\<not> has_flag GOBF_DROPPING g" "\<not> has_flag GOBF_PENDING g"
    using assms(1) by (simp_all add: idle_object_def)
  have i: "has_flag GOBF_INUSE g" using inv_gob [OF o(1,3)] o(4) by (simp add: gob_ok_def)
  have u: "cached_as s a (pdu_dst cp)" "usable 0 g" using o i assms(3) by (simp_all add: cached_as_def usable_def)
  let ?g = "(set_flag GOBF_ISLOCKED g)\<lparr>gob_refcnt := gob_refcnt g + 1, gob_utime := now_sec s\<rparr>"
  let ?t = "s\<lparr>gobs := (gobs s)(a \<mapsto> ?g), GobsByUse := a # remove1 a (GobsByUse s)\<rparr>"
  have get: "gdp_gob_cache_get sha [] 0 (pdu_dst cp) 0 s = Some (Some a, ?t)"
    using get_hit [OF o(1,2) u(1) o(3,5) u(2)] by (simp add: after_hit_def Let_def EP_UT_BITSET_def)
  have t: "gobs ?t a = Some ?g" "has_flag GOBF_INUSE ?g" "has_flag GOBF_ISLOCKED ?g" "ready_request a ?t"
    using i ready_hit [OF assms(2) o(3)] by simp_all
  have z: "\<not> EP_UT_BITSET GDP_REQ_ASYNCIO 0" by (simp add: EP_UT_BITSET_def)
  obtain r q p b fl mr pf where n: "gdp_req_new c (Some a) True (Some cp) 0 ?t = Some (EP_STAT_OK, Some r, ?t\<lparr>req_brk := b,
      ReqFreeList := fl, MaxRid := mr, pdu_freelist := pf, gobs := (gobs ?t)(a \<mapsto> ?g\<lparr>gob_refcnt := gob_refcnt ?g + 1\<rparr>),
      reqs := (reqs ?t)(r \<mapsto> q), chan_reqs := r # chan_reqs ?t\<rparr>)"
    "new_req 0 a p q" "command_of (Some cp) c (my_name ?t) (gob_name ?g) p" "r \<notin> set (gob_reqs ?g)" "r \<notin> set fl"
    "r \<notin> set (chan_reqs ?t)"
    by (rule new_request [OF t assms(4) z])
  have "gdp_req_new c (Some a) True (Some cp) 0 ?t = Some (EP_STAT_OK, Some r, s\<lparr>GobsByUse := a # remove1 a (GobsByUse s),
      req_brk := b, ReqFreeList := fl, MaxRid := mr, pdu_freelist := pf, gobs := (gobs s)(a \<mapsto> held s g), reqs := (reqs s)(r \<mapsto> q),
      chan_reqs := r # chan_reqs s\<rparr>)"
    using n(1) by (simp add: held_def)
  then show thesis
    by (rule that [OF get]) (use n(2-6) in \<open>simp_all add: command_of_def\<close>)
qed

text \<open>The end of \<^verbatim>\<open>process_cmd\<close>: the request is released and the object is as free as before.\<close>

lemma finished:
  assumes "reqs s r = Some q" "req_state q = GDP_REQ_ACTIVE" "req_events q = []" "req_gob q = Some a" "req_flags q = GDP_REQ_ON_CHAN_LIST"
    "gobs s a = Some g" "has_flag GOBF_INUSE g" "has_flag GOBF_ISLOCKED g" "\<not> has_flag GOBF_KEEPLOCKED g" "2 < gob_refcnt g"
    "r \<notin> set (ReqFreeList s)"
  obtains q' pf where "req_finish n (Some a) r s = Some (s\<lparr>chan_reqs := remove1 r (chan_reqs s), pdu_freelist := pf,
      gobs := (gobs s)(a \<mapsto> clr_flag GOBF_ISLOCKED (g\<lparr>gob_refcnt := gob_refcnt g - 2\<rparr>)), reqs := (reqs s)(r \<mapsto> q'),
      ReqFreeList := r # ReqFreeList s\<rparr>)" "clean_req q'" "req_postproc q' = req_postproc q"
proof -
  have fl: "\<not> has_req_flag GDP_REQ_PERSIST q" "has_req_flag GDP_REQ_ON_CHAN_LIST q" "\<not> has_req_flag GDP_REQ_ON_GOB_LIST q"
    using assms(5) by (simp_all add: has_req_flag_def EP_UT_BITSET_def GDP_REQ_PERSIST_def GDP_REQ_ON_CHAN_LIST_def GDP_REQ_ON_GOB_LIST_def)
  have c: "1 < gob_refcnt g" using assms(10) by simp
  obtain q' pf where f: "gdp_req_free (gdp_gob_free n) r s = Some (s\<lparr>
      chan_reqs := (if has_req_flag GDP_REQ_ON_CHAN_LIST q then remove1 r (chan_reqs s) else chan_reqs s),
      gobs := (gobs s)(a \<mapsto> g\<lparr>gob_reqs := (if has_req_flag GDP_REQ_ON_GOB_LIST q then remove1 r (gob_reqs g) else gob_reqs g),
        gob_refcnt := gob_refcnt g - 1\<rparr>),
      pdu_freelist := pf, reqs := (reqs s)(r \<mapsto> q'), ReqFreeList := r # ReqFreeList s\<rparr>)"
    "clean_req q'" "req_postproc q' = req_postproc q"
    by (rule free_request [OF assms(1-4,6-8) c assms(11), of "gdp_gob_free n"])
  have "req_finish n (Some a) r s = Some (s\<lparr>chan_reqs := remove1 r (chan_reqs s), pdu_freelist := pf,
      gobs := (gobs s)(a \<mapsto> clr_flag GOBF_ISLOCKED (g\<lparr>gob_refcnt := gob_refcnt g - 2\<rparr>)), reqs := (reqs s)(r \<mapsto> q'),
      ReqFreeList := r # ReqFreeList s\<rparr>)"
    using assms(1,6-10) fl f(1)
    by (simp add: req_finish_def gdp_gob_decref_def isgood_flag gdp_gob_unlock_def Let_def)
  then show thesis by (rule that [OF _ f(2,3)])
qed

text \<open>After the command, the object is as idle as before.\<close>

lemma idle_again:
  assumes "idle_object a g s" "still_served r a t t'" "gobs t' a = Some g'"
    "gobs t = (gobs s)(a \<mapsto> held s g)" "GobsByUse t = a # remove1 a (GobsByUse s)" "gob_brk t = gob_brk s" "GobFreeList t = GobFreeList s"
    "OpenGOBCache t = OpenGOBCache s" "GobCacheMutex t = GobCacheMutex s" "h = clr_flag GOBF_ISLOCKED (g'\<lparr>gob_refcnt := gob_refcnt g\<rparr>)"
    "gobs u = (gobs t')(a \<mapsto> h)" "GobsByUse u = GobsByUse t'" "gob_brk u = gob_brk t'" "GobFreeList u = GobFreeList t'"
    "OpenGOBCache u = OpenGOBCache t'" "GobCacheMutex u = GobCacheMutex t'"
  shows "idle_object a h u"
proof -
  have o: "cache_inv s" "gobs s a = Some g" "has_flag GOBF_INCACHE g" "\<not> GobCacheMutex s" "\<not> has_flag GOBF_KEEPLOCKED g"
    "\<not> has_flag GOBF_DROPPING g" "\<not> has_flag GOBF_PENDING g" "0 < gob_refcnt g"
    using assms(1) by (simp_all add: idle_object_def)
  have ok: "gob_ok g" "has_flag GOBF_INUSE g" using inv_gob [OF o(1,2)] o(3) by (simp_all add: gob_ok_def)
  have fr: "gobs t' = (gobs t)(a \<mapsto> g')" "GobsByUse t' = GobsByUse t" "gob_brk t' = gob_brk t" "GobFreeList t' = GobFreeList t"
    "OpenGOBCache t' = OpenGOBCache t" "GobCacheMutex t' = GobCacheMutex t"
    using assms(2,3) by (auto simp: still_served_def)
  have h: "gob_name h = gob_name g" "gob_reqs h = gob_reqs g" "gob_refcnt h = gob_refcnt g" "has_flag GOBF_INCACHE h"
    "has_flag GOBF_INUSE h" "\<not> has_flag GOBF_ISLOCKED h" "\<not> has_flag GOBF_DROPPING h" "\<not> has_flag GOBF_PENDING h" "\<not> has_flag GOBF_KEEPLOCKED h"
    using assms(2-4,10) o ok by (auto simp: still_served_def held_def)
  have "cache_inv (s\<lparr>gobs := (gobs s)(a \<mapsto> h)\<rparr>)"
    by (rule inv_upd [OF o(1,2)]) (use h o(3) ok in \<open>simp_all add: gob_ok_def\<close>)
  then have "cache_inv (s\<lparr>gobs := (gobs s)(a \<mapsto> h)\<rparr>\<lparr>GobsByUse := a # remove1 a (GobsByUse s)\<rparr>)"
    by (rule inv_reorder) (use o(1-3) in \<open>auto simp: cache_inv_def lru_ok_def cached_as_def\<close>)
  then have "cache_inv u"
    using assms(4-9,11-16) fr by (simp add: cache_inv_defs cached_as_def)
  then show ?thesis using assms(9,11,16) fr(6) o(4,8) h by (simp add: idle_object_def)
qed

lemma ready_again:
  assumes "ReqFreeList u = r # fl" "reqs u r = Some q" "clean_req q" "req_postproc q = None" "chan_reqs u = remove1 r (r # cs)"
    "r \<notin> set fl" "r \<notin> set cs" "r \<notin> set (gob_reqs (the (gobs u a)))"
  shows "ready_request a u"
  using assms by (auto simp: ready_request_def alloc_req_def clean_req_def has_req_flag_def EP_UT_BITSET_def)

lemma served:
  assumes "idle_object a g s" "ready_request a s" "pdu_dst cp = gob_name g" "pdu_msg cp = Some m" "GDP_CMD_IS_COMMAND (cmd m)"
    "\<not> 255 < cmd m" "cf (cmd m) = Some f" "link_up L"
  obtains r q b fl mr pf t where
    "t = s\<lparr>GobsByUse := a # remove1 a (GobsByUse s), req_brk := b, ReqFreeList := fl, MaxRid := mr, pdu_freelist := pf,
      gobs := (gobs s)(a \<mapsto> held s g), reqs := (reqs s)(r \<mapsto> q), chan_reqs := r # chan_reqs s\<rparr>"
    "new_req 0 a cp q" "r \<notin> set (gob_reqs g)"
    "\<forall>estat t' q' rp rm g'. f r t = Some (estat, t') \<longrightarrow> still_served r a t t' \<longrightarrow> reqs t' r = Some q' \<longrightarrow> req_rpdu q' = Some rp \<longrightarrow>
      pdu_msg rp = Some rm \<longrightarrow> gobs t' a = Some g' \<longrightarrow>
      (\<exists>u. process_cmd E vf cf descr n sha L post cp s = Some u \<and>
        sent u = sent t' @ (if estat = GDP_STAT_RESPONSE_SENT then []
          else [out_pdu (rp\<lparr>pdu_msg := Some (rm\<lparr>cmd := gdp_acknak_from_estat estat (cmd rm)\<rparr>)\<rparr>) t']) \<and>
        gobs u a = Some (clr_flag GOBF_ISLOCKED (g'\<lparr>gob_refcnt := gob_refcnt g\<rparr>)) \<and>
        idle_object a (clr_flag GOBF_ISLOCKED (g'\<lparr>gob_refcnt := gob_refcnt g\<rparr>)) u \<and> ready_request a u)"
proof -
  obtain r q b fl mr pf t0 where t: "gdp_gob_cache_get sha [] 0 (pdu_dst cp) 0 s = Some (Some a, t0)"
    "gdp_req_new (cmd m) (Some a) True (Some cp) 0 t0 = Some (EP_STAT_OK, Some r, s\<lparr>GobsByUse := a # remove1 a (GobsByUse s),
      req_brk := b, ReqFreeList := fl, MaxRid := mr, pdu_freelist := pf, gobs := (gobs s)(a \<mapsto> held s g), reqs := (reqs s)(r \<mapsto> q),
      chan_reqs := r # chan_reqs s\<rparr>)" (is "_ = Some (_, _, ?t)")
    "new_req 0 a cp q" "r \<notin> set (gob_reqs g)" "r \<notin> set fl" "r \<notin> set (chan_reqs s)"
    by (rule taken [OF assms(1-3,5)])
  have h: "has_flag GOBF_INUSE g" "0 < gob_refcnt g" "\<not> has_flag GOBF_KEEPLOCKED g"
    using assms(1) inv_gob [of True s a g] by (auto simp: idle_object_def gob_ok_def)
  show thesis
  proof (rule that [OF refl t(3,4)], intro allI impI)
    fix estat t' q' rp rm g'
    assume f: "f r ?t = Some (estat, t')" and st: "still_served r a ?t t'" and q': "reqs t' r = Some q'" "req_rpdu q' = Some rp"
      "pdu_msg rp = Some rm" and g': "gobs t' a = Some g'"
    have k: "req_state q' = GDP_REQ_ACTIVE" "req_gob q' = Some a" "req_events q' = []" "req_postproc q' = None"
      "req_flags q' = GDP_REQ_ON_CHAN_LIST" "gob_refcnt g' = 2 + gob_refcnt g" "has_flag GOBF_INUSE g'" "has_flag GOBF_ISLOCKED g'"
      "\<not> has_flag GOBF_KEEPLOCKED g'" "ReqFreeList t' = fl"
      using st t(3) q'(1) g' h by (auto simp: still_served_def new_req_def held_def)
    have l: "gob_reqs g' = gob_reqs g" "chan_reqs t' = r # chan_reqs s" using st g' by (auto simp: still_served_def held_def)
    let ?rp = "out_pdu (rp\<lparr>pdu_msg := Some (rm\<lparr>cmd := gdp_acknak_from_estat estat (cmd rm)\<rparr>)\<rparr>) t'"
    let ?v = "if estat = GDP_STAT_RESPONSE_SENT then t' else t'\<lparr>sent := sent t' @ [?rp],
      reqs := (reqs t')(r \<mapsto> q'\<lparr>req_rpdu := Some ?rp, req_stat := EP_STAT_OK\<rparr>)\<rparr>"
    let ?qv = "if estat = GDP_STAT_RESPONSE_SENT then q' else q'\<lparr>req_rpdu := Some ?rp, req_stat := EP_STAT_OK\<rparr>"
    have an: "cmd_answer L estat r t' = Some (t'\<lparr>sent := sent t' @ [?rp],
        reqs := (reqs t')(r \<mapsto> q'\<lparr>req_rpdu := Some ?rp, req_stat := EP_STAT_OK\<rparr>)\<rparr>)"
      using q' pdu_out_up [OF assms(8), of "rp\<lparr>pdu_msg := Some (rm\<lparr>cmd := gdp_acknak_from_estat estat (cmd rm)\<rparr>)\<rparr>" _ t']
      by (simp add: cmd_answer_def Let_def)
    have v: "reqs ?v r = Some ?qv" "req_state ?qv = GDP_REQ_ACTIVE" "req_events ?qv = []" "req_gob ?qv = Some a"
      "req_flags ?qv = GDP_REQ_ON_CHAN_LIST" "gobs ?v a = Some g'" "2 < gob_refcnt g'" "r \<notin> set (ReqFreeList ?v)" "req_postproc ?qv = None"
      using q'(1) k g' h(2) t(5) by auto
    obtain q'' pf' where e: "req_finish n (Some a) r ?v = Some (?v\<lparr>chan_reqs := remove1 r (chan_reqs ?v), pdu_freelist := pf',
      gobs := (gobs ?v)(a \<mapsto> clr_flag GOBF_ISLOCKED (g'\<lparr>gob_refcnt := gob_refcnt g' - 2\<rparr>)), reqs := (reqs ?v)(r \<mapsto> q''),
      ReqFreeList := r # ReqFreeList ?v\<rparr>)" (is "_ = Some ?u") and c: "clean_req q''" "req_postproc q'' = req_postproc ?qv"
      by (rule finished [OF v(1-6) k(7-9) v(7,8), of n])
    have d: "gdp_req_dispatch E vf cf descr (cmd m) r ?t = Some (estat, t')" using assms(6,7) f by (simp add: gdp_req_dispatch_def)
    have a: "(if estat = GDP_STAT_RESPONSE_SENT then Some t' else cmd_answer L estat r t') = Some ?v" using an by simp
    have m: "rpdu_msg q' = Some rm" using q'(2,3) by (simp add: rpdu_msg_def)
    have "process_cmd E vf cf descr n sha L post cp s = req_finish n (Some a) r ?v"
      unfolding process_cmd_def assms(4) option.case t(1) Option.bind.simps prod.case t(2) d q'(1) m a
      using k(2) a v(1,9) by (simp del: if_split add: a)
    then have "process_cmd E vf cf descr n sha L post cp s = Some ?u" using e by simp
    moreover have "idle_object a (clr_flag GOBF_ISLOCKED (g'\<lparr>gob_refcnt := gob_refcnt g\<rparr>)) ?u"
      by (rule idle_again [OF assms(1) st g']) (auto simp: k(6))
    moreover have "ready_request a ?u"
      by (rule ready_again [OF _ _ c(1) c(2) [unfolded v(9)] _ t(5,6)]) (simp_all add: k(10) l t(4))
    ultimately show "\<exists>u. process_cmd E vf cf descr n sha L post cp s = Some u \<and>
        sent u = sent t' @ (if estat = GDP_STAT_RESPONSE_SENT then [] else [?rp]) \<and>
        gobs u a = Some (clr_flag GOBF_ISLOCKED (g'\<lparr>gob_refcnt := gob_refcnt g\<rparr>)) \<and>
        idle_object a (clr_flag GOBF_ISLOCKED (g'\<lparr>gob_refcnt := gob_refcnt g\<rparr>)) u \<and> ready_request a u"
      by (intro exI [of _ ?u] conjI) (simp_all add: k(6))
  qed
qed

section \<open>Commands of the daemon\<close>

lemma daemon_functions:
  "CmdFuncs D override CMD_APPEND = Some (cmd_append D)" "CmdFuncs D override CMD_READ_BY_RECNO = Some (cmd_read_by_recno D)"
  "GDP_CMD_IS_COMMAND CMD_APPEND" "GDP_CMD_IS_COMMAND CMD_READ_BY_RECNO" "\<not> 255 < CMD_APPEND" "\<not> 255 < CMD_READ_BY_RECNO"
  by (simp_all add: CmdFuncs_def GDP_CMD_IS_COMMAND_def CMD_PING_def CMD_CREATE_def CMD_OPEN_AO_def CMD_OPEN_RO_def CMD_OPEN_RA_def
    CMD_CLOSE_def CMD_APPEND_def CMD_READ_BY_RECNO_def CMD_READ_BY_TS_def CMD_SUBSCRIBE_BY_RECNO_def CMD_GETMETADATA_def
    CMD_UNSUBSCRIBE_def CMD_DELETE_def)

lemmas daemon_served = served [where E = "ld_ev D" and vf = "\<lambda>g d. map_option fst (gob_vrfy_datum (ld_ev D) (ld_crypto D) d g)" and
  cf = "CmdFuncs D override" and descr = descr and n = "ld_depth D" and sha = "ld_sha D" and L = "ld_link D" and
  post = "\<lambda>_. post_subscribe D", folded logd_cmd_def] for D override descr

lemma held_fields [simp]:
  "gob_name (held s g) = gob_name g" "gob_reqs (held s g) = gob_reqs g" "gob_nrecs (held s g) = gob_nrecs g" "gob_x (held s g) = gob_x g"
  by (simp_all add: held_def set_flag_def)

text \<open>The command to append one record, from its arrival to the response.\<close>

lemma daemon_append:
  assumes "evbuffer_ok (ld_ev D) c" "sqlite_ok (ld_sql D) rows saved" "sqlite_works (ld_sql D)" "link_up (ld_link D)"
    "idle_object b h t" "ready_request b t" "log_open b h d t" "pdu_dst p = gob_name h" "pdu_msg p = Some m" "cmd m = CMD_APPEND"
    "body m = BODY_CMD_APPEND [pbd]" "acceptable D (gob_nrecs h) pbd"
    "append_vrfy D (record_of D t pbd) pbd (held t h) = Some (True, e, h')" "gob_vrfy_ctx h' = Some ctx"
    "\<And>k. subs_live (sub_timeout (ld_timeout D) t) k (gob_reqs h) t"
    "\<And>d. fst (sqlite3_insert (ld_sql D) (row_of D ctx (record_of D t pbd)) d) = SQLITE_DONE"
  shows "\<exists>t' h2 d2 ps. logd_cmd D override descr p t = Some t' \<and> log_open b h2 d2 t' \<and>
    rows d2 = add_row (row_of D ctx (record_of D t pbd)) (rows d) \<and> gob_nrecs h2 = gob_nrecs h + 1 \<and>
    gob_name h2 = gob_name h \<and> idle_object b h2 t' \<and> ready_request b t' \<and>
    sent t' = sent t @ ps @ [out_pdu (response_to ACK_SUCCESS p m (BODY_ACK_SUCCESS None (pb_ts pbd) None None)) t]"
proof -
  have cm: "GDP_CMD_IS_COMMAND (cmd m)" "\<not> 255 < cmd m" "CmdFuncs D override (cmd m) = Some (cmd_append D)"
    using assms(10) daemon_functions by simp_all
  obtain r q b' fl mr pf u where s: "u = t\<lparr>GobsByUse := b # remove1 b (GobsByUse t), req_brk := b', ReqFreeList := fl, MaxRid := mr,
      pdu_freelist := pf, gobs := (gobs t)(b \<mapsto> held t h), reqs := (reqs t)(r \<mapsto> q), chan_reqs := r # chan_reqs t\<rparr>"
    "new_req 0 b p q" "r \<notin> set (gob_reqs h)"
    "\<forall>estat t' q' rp rm g'. cmd_append D r u = Some (estat, t') \<longrightarrow> still_served r b u t' \<longrightarrow> reqs t' r = Some q' \<longrightarrow> req_rpdu q' = Some rp \<longrightarrow>
      pdu_msg rp = Some rm \<longrightarrow> gobs t' b = Some g' \<longrightarrow>
      (\<exists>v. logd_cmd D override descr p t = Some v \<and>
        sent v = sent t' @ (if estat = GDP_STAT_RESPONSE_SENT then []
          else [out_pdu (rp\<lparr>pdu_msg := Some (rm\<lparr>cmd := gdp_acknak_from_estat estat (cmd rm)\<rparr>)\<rparr>) t']) \<and>
        gobs v b = Some (clr_flag GOBF_ISLOCKED (g'\<lparr>gob_refcnt := gob_refcnt h\<rparr>)) \<and>
        idle_object b (clr_flag GOBF_ISLOCKED (g'\<lparr>gob_refcnt := gob_refcnt h\<rparr>)) v \<and> ready_request b v)"
    by (rule daemon_served [where descr = descr, OF assms(5,6,8,9) cm assms(4)])
  have rc: "record_of D u pbd = record_of D t pbd" "sub_timeout (ld_timeout D) u = sub_timeout (ld_timeout D) t" "sent u = sent t"
    unfolding s(1) by (simp_all add: record_of_def sub_timeout_def now_ts_def)
  have lo: "log_open b (held t h) d u" "serves r b p m u"
    using assms(7,9) s(2) unfolding s(1) by (simp_all add: log_open_def serves_def GETPHYS_def new_req_def)
  have ap: "appends D [pbd] b (held t h) d ctx r p m u"
    unfolding appends_def using lo assms(11-14) by (simp add: rc(1))
  have sl: "subs_live (sub_timeout (ld_timeout D) u) r (gob_reqs (held t h)) u"
    unfolding rc(2) using assms(15) [of r] s(3) unfolding s(1) by (auto simp: subs_live_def)
  have st: "record_of D u pbd = turn_datum D (length [pbd] = 1) pbd (record_of D u pbd)" by (simp add: turn_datum_def)
  have v: "visited [pbd] = [pbd]" by simp
  obtain t1 h1 d1 q1 ps where a: "cmd_append D r u = Some (EP_STAT_OK, t1)" "log_open b h1 d1 t1"
    "rows d1 = add_row (row_of D ctx (record_of D t pbd)) (rows d)" "gob_nrecs h1 = gob_nrecs h + 1" "sent t1 = sent t @ ps"
    "reqs t1 r = Some q1" "req_rpdu q1 = Some (response_to ACK_SUCCESS p m (BODY_ACK_SUCCESS None (pb_ts pbd) None None))"
    "still_served r b u t1" "my_name t1 = my_name u"
    using append_success [OF assms(2-4) ap v sl st st assms(16) [folded rc(1)] refl] unfolding rc(1,3) held_fields by blast
  have g1: "gobs t1 b = Some h1" using a(2) by (simp add: log_open_def)
  let ?rp = "response_to ACK_SUCCESS p m (BODY_ACK_SUCCESS None (pb_ts pbd) None None)"
  obtain rm where rm: "pdu_msg ?rp = Some rm" "cmd rm = ACK_SUCCESS" by (simp add: response_to_def gdp_msg_new_def)
  have an: "gdp_acknak_from_estat EP_STAT_OK ACK_SUCCESS = ACK_SUCCESS" "EP_STAT_OK \<noteq> GDP_STAT_RESPONSE_SENT"
    by (simp_all add: gdp_acknak_from_estat_def gdp_acknak_default_def ACK_SUCCESS_def stat_simps mask_eq_exp_minus_1)
  have id: "?rp\<lparr>pdu_msg := Some (rm\<lparr>cmd := ACK_SUCCESS\<rparr>)\<rparr> = ?rp" using rm by simp
  obtain t' where t': "logd_cmd D override descr p t = Some t'" "sent t' = sent t1 @ [out_pdu ?rp t1]"
    "gobs t' b = Some (clr_flag GOBF_ISLOCKED (h1\<lparr>gob_refcnt := gob_refcnt h\<rparr>))"
    "idle_object b (clr_flag GOBF_ISLOCKED (h1\<lparr>gob_refcnt := gob_refcnt h\<rparr>)) t'" "ready_request b t'"
    using s(4) [rule_format, OF a(1,8,6,7) rm(1) g1] unfolding rm(2) an(1) id if_not_P [OF an(2)] by blast
  have nm: "gob_name h1 = gob_name h" using a(8) g1 by (auto simp: still_served_def s(1))
  have "log_open b (clr_flag GOBF_ISLOCKED (h1\<lparr>gob_refcnt := gob_refcnt h\<rparr>)) d1 t'"
    using a(2) t'(3) by (auto simp: log_open_def GETPHYS_def clr_flag_def)
  moreover have "gob_nrecs (clr_flag GOBF_ISLOCKED (h1\<lparr>gob_refcnt := gob_refcnt h\<rparr>)) = gob_nrecs h + 1" using a(4) by simp
  ultimately show ?thesis
    using t'(1,2,4,5) a(3,5) nm
    by (intro exI [of _ t'] exI [of _ "clr_flag GOBF_ISLOCKED (h1\<lparr>gob_refcnt := gob_refcnt h\<rparr>)"] exI [of _ d1] exI [of _ ps])
      (simp add: out_pdu_def a(9) s(1))
qed

text \<open>The command to read one record.\<close>

lemma daemon_read:
  assumes "evbuffer_ok (ld_ev D) c" "sqlite_ok (ld_sql D) rows saved" "sqlite_works (ld_sql D)" "link_up (ld_link D)"
    "idle_object b h t" "ready_request b t" "log_open b h d t" "pdu_dst p = gob_name h" "pdu_msg p = Some m" "cmd m = CMD_READ_BY_RECNO"
    "body m = BODY_CMD_READ_BY_RECNO start (Some 0)" "0 \<le> start" "row \<in> set (rows d)" "row_recno row = start"
  shows "\<exists>t' x. logd_cmd D override descr p t = Some t' \<and> x \<in> set (rows d) \<and> row_recno x = start \<and>
    sent t' = sent t @ [out_pdu (content_pdu p m (row_pb x)) t]"
proof -
  have cm: "GDP_CMD_IS_COMMAND (cmd m)" "\<not> 255 < cmd m" "CmdFuncs D override (cmd m) = Some (cmd_read_by_recno D)"
    using assms(10) daemon_functions by simp_all
  obtain r q b' fl mr pf u where s: "u = t\<lparr>GobsByUse := b # remove1 b (GobsByUse t), req_brk := b', ReqFreeList := fl, MaxRid := mr,
      pdu_freelist := pf, gobs := (gobs t)(b \<mapsto> held t h), reqs := (reqs t)(r \<mapsto> q), chan_reqs := r # chan_reqs t\<rparr>"
    "new_req 0 b p q"
    "\<forall>estat t' q' rp rm g'. cmd_read_by_recno D r u = Some (estat, t') \<longrightarrow> still_served r b u t' \<longrightarrow> reqs t' r = Some q' \<longrightarrow>
      req_rpdu q' = Some rp \<longrightarrow> pdu_msg rp = Some rm \<longrightarrow> gobs t' b = Some g' \<longrightarrow>
      (\<exists>v. logd_cmd D override descr p t = Some v \<and>
        sent v = sent t' @ (if estat = GDP_STAT_RESPONSE_SENT then []
          else [out_pdu (rp\<lparr>pdu_msg := Some (rm\<lparr>cmd := gdp_acknak_from_estat estat (cmd rm)\<rparr>)\<rparr>) t']) \<and>
        gobs v b = Some (clr_flag GOBF_ISLOCKED (g'\<lparr>gob_refcnt := gob_refcnt h\<rparr>)) \<and>
        idle_object b (clr_flag GOBF_ISLOCKED (g'\<lparr>gob_refcnt := gob_refcnt h\<rparr>)) v \<and> ready_request b v)"
    by (rule daemon_served [where descr = descr, OF assms(5,6,8,9) cm assms(4)])
  have lo: "log_open b (held t h) d u" "serves r b p m u" "sent u = sent t" "my_name u = my_name t"
    using assms(7,9) s(2) unfolding s(1) by (simp_all add: log_open_def serves_def GETPHYS_def new_req_def)
  obtain t1 x q1 where a: "cmd_read_by_recno D r u = Some (GDP_STAT_RESPONSE_SENT, t1)" "x \<in> set (rows d)" "row_recno x = start"
    "sent t1 = sent u @ [out_pdu (content_pdu p m (row_pb x)) u]" "reqs t1 r = Some q1" "Option.bind (req_rpdu q1) pdu_msg \<noteq> None"
    "still_served r b u t1"
    using read_one_spec [OF assms(1-4) lo(1,2) assms(11-14)] by blast
  obtain rp rm where rp: "req_rpdu q1 = Some rp" "pdu_msg rp = Some rm" using a(6) by (auto simp: bind_eq_Some_conv)
  obtain g1 where g1: "gobs t1 b = Some g1" using a(7) by (auto simp: still_served_def)
  obtain t' where "logd_cmd D override descr p t = Some t'" "sent t' = sent t1 @ []"
    using s(3) [rule_format, OF a(1,7,5) rp g1] unfolding if_P [OF refl] by blast
  then show ?thesis using a(2-4) lo(3,4) by (intro exI [of _ t'] exI [of _ x]) (simp add: out_pdu_def)
qed

end
