(* ===== verification/Gdp_Exchange.thy ===== *)
theory Gdp_Exchange
  imports Logd_Command
begin

text \<open>
  A client and the log daemon together: the command that \<^verbatim>\<open>_gdp_gob_append_sync\<close> or
  \<^verbatim>\<open>_gdp_gob_read_by_recno\<close> sends reaches \<^verbatim>\<open>process_cmd\<close> of the daemon, and the response of the daemon reaches
  \<^verbatim>\<open>process_resp\<close> of the client while it waits in \<^verbatim>\<open>_gdp_invoke\<close>.  The network between them is not modelled: the
  PDU that one side hands to its channel is the one that the other side gets from its own.
\<close>

section \<open>The two sides\<close>

text \<open>A client that has an object open and a daemon that serves the log of it.\<close>

definition client_ready :: "('b, 'x) gdp_client \<Rightarrow> ('b \<Rightarrow> byte list) \<Rightarrow> nat \<Rightarrow> 'x gdp_gob \<Rightarrow> ('b, 'x) gdp_lib \<Rightarrow> bool" where
  "client_ready C c a g s \<longleftrightarrow> evbuffer_ok (cl_ev C) c \<and> link_up (cl_link C) \<and> open_object a g s \<and> ready_request a s"

definition log_ready :: "('b, 'd) logd \<Rightarrow> ('d \<Rightarrow> log_row list) \<Rightarrow> nat \<Rightarrow> 'd log_gob \<Rightarrow> 'd \<Rightarrow> ('b, 'd) logd_state \<Rightarrow> bool" where
  "log_ready D rows b h d t \<longleftrightarrow> (\<exists>c. evbuffer_ok (ld_ev D) c) \<and> (\<exists>saved. sqlite_ok (ld_sql D) rows saved) \<and> sqlite_works (ld_sql D) \<and>
     link_up (ld_link D) \<and> idle_object b h t \<and> ready_request b t \<and> log_open b h d t"

text \<open>The daemon takes the record \<open>pbd\<close> and stores it as \<open>row\<close>: the signature is accepted, the subscriptions are live, and
  the database has room for the row and none with its hash.\<close>

definition takes_record :: "('b, 'd) logd \<Rightarrow> log_row list \<Rightarrow> 'd log_gob \<Rightarrow> ('b, 'd) logd_state \<Rightarrow> pb_datum \<Rightarrow> log_row \<Rightarrow> bool" where
  "takes_record D old h t pbd row \<longleftrightarrow>
     (\<exists>e h' ctx. append_vrfy D (record_of D t pbd) pbd (held t h) = Some (True, e, h') \<and> gob_vrfy_ctx h' = Some ctx \<and>
        row = row_of D ctx (record_of D t pbd)) \<and>
     (\<forall>k. subs_live (sub_timeout (ld_timeout D) t) k (gob_reqs h) t) \<and>
     (\<forall>d. fst (sqlite3_insert (ld_sql D) row d) = SQLITE_DONE) \<and> row_hash row \<notin> row_hash ` set old"

lemma taken_row:
  assumes "takes_record D old h t pbd row" "evbuffer_ok (ld_ev D) c"
  shows "row_recno row = pb_recno pbd" "row_value row = pb_data pbd"
  using assms record_of_data [OF assms(2), of t pbd]
  by (auto simp: takes_record_def row_of_fields [OF assms(2)] record_of_def from_pb_fields [OF assms(2)])

lemma sent_record:
  assumes "client_ready C c a g s"
  shows "pb_recno (gdp_datum_to_pb (cl_ev C) (stamped C s g prev datum) init_pb) = gob_nrecs g + 1"
    "pb_data (gdp_datum_to_pb (cl_ev C) (stamped C s g prev datum) init_pb) = data_of c datum"
proof -
  have "evbuffer_ok (cl_ev C) c" using assms by (simp add: client_ready_def)
  note to_pb_fields [OF this, of "stamped C s g prev datum"]
  then show "pb_recno (gdp_datum_to_pb (cl_ev C) (stamped C s g prev datum) init_pb) = gob_nrecs g + 1"
    "pb_data (gdp_datum_to_pb (cl_ev C) (stamped C s g prev datum) init_pb) = data_of c datum"
    by (simp_all add: stamped_fields data_of_def)
qed

section \<open>Responses\<close>

lemma response_answers:
  assumes "pdu_dst p = name" "gdp_name_is_valid name" "c \<in> {ACK_SUCCESS, ACK_CONTENT}" "c = ACK_CONTENT \<longrightarrow> (\<exists>x xs more. b = BODY_ACK_CONTENT (x # xs) more)"
  shows "answers Map.empty name m (out_pdu (response_to c p m b) t) c" "pdu_dst (out_pdu (response_to c p m b) t) = pdu_src p"
    "response_stat c = GDP_STAT_FROM_ACK (uint c)" "response_stat c \<noteq> GDP_STAT_NAK_NOROUTE"
    "dispatch_func c = Some ACK_DATA_CONTENT_FN \<longleftrightarrow> c = ACK_CONTENT"
proof -
  have d: "dispatch_func 128 = Some ACK_SUCCESS_FN" "dispatch_func 133 = Some ACK_DATA_CONTENT_FN"
    by (simp_all add: dispatch_func_def DispatchTable_def)
  show "answers Map.empty name m (out_pdu (response_to c p m b) t) c" "pdu_dst (out_pdu (response_to c p m b) t) = pdu_src p"
    using assms d by (auto simp: answers_def out_pdu_def response_to_def gdp_msg_new_def pdu_msg_flags_def GDP_PDU_NO_RID_def
      ACK_SUCCESS_def ACK_CONTENT_def content_ok_def)
  show "response_stat c = GDP_STAT_FROM_ACK (uint c)"
    using assms(3) d by (auto simp: response_stat_def ACK_SUCCESS_def ACK_CONTENT_def)
  then show "response_stat c \<noteq> GDP_STAT_NAK_NOROUTE"
    using assms(3) by (auto simp: ACK_SUCCESS_def ACK_CONTENT_def stat_simps GDP_STAT_FROM_ACK_def GDP_STAT_NEW_def EP_STAT_NEW_def mask_eq_exp_minus_1)
  show "dispatch_func c = Some ACK_DATA_CONTENT_FN \<longleftrightarrow> c = ACK_CONTENT"
    using assms(3) d by (auto simp: ACK_SUCCESS_def ACK_CONTENT_def)
qed

text \<open>The client that appends, once the daemon has sent its response.\<close>

lemma append_returns:
  fixes C :: "('b, 'x) gdp_client" and E :: "('b, 'z) evbuffer_scheme"
  assumes "client_ready C c a g s" "gob_vrfy_ctx g = Some ctx" "GDP_DATUM_ISGOOD datum"
    "pbd = gdp_datum_to_pb (cl_ev C) (stamped C s g prev datum) init_pb"
  obtains p m where "pdu_msg p = Some m" "cmd m = CMD_APPEND" "pdu_dst p = gob_name g" "body m = BODY_CMD_APPEND [pbd]"
    "\<forall>(t :: ('e, 'f) gdp_lib) b rpdu. rpdu = out_pdu (response_to ACK_SUCCESS p m (BODY_ACK_SUCCESS None b None None)) t \<longrightarrow> pdu_dst rpdu = my_name s \<and>
      (\<exists>s' g'. gdp_gob_append_sync C [(0, process_resp E vf Map.empty descr n sha rpdu)] [datum] prev 0 a s =
        Some (GDP_STAT_FROM_ACK (uint ACK_SUCCESS), [stamped C s g prev datum], s') \<and> sent s' = sent s @ [p] \<and>
        gobs s' a = Some g' \<and> gob_nrecs g' = gob_nrecs g + 1)"
proof -
  have o: "open_object a g s" "ready_request a s" "link_up (cl_link C)" "gdp_name_is_valid (gob_name g)"
    using assms(1) by (simp_all add: client_ready_def open_object_def)
  show thesis
  proof (rule client_append [OF o(1-3) assms(2,3), of prev])
    fix p :: gdp_pdu and m :: gdp_msg
    assume p: "pdu_msg p = Some m" "cmd m = CMD_APPEND" "pdu_dst p = gob_name g" "pdu_src p = my_name s"
      "body m = BODY_CMD_APPEND [gdp_datum_to_pb (cl_ev C) (stamped C s g prev datum) init_pb]"
    assume r: "\<And>(E :: ('b, 'z) evbuffer_scheme) vf cf descr n sha rpdu c. answers cf (gob_name g) m rpdu c \<Longrightarrow> response_stat c \<noteq> GDP_STAT_NAK_NOROUTE \<Longrightarrow>
      dispatch_func c \<noteq> Some ACK_DATA_CONTENT_FN \<Longrightarrow>
      \<exists>s' g'. gdp_gob_append_sync C [(0, process_resp E vf cf descr n sha rpdu)] [datum] prev 0 a s =
        Some (response_stat c, [stamped C s g prev datum], s') \<and> sent s' = sent s @ [p] \<and> gobs s' a = Some g' \<and>
        has_flag GOBF_ISLOCKED g' \<and> gob_refcnt g' = gob_refcnt g \<and> gob_nrecs g' = gob_nrecs g + 1"
    show thesis
    proof (rule that [OF p(1-3) p(5) [folded assms(4)]], intro allI impI)
      fix t :: "('e, 'f) gdp_lib" and b rpdu
      let ?b = "BODY_ACK_SUCCESS None b None None"
      assume rp: "rpdu = out_pdu (response_to ACK_SUCCESS p m ?b) t"
      have ok: "ACK_SUCCESS \<in> {ACK_SUCCESS, ACK_CONTENT}" "ACK_SUCCESS = ACK_CONTENT \<longrightarrow> (\<exists>x xs more. ?b = BODY_ACK_CONTENT (x # xs) more)"
        "ACK_SUCCESS \<noteq> ACK_CONTENT"
        by (simp_all add: ACK_SUCCESS_def ACK_CONTENT_def)
      note ra = response_answers(1,2) [OF p(3) o(4) ok(1,2), of m t, folded rp] response_answers(3-5) [OF p(3) o(4) ok(1,2)]
      have "dispatch_func ACK_SUCCESS \<noteq> Some ACK_DATA_CONTENT_FN" using ra(5) ok(3) by simp
      from r [OF ra(1,4) this, of E vf descr n sha] ra(2) p(4)
      show "pdu_dst rpdu = my_name s \<and>
        (\<exists>s' g'. gdp_gob_append_sync C [(0, process_resp E vf Map.empty descr n sha rpdu)] [datum] prev 0 a s =
          Some (GDP_STAT_FROM_ACK (uint ACK_SUCCESS), [stamped C s g prev datum], s') \<and> sent s' = sent s @ [p] \<and>
          gobs s' a = Some g' \<and> gob_nrecs g' = gob_nrecs g + 1)"
        unfolding ra(3) by simp blast
    qed
  qed
qed

text \<open>The client that reads, once the daemon has sent the record.\<close>

lemma read_returns:
  fixes C :: "('b, 'x) gdp_client" and E :: "('b, 'z) evbuffer_scheme"
  assumes "client_ready C c a g s" "GDP_DATUM_ISGOOD datum"
  obtains p m where "pdu_msg p = Some m" "cmd m = CMD_READ_BY_RECNO" "pdu_dst p = gob_name g" "body m = BODY_CMD_READ_BY_RECNO rn (Some 0)"
    "\<forall>(t :: ('e, 'f) gdp_lib) pb rpdu. rpdu = out_pdu (content_pdu p m pb) t \<longrightarrow> pdu_dst rpdu = my_name s \<and>
      (\<exists>s' datum'. gdp_gob_read_by_recno C [(0, process_resp E vf Map.empty descr n sha rpdu)] rn 0 datum a s =
        Some (GDP_STAT_FROM_ACK (uint ACK_CONTENT), datum', s') \<and> sent s' = sent s @ [p] \<and> recno datum' = pb_recno pb \<and>
        data_of c datum' = data_of c datum @ pb_data pb)"
proof -
  have o: "open_object a g s" "ready_request a s" "link_up (cl_link C)" "gdp_name_is_valid (gob_name g)" "evbuffer_ok (cl_ev C) c"
    using assms(1) by (simp_all add: client_ready_def open_object_def)
  show thesis
  proof (rule client_read [OF o(1-3) assms(2), of rn])
    fix p :: gdp_pdu and m :: gdp_msg
    assume p: "pdu_msg p = Some m" "cmd m = CMD_READ_BY_RECNO" "pdu_dst p = gob_name g" "pdu_src p = my_name s"
      "body m = BODY_CMD_READ_BY_RECNO rn (Some 0)"
    assume r: "\<And>(E :: ('b, 'z) evbuffer_scheme) vf cf descr n sha rpdu c rm pb more. answers cf (gob_name g) m rpdu c \<Longrightarrow> dispatch_func c = Some ACK_DATA_CONTENT_FN \<Longrightarrow>
      pdu_msg rpdu = Some rm \<Longrightarrow> body rm = BODY_ACK_CONTENT [pb] more \<Longrightarrow>
      \<exists>s' g'. gdp_gob_read_by_recno C [(0, process_resp E vf cf descr n sha rpdu)] rn 0 datum a s =
        Some (response_stat c, gdp_datum_from_pb (cl_ev C) datum pb (msg_sig rm), s') \<and> sent s' = sent s @ [p] \<and> gobs s' a = Some g' \<and>
        has_flag GOBF_ISLOCKED g' \<and> gob_refcnt g' = gob_refcnt g"
    show thesis
    proof (rule that [OF p(1-3,5)], intro allI impI)
      fix t :: "('e, 'f) gdp_lib" and pb rpdu
      let ?b = "BODY_ACK_CONTENT [pb] None"
      assume rp: "rpdu = out_pdu (content_pdu p m pb) t"
      have ok: "ACK_CONTENT \<in> {ACK_SUCCESS, ACK_CONTENT}" "ACK_CONTENT = ACK_CONTENT \<longrightarrow> (\<exists>x xs more. ?b = BODY_ACK_CONTENT (x # xs) more)"
        by simp_all
      note ra = response_answers(1,2) [OF p(3) o(4) ok, of m t, folded content_pdu_def rp] response_answers(3-5) [OF p(3) o(4) ok]
      obtain rm where rm: "pdu_msg rpdu = Some rm" "body rm = ?b"
        unfolding rp content_pdu_def by (simp add: response_to_def pdu_msg_flags_def)
      have d: "dispatch_func ACK_CONTENT = Some ACK_DATA_CONTENT_FN" using ra(5) by simp
      from r [OF ra(1) d rm, of E vf descr n sha] ra(2) p(4) from_pb_fields(1,2) [OF o(5), of datum pb "msg_sig rm"]
      show "pdu_dst rpdu = my_name s \<and>
        (\<exists>s' datum'. gdp_gob_read_by_recno C [(0, process_resp E vf Map.empty descr n sha rpdu)] rn 0 datum a s =
          Some (GDP_STAT_FROM_ACK (uint ACK_CONTENT), datum', s') \<and> sent s' = sent s @ [p] \<and> recno datum' = pb_recno pb \<and>
          data_of c datum' = data_of c datum @ pb_data pb)"
        unfolding ra(3) by auto
    qed
  qed
qed

section \<open>The daemon\<close>

lemma log_takes:
  assumes "log_ready D rows b h d t" "takes_record D (rows d) h t pbd row" "pdu_dst p = gob_name h" "pdu_msg p = Some m" "cmd m = CMD_APPEND"
    "body m = BODY_CMD_APPEND [pbd]" "acceptable D (gob_nrecs h) pbd"
  obtains t' h2 d2 ps where "logd_cmd D override descr p t = Some t'" "log_ready D rows b h2 d2 t'" "rows d2 = rows d @ [row]"
    "gob_nrecs h2 = gob_nrecs h + 1" "gob_name h2 = gob_name h" "row_recno row = pb_recno pbd" "row_value row = pb_data pbd"
    "sent t' = sent t @ ps @ [out_pdu (response_to ACK_SUCCESS p m (BODY_ACK_SUCCESS None (pb_ts pbd) None None)) t]"
proof -
  obtain c saved where l: "evbuffer_ok (ld_ev D) c" "sqlite_ok (ld_sql D) rows saved" "sqlite_works (ld_sql D)" "link_up (ld_link D)"
    "idle_object b h t" "ready_request b t" "log_open b h d t"
    using assms(1) by (auto simp: log_ready_def)
  obtain e h' ctx where v: "append_vrfy D (record_of D t pbd) pbd (held t h) = Some (True, e, h')" "gob_vrfy_ctx h' = Some ctx"
    "row = row_of D ctx (record_of D t pbd)"
    using assms(2) unfolding takes_record_def by blast
  have k: "subs_live (sub_timeout (ld_timeout D) t) k (gob_reqs h) t" "fst (sqlite3_insert (ld_sql D) (row_of D ctx (record_of D t pbd)) d) = SQLITE_DONE"
    for k d
    using assms(2) unfolding takes_record_def v(3) by simp_all
  have "add_row row (rows d) = rows d @ [row]" using assms(2) by (simp add: takes_record_def add_row_def)
  then show thesis
    using daemon_append [OF l assms(3-7) v(1,2) k, of override descr] taken_row [OF assms(2) l(1)] l(1-4) that unfolding v(3) log_ready_def
    by metis
qed

lemma log_gives:
  assumes "log_ready D rows b h d t" "pdu_dst p = gob_name h" "pdu_msg p = Some m" "cmd m = CMD_READ_BY_RECNO"
    "body m = BODY_CMD_READ_BY_RECNO start (Some 0)" "0 \<le> start" "row \<in> set (rows d)" "row_recno row = start"
  obtains t' x where "logd_cmd D override descr p t = Some t'" "x \<in> set (rows d)" "row_recno x = start"
    "sent t' = sent t @ [out_pdu (content_pdu p m (row_pb x)) t]"
proof -
  obtain c saved where l: "evbuffer_ok (ld_ev D) c" "sqlite_ok (ld_sql D) rows saved" "sqlite_works (ld_sql D)" "link_up (ld_link D)"
    "idle_object b h t" "ready_request b t" "log_open b h d t"
    using assms(1) by (auto simp: log_ready_def)
  show thesis using daemon_read [OF l assms(2-8), of override descr] that by blast
qed

section \<open>An instance\<close>

text \<open>The log of the daemon, empty, without subscriptions, and in the cache.\<close>

definition empty_log :: "list_db log_gob" where
  "empty_log = zeroed_gob\<lparr>gob_name := sample_name, gob_flags := GOBF_INUSE OR GOBF_INCACHE, gob_refcnt := 1,
     gob_vrfy_ctx := Some [], gob_x := Some \<lparr>physinfo = Some (physinfo_alloc ([], []))\<rparr>\<rparr>"

lemma empty_log_fields [simp]:
  "has_flag GOBF_INCACHE empty_log" "has_flag GOBF_INUSE empty_log" "\<not> has_flag GOBF_ISLOCKED empty_log" "\<not> has_flag GOBF_DROPPING empty_log"
  "\<not> has_flag GOBF_KEEPLOCKED empty_log" "\<not> has_flag GOBF_PENDING empty_log" "\<not> has_flag GOBF_VERIFYING empty_log" "gob_refcnt empty_log = 1"
  "gob_reqs empty_log = []" "gob_name empty_log = sample_name" "gob_vrfy_ctx empty_log = Some []" "gob_nrecs empty_log = 0"
  by (simp_all add: empty_log_def has_flag_def EP_UT_BITSET_def GOBF_INCACHE_def GOBF_INUSE_def GOBF_ISLOCKED_def GOBF_DROPPING_def
    GOBF_KEEPLOCKED_def GOBF_PENDING_def GOBF_VERIFYING_def zeroed_gob_def)

lemma sample_client_ready: "client_ready sample_client (\<lambda>b. b) 0 open_gob (one_object open_gob)"
  using sample_open list_evbuffer_ok by (simp add: client_ready_def)

lemma sample_log_ready: "log_ready (sample_logd False) fst 0 empty_log ([], []) (one_object empty_log)"
proof -
  have "idle_object 0 empty_log (one_object empty_log)" using one_object_inv [of empty_log] by (simp add: idle_object_def) (simp add: one_object_def)
  moreover have "log_open 0 empty_log ([], []) (one_object empty_log)"
    by (simp add: log_open_def empty_log_def GETPHYS_def physinfo_alloc_def)
  ultimately show ?thesis
    using sample_hyps [of False] sample_link_up [of False] one_object_ready [of empty_log] by (auto simp: log_ready_def)
qed

lemma sample_takes:
  "takes_record (sample_logd False) (fst ([], [])) empty_log t pbd (row_of (sample_logd False) [] (record_of (sample_logd False) t pbd))"
proof -
  let ?h = "held t empty_log"
  have h: "gob_vrfy_ctx ?h = Some []" "\<not> has_flag GOBF_VERIFYING ?h"
    by (simp_all add: held_def) (simp_all add: set_flag_def EP_UT_BITSET_def GOBF_VERIFYING_def GOBF_ISLOCKED_def)
  have "gob_vrfy_datum E C datum ?h = Some (EP_STAT_OK, ?h)" for E :: "byte list evbuffer" and C datum
    using h by (simp add: gob_vrfy_datum_def gdp_datum_vrfy_gob_def vrfy_ctx_of_def)
  moreover have "EP_STAT_OK \<noteq> GDP_STAT_CRYPTO_NO_PUB_KEY" "EP_STAT_OK \<noteq> GDP_STAT_CRYPTO_NO_SIG" "EP_STAT_OK \<noteq> GDP_STAT_CRYPTO_VRFY_FAIL"
    by (simp_all add: stat_simps mask_eq_exp_minus_1)
  moreover have "\<not> strict (sample_logd False) GDP_SIG_PUBKEYREQ"
    by (simp add: strict_def sample_logd_def EP_UT_BITSET_def GDP_SIG_PUBKEYREQ_def)
  ultimately have "append_vrfy (sample_logd False) datum pbd ?h = Some (True, EP_STAT_OK, ?h)" for datum
    using h(2) by (simp add: append_vrfy_def)
  then show ?thesis using h(1) sample_insert(1) by (auto simp: takes_record_def subs_live_def)
qed

end
