(* ===== verification/Spec2Isabelle.thy ===== *)
theory Spec2Isabelle
  imports Ep_Xlate Gdp_Exchange
begin

text \<open>
  A verification library of the Global Data Plane, a network of append-only logs: the C library \<^verbatim>\<open>gdp\<close>, its support
  library \<^verbatim>\<open>ep\<close> and the log daemon \<^verbatim>\<open>gdplogd\<close>.

  \<^bold>\<open>The program.\<close>  A log is an object (GOB) with a 256-bit name.  A program opens an instance (GIN) of it and
  appends, reads or subscribes.  Each operation makes a request, whose command goes out as a protobuf message in a packet
  on the channel to the routing layer, and waits for the response (or, for an asynchronous operation, leaves events to be
  collected).  The log daemon gets commands through the same library, keeps the records of a log in an SQLite database, and
  sends every new record to the subscribers.  Client and daemon keep the objects in a cache with reference counts.

  \<^bold>\<open>The theories and the sources.\<close>
    \<^item> \<^verbatim>\<open>Gdp_Prelude\<close>: machine types, collections of facts, shared lemmas, and the contracts \<open>keyed_store\<close> and
      \<open>keyed_store_del\<close> of a store with keys.
    \<^item> \<^verbatim>\<open>Ep_Stat\<close> (\<^verbatim>\<open>ep_stat\<close>, \<^verbatim>\<open>gdp_stat\<close>): status words, command classes and the conversion from and to responses.
      \<^verbatim>\<open>Ep_Hash\<close> (\<^verbatim>\<open>ep_hash.c\<close>), \<^verbatim>\<open>Ep_B64\<close> (\<^verbatim>\<open>ep_b64.c\<close>), \<^verbatim>\<open>Ep_Time\<close> (\<^verbatim>\<open>ep_time.c\<close>), \<^verbatim>\<open>Ep_Xlate\<close> (\<^verbatim>\<open>ep_xlate.c\<close>).
    \<^item> \<^verbatim>\<open>Gdp_Wire\<close> (the byte-order macros of \<^verbatim>\<open>gdp_priv.h\<close>, with the contract \<open>codec\<close>), \<^verbatim>\<open>Gdp_Md\<close> (\<^verbatim>\<open>gdp_md.c\<close>),
      \<^verbatim>\<open>Gdp_Name\<close> (\<^verbatim>\<open>gdp_name.c\<close>), \<^verbatim>\<open>Gdp_Buf\<close> (\<^verbatim>\<open>gdp_buf.c\<close>), \<^verbatim>\<open>Gdp_Datum\<close> (\<^verbatim>\<open>gdp_datum.c\<close>, parts of \<^verbatim>\<open>gdp_crypto.c\<close>).
    \<^item> \<^verbatim>\<open>Gdp_Chan\<close> (\<^verbatim>\<open>gdp_chan.c\<close>): packets and the channel.  \<^verbatim>\<open>Gdp_Pdu\<close> (\<^verbatim>\<open>gdp_pdu.c\<close>, \<^verbatim>\<open>gdp_msg.c\<close>, \<^verbatim>\<open>gdp.proto\<close>): messages.
    \<^item> \<^verbatim>\<open>Gdp_Event\<close> (\<^verbatim>\<open>gdp_event.c\<close>): requests as a structure, and events.
    \<^item> \<^verbatim>\<open>Gdp_Gob\<close> (\<^verbatim>\<open>gdp_gob_mgmt.c\<close>, \<^verbatim>\<open>gdp_gob_cache.c\<close>): objects and their cache.  \<^verbatim>\<open>Gdp_Cache\<close> and \<^verbatim>\<open>Gdp_Cache_Steps\<close>
      prove the invariant of the cache.  \<^verbatim>\<open>Gdp_Req\<close> (\<^verbatim>\<open>gdp_req.c\<close>): requests.
    \<^item> \<^verbatim>\<open>Gdp_Proto\<close> (\<^verbatim>\<open>gdp_proto.c\<close>, \<^verbatim>\<open>gdp_main.c\<close>): dispatch, \<^verbatim>\<open>_gdp_invoke\<close>, \<^verbatim>\<open>process_cmd\<close> and \<^verbatim>\<open>process_resp\<close>;
      \<^verbatim>\<open>Gdp_Invoke\<close> proves what an invocation returns.
    \<^item> \<^verbatim>\<open>Gdp_Gob_Ops\<close> (\<^verbatim>\<open>gdp_gob_ops.c\<close>) and \<^verbatim>\<open>Gdp_Api\<close> (\<^verbatim>\<open>gdp_api.c\<close>, \<^verbatim>\<open>gdp_subscr.c\<close>): the operations of a client.
      \<^verbatim>\<open>Gdp_Client\<close> proves what they send and return.
    \<^item> \<^verbatim>\<open>Logd_Sqlite\<close> (\<^verbatim>\<open>logd_sqlite.c\<close>), \<^verbatim>\<open>Logd_Pubsub\<close> (\<^verbatim>\<open>logd_gcl.c\<close>, \<^verbatim>\<open>logd_pubsub.c\<close>) and \<^verbatim>\<open>Logd_Proto\<close>
      (\<^verbatim>\<open>logd_proto.c\<close>): the daemon.  \<^verbatim>\<open>Logd_Log\<close>, \<^verbatim>\<open>Logd_Append\<close> and \<^verbatim>\<open>Logd_Service\<close> prove what its commands do,
      \<^verbatim>\<open>Logd_Command\<close> follows a command through \<^verbatim>\<open>process_cmd\<close> of the daemon.
    \<^item> \<^verbatim>\<open>Gdp_Exchange\<close> puts a client and the daemon together; this theory has the properties of the whole.

  \<^bold>\<open>State and operations.\<close>  A definition has the name of the function it models, without a leading underscore.  Values without
  identity (buffers, records, metadata, tables) are passed and returned; objects and requests, which are shared, live in the
  stores \<open>gobs\<close> and \<open>reqs\<close> of the record \<open>gdp_lib\<close> under their addresses, next to the free lists, the cache, the list of requests
  of the channel, the event queues, the clock and what has been sent.  \<open>gob_x\<close> is the part of an object that only the
  daemon has.  Machine words keep their width where the code can wrap (the \<^verbatim>\<open>int64_t\<close> of the time arithmetic is an integer that is cut
  to 64 bits); lengths of lists and counters that cannot are
  numbers.  An early return or an error is a status word in the result.  \<open>None\<close> stands for what the C program does not survive
  or come back from: a null or dangling pointer that is followed, an access outside of a buffer, a lock that is held,
  a loop that does not end.

  \<^bold>\<open>Parameters.\<close>  Code outside of the repository is a record of the functions the code calls, and what the code relies on is a
  predicate on the record: \<open>evbuffer_ok\<close> for the buffers of libevent, \<open>sqlite_ok\<close> and \<open>sqlite_works\<close> for SQLite, \<open>link_up\<close> for a
  channel that is open and takes what is written, and similar ones for the packing of protobuf messages, sockets,
  and the MySQL directory.  Digests, signatures and keys are parameters without laws.  Each predicate has an instance on which
  the properties are evaluated (\<open>list_evbuffer\<close>, \<open>list_sqlite\<close>, \<open>sample_link\<close>, ...).

  \<^bold>\<open>What is shown.\<close>  In the order of the layers:
    \<^item> Encodings: base 64, escaped text, printable names, metadata and the byte-order macros read back what they wrote; computed
      lengths are those written; an input that makes the reader of metadata leave its buffer is exhibited.
    \<^item> The hash table implements a map (for up to \<open>2 ^ 30\<close> buckets), and the list of metadata a store with keys.  Adding times adds their
      nanoseconds modulo 64 bits.
    \<^item> Channel and messages: packets and messages arrive unchanged and in order however the stream is cut into reads.  The
      exceptions are exhibited: a packet of announced length zero stops the reader for good, a message that is too long is dropped
      with success.
    \<^item> Records: the digest determines number, time, predecessor and data, and a record has the same digest
      after its transfer exactly when it carries no hash of a predecessor.
    \<^item> Events are neither lost nor doubled, and are delivered in order when none is pending and they come in order; insertion ends unless the
      end of the results of a persistent request is pending.  Two loops that do not end and the position at which a late event is inserted are exhibited.
    \<^item> The cache: in every state that the operations and the changes the rest of the program makes to objects lead to (the step relation \<open>cache_step\<close>), the
      list by use, the flags and the free list agree and the table leads to cached objects; it leads to all of them as long as no name has been
      entered twice, which the operations do not prevent (exhibited) and their callers must.  Reclaiming ends, frees what is old and unused, and
      spares the rest; a lookup finds what an earlier one made, once its opener has finished.
    \<^item> Invocation: a response reaches the caller that waits for it with the status that belongs to it; without a response the caller
      is told success, and opening a log then follows a null pointer.
    \<^item> The daemon: reads return the records asked for, in order, without the acknowledgement that \<^verbatim>\<open>gdp.proto\<close> puts before them; a record is stored, published and acknowledged; a failing
      insertion leaves the log as it was.  Exhibited: of two records appended at once only the first is stored, and a
      subscription cannot be ended.
    \<^item> The whole: a record that a client appends is stored by the daemon under the next number, and a client that reads this
      number gets its data.

  \<^bold>\<open>Bounds.\<close>  Loops that end are total functions.  Loops that may not (reading from a channel, opening it again, triggering
  pending events, waiting for an event) are \<open>partial_function\<close> in the option type, and where the code relies on their end it
  is proved.  \<open>gdp_gob_free\<close> has a bound on its depth (\<open>cl_depth\<close> and \<open>ld_depth\<close> in the records of a client and of the daemon):
  releasing an object releases its requests, which may drop the last reference to it and so call the function again.  One
  level is enough for reclaiming, since an object without references has no requests left, and none is needed where no
  object is released; the theorems are stated for every such bound.  The split
  of an address list is bounded by its length.  The waits of \<^verbatim>\<open>_gdp_invoke\<close> are a list, one item for each wait, with what other threads did
  meanwhile.

  \<^bold>\<open>Not modelled.\<close>  Threads are not, apart from what the list of waits and the sequences of steps express; of the locks, those of
  objects, of the cache and of opening an object are, as flags, those of single requests are not.  Start-up, configuration files, key files,
  dates as text, printing and debugging output are input and output.  The discovery by Avahi, the start of the daemon, the
  directory service and the programs under \<^verbatim>\<open>apps\<close> are calls of other systems around this library.  Releasing memory has no
  counterpart.  Of the programming interface, the operations by time stamp or hash (which the library does not implement) and
  unsubscribing are left out, and of the storage the removal of files and the iteration over the directory.
\<close>

section \<open>Appending and reading\<close>






section \<open>Client and daemon\<close>

text \<open>C1: a record that one client has appended can be read by another.  The command of the first client makes the daemon
  store one row and send a response, with which the first client returns success; the command of the second client
  with the number of the record then makes the daemon send that record, with which the second client returns the number
  and the data the first client gave.  The first client counts as many records as the daemon does, the daemon takes the record,
  and no record of the log has its number.\<close>

theorem client_append_read:
  fixes D :: "('e, 'd) logd"
  assumes "client_ready C c a g s" "gob_vrfy_ctx g = Some ctx" "GDP_DATUM_ISGOOD datum" "0 \<le> gob_nrecs g"
    "log_ready D rows b h d t" "gob_name h = gob_name g" "gob_nrecs h = gob_nrecs g"
    "takes_record D (rows d) h t (gdp_datum_to_pb (cl_ev C) (stamped C s g prev datum) init_pb) row"
    "\<forall>x\<in>set (rows d). row_recno x \<noteq> gob_nrecs g + 1"
    "client_ready C' c' a' g' s'" "gob_name g' = gob_name g" "GDP_DATUM_ISGOOD buf" "data_of c' buf = []"
  shows "\<exists>p r u t' p' r' u' t'' datum'.
    gdp_gob_append_sync C [(0, process_resp (cl_ev C) vf Map.empty descr n sha r)] [datum] prev 0 a s =
      Some (GDP_STAT_FROM_ACK (uint ACK_SUCCESS), [stamped C s g prev datum], u) \<and> sent u = sent s @ [p] \<and>
    logd_cmd D override descr' p t = Some t' \<and> r \<in> set (drop (length (sent t)) (sent t')) \<and> pdu_dst r = my_name s \<and>
    gdp_gob_read_by_recno C' [(0, process_resp (cl_ev C') vf' Map.empty descr n sha r')] (gob_nrecs g + 1) 0 buf a' s' =
      Some (GDP_STAT_FROM_ACK (uint ACK_CONTENT), datum', u') \<and> sent u' = sent s' @ [p'] \<and>
    logd_cmd D override descr' p' t' = Some t'' \<and> sent t'' = sent t' @ [r'] \<and> pdu_dst r' = my_name s' \<and>
    recno datum' = gob_nrecs g + 1 \<and> data_of c' datum' = data_of c datum"
proof -
  define pbd where pbd: "pbd = gdp_datum_to_pb (cl_ev C) (stamped C s g prev datum) init_pb"
  have f: "pb_recno pbd = gob_nrecs g + 1" "pb_data pbd = data_of c datum"
    unfolding pbd by (rule sent_record [OF assms(1)])+
  obtain p m where p: "pdu_msg p = Some m" "cmd m = CMD_APPEND" "pdu_dst p = gob_name g" "body m = BODY_CMD_APPEND [pbd]"
    "\<forall>(t :: ('e, 'd) logd_state) b rpdu. rpdu = out_pdu (response_to ACK_SUCCESS p m (BODY_ACK_SUCCESS None b None None)) t \<longrightarrow> pdu_dst rpdu = my_name s \<and>
      (\<exists>u g'. gdp_gob_append_sync C [(0, process_resp (cl_ev C) vf Map.empty descr n sha rpdu)] [datum] prev 0 a s =
        Some (GDP_STAT_FROM_ACK (uint ACK_SUCCESS), [stamped C s g prev datum], u) \<and> sent u = sent s @ [p] \<and>
        gobs u a = Some g' \<and> gob_nrecs g' = gob_nrecs g + 1)"
    by (rule append_returns [OF assms(1-3) pbd])
  obtain q k where q: "pdu_msg q = Some k" "cmd k = CMD_READ_BY_RECNO" "pdu_dst q = gob_name g'"
    "body k = BODY_CMD_READ_BY_RECNO (gob_nrecs g + 1) (Some 0)"
    "\<forall>(t :: ('e, 'd) logd_state) pb rpdu. rpdu = out_pdu (content_pdu q k pb) t \<longrightarrow> pdu_dst rpdu = my_name s' \<and>
      (\<exists>u x. gdp_gob_read_by_recno C' [(0, process_resp (cl_ev C') vf' Map.empty descr n sha rpdu)] (gob_nrecs g + 1) 0 buf a' s' =
        Some (GDP_STAT_FROM_ACK (uint ACK_CONTENT), x, u) \<and> sent u = sent s' @ [q] \<and> recno x = pb_recno pb \<and>
        data_of c' x = data_of c' buf @ pb_data pb)"
    by (rule read_returns [OF assms(10,12)])
  have ac: "acceptable D (gob_nrecs h) pbd" "pdu_dst p = gob_name h" using f(1) p(3) assms(4,6,7) by (simp_all add: acceptable_def)
  obtain t' h' d' ps where t': "logd_cmd D override descr' p t = Some t'" "log_ready D rows b h' d' t'" "rows d' = rows d @ [row]"
    "gob_name h' = gob_name h" "row_recno row = pb_recno pbd" "row_value row = pb_data pbd"
    "sent t' = sent t @ ps @ [out_pdu (response_to ACK_SUCCESS p m (BODY_ACK_SUCCESS None (pb_ts pbd) None None)) t]"
    by (rule log_takes [OF assms(5) assms(8) [folded pbd] ac(2) p(1,2,4) ac(1)])
  have r: "pdu_dst q = gob_name h'" "0 \<le> gob_nrecs g + 1" "row \<in> set (rows d')" "row_recno row = gob_nrecs g + 1"
    using q(3) assms(4,6,11) t'(3-5) f(1) by simp_all
  obtain t'' x where x: "logd_cmd D override descr' q t' = Some t''" "x \<in> set (rows d')" "row_recno x = gob_nrecs g + 1"
    "sent t'' = sent t' @ [out_pdu (content_pdu q k (row_pb x)) t']"
    by (rule log_gives [OF t'(2) r(1) q(1,2,4) r(2-4)])
  have "x = row" using x(2,3) t'(3) assms(9) by auto
  then have y: "pb_recno (row_pb x) = gob_nrecs g + 1" "pb_data (row_pb x) = data_of c datum" using t'(5,6) f by (simp_all add: row_pb_def Let_def)
  let ?r = "out_pdu (response_to ACK_SUCCESS p m (BODY_ACK_SUCCESS None (pb_ts pbd) None None)) t"
  have "?r \<in> set (drop (length (sent t)) (sent t'))" using t'(7) by simp
  then show ?thesis
    using p(5) [rule_format, of ?r, OF refl] q(5) [rule_format, OF refl, of "row_pb x" t'] t'(1) x(1,4)
    unfolding y assms(13) append_Nil by blast
qed

theorem client_append_read_witness:
  "\<exists>p r u t' p' r' u' t'' datum'.
    gdp_gob_append_sync sample_client [(0, process_resp list_evbuffer (\<lambda>_ _. Some EP_STAT_OK) Map.empty [] 2 (\<lambda>bs. bs) r)] [filled_datum [8]]
      None 0 0 (one_object open_gob) = Some (GDP_STAT_FROM_ACK (uint ACK_SUCCESS),
        [stamped sample_client (one_object open_gob) open_gob None (filled_datum [8])], u) \<and> sent u = [p] \<and>
    logd_cmd (sample_logd False) False [] p (one_object empty_log) = Some t' \<and> r \<in> set (sent t') \<and> pdu_dst r = replicate 32 7 \<and>
    gdp_gob_read_by_recno sample_client [(0, process_resp list_evbuffer (\<lambda>_ _. Some EP_STAT_OK) Map.empty [] 2 (\<lambda>bs. bs) r')] 1 0
      (filled_datum []) 0 (one_object open_gob) = Some (GDP_STAT_FROM_ACK (uint ACK_CONTENT), datum', u') \<and> sent u' = [p'] \<and>
    logd_cmd (sample_logd False) False [] p' t' = Some t'' \<and> sent t'' = sent t' @ [r'] \<and>
    pdu_dst r' = replicate 32 7 \<and> recno datum' = 1 \<and>
    data_of (\<lambda>b. b) datum' = [8]"
proof -
  have h: "gob_vrfy_ctx (open_gob :: unit gdp_gob) = Some []" "GDP_DATUM_ISGOOD (filled_datum [8])" "0 \<le> gob_nrecs (open_gob :: unit gdp_gob)"
    "gob_name empty_log = gob_name (open_gob :: unit gdp_gob)" "gob_nrecs empty_log = gob_nrecs (open_gob :: unit gdp_gob)"
    "\<forall>x\<in>set (fst ([] :: log_row list, [] :: log_row list)). row_recno x \<noteq> gob_nrecs (open_gob :: unit gdp_gob) + 1"
    "GDP_DATUM_ISGOOD (filled_datum [])" "data_of (\<lambda>b. b) (filled_datum []) = []" "data_of (\<lambda>b. b) (filled_datum [8]) = [8]"
    using filled_datum_good by (simp_all add: data_of_def)
  show ?thesis
    using client_append_read [where prev = None and vf = "\<lambda>_ _. Some EP_STAT_OK" and descr = "[]" and n = 2 and sha = "\<lambda>bs. bs" and override = False and
      descr' = "[]" and vf' = "\<lambda>_ _. Some EP_STAT_OK", OF sample_client_ready h(1-3) sample_log_ready h(4,5) sample_takes h(6)
      sample_client_ready refl h(7,8)]
    unfolding h(9) by simp
qed

text \<open>C2: a client that appends a record sends one command; the daemon, when it gets the command, adds one row with
  the number after the last record and the data of the record to the log and sends a response to the client; and the client,
  when it gets the response while it waits, returns success.  Both then count the same number of records.  The
  record is one the daemon takes, and both counted the same number of records before.\<close>

theorem client_append_stored:
  fixes D :: "('e, 'd) logd"
  assumes "client_ready C c a g s" "gob_vrfy_ctx g = Some ctx" "GDP_DATUM_ISGOOD datum" "0 \<le> gob_nrecs g"
    "log_ready D rows b h d t" "gob_name h = gob_name g" "gob_nrecs h = gob_nrecs g"
    "takes_record D (rows d) h t (gdp_datum_to_pb (cl_ev C) (stamped C s g prev datum) init_pb) row"
  shows "\<exists>p r u g' t' h' d'.
    gdp_gob_append_sync C [(0, process_resp (cl_ev C) vf Map.empty descr n sha r)] [datum] prev 0 a s =
      Some (GDP_STAT_FROM_ACK (uint ACK_SUCCESS), [stamped C s g prev datum], u) \<and> sent u = sent s @ [p] \<and>
    logd_cmd D override descr' p t = Some t' \<and> r \<in> set (drop (length (sent t)) (sent t')) \<and> pdu_dst r = my_name s \<and>
    log_ready D rows b h' d' t' \<and> rows d' = rows d @ [row] \<and> row_recno row = gob_nrecs g + 1 \<and> row_value row = data_of c datum \<and>
    gobs u a = Some g' \<and> gob_nrecs g' = gob_nrecs g + 1 \<and> gob_nrecs h' = gob_nrecs g + 1"
proof -
  define pbd where pbd: "pbd = gdp_datum_to_pb (cl_ev C) (stamped C s g prev datum) init_pb"
  have f: "pb_recno pbd = gob_nrecs g + 1" "pb_data pbd = data_of c datum"
    unfolding pbd by (rule sent_record [OF assms(1)])+
  obtain p m where p: "pdu_msg p = Some m" "cmd m = CMD_APPEND" "pdu_dst p = gob_name g" "body m = BODY_CMD_APPEND [pbd]"
    "\<forall>(t :: ('e, 'd) logd_state) b rpdu. rpdu = out_pdu (response_to ACK_SUCCESS p m (BODY_ACK_SUCCESS None b None None)) t \<longrightarrow> pdu_dst rpdu = my_name s \<and>
      (\<exists>u g'. gdp_gob_append_sync C [(0, process_resp (cl_ev C) vf Map.empty descr n sha rpdu)] [datum] prev 0 a s =
        Some (GDP_STAT_FROM_ACK (uint ACK_SUCCESS), [stamped C s g prev datum], u) \<and> sent u = sent s @ [p] \<and>
        gobs u a = Some g' \<and> gob_nrecs g' = gob_nrecs g + 1)"
    by (rule append_returns [OF assms(1-3) pbd])
  have ac: "acceptable D (gob_nrecs h) pbd" "pdu_dst p = gob_name h" using f(1) p(3) assms(4,6,7) by (simp_all add: acceptable_def)
  obtain t' h' d' ps where t': "logd_cmd D override descr' p t = Some t'" "log_ready D rows b h' d' t'" "rows d' = rows d @ [row]"
    "gob_nrecs h' = gob_nrecs h + 1" "row_recno row = pb_recno pbd" "row_value row = pb_data pbd"
    "sent t' = sent t @ ps @ [out_pdu (response_to ACK_SUCCESS p m (BODY_ACK_SUCCESS None (pb_ts pbd) None None)) t]"
    by (rule log_takes [OF assms(5) assms(8) [folded pbd] ac(2) p(1,2,4) ac(1)])
  let ?r = "out_pdu (response_to ACK_SUCCESS p m (BODY_ACK_SUCCESS None (pb_ts pbd) None None)) t"
  have "?r \<in> set (drop (length (sent t)) (sent t'))" using t'(7) by simp
  then show ?thesis using p(5) [rule_format, of ?r, OF refl] t'(1-6) unfolding f assms(7) by blast
qed

theorem client_append_stored_witness:
  "\<exists>p r u g' t' h' d' row.
    gdp_gob_append_sync sample_client [(0, process_resp list_evbuffer (\<lambda>_ _. Some EP_STAT_OK) Map.empty [] 2 (\<lambda>bs. bs) r)] [filled_datum [8]]
      None 0 0 (one_object open_gob) = Some (GDP_STAT_FROM_ACK (uint ACK_SUCCESS),
        [stamped sample_client (one_object open_gob) open_gob None (filled_datum [8])], u) \<and> sent u = [p] \<and>
    logd_cmd (sample_logd False) False [] p (one_object empty_log) = Some t' \<and> r \<in> set (sent t') \<and>
    log_ready (sample_logd False) fst 0 h' d' t' \<and> fst d' = [row] \<and> row_recno row = 1 \<and> row_value row = [8] \<and>
    gobs u 0 = Some g' \<and> gob_nrecs g' = 1 \<and> gob_nrecs h' = 1"
proof -
  have h: "gob_vrfy_ctx (open_gob :: unit gdp_gob) = Some []" "GDP_DATUM_ISGOOD (filled_datum [8])" "0 \<le> gob_nrecs (open_gob :: unit gdp_gob)"
    "gob_name empty_log = gob_name (open_gob :: unit gdp_gob)" "gob_nrecs empty_log = gob_nrecs (open_gob :: unit gdp_gob)"
    "data_of (\<lambda>b. b) (filled_datum [8]) = [8]"
    using filled_datum_good by (simp_all add: data_of_def)
  show ?thesis
    using client_append_stored [where prev = None and vf = "\<lambda>_ _. Some EP_STAT_OK" and descr = "[]" and n = 2 and sha = "\<lambda>bs. bs" and override = False and
      descr' = "[]", OF sample_client_ready h(1-3) sample_log_ready h(4,5) sample_takes]
    unfolding h(6) by simp blast
qed

end
